(* ===== verification/Prelude.thy ===== *)
theory Prelude
  imports Main "HOL-Library.Word"
begin

text \<open>
  Shared vocabulary of the development: machine integers and byte strings, Rust's \<open>Result\<close> and
  the \<open>?\<close> operator, the big and little endian byte forms of integers, decimal and hexadecimal
  text, and the substring tests of \<open>str\<close>.

  Conventions. A Rust \<open>String\<close> is UTF-8, and the model's \<open>string\<close> (a list of 8-bit characters)
  is its sequence of UTF-8 bytes, so \<open>length\<close> is \<open>str::len\<close>. A \<open>Vec<u8>\<close> is a list of
  8-bit words. A \<open>Result<T, E>\<close> is the sum \<open>'e + 'a\<close> with \<open>Inl\<close> the error. Integers whose
  overflow matters are words, where \<open>+\<close> wraps as in a release build.
\<close>

unbundle bit_operations_syntax

type_synonym u8 = "8 word"
type_synonym u16 = "16 word"
type_synonym u32 = "32 word"
type_synonym u64 = "64 word"
type_synonym u128 = "128 word"
type_synonym bytes = "u8 list"

named_theorems byte_simps \<open>lengths and inverses of the byte forms of integers\<close>
named_theorems result_simps \<open>unfolding of the Result combinators\<close>

section \<open>Result and the question mark operator\<close>

definition rbind :: "'e + 'a \<Rightarrow> ('a \<Rightarrow> 'e + 'b) \<Rightarrow> 'e + 'b" where
  "rbind r f = (case r of Inl e \<Rightarrow> Inl e | Inr x \<Rightarrow> f x)"

definition rmap_err :: "('e \<Rightarrow> 'f) \<Rightarrow> 'e + 'a \<Rightarrow> 'f + 'a" where
  "rmap_err f r = (case r of Inl e \<Rightarrow> Inl (f e) | Inr x \<Rightarrow> Inr x)"

definition ok_or :: "'e \<Rightarrow> 'a option \<Rightarrow> 'e + 'a" where
  "ok_or e x = (case x of None \<Rightarrow> Inl e | Some v \<Rightarrow> Inr v)"

definition rok :: "'e + 'a \<Rightarrow> 'a option" where
  "rok r = (case r of Inl _ \<Rightarrow> None | Inr x \<Rightarrow> Some x)"

lemma rbind_simps [simp, result_simps]:
  "rbind (Inl e) f = Inl e" "rbind (Inr x) f = f x"
  by (simp_all add: rbind_def)

lemma rmap_err_simps [simp, result_simps]:
  "rmap_err g (Inl e) = Inl (g e)" "rmap_err g (Inr x) = Inr x"
  by (simp_all add: rmap_err_def)

lemma ok_or_simps [simp, result_simps]:
  "ok_or e None = Inl e" "ok_or e (Some x) = Inr x"
  by (simp_all add: ok_or_def)

lemma rok_simps [simp, result_simps]:
  "rok (Inl e) = None" "rok (Inr x) = Some x"
  by (simp_all add: rok_def)

lemma rbind_eq_Inr [result_simps]:
  "rbind r f = Inr y \<longleftrightarrow> (\<exists>x. r = Inr x \<and> f x = Inr y)"
  by (cases r) simp_all

lemma rbind_eq_Inl [result_simps]:
  "rbind r f = Inl e \<longleftrightarrow> r = Inl e \<or> (\<exists>x. r = Inr x \<and> f x = Inl e)"
  by (cases r) simp_all

lemma rmap_err_eq_Inr [simp]: "rmap_err g r = Inr x \<longleftrightarrow> r = Inr x"
  by (cases r) simp_all

lemma ok_or_eq_Inr [simp]: "ok_or e x = Inr v \<longleftrightarrow> x = Some v"
  by (cases x) simp_all

lemma rok_eq_Some [simp]: "rok r = Some x \<longleftrightarrow> r = Inr x"
  by (cases r) simp_all

lemma rok_eq_None [simp]: "rok r = None \<longleftrightarrow> (\<exists>e. r = Inl e)"
  by (cases r) simp_all

text \<open>Collecting an iterator of results: the first error wins.\<close>

fun collect_results :: "('a \<Rightarrow> 'e + 'b) \<Rightarrow> 'a list \<Rightarrow> 'e + 'b list" where
  "collect_results f [] = Inr []"
| "collect_results f (x # xs) =
     rbind (f x) (\<lambda>y. rbind (collect_results f xs) (\<lambda>ys. Inr (y # ys)))"

lemma collect_results_eq_Inr:
  "collect_results f xs = Inr ys \<longleftrightarrow> list_all2 (\<lambda>x y. f x = Inr y) xs ys"
  by (induction xs arbitrary: ys) (auto simp: rbind_eq_Inr list_all2_Cons1)

lemma collect_results_total:
  "(\<And>x. x \<in> set xs \<Longrightarrow> f x = Inr (g x)) \<Longrightarrow> collect_results f xs = Inr (map g xs)"
  by (induction xs) simp_all

text \<open>An optional field converted by a fallible function (\<open>Option::map(..).transpose()\<close>).\<close>

definition transpose_opt :: "('a \<Rightarrow> 'e + 'b) \<Rightarrow> 'a option \<Rightarrow> 'e + 'b option" where
  "transpose_opt f x = (case x of None \<Rightarrow> Inr None | Some v \<Rightarrow> rbind (f v) (\<lambda>w. Inr (Some w)))"

lemma transpose_opt_simps [simp]:
  "transpose_opt f None = Inr None"
  "transpose_opt f (Some v) = rbind (f v) (\<lambda>w. Inr (Some w))"
  by (simp_all add: transpose_opt_def)

section \<open>Saturating arithmetic\<close>

definition saturating_add :: "'a::len word \<Rightarrow> 'a word \<Rightarrow> 'a word" where
  "saturating_add x y = (if unat x + unat y < 2 ^ LENGTH('a) then x + y else - 1)"

definition saturating_sub :: "'a::len word \<Rightarrow> 'a word \<Rightarrow> 'a word" where
  "saturating_sub x y = (if y \<le> x then x - y else 0)"

section \<open>Byte forms of integers\<close>

fun to_be_bytes :: "nat \<Rightarrow> 'a::len word \<Rightarrow> bytes" where
  "to_be_bytes 0 w = []"
| "to_be_bytes (Suc n) w = to_be_bytes n (drop_bit 8 w) @ [ucast w]"

definition be_nat :: "bytes \<Rightarrow> nat" where
  "be_nat bs = foldl (\<lambda>acc b. acc * 256 + unat b) 0 bs"

definition from_be_bytes :: "bytes \<Rightarrow> 'a::len word" where
  "from_be_bytes bs = of_nat (be_nat bs)"

definition to_le_bytes :: "nat \<Rightarrow> 'a::len word \<Rightarrow> bytes" where
  "to_le_bytes n w = rev (to_be_bytes n w)"

definition from_le_bytes :: "bytes \<Rightarrow> 'a::len word" where
  "from_le_bytes bs = from_be_bytes (rev bs)"

lemma length_to_be_bytes [simp, byte_simps]: "length (to_be_bytes n w) = n"
  by (induction n w rule: to_be_bytes.induct) simp_all

lemma length_to_le_bytes [simp, byte_simps]: "length (to_le_bytes n w) = n"
  by (simp add: to_le_bytes_def)

lemma be_nat_Nil [simp]: "be_nat [] = 0"
  by (simp add: be_nat_def)

lemma be_nat_snoc [simp]: "be_nat (bs @ [b]) = be_nat bs * 256 + unat b"
  by (simp add: be_nat_def)

lemma unat_u8_lt [simp]: "unat (b :: u8) < 256"
  using unsigned_less [of b, where 'a = nat] by simp

lemma be_nat_bound: "be_nat bs < 256 ^ length bs"
proof (induction bs rule: rev_induct)
  case Nil
  then show ?case by simp
next
  case (snoc b bs)
  have "be_nat bs * 256 + unat b < (be_nat bs + 1) * 256"
    using unat_u8_lt [of b] by simp
  also have "\<dots> \<le> 256 ^ length bs * 256"
    using snoc by simp
  finally show ?case by simp
qed

lemma unat_drop_bit_8: "unat (drop_bit 8 (w :: 'a::len word)) = unat w div 256"
  by (subst unat_drop_bit_eq) (simp add: drop_bit_eq_div)

lemma unat_ucast_u8: "unat (ucast (w :: 'a::len word) :: u8) = unat w mod 256"
  by (subst unsigned_ucast_eq) (simp add: take_bit_eq_mod)

lemma be_nat_to_be_bytes: "be_nat (to_be_bytes n w) = unat w mod 256 ^ n"
proof (induction n w rule: to_be_bytes.induct)
  case (1 w)
  then show ?case by simp
next
  case (2 n w)
  have "unat w div 256 mod 256 ^ n * 256 + unat w mod 256 = unat w mod (256 * 256 ^ n)"
    by (simp add: mod_mult2_eq)
  then show ?case
    by (simp add: "2.IH" unat_drop_bit_8 unat_ucast_u8)
qed

lemma from_to_be_bytes [simp, byte_simps]:
  fixes w :: "'a::len word"
  assumes "LENGTH('a) \<le> 8 * n"
  shows "(from_be_bytes (to_be_bytes n w) :: 'a word) = w"
proof -
  have "unat w < 2 ^ LENGTH('a)" by simp
  also have "\<dots> \<le> (2::nat) ^ (8 * n)" using assms by (rule power_increasing) simp
  also have "\<dots> = 256 ^ n" by (simp add: power_mult)
  finally show ?thesis
    by (simp add: from_be_bytes_def be_nat_to_be_bytes)
qed

lemma to_be_bytes_of_nat:
  assumes "8 * length bs \<le> LENGTH('a::len)"
  shows "to_be_bytes (length bs) (of_nat (be_nat bs) :: 'a word) = bs"
  using assms
proof (induction bs rule: rev_induct)
  case Nil
  then show ?case by simp
next
  case (snoc b bs)
  have "be_nat (bs @ [b]) < 2 ^ LENGTH('a)"
  proof -
    have "(256::nat) ^ length (bs @ [b]) = 2 ^ (8 * length (bs @ [b]))"
      by (subst power_mult) simp
    then have "be_nat (bs @ [b]) < (2::nat) ^ (8 * length (bs @ [b]))"
      using be_nat_bound [of "bs @ [b]"] by simp
    also have "\<dots> \<le> 2 ^ LENGTH('a)"
      using snoc.prems by (intro power_increasing) simp_all
    finally show ?thesis .
  qed
  then have u: "unat (of_nat (be_nat (bs @ [b])) :: 'a word) = be_nat bs * 256 + unat b"
    by (subst unat_of_nat) simp
  have lo: "(ucast (of_nat (be_nat (bs @ [b])) :: 'a word) :: u8) = b"
  proof (rule unsigned_word_eqI [where 'a = nat])
    show "unat (ucast (of_nat (be_nat (bs @ [b])) :: 'a word) :: u8) = unat b"
      unfolding unat_ucast_u8 u by simp
  qed
  have "unat (drop_bit 8 (of_nat (be_nat (bs @ [b])) :: 'a word)) = be_nat bs"
    using unat_u8_lt [of b] by (simp only: unat_drop_bit_8 u)
  then have "of_nat (unat (drop_bit 8 (of_nat (be_nat (bs @ [b])) :: 'a word))) =
      (of_nat (be_nat bs) :: 'a word)"
    by (rule arg_cong)
  then have hi: "drop_bit 8 (of_nat (be_nat (bs @ [b])) :: 'a word) = of_nat (be_nat bs)"
    by (simp only: of_nat_unat ucast_id)
  have "8 * length bs \<le> LENGTH('a)" using snoc.prems by simp
  with snoc.IH lo hi show ?case
    by (simp del: be_nat_snoc)
qed

lemma to_from_be_bytes [simp, byte_simps]:
  assumes "length bs = n" and "8 * n \<le> LENGTH('a::len)"
  shows "to_be_bytes n (from_be_bytes bs :: 'a word) = bs"
  using assms to_be_bytes_of_nat [where 'a = 'a, of bs] by (simp add: from_be_bytes_def)

lemma from_to_le_bytes [simp, byte_simps]:
  fixes w :: "'a::len word"
  assumes "LENGTH('a) \<le> 8 * n"
  shows "(from_le_bytes (to_le_bytes n w) :: 'a word) = w"
  using assms by (simp add: from_le_bytes_def to_le_bytes_def)

lemma to_from_le_bytes [simp, byte_simps]:
  assumes "length bs = n" and "8 * n \<le> LENGTH('a::len)"
  shows "to_le_bytes n (from_le_bytes bs :: 'a word) = bs"
  using assms by (simp add: from_le_bytes_def to_le_bytes_def)

text \<open>\<open>slice::split_at_checked\<close>.\<close>

definition split_at_checked :: "nat \<Rightarrow> 'a list \<Rightarrow> ('a list \<times> 'a list) option" where
  "split_at_checked n xs = (if n \<le> length xs then Some (take n xs, drop n xs) else None)"

lemma split_at_checked_append [simp]:
  "length xs = n \<Longrightarrow> split_at_checked n (xs @ ys) = Some (xs, ys)"
  by (auto simp: split_at_checked_def)

lemma split_at_checked_Some:
  "split_at_checked n xs = Some (a, b) \<longleftrightarrow> xs = a @ b \<and> length a = n"
  by (auto simp: split_at_checked_def split: if_splits)

section \<open>Text\<close>

fun show_nat :: "nat \<Rightarrow> string" where
  "show_nat n =
     (if n < 10 then [char_of (48 + n)] else show_nat (n div 10) @ [char_of (48 + n mod 10)])"

declare show_nat.simps [simp del]

lemma show_nat_nonempty [simp]: "show_nat n \<noteq> []"
  by (subst show_nat.simps) simp

definition digit_chars :: "char set" where
  "digit_chars = set ''0123456789''"

lemma digit_char: "d < 10 \<Longrightarrow> char_of (48 + d :: nat) \<in> digit_chars"
proof -
  assume "d < 10"
  moreover have "\<forall>d \<in> set [0 ..< 10]. char_of (48 + d :: nat) \<in> digit_chars"
    by code_simp
  ultimately show ?thesis by simp
qed

lemma set_show_nat: "set (show_nat n) \<subseteq> digit_chars"
proof (induction n rule: show_nat.induct)
  case (1 n)
  show ?case
  proof (cases "n < 10")
    case True
    then show ?thesis by (subst show_nat.simps) (simp add: digit_char)
  next
    case False
    with 1 have "set (show_nat (n div 10)) \<subseteq> digit_chars" by simp
    with False show ?thesis
      by (subst show_nat.simps) (simp add: digit_char del: One_nat_def)
  qed
qed

text \<open>The number a digit string denotes, so that \<open>show_nat\<close> is injective.\<close>

definition digits_value :: "string \<Rightarrow> nat" where
  "digits_value s = foldl (\<lambda>v c. v * 10 + (of_char c - 48)) 0 s"

lemma digits_value_show_nat [simp]: "digits_value (show_nat n) = n"
proof (induction n rule: show_nat.induct)
  case (1 n)
  have d: "of_char (char_of (48 + d :: nat) :: char) - 48 = d" if "d < 10" for d :: nat
    using that by simp
  show ?case
  proof (cases "n < 10")
    case True
    then show ?thesis by (subst show_nat.simps) (simp add: digits_value_def)
  next
    case False
    with 1 have "digits_value (show_nat (n div 10)) = n div 10" by simp
    then have "digits_value (show_nat (n div 10) @ [char_of (48 + n mod 10)]) = n"
      by (simp add: digits_value_def)
    with False show ?thesis by (subst show_nat.simps) simp
  qed
qed

lemma show_nat_inj [simp]: "show_nat m = show_nat n \<longleftrightarrow> m = n"
  by (metis digits_value_show_nat)

text \<open>Two lowercase hexadecimal digits of a byte (\<open>{:02x}\<close>).\<close>

definition hex_digit :: "nat \<Rightarrow> char" where
  "hex_digit d = (if d < 10 then char_of (48 + d) else char_of (87 + d))"

definition hex_byte :: "u8 \<Rightarrow> string" where
  "hex_byte b = [hex_digit (unat b div 16), hex_digit (unat b mod 16)]"

definition hex_lower :: "bytes \<Rightarrow> string" where
  "hex_lower bs = concat (map hex_byte bs)"

definition utf8_bytes :: "string \<Rightarrow> bytes" where
  "utf8_bytes s = map (\<lambda>c. of_nat (of_char c)) s"

definition bytes_str :: "bytes \<Rightarrow> string" where
  "bytes_str bs = map (\<lambda>b. char_of (unat b)) bs"

lemma bytes_str_utf8_bytes [simp]: "bytes_str (utf8_bytes s) = s"
proof -
  have "unat (of_nat (of_char c) :: u8) = of_char c" for c :: char
    using nat_of_char_less_256 [of c] by (simp add: unat_of_nat)
  then show ?thesis by (simp add: bytes_str_def utf8_bytes_def comp_def)
qed

lemma utf8_bytes_bytes_str [simp]: "utf8_bytes (bytes_str bs) = bs"
  by (simp add: bytes_str_def utf8_bytes_def comp_def)

lemma length_utf8_bytes [simp]: "length (utf8_bytes s) = length s"
  by (simp add: utf8_bytes_def)

lemma length_bytes_str [simp]: "length (bytes_str bs) = length bs"
  by (simp add: bytes_str_def)

text \<open>\<open>str::starts_with\<close>, \<open>str::strip_prefix\<close>, \<open>str::strip_suffix\<close> and \<open>str::contains\<close>.\<close>

fun strip_prefix :: "'a list \<Rightarrow> 'a list \<Rightarrow> 'a list option" where
  "strip_prefix [] s = Some s"
| "strip_prefix (p # ps) [] = None"
| "strip_prefix (p # ps) (c # cs) = (if p = c then strip_prefix ps cs else None)"

definition starts_with :: "'a list \<Rightarrow> 'a list \<Rightarrow> bool" where
  "starts_with s p = (strip_prefix p s \<noteq> None)"

definition strip_suffix :: "'a list \<Rightarrow> 'a list \<Rightarrow> 'a list option" where
  "strip_suffix p s = map_option rev (strip_prefix (rev p) (rev s))"

fun str_contains :: "'a list \<Rightarrow> 'a list \<Rightarrow> bool" where
  "str_contains [] p = (p = [])"
| "str_contains (c # cs) p = (starts_with (c # cs) p \<or> str_contains cs p)"

lemma strip_prefix_Some: "strip_prefix p s = Some r \<longleftrightarrow> s = p @ r"
  by (induction p s rule: strip_prefix.induct) auto

lemma starts_with_iff: "starts_with s p \<longleftrightarrow> (\<exists>r. s = p @ r)"
proof -
  have "starts_with s p \<longleftrightarrow> (\<exists>r. strip_prefix p s = Some r)"
    by (auto simp: starts_with_def)
  then show ?thesis by (simp add: strip_prefix_Some)
qed

lemma strip_suffix_Some: "strip_suffix p s = Some r \<longleftrightarrow> s = r @ p"
  by (auto simp: strip_suffix_def strip_prefix_Some) (metis rev_append rev_rev_ident)

lemma str_contains_iff: "str_contains s p \<longleftrightarrow> (\<exists>u v. s = u @ p @ v)"
proof (induction s)
  case Nil
  then show ?case by auto
next
  case (Cons c cs)
  show ?case
  proof
    assume "str_contains (c # cs) p"
    then consider "starts_with (c # cs) p" | "str_contains cs p" by auto
    then show "\<exists>u v. c # cs = u @ p @ v"
    proof cases
      case 1
      then show ?thesis by (metis append_Nil starts_with_iff)
    next
      case 2
      with Cons show ?thesis by (metis append_Cons)
    qed
  next
    assume "\<exists>u v. c # cs = u @ p @ v"
    then obtain u v where uv: "c # cs = u @ p @ v" by blast
    then show "str_contains (c # cs) p"
    proof (cases u)
      case Nil
      with uv have "starts_with (c # cs) p" by (auto simp: starts_with_iff)
      then show ?thesis by simp
    next
      case (Cons d u')
      with uv have "cs = u' @ p @ v" by simp
      with Cons.IH show ?thesis by auto
    qed
  qed
qed


section \<open>White space\<close>

text \<open>
  The length in bytes of the white-space character a string begins with, 0 when it begins with
  another: the Unicode \<open>White_Space\<close> set of \<open>str::trim\<close>, in UTF-8.
\<close>

fun leading_space :: "bytes \<Rightarrow> nat" where
  "leading_space (a # b # c # r) =
     (if a = 0x20 \<or> 0x09 \<le> a \<and> a \<le> 0x0D then 1
      else if a = 0xC2 \<and> (b = 0x85 \<or> b = 0xA0) then 2
      else if a = 0xE1 \<and> b = 0x9A \<and> c = 0x80 then 3
      else if a = 0xE2 \<and> b = 0x80 \<and> (0x80 \<le> c \<and> c \<le> 0x8A \<or> c = 0xA8 \<or> c = 0xA9 \<or> c = 0xAF) then 3
      else if a = 0xE2 \<and> b = 0x81 \<and> c = 0x9F then 3
      else if a = 0xE3 \<and> b = 0x80 \<and> c = 0x80 then 3
      else 0)"
| "leading_space [a, b] =
     (if a = 0x20 \<or> 0x09 \<le> a \<and> a \<le> 0x0D then 1 else if a = 0xC2 \<and> (b = 0x85 \<or> b = 0xA0) then 2 else 0)"
| "leading_space [a] = (if a = 0x20 \<or> 0x09 \<le> a \<and> a \<le> 0x0D then 1 else 0)"
| "leading_space [] = 0"

function trim_start :: "bytes \<Rightarrow> bytes" where
  "trim_start bs = (if leading_space bs = 0 \<or> bs = [] then bs else trim_start (drop (leading_space bs) bs))"
  by pat_completeness auto
termination by (relation "measure length") auto

declare trim_start.simps [simp del]

text \<open>\<open>s.trim().is_empty()\<close>.\<close>

definition blank :: "string \<Rightarrow> bool" where
  "blank s = (trim_start (utf8_bytes s) = [])"

lemma trim_start_Nil [simp]: "trim_start [] = []"
  by (simp add: trim_start.simps)

lemma blank_Nil [simp]: "blank []"
  by (simp add: blank_def utf8_bytes_def)

text \<open>The same at the end of a string, and \<open>str::trim\<close>.\<close>

fun ends_in_space :: "bytes \<Rightarrow> nat" where
  "ends_in_space (c # b # a # r) =
     (if c = 0x20 \<or> 0x09 \<le> c \<and> c \<le> 0x0D then 1
      else if b = 0xC2 \<and> (c = 0x85 \<or> c = 0xA0) then 2
      else if leading_space [a, b, c] = 3 then 3 else 0)"
| "ends_in_space [c, b] =
     (if c = 0x20 \<or> 0x09 \<le> c \<and> c \<le> 0x0D then 1 else if b = 0xC2 \<and> (c = 0x85 \<or> c = 0xA0) then 2 else 0)"
| "ends_in_space [c] = (if c = 0x20 \<or> 0x09 \<le> c \<and> c \<le> 0x0D then 1 else 0)"
| "ends_in_space [] = 0"

text \<open>\<open>trim_rev\<close> works on the reversed string.\<close>

function trim_rev :: "bytes \<Rightarrow> bytes" where
  "trim_rev bs = (if ends_in_space bs = 0 \<or> bs = [] then bs else trim_rev (drop (ends_in_space bs) bs))"
  by pat_completeness auto
termination by (relation "measure length") auto

declare trim_rev.simps [simp del]

definition trim_str :: "string \<Rightarrow> string" where
  "trim_str s = bytes_str (rev (trim_rev (rev (trim_start (utf8_bytes s)))))"

definition printable :: "u8 \<Rightarrow> bool" where
  "printable b \<longleftrightarrow> 0x20 < b \<and> b < 0x7F"

lemma leading_space_printable: "printable b \<Longrightarrow> leading_space (b # bs) = 0"
proof -
  assume "printable b"
  then have "b \<noteq> 0x20 \<and> \<not> (0x09 \<le> b \<and> b \<le> 0x0D) \<and> b \<noteq> 0xC2 \<and> b \<noteq> 0xE1 \<and> b \<noteq> 0xE2 \<and> b \<noteq> 0xE3"
    by (auto simp: printable_def word_less_nat_alt word_le_nat_alt)
  then show ?thesis by (cases bs rule: list.exhaust; cases "tl bs") auto
qed

lemma ends_in_space_printable: "printable b \<Longrightarrow> ends_in_space (b # bs) = 0"
proof -
  assume "printable b"
  then have "b \<noteq> 0x20 \<and> \<not> (0x09 \<le> b \<and> b \<le> 0x0D) \<and> b < 0x80"
    by (auto simp: printable_def word_less_nat_alt word_le_nat_alt)
  then have "b \<noteq> 0x20 \<and> \<not> (0x09 \<le> b \<and> b \<le> 0x0D) \<and> b \<noteq> 0x80 \<and> b \<noteq> 0x85 \<and> b \<noteq> 0xA0 \<and> b \<noteq> 0xA8 \<and> b \<noteq> 0xA9 \<and>
      b \<noteq> 0xAF \<and> b \<noteq> 0x9F \<and> \<not> (0x80 \<le> b \<and> b \<le> 0x8A)"
    by (auto simp: word_less_nat_alt word_le_nat_alt)
  then show ?thesis by (cases bs rule: list.exhaust; cases "tl bs") auto
qed

lemma trim_printable:
  assumes "\<forall>c \<in> set s. printable (of_nat (of_char c))"
  shows "trim_str s = s" and "s \<noteq> [] \<Longrightarrow> \<not> blank (s @ t)"
proof -
  have p: "\<forall>b \<in> set (utf8_bytes s). printable b" using assms by (auto simp: utf8_bytes_def)
  have start: "trim_start (utf8_bytes s @ bs) = utf8_bytes s @ bs" if "s \<noteq> []" for bs
  proof -
    from that obtain b r where "utf8_bytes s = b # r" by (cases "utf8_bytes s") (auto simp: utf8_bytes_def)
    with p show ?thesis by (simp add: trim_start.simps leading_space_printable)
  qed
  have "trim_rev (rev (utf8_bytes s)) = rev (utf8_bytes s)" if "s \<noteq> []"
  proof -
    from that obtain b r where "rev (utf8_bytes s) = b # r" by (cases "rev (utf8_bytes s)") (auto simp: utf8_bytes_def)
    moreover then have "b \<in> set (utf8_bytes s)" by (metis list.set_intros(1) set_rev)
    ultimately show ?thesis using p by (simp add: trim_rev.simps ends_in_space_printable)
  qed
  then show "trim_str s = s"
    using start [of "[]"] by (cases "s = []") (simp_all add: trim_str_def, simp add: trim_rev.simps utf8_bytes_def bytes_str_def)
  show "\<not> blank (s @ t)" if "s \<noteq> []"
    using start [OF that, of "utf8_bytes t"] that by (simp add: blank_def utf8_bytes_def)
qed

end
