(* ===== verification/AlgoError.thy ===== *)
theory AlgoError
  imports Prelude
begin

text \<open>
  \<open>algo_ops/src/error.rs\<close>: the typed error of the client, its constructors, its classification
  predicates and the mapping of node errors. An \<open>anyhow::Error\<close> is either a typed \<open>AlgoError\<close>,
  which \<open>downcast_ref\<close> finds, or a message. A \<open>Duration\<close> is its number of nanoseconds.

  \<open>str::to_lowercase\<close> is modelled on the ASCII letters. The upper case characters outside ASCII
  whose lower case form contains an ASCII letter are the Kelvin sign (k) and the dotted capital I
  (i followed by a combining mark); the patterns searched for here contain no k and no i followed
  by such a mark, so the tests have the same result.
\<close>

type_synonym duration = nat

definition as_millis :: "duration \<Rightarrow> nat" where "as_millis d = d div 10 ^ 6"
definition as_secs :: "duration \<Rightarrow> nat" where "as_secs d = d div 10 ^ 9"
definition from_secs :: "nat \<Rightarrow> duration" where "from_secs s = s * 10 ^ 9"
definition from_millis :: "nat \<Rightarrow> duration" where "from_millis ms = ms * 10 ^ 6"

datatype algo_error_kind =
    HostUnreachable
  | TransientFailure
  | HttpError
  | RateLimited
  | DailyBudgetExceeded

record algo_error =
  ae_kind :: algo_error_kind
  ae_operation :: string
  ae_message :: string
  ae_status :: "u16 option"
  ae_retry_after :: "duration option"

datatype any_error = Typed algo_error | Msg string

text \<open>The derived \<open>Debug\<close> of the kind and the \<open>Display\<close> of the error.\<close>

fun show_kind :: "algo_error_kind \<Rightarrow> string" where
  "show_kind HostUnreachable = ''HostUnreachable''"
| "show_kind TransientFailure = ''TransientFailure''"
| "show_kind HttpError = ''HttpError''"
| "show_kind RateLimited = ''RateLimited''"
| "show_kind DailyBudgetExceeded = ''DailyBudgetExceeded''"

definition algo_error_display :: "algo_error \<Rightarrow> string" where
  "algo_error_display e =
     (case (ae_status e, ae_retry_after e) of
        (Some status, _) \<Rightarrow>
          ''AlgoError ('' @ show_kind (ae_kind e) @ '', http '' @ show_nat (unat status) @
          ''): operation '' @ [CHR 0x27] @ ae_operation e @ [CHR 0x27] @ '' failed: '' @ ae_message e
      | (None, Some retry_after) \<Rightarrow>
          ''AlgoError ('' @ show_kind (ae_kind e) @ '', retry after '' @
          show_nat (as_millis retry_after) @ '' ms): operation '' @ [CHR 0x27] @ ae_operation e @
          [CHR 0x27] @ '' failed: '' @ ae_message e
      | (None, None) \<Rightarrow>
          ''AlgoError ('' @ show_kind (ae_kind e) @ ''): operation '' @ [CHR 0x27] @ ae_operation e @
          [CHR 0x27] @ '' failed: '' @ ae_message e)"

fun any_display :: "any_error \<Rightarrow> string" where
  "any_display (Typed e) = algo_error_display e"
| "any_display (Msg m) = m"

section \<open>Constructors\<close>

definition algo_transient :: "string \<Rightarrow> string \<Rightarrow> algo_error" where
  "algo_transient operation message =
     \<lparr>ae_kind = TransientFailure, ae_operation = operation, ae_message = message,
      ae_status = None, ae_retry_after = None\<rparr>"

definition algo_unreachable :: "string \<Rightarrow> string \<Rightarrow> algo_error" where
  "algo_unreachable operation message =
     \<lparr>ae_kind = HostUnreachable, ae_operation = operation, ae_message = message,
      ae_status = None, ae_retry_after = None\<rparr>"

definition rate_limited :: "string \<Rightarrow> duration \<Rightarrow> algo_error" where
  "rate_limited operation retry_after =
     \<lparr>ae_kind = RateLimited, ae_operation = operation,
      ae_message = ''outbound rate limit reached; retry after '' @
        show_nat (as_millis retry_after) @ '' ms'',
      ae_status = None, ae_retry_after = Some retry_after\<rparr>"

text \<open>\<open>{:02}\<close> of a number.\<close>

definition pad2 :: "nat \<Rightarrow> string" where
  "pad2 n = (if n < 10 then CHR ''0'' # show_nat n else show_nat n)"

definition daily_budget_exceeded :: "duration \<Rightarrow> u32 \<Rightarrow> algo_error" where
  "daily_budget_exceeded retry_after day_start_offset_secs =
     (let minutes = (as_secs retry_after + 59) div 60;
          offset = day_start_offset_secs mod 86400;
          hh = unat (offset div 3600);
          mm = unat ((offset mod 3600) div 60)
      in \<lparr>ae_kind = DailyBudgetExceeded, ae_operation = ''algod call'',
          ae_message = ''daily request budget exhausted; resets in '' @ show_nat minutes @
            '' minutes at '' @ pad2 hh @ pad2 mm @ ''Z'',
          ae_status = None, ae_retry_after = Some retry_after\<rparr>)"

definition algo_http :: "string \<Rightarrow> u16 \<Rightarrow> string \<Rightarrow> algo_error" where
  "algo_http operation status message =
     \<lparr>ae_kind = HttpError, ae_operation = operation, ae_message = message,
      ae_status = Some status, ae_retry_after = None\<rparr>"

section \<open>Classification\<close>

definition ascii_lower :: "char \<Rightarrow> char" where
  "ascii_lower c =
     (let n = of_char c :: nat in if 65 \<le> n \<and> n \<le> 90 then char_of (n + 32) else c)"

definition to_lowercase :: "string \<Rightarrow> string" where
  "to_lowercase s = map ascii_lower s"

definition is_daily_budget_exceeded :: "algo_error \<Rightarrow> bool" where
  "is_daily_budget_exceeded e = (ae_kind e = DailyBudgetExceeded)"

definition is_rate_limited :: "algo_error \<Rightarrow> bool" where
  "is_rate_limited e = (ae_kind e = RateLimited)"

definition is_forbidden :: "algo_error \<Rightarrow> bool" where
  "is_forbidden e = (ae_status e = Some 403)"

definition is_quota :: "algo_error \<Rightarrow> bool" where
  "is_quota e = (is_forbidden e \<or> str_contains (to_lowercase (ae_message e)) ''quota'')"

definition contextualize :: "string \<Rightarrow> any_error \<Rightarrow> any_error" where
  "contextualize operation e =
     (case e of Typed a \<Rightarrow> e | Msg m \<Rightarrow> Msg (operation @ '': '' @ any_display e))"

definition is_host_unreachable :: "any_error \<Rightarrow> bool" where
  "is_host_unreachable e =
     (let s = to_lowercase (any_display e)
      in str_contains s ''tcp connect error''
         \<or> str_contains s ''connection refused''
         \<or> str_contains s ''connection reset''
         \<or> str_contains s ''timeout''
         \<or> str_contains s ''dns error''
         \<or> str_contains s ''host unreachable''
         \<or> str_contains s ''error sending request'')"

text \<open>
  The argument is the outcome of running a future (an outer \<open>anyhow\<close> error when it could not be
  run) that itself returns a result whose error has a \<open>Display\<close> form, here the string.
\<close>

definition map_node_err :: "string \<Rightarrow> any_error + (string + 'a) \<Rightarrow> any_error + 'a" where
  "map_node_err operation res =
     (case res of
        Inr (Inr v) \<Rightarrow> Inr v
      | Inr (Inl e) \<Rightarrow>
          (let ae = Msg e
           in if is_host_unreachable ae then Inl (Typed (algo_unreachable operation (any_display ae)))
              else Inl (Msg (operation @ '' failed: '' @ any_display ae)))
      | Inl e \<Rightarrow>
          if is_host_unreachable e then Inl (Typed (algo_unreachable operation (any_display e)))
          else Inl e)"

definition map_node_err_opt ::
  "string \<Rightarrow> any_error + (string + 'a) \<Rightarrow> any_error + 'a option" where
  "map_node_err_opt operation res =
     (case res of
        Inr (Inr v) \<Rightarrow> Inr (Some v)
      | Inr (Inl e) \<Rightarrow>
          (let ae = Msg e
           in if is_host_unreachable ae then Inl (Typed (algo_unreachable operation (any_display ae)))
              else Inr None)
      | Inl e \<Rightarrow>
          if is_host_unreachable e then Inl (Typed (algo_unreachable operation (any_display e)))
          else Inl e)"

section \<open>Which error is which\<close>

lemma str_contains_set: "str_contains s p \<Longrightarrow> set p \<subseteq> set s"
  by (auto simp: str_contains_iff)

lemma to_lowercase_simps [simp]:
  "to_lowercase [] = []" "to_lowercase (c # cs) = ascii_lower c # to_lowercase cs"
  "to_lowercase (s @ t) = to_lowercase s @ to_lowercase t"
  by (simp_all add: to_lowercase_def)

lemma starts_with_simps [simp]:
  "starts_with s []" "\<not> starts_with [] (p # ps)"
  "starts_with (c # cs) (p # ps) \<longleftrightarrow> p = c \<and> starts_with cs ps"
  by (simp_all add: starts_with_def)

text \<open>Text that does not contain the first letter of a pattern can be skipped.\<close>

lemma str_contains_skip:
  "p \<notin> set s \<Longrightarrow> str_contains (s @ t) (p # ps) = str_contains t (p # ps)"
  by (induction s) auto

lemma lower_digits: "set (to_lowercase (show_nat n)) \<subseteq> digit_chars"
proof -
  have "ascii_lower c = c" if "c \<in> digit_chars" for c
    using that by (auto simp: digit_chars_def ascii_lower_def)
  with set_show_nat [of n] show ?thesis by (auto simp: to_lowercase_def)
qed

lemma digits_skip [simp]:
  "p \<notin> digit_chars \<Longrightarrow>
     str_contains (to_lowercase (show_nat n) @ t) (p # ps) = str_contains t (p # ps)"
  using lower_digits [of n] by (intro str_contains_skip) blast

lemma pad2_skip [simp]:
  "p \<notin> digit_chars \<Longrightarrow>
     str_contains (to_lowercase (pad2 n) @ t) (p # ps) = str_contains t (p # ps)"
  by (auto simp: pad2_def ascii_lower_def digit_chars_def)

lemma letter_no_digit [simp]:
  "CHR ''q'' \<notin> digit_chars" "CHR ''t'' \<notin> digit_chars" "CHR ''c'' \<notin> digit_chars"
  "CHR ''d'' \<notin> digit_chars" "CHR ''h'' \<notin> digit_chars" "CHR ''e'' \<notin> digit_chars"
  by (simp_all add: digit_chars_def)

lemma is_quota_rate_limited: "\<not> is_quota (rate_limited operation d)"
  by (simp add: is_quota_def is_forbidden_def rate_limited_def ascii_lower_def)

lemma is_quota_daily_budget: "\<not> is_quota (daily_budget_exceeded d offset)"
  by (simp add: is_quota_def is_forbidden_def daily_budget_exceeded_def Let_def ascii_lower_def)

text \<open>The rejections of a call are not mistaken for an unreachable host either.\<close>

lemma not_unreachable_rate_limited: "\<not> is_host_unreachable (Typed (rate_limited ''algod call'' d))"
  by (simp add: is_host_unreachable_def algo_error_display_def rate_limited_def ascii_lower_def Let_def)

lemma not_unreachable_daily_budget: "\<not> is_host_unreachable (Typed (daily_budget_exceeded d offset))"
  by (simp add: is_host_unreachable_def algo_error_display_def daily_budget_exceeded_def ascii_lower_def Let_def)

section \<open>Properties\<close>

text \<open>
  The client's own rejections are told apart from the provider's. A rate-limit rejection and a
  daily-budget rejection carry their wait and no HTTP status, each is recognised by its own
  predicate only, and neither is classified as a 403 or as a quota stop, whatever the wait, the
  operation name or the configured day start.
\<close>

theorem client_rejections_distinct:
  "is_rate_limited (rate_limited operation d) \<and> \<not> is_daily_budget_exceeded (rate_limited operation d) \<and>
   \<not> is_forbidden (rate_limited operation d) \<and> \<not> is_quota (rate_limited operation d) \<and>
   ae_retry_after (rate_limited operation d) = Some d \<and>
   is_daily_budget_exceeded (daily_budget_exceeded w offset) \<and>
   \<not> is_rate_limited (daily_budget_exceeded w offset) \<and>
   \<not> is_forbidden (daily_budget_exceeded w offset) \<and> \<not> is_quota (daily_budget_exceeded w offset) \<and>
   ae_retry_after (daily_budget_exceeded w offset) = Some w"
  using is_quota_rate_limited is_quota_daily_budget
  by (simp add: is_rate_limited_def is_daily_budget_exceeded_def is_forbidden_def)
     (simp add: rate_limited_def daily_budget_exceeded_def Let_def)

text \<open>
  The documentation of \<open>AlgoError::retry_after\<close> says it is set only on a \<open>RateLimited\<close> rejection and
  \<open>None\<close> otherwise; a daily-budget rejection sets it too.
\<close>

lemma retry_after_of_daily_budget:
  "ae_kind (daily_budget_exceeded w offset) \<noteq> RateLimited \<and>
   ae_retry_after (daily_budget_exceeded w offset) \<noteq> None"
  by (simp add: daily_budget_exceeded_def Let_def)

end
