(* ===== verification/Effects.thy ===== *)
theory Effects
  imports AlgoError
begin

text \<open>
  Stateful code that can fail and may not return. An operation takes the state and returns
  \<open>None\<close> when it does not return, or \<open>Some (r, s)\<close> with its \<open>Result\<close> and the new state: an early
  return by \<open>?\<close> keeps the state reached so far, as in the program.
\<close>

type_synonym ('s, 'e, 'a) eop = "'s \<Rightarrow> (('e + 'a) \<times> 's) option"
type_synonym ('s, 'a) op = "('s, any_error, 'a) eop"

named_theorems op_simps \<open>unfolding of the operation combinators\<close>

definition ret :: "'a \<Rightarrow> ('s, 'e, 'a) eop" where
  "ret x s = Some (Inr x, s)"

definition fail :: "'e \<Rightarrow> ('s, 'e, 'a) eop" where
  "fail e s = Some (Inl e, s)"

definition lift :: "'e + 'a \<Rightarrow> ('s, 'e, 'a) eop" where
  "lift r s = Some (r, s)"

definition try_op :: "('s, 'e, 'a) eop \<Rightarrow> ('a \<Rightarrow> ('s, 'e, 'b) eop) \<Rightarrow> ('s, 'e, 'b) eop" where
  "try_op m f s =
     (case m s of
        None \<Rightarrow> None
      | Some (Inl e, s') \<Rightarrow> Some (Inl e, s')
      | Some (Inr x, s') \<Rightarrow> f x s')"

text \<open>Running \<open>m\<close> for its \<open>Result\<close>, which the code then inspects (\<open>match\<close>, \<open>map_err\<close>, \<open>if let Err\<close>).\<close>

definition attempt :: "('s, 'e, 'a) eop \<Rightarrow> ('e + 'a \<Rightarrow> ('s, 'f, 'b) eop) \<Rightarrow> ('s, 'f, 'b) eop" where
  "attempt m f s = (case m s of None \<Rightarrow> None | Some (r, s') \<Rightarrow> f r s')"

definition map_err :: "('e \<Rightarrow> 'f) \<Rightarrow> ('s, 'e, 'a) eop \<Rightarrow> ('s, 'f, 'a) eop" where
  "map_err g m = attempt m (\<lambda>r. lift (rmap_err g r))"

fun for_each :: "'a list \<Rightarrow> ('a \<Rightarrow> ('s, 'e, unit) eop) \<Rightarrow> ('s, 'e, unit) eop" where
  "for_each [] f = ret ()"
| "for_each (x # xs) f = try_op (f x) (\<lambda>_. for_each xs f)"

fun collect_ops :: "'a list \<Rightarrow> ('a \<Rightarrow> ('s, 'e, 'b) eop) \<Rightarrow> ('s, 'e, 'b list) eop" where
  "collect_ops [] f = ret []"
| "collect_ops (x # xs) f = try_op (f x) (\<lambda>y. try_op (collect_ops xs f) (\<lambda>ys. ret (y # ys)))"

lemma op_base [simp, op_simps]:
  "ret x s = Some (Inr x, s)" "fail e s = Some (Inl e, s)" "lift r s = Some (r, s)"
  by (simp_all add: ret_def fail_def lift_def)

lemma try_op_simps [simp, op_simps]:
  "m s = None \<Longrightarrow> try_op m f s = None"
  "m s = Some (Inl e, s') \<Longrightarrow> try_op m f s = Some (Inl e, s')"
  "m s = Some (Inr x, s') \<Longrightarrow> try_op m f s = f x s'"
  by (simp_all add: try_op_def)

lemma attempt_simps [simp, op_simps]:
  "m s = None \<Longrightarrow> attempt m f s = None"
  "m s = Some (r, s') \<Longrightarrow> attempt m f s = f r s'"
  by (simp_all add: attempt_def)

lemma try_op_ret [simp]: "try_op (ret x) f = f x"
  by (rule ext) simp

lemma try_op_fail [simp]: "try_op (fail e) f = fail e"
  by (rule ext) simp

lemma try_op_Inr_iff:
  "try_op m f s = Some (Inr y, s') \<longleftrightarrow>
     (\<exists>x s1. m s = Some (Inr x, s1) \<and> f x s1 = Some (Inr y, s'))"
  by (auto simp: try_op_def split: option.splits sum.splits prod.splits)

lemma try_op_Some_cases:
  assumes "try_op m f s = Some (r, s')"
  obtains (err) e where "m s = Some (Inl e, s')" and "r = Inl e"
        | (ok) x s1 where "m s = Some (Inr x, s1)" and "f x s1 = Some (r, s')"
  using assms by (auto simp: try_op_def split: option.splits sum.splits prod.splits)

lemma attempt_Some_cases:
  assumes "attempt m f s = Some (r, s')"
  obtains q s1 where "m s = Some (q, s1)" and "f q s1 = Some (r, s')"
  using assms by (auto simp: attempt_def split: option.splits prod.splits)

text \<open>An operation that keeps a relation between the state before and the state after.\<close>

definition keeps :: "('s \<Rightarrow> 's \<Rightarrow> bool) \<Rightarrow> ('s, 'e, 'a) eop \<Rightarrow> bool" where
  "keeps R m \<longleftrightarrow> (\<forall>s r s'. m s = Some (r, s') \<longrightarrow> R s s')"

lemma keepsD: "keeps R m \<Longrightarrow> m s = Some (r, s') \<Longrightarrow> R s s'"
  unfolding keeps_def by blast

lemma keeps_try:
  assumes "transp R" and "keeps R m" and "\<And>x. keeps R (f x)"
  shows "keeps R (try_op m f)"
proof (unfold keeps_def, intro allI impI)
  fix s r s'
  assume "try_op m f s = Some (r, s')"
  then show "R s s'"
  proof (cases rule: try_op_Some_cases)
    case (err e)
    with assms(2) show ?thesis by (auto simp: keeps_def)
  next
    case (ok x s1)
    then have "R s s1" and "R s1 s'" using assms(2,3) by (auto simp: keeps_def)
    with assms(1) show ?thesis by (rule transpD)
  qed
qed

lemma keeps_attempt:
  assumes "transp R" and "keeps R m" and "\<And>q. keeps R (f q)"
  shows "keeps R (attempt m f)"
proof (unfold keeps_def, intro allI impI)
  fix s r s'
  assume "attempt m f s = Some (r, s')"
  then obtain q s1 where "m s = Some (q, s1)" "f q s1 = Some (r, s')" by (rule attempt_Some_cases)
  then have "R s s1" and "R s1 s'" using assms(2,3) by (auto simp: keeps_def)
  with assms(1) show "R s s'" by (rule transpD)
qed

lemma keeps_lift: "reflp R \<Longrightarrow> keeps R (lift q)" and keeps_ret: "reflp R \<Longrightarrow> keeps R (ret x)"
  and keeps_fail: "reflp R \<Longrightarrow> keeps R (fail e)"
  by (auto simp: keeps_def reflp_def)

text \<open>An operation that always returns.\<close>

definition returns :: "('s, 'e, 'a) eop \<Rightarrow> bool" where
  "returns m \<longleftrightarrow> (\<forall>s. m s \<noteq> None)"

lemma returns_base [simp, intro]: "returns (ret x)" "returns (fail e)" "returns (lift q)"
  by (simp_all add: returns_def)

lemma returns_try [intro]:
  assumes "returns m" and "\<And>x. returns (f x)"
  shows "returns (try_op m f)"
  using assms by (auto simp: returns_def try_op_def split: option.splits sum.splits)

lemma returns_attempt [intro]:
  assumes "returns m" and "\<And>q. returns (f q)"
  shows "returns (attempt m f)"
  using assms by (auto simp: returns_def attempt_def split: option.splits)

end
