(* ===== verification/Codec.thy ===== *)
theory Codec
  imports Prelude
begin

text \<open>
  The interface of a strict codec: an encoder, a partial decoder and the values the encoding
  represents. A strict decoder accepts exactly the encoder's output, so every byte string denotes
  at most one value and every value has one byte string. The component theories interpret the
  locale on the program's own encoders: the endpoint record (\<open>sw_identity_tls/src/endpoint.rs\<close>)
  and the binary secret blob (\<open>blockchain_account_vault/src/envelope.rs\<close>).
\<close>

locale strict_codec =
  fixes enc :: "'a \<Rightarrow> 'b"
    and dec :: "'b \<Rightarrow> 'a option"
    and valid :: "'a \<Rightarrow> bool"
  assumes dec_enc: "valid x \<Longrightarrow> dec (enc x) = Some x"
    and dec_sound: "dec y = Some x \<Longrightarrow> valid x \<and> enc x = y"
begin

lemma enc_inj: "valid x \<Longrightarrow> valid x' \<Longrightarrow> enc x = enc x' \<Longrightarrow> x = x'"
  by (metis dec_enc option.inject)

lemma dec_inj: "dec y = Some x \<Longrightarrow> dec y' = Some x \<Longrightarrow> y = y'"
  using dec_sound by metis

lemma dec_iff: "dec y = Some x \<longleftrightarrow> valid x \<and> enc x = y"
  using dec_enc dec_sound by metis

lemma dec_None_iff: "dec y = None \<longleftrightarrow> y \<notin> enc ` {x. valid x}"
proof (cases "dec y")
  case None
  then have "\<not> (valid x \<and> enc x = y)" for x
    using dec_enc [of x] by auto
  with None show ?thesis by blast
next
  case (Some x)
  then show ?thesis using dec_sound [of y x] by auto
qed

end

text \<open>
  The \<open>base64\<close> engine is a third-party crate, so its two functions are parameters: the encoder,
  and the decoder with the text of its error. What the code relies on is that decoding the
  encoder's output gives the bytes back.
\<close>

record base64_engine =
  b64_encode :: "bytes \<Rightarrow> string"
  b64_decode :: "string \<Rightarrow> string + bytes"

definition b64_lawful :: "base64_engine \<Rightarrow> bool" where
  "b64_lawful e \<longleftrightarrow> (\<forall>bs. b64_decode e (b64_encode e bs) = Inr bs)"

lemma b64_lawfulD [simp]: "b64_lawful e \<Longrightarrow> b64_decode e (b64_encode e bs) = Inr bs"
  by (simp add: b64_lawful_def)

text \<open>A concrete engine for evaluation: each byte written as one character.\<close>

definition plain_engine :: base64_engine where
  "plain_engine = \<lparr>b64_encode = bytes_str, b64_decode = (\<lambda>s. Inr (utf8_bytes s))\<rparr>"

lemma plain_engine_lawful: "b64_lawful plain_engine"
  by (simp add: b64_lawful_def plain_engine_def)

end
