(* ===== verification/Json.thy ===== *)
theory Json
  imports Codec
begin

text \<open>
  The \<open>serde_json\<close> crate as the program uses it: the accessors of a value, and the parser, printer and
  constructors of the key files. A value's type is a parameter; what the code relies on is named
  below, and a concrete type with its functions satisfies it.
\<close>

record 'j json_api =
  js_get :: "string \<Rightarrow> 'j \<Rightarrow> 'j option"
  js_str :: "'j \<Rightarrow> string option"
  js_u64 :: "'j \<Rightarrow> u64 option"
  js_i64 :: "'j \<Rightarrow> int option"
  js_array :: "'j \<Rightarrow> 'j list option"
  js_is_object :: "'j \<Rightarrow> bool"

text \<open>The functions the key files are written and read with (\<open>json!\<close>, \<open>to_vec_pretty\<close>, \<open>from_slice\<close>).\<close>

record 'j json_io = "'j json_api" +
  js_from_slice :: "bytes \<Rightarrow> string + 'j"
  js_to_vec_pretty :: "'j \<Rightarrow> string + bytes"
  js_object :: "(string \<times> 'j) list \<Rightarrow> 'j"
  js_string :: "string \<Rightarrow> 'j"
  js_number :: "u64 \<Rightarrow> 'j"

text \<open>The objects the program writes: distinct names, and strings and numbers for values.\<close>

definition js_flat :: "'j json_io \<Rightarrow> (string \<times> 'j) list \<Rightarrow> bool" where
  "js_flat js kvs \<longleftrightarrow>
     distinct (map fst kvs) \<and> (\<forall>v \<in> snd ` set kvs. v \<in> range (js_string js) \<union> range (js_number js))"

definition json_lawful :: "'j json_io \<Rightarrow> bool" where
  "json_lawful js \<longleftrightarrow>
     (\<forall>s. js_str js (js_string js s) = Some s) \<and> (\<forall>n. js_u64 js (js_number js n) = Some n) \<and>
     (\<forall>kvs k. js_flat js kvs \<longrightarrow>
        js_get js k (js_object js kvs) = map_of kvs k \<and>
        (\<exists>bs. js_to_vec_pretty js (js_object js kvs) = Inr bs \<and> js_from_slice js bs = Inr (js_object js kvs)))"

text \<open>White space after a document is allowed.\<close>

definition json_skips_newline :: "'j json_io \<Rightarrow> bool" where
  "json_skips_newline js \<longleftrightarrow>
     (\<forall>kvs bs. js_flat js kvs \<and> js_to_vec_pretty js (js_object js kvs) = Inr bs \<longrightarrow>
        js_from_slice js (bs @ [10]) = js_from_slice js bs)"

lemma json_lawfulD:
  assumes "json_lawful js"
  shows "js_str js (js_string js s) = Some s" and "js_u64 js (js_number js n) = Some n"
    and "js_flat js kvs \<Longrightarrow> js_get js k (js_object js kvs) = map_of kvs k"
  using assms by (auto simp: json_lawful_def)

lemma json_written:
  assumes "json_lawful js" and "js_flat js kvs"
  obtains bs where "js_to_vec_pretty js (js_object js kvs) = Inr bs"
    and "js_from_slice js bs = Inr (js_object js kvs)"
  using assms by (auto simp: json_lawful_def)

section \<open>A concrete type of values\<close>

datatype json = JNum u64 | JStr string | JArr "json list" | JObj "(string \<times> json) list"

definition json_accessors :: "json json_api" where
  "json_accessors = \<lparr>
     js_get = (\<lambda>k v. case v of JObj fs \<Rightarrow> map_of fs k | _ \<Rightarrow> None),
     js_str = (\<lambda>v. case v of JStr s \<Rightarrow> Some s | _ \<Rightarrow> None),
     js_u64 = (\<lambda>v. case v of JNum n \<Rightarrow> Some n | _ \<Rightarrow> None),
     js_i64 = (\<lambda>v. case v of JNum n \<Rightarrow> Some (uint n) | _ \<Rightarrow> None),
     js_array = (\<lambda>v. case v of JArr xs \<Rightarrow> Some xs | _ \<Rightarrow> None),
     js_is_object = (\<lambda>v. case v of JObj _ \<Rightarrow> True | _ \<Rightarrow> False)\<rparr>"

text \<open>
  A printer and a parser of flat objects for the witnesses: every byte of a name or a string is
  preceded by 1 and the end marked by 0; a string is tagged 2, a number 3, and the object 4.
\<close>

fun put_text :: "bytes \<Rightarrow> bytes" where
  "put_text [] = [0]"
| "put_text (b # bs) = 1 # b # put_text bs"

fun get_text :: "bytes \<Rightarrow> (bytes \<times> bytes) option" where
  "get_text (t # r) =
     (if t = 0 then Some ([], r)
      else case r of [] \<Rightarrow> None | b # r \<Rightarrow> map_option (\<lambda>(bs, r). (b # bs, r)) (get_text r))"
| "get_text [] = None"

fun put_fields :: "(string \<times> json) list \<Rightarrow> string + bytes" where
  "put_fields [] = Inr []"
| "put_fields ((k, JStr s) # fs) =
     rbind (put_fields fs) (\<lambda>bs. Inr (2 # put_text (utf8_bytes k) @ put_text (utf8_bytes s) @ bs))"
| "put_fields ((k, JNum n) # fs) =
     rbind (put_fields fs) (\<lambda>bs. Inr (3 # put_text (utf8_bytes k) @ put_text (to_be_bytes 8 n) @ bs))"
| "put_fields _ = Inl ''not a flat object''"

fun get_fields :: "nat \<Rightarrow> bytes \<Rightarrow> (string \<times> json) list option" where
  "get_fields (Suc m) (t # r) =
     (if t = 10 then Some [] else
     Option.bind (get_text r) (\<lambda>(k, r).
     Option.bind (get_text r) (\<lambda>(v, r).
     Option.bind (get_fields m r) (\<lambda>fs.
       Some ((bytes_str k, if t = 2 then JStr (bytes_str v) else JNum (from_be_bytes v)) # fs)))))"
| "get_fields _ [] = Some []"
| "get_fields 0 (t # r) = None"

definition flat_json :: "json json_io" where
  "flat_json =
     \<lparr>js_get = js_get json_accessors, js_str = js_str json_accessors, js_u64 = js_u64 json_accessors,
     js_i64 = js_i64 json_accessors, js_array = js_array json_accessors, js_is_object = js_is_object json_accessors,
     js_from_slice = (\<lambda>bs. case bs of
        t # r \<Rightarrow> if t = 4 then ok_or ''bad object'' (map_option JObj (get_fields (Suc (length r)) r)) else Inl ''not an object''
      | [] \<Rightarrow> Inl ''empty''),
     js_to_vec_pretty = (\<lambda>v. case v of JObj fs \<Rightarrow> rbind (put_fields fs) (\<lambda>bs. Inr (4 # bs)) | _ \<Rightarrow> Inl ''not an object''),
     js_object = JObj, js_string = JStr, js_number = JNum\<rparr>"

lemma get_put_text [simp]: "get_text (put_text t @ r) = Some (t, r)"
  by (induction t) simp_all

lemma put_get_fields:
  "put_fields fs = Inr bs \<Longrightarrow> length fs < m \<Longrightarrow> r \<in> {[], [10]} \<Longrightarrow> get_fields m (bs @ r) = Some fs"
proof (induction fs arbitrary: bs m rule: put_fields.induct)
  case 1
  then show ?case by (cases m) auto
next
  case (2 k s fs)
  then obtain l where "m = Suc l" by (cases m) auto
  with 2 show ?case by (auto simp: rbind_eq_Inr)
next
  case (3 k n fs)
  then obtain l where "m = Suc l" by (cases m) auto
  with 3 show ?case by (auto simp: rbind_eq_Inr)
qed simp_all

lemma put_fields_length: "put_fields fs = Inr bs \<Longrightarrow> length fs \<le> length bs"
  by (induction fs arbitrary: bs rule: put_fields.induct) (fastforce simp: rbind_eq_Inr)+

lemma put_fields_flat:
  "\<forall>v \<in> snd ` set fs. v \<in> range JStr \<union> range JNum \<Longrightarrow> \<exists>bs. put_fields fs = Inr bs"
  by (induction fs rule: put_fields.induct) (auto simp: rbind_eq_Inr)

lemma flat_json_lawful: "json_lawful flat_json"
proof -
  have "\<exists>bs. js_to_vec_pretty flat_json (JObj fs) = Inr bs \<and> js_from_slice flat_json bs = Inr (JObj fs)"
    if "js_flat flat_json fs" for fs
  proof -
    from that obtain bs where bs: "put_fields fs = Inr bs"
      using put_fields_flat [of fs] by (auto simp: js_flat_def flat_json_def)
    from put_get_fields [OF this, of "Suc (length bs)" "[]"] put_fields_length [OF bs] bs show ?thesis
      by (simp add: flat_json_def)
  qed
  then show ?thesis
    by (simp add: json_lawful_def) (simp add: flat_json_def json_accessors_def)
qed

lemma flat_json_skips_newline: "json_skips_newline flat_json"
proof -
  have "js_from_slice flat_json (bs @ [10]) = js_from_slice flat_json bs"
    if "js_to_vec_pretty flat_json (JObj fs) = Inr bs" for fs bs
  proof -
    from that obtain r where r: "put_fields fs = Inr r" "bs = 4 # r" by (auto simp: flat_json_def rbind_eq_Inr)
    note l = put_fields_length [OF r(1)]
    show ?thesis
      using put_get_fields [OF r(1), of "Suc (length r)" "[]"] put_get_fields [OF r(1), of "Suc (Suc (length r))" "[10]"] l
      by (simp add: flat_json_def r(2))
  qed
  moreover have "js_object flat_json = JObj" by (simp add: flat_json_def)
  ultimately show ?thesis by (auto simp: json_skips_newline_def)
qed

end
