(* ===== verification/Envelope.thy ===== *)
theory Envelope
  imports Effects Json
begin

text \<open>
  Password-based encryption, \<open>blockchain_account_vault/src/envelope.rs\<close>: the JSON envelope of a key
  file, the compact binary form of a small secret, and the change of an envelope's password. Argon2id,
  AES-256-GCM, base64 and JSON are third-party code, the fields of a record; the random source is a
  function of the state. Errors are texts, the outermost one of an \<open>anyhow\<close> chain.
\<close>

type_synonym ('s, 'a) vop = "('s, string, 'a) eop"

record 'j sealing =
  se_json :: "'j json_io"
  se_b64 :: base64_engine
  se_fast_kdf :: bool
  se_params :: "u32 \<Rightarrow> u32 \<Rightarrow> u32 \<Rightarrow> string + unit"
  se_argon2 :: "u32 \<Rightarrow> u32 \<Rightarrow> u32 \<Rightarrow> bytes \<Rightarrow> bytes \<Rightarrow> string + bytes"
  se_cipher :: "bytes \<Rightarrow> string + unit"
  se_encrypt :: "bytes \<Rightarrow> bytes \<Rightarrow> bytes \<Rightarrow> string + bytes"
  se_decrypt :: "bytes \<Rightarrow> bytes \<Rightarrow> bytes \<Rightarrow> bytes option"

text \<open>The laws relied on: what was encrypted decrypts, and the tag adds 16 bytes.\<close>

definition sealing_lawful :: "'j sealing \<Rightarrow> bool" where
  "sealing_lawful k \<longleftrightarrow> json_lawful (se_json k) \<and> b64_lawful (se_b64 k) \<and>
     (\<forall>key nonce pt ct. se_encrypt k key nonce pt = Inr ct \<longrightarrow>
        se_decrypt k key nonce ct = Some pt \<and> length ct = length pt + 16)"

definition draws :: "(nat \<Rightarrow> 's \<Rightarrow> bytes \<times> 's) \<Rightarrow> bool" where
  "draws rng \<longleftrightarrow> (\<forall>n s. length (fst (rng n s)) = n)"

section \<open>The key\<close>

abbreviation ENVELOPE_MARKER :: u64 where "ENVELOPE_MARKER \<equiv> 1"
abbreviation SALT_LEN :: nat where "SALT_LEN \<equiv> 16"
abbreviation NONCE_LEN :: nat where "NONCE_LEN \<equiv> 12"

definition argon2_cost :: "'j sealing \<Rightarrow> u32 \<times> u32 \<times> u32" where
  "argon2_cost k = (if se_fast_kdf k then (8, 1, 1) else (64 * 1024, 3, 1))"

definition derive_key_with :: "'j sealing \<Rightarrow> string \<Rightarrow> bytes \<Rightarrow> u32 \<Rightarrow> u32 \<Rightarrow> u32 \<Rightarrow> string + bytes" where
  "derive_key_with k password salt m t p =
     rbind (rmap_err (\<lambda>e. ''invalid argon2 params: '' @ e) (se_params k m t p)) (\<lambda>_.
       rmap_err (\<lambda>e. ''argon2 key derivation failed: '' @ e) (se_argon2 k m t p (utf8_bytes password) salt))"

definition derive_key :: "'j sealing \<Rightarrow> string \<Rightarrow> bytes \<Rightarrow> string + bytes" where
  "derive_key k password salt = (case argon2_cost k of (m, t, p) \<Rightarrow> derive_key_with k password salt m t p)"

definition encrypt_under :: "'j sealing \<Rightarrow> bytes \<Rightarrow> bytes \<Rightarrow> bytes \<Rightarrow> string + bytes" where
  "encrypt_under k key nonce plaintext =
     rbind (rmap_err (\<lambda>e. ''failed to build AES-256-GCM cipher: '' @ e) (se_cipher k key)) (\<lambda>_.
       rmap_err (\<lambda>e. ''AES-256-GCM encryption failed: '' @ e) (se_encrypt k key nonce plaintext))"

definition decrypt_under :: "'j sealing \<Rightarrow> string \<Rightarrow> bytes \<Rightarrow> bytes \<Rightarrow> bytes \<Rightarrow> string + bytes" where
  "decrypt_under k msg key nonce ciphertext =
     rbind (rmap_err (\<lambda>e. ''failed to build AES-256-GCM cipher: '' @ e) (se_cipher k key)) (\<lambda>_.
       ok_or msg (se_decrypt k key nonce ciphertext))"

section \<open>The JSON envelope\<close>

definition write_envelope :: "'j sealing \<Rightarrow> u32 \<times> u32 \<times> u32 \<Rightarrow> bytes \<Rightarrow> bytes \<Rightarrow> bytes \<Rightarrow> string + bytes" where
  "write_envelope k cost salt nonce ciphertext =
     (let js = se_json k; b64 = b64_encode (se_b64 k)
      in case cost of (m, t, p) \<Rightarrow>
        js_to_vec_pretty js (js_object js
          [(''bingle_encrypted'', js_number js ENVELOPE_MARKER), (''kdf'', js_string js ''argon2id''),
           (''m'', js_number js (ucast m)), (''t'', js_number js (ucast t)), (''p'', js_number js (ucast p)),
           (''salt'', js_string js (b64 salt)), (''nonce'', js_string js (b64 nonce)),
           (''ciphertext'', js_string js (b64 ciphertext))]))"

text \<open>\<open>OsRng.fill_bytes\<close>.\<close>

definition draw :: "(nat \<Rightarrow> 's \<Rightarrow> bytes \<times> 's) \<Rightarrow> nat \<Rightarrow> ('s, bytes) vop" where
  "draw rng n s = (case rng n s of (bs, s) \<Rightarrow> Some (Inr bs, s))"

definition encrypt_bytes ::
  "'j sealing \<Rightarrow> (nat \<Rightarrow> 's \<Rightarrow> bytes \<times> 's) \<Rightarrow> bytes \<Rightarrow> string \<Rightarrow> ('s, bytes) vop" where
  "encrypt_bytes k rng plaintext password =
     try_op (draw rng SALT_LEN) (\<lambda>salt.
     try_op (draw rng NONCE_LEN) (\<lambda>nonce.
       lift (case argon2_cost k of (m, t, p) \<Rightarrow>
         rbind (derive_key_with k password salt m t p) (\<lambda>key.
         rbind (encrypt_under k key nonce plaintext) (\<lambda>ciphertext.
           write_envelope k (m, t, p) salt nonce ciphertext)))))"

definition decode_field :: "'j sealing \<Rightarrow> 'j \<Rightarrow> string \<Rightarrow> string + bytes" where
  "decode_field k json field =
     (let js = se_json k
      in rbind (ok_or (''envelope is missing '' @ [CHR 0x27] @ field @ [CHR 0x27] @ '' field'')
                  (Option.bind (js_get js field json) (js_str js)))
           (\<lambda>s. rmap_err (\<lambda>_. ''envelope '' @ [CHR 0x27] @ field @ [CHR 0x27] @ '' is not valid base64'')
                  (b64_decode (se_b64 k) s)))"

definition json_cost :: "'j sealing \<Rightarrow> 'j \<Rightarrow> string \<Rightarrow> u64 option" where
  "json_cost k json f = Option.bind (js_get (se_json k) f json) (js_u64 (se_json k))"

definition decrypt_bytes :: "'j sealing \<Rightarrow> bytes \<Rightarrow> string \<Rightarrow> string + bytes" where
  "decrypt_bytes k envelope password =
     rbind (rmap_err (\<lambda>_. ''encrypted file is not valid JSON'') (js_from_slice (se_json k) envelope)) (\<lambda>json.
     if json_cost k json ''bingle_encrypted'' \<noteq> Some ENVELOPE_MARKER
     then Inl ''file is not a bingle encrypted envelope''
     else case (json_cost k json ''m'', json_cost k json ''t'', json_cost k json ''p'') of
       (Some m, Some t, Some p) \<Rightarrow>
         rbind (decode_field k json ''salt'') (\<lambda>salt.
         rbind (decode_field k json ''nonce'') (\<lambda>nonce.
         rbind (decode_field k json ''ciphertext'') (\<lambda>ciphertext.
         if length nonce \<noteq> NONCE_LEN then Inl ''envelope nonce has wrong length''
         else rbind (derive_key_with k password salt (ucast m) (ucast t) (ucast p)) (\<lambda>key.
           decrypt_under k ''decryption failed (wrong password or corrupted file)'' key nonce ciphertext))))
     | _ \<Rightarrow> Inl ''envelope is missing argon2 cost parameters'')"

definition is_encrypted_envelope :: "'j sealing \<Rightarrow> bytes \<Rightarrow> bool" where
  "is_encrypted_envelope k bs \<longleftrightarrow>
     Option.bind (rok (js_from_slice (se_json k) bs)) (\<lambda>v. json_cost k v ''bingle_encrypted'') = Some ENVELOPE_MARKER"

lemma cost_roundtrip [simp]: "(ucast (ucast (m :: u32) :: u64) :: u32) = m"
  by (rule bit_word_eqI) (simp add: bit_simps)

lemma json_cost_written:
  assumes "json_lawful (se_json k)" and "js_flat (se_json k) kvs"
    and "map_of kvs f = Some (js_number (se_json k) n)"
  shows "json_cost k (js_object (se_json k) kvs) f = Some n"
  using assms json_lawfulD [of "se_json k"] by (simp add: json_cost_def)

lemma decode_field_written:
  assumes "json_lawful (se_json k)" and "b64_lawful (se_b64 k)" and "js_flat (se_json k) kvs"
    and "map_of kvs f = Some (js_string (se_json k) (b64_encode (se_b64 k) bs))"
  shows "decode_field k (js_object (se_json k) kvs) f = Inr bs"
  using assms json_lawfulD [of "se_json k"] by (simp add: decode_field_def Let_def)

lemma write_envelope_read:
  assumes "sealing_lawful k" and "write_envelope k (m, t, p) salt nonce ct = Inr env" and "length nonce = 12"
  shows "is_encrypted_envelope k env"
    and "decrypt_bytes k env password =
      rbind (derive_key_with k password salt m t p) (\<lambda>key.
        decrypt_under k ''decryption failed (wrong password or corrupted file)'' key nonce ct)"
proof -
  let ?js = "se_json k"
  let ?f = "[(''bingle_encrypted'', js_number ?js ENVELOPE_MARKER), (''kdf'', js_string ?js ''argon2id''),
    (''m'', js_number ?js (ucast m)), (''t'', js_number ?js (ucast t)), (''p'', js_number ?js (ucast p)),
    (''salt'', js_string ?js (b64_encode (se_b64 k) salt)), (''nonce'', js_string ?js (b64_encode (se_b64 k) nonce)),
    (''ciphertext'', js_string ?js (b64_encode (se_b64 k) ct))]"
  have law: "json_lawful ?js" "b64_lawful (se_b64 k)" using assms(1) by (simp_all add: sealing_lawful_def)
  have flat: "js_flat ?js ?f" by (simp add: js_flat_def)
  obtain bs where "js_to_vec_pretty ?js (js_object ?js ?f) = Inr bs" and "js_from_slice ?js bs = Inr (js_object ?js ?f)"
    using json_written [OF law(1) flat] by blast
  with assms(2) have parsed: "js_from_slice ?js env = Inr (js_object ?js ?f)"
    by (simp add: write_envelope_def Let_def)
  have cost: "json_cost k (js_object ?js ?f) ''bingle_encrypted'' = Some ENVELOPE_MARKER"
    "json_cost k (js_object ?js ?f) ''m'' = Some (ucast m)" "json_cost k (js_object ?js ?f) ''t'' = Some (ucast t)"
    "json_cost k (js_object ?js ?f) ''p'' = Some (ucast p)"
    by (rule json_cost_written [OF law(1) flat]; simp)+
  have dec: "decode_field k (js_object ?js ?f) ''salt'' = Inr salt" "decode_field k (js_object ?js ?f) ''nonce'' = Inr nonce"
    "decode_field k (js_object ?js ?f) ''ciphertext'' = Inr ct"
    by (rule decode_field_written [OF law flat]; simp)+
  show "is_encrypted_envelope k env"
    unfolding is_encrypted_envelope_def by (simp only: parsed rok_simps bind.simps cost)
  show "decrypt_bytes k env password =
      rbind (derive_key_with k password salt m t p) (\<lambda>key.
        decrypt_under k ''decryption failed (wrong password or corrupted file)'' key nonce ct)"
    unfolding decrypt_bytes_def
    by (simp only: parsed rmap_err_simps rbind_simps cost dec assms(3) prod.case option.case cost_roundtrip
        not_True_eq_False if_False simp_thms)
qed

lemma decrypt_encrypted:
  assumes "sealing_lawful k" and "encrypt_under k key nonce pt = Inr ct"
  shows "decrypt_under k msg key nonce ct = Inr pt" and "length ct = length pt + 16"
  using assms by (auto simp: encrypt_under_def decrypt_under_def sealing_lawful_def rbind_eq_Inr)

lemma draws_length: "draws rng \<Longrightarrow> draw rng n s = Some (Inr bs, s') \<Longrightarrow> length bs = n"
  by (auto simp: draw_def draws_def split: prod.splits) (metis fst_conv)

lemma encrypt_bytes_opens:
  assumes "sealing_lawful k" and "draws rng" and "encrypt_bytes k rng pt password s = Some (Inr env, s')"
  shows "is_encrypted_envelope k env" and "decrypt_bytes k env password = Inr pt"
proof -
  obtain m t p where cost: "argon2_cost k = (m, t, p)" by (metis prod_cases3)
  from assms(3) obtain salt nonce s1 s2 key ct where "draw rng 12 s1 = Some (Inr nonce, s2)"
    and key: "derive_key_with k password salt m t p = Inr key" and ct: "encrypt_under k key nonce pt = Inr ct"
    and env: "write_envelope k (m, t, p) salt nonce ct = Inr env"
    by (auto simp: encrypt_bytes_def try_op_Inr_iff cost rbind_eq_Inr)
  then have "length nonce = 12" using draws_length [OF assms(2)] by blast
  from write_envelope_read [OF assms(1) env this] key decrypt_encrypted(1) [OF assms(1) ct]
  show "is_encrypted_envelope k env" and "decrypt_bytes k env password = Inr pt" by simp_all
qed

section \<open>The binary secret\<close>

abbreviation SECRET_VERSION :: u8 where "SECRET_VERSION \<equiv> 1"
abbreviation SECRET_HEADER_LEN :: nat where "SECRET_HEADER_LEN \<equiv> 7"

record secret_blob =
  sb_m :: u32
  sb_t :: u8
  sb_p :: u8
  sb_salt :: bytes
  sb_nonce :: bytes
  sb_ciphertext :: bytes

definition blob_write :: "secret_blob \<Rightarrow> bytes" where
  "blob_write b =
     [SECRET_VERSION] @ to_le_bytes 4 (sb_m b) @ [sb_t b] @ [sb_p b] @ sb_salt b @ sb_nonce b @ sb_ciphertext b"

definition blob_read :: "bytes \<Rightarrow> string + secret_blob" where
  "blob_read blob =
     (if length blob < SECRET_HEADER_LEN + SALT_LEN + NONCE_LEN then Inl ''encrypted secret is too short''
      else if blob ! 0 \<noteq> SECRET_VERSION
      then Inl (''unsupported encrypted secret version '' @ show_nat (unat (blob ! 0)))
      else
        let m = from_le_bytes [blob ! 1, blob ! 2, blob ! 3, blob ! 4]; off = SECRET_HEADER_LEN;
            salt = take SALT_LEN (drop off blob); off = off + SALT_LEN;
            nonce = take NONCE_LEN (drop off blob); off = off + NONCE_LEN
        in Inr \<lparr>sb_m = m, sb_t = blob ! 5, sb_p = blob ! 6, sb_salt = salt, sb_nonce = nonce, sb_ciphertext = drop off blob\<rparr>)"

definition u8_of :: "string \<Rightarrow> u32 \<Rightarrow> string + u8" where
  "u8_of msg x = (if unat x < 256 then Inr (ucast x) else Inl msg)"

definition encrypt_secret ::
  "'j sealing \<Rightarrow> (nat \<Rightarrow> 's \<Rightarrow> bytes \<times> 's) \<Rightarrow> bytes \<Rightarrow> string \<Rightarrow> ('s, bytes) vop" where
  "encrypt_secret k rng plaintext password =
     try_op (draw rng SALT_LEN) (\<lambda>salt.
     try_op (draw rng NONCE_LEN) (\<lambda>nonce.
       lift (case argon2_cost k of (m, t, p) \<Rightarrow>
         rbind (derive_key_with k password salt m t p) (\<lambda>key.
         rbind (encrypt_under k key nonce plaintext) (\<lambda>ciphertext.
         rbind (u8_of ''argon2 t_cost too large for secret blob'' t) (\<lambda>t.
         rbind (u8_of ''argon2 p_cost too large for secret blob'' p) (\<lambda>p.
           Inr (blob_write \<lparr>sb_m = m, sb_t = t, sb_p = p, sb_salt = salt, sb_nonce = nonce, sb_ciphertext = ciphertext\<rparr>))))))))"

definition decrypt_secret :: "'j sealing \<Rightarrow> bytes \<Rightarrow> string \<Rightarrow> string + bytes" where
  "decrypt_secret k blob password =
     rbind (blob_read blob) (\<lambda>b.
     rbind (derive_key_with k password (sb_salt b) (sb_m b) (ucast (sb_t b)) (ucast (sb_p b))) (\<lambda>key.
       decrypt_under k ''decryption failed (wrong password or corrupted secret)'' key (sb_nonce b) (sb_ciphertext b)))"

definition blob_valid :: "secret_blob \<Rightarrow> bool" where
  "blob_valid b \<longleftrightarrow> length (sb_salt b) = SALT_LEN \<and> length (sb_nonce b) = NONCE_LEN"

lemma list4: "length xs = 4 \<Longrightarrow> [xs ! 0, xs ! 1, xs ! 2, xs ! 3] = xs"
  by (auto simp: numeral_eq_Suc length_Suc_conv)

lemma blob_read_write: "blob_valid b \<Longrightarrow> blob_read (blob_write b) = Inr b"
proof -
  assume v: "blob_valid b"
  let ?m = "to_le_bytes 4 (sb_m b)"
  have w: "blob_write b = SECRET_VERSION # ?m @ sb_t b # sb_p b # sb_salt b @ sb_nonce b @ sb_ciphertext b"
    by (simp add: blob_write_def)
  have i: "blob_write b ! 1 = ?m ! 0" "blob_write b ! 2 = ?m ! 1" "blob_write b ! 3 = ?m ! 2" "blob_write b ! 4 = ?m ! 3"
    "blob_write b ! 5 = sb_t b" "blob_write b ! 6 = sb_p b" "blob_write b ! 0 = SECRET_VERSION"
    by (simp_all add: w nth_append nth_Cons' byte_simps)
  have d: "drop 7 (blob_write b) = sb_salt b @ sb_nonce b @ sb_ciphertext b"
    by (simp add: w numeral_eq_Suc byte_simps)
  have "drop 23 (blob_write b) = drop 16 (drop 7 (blob_write b))"
    "drop 35 (blob_write b) = drop 28 (drop 7 (blob_write b))" by simp_all
  then have d2: "drop 23 (blob_write b) = sb_nonce b @ sb_ciphertext b" "drop 35 (blob_write b) = sb_ciphertext b"
    using v by (simp_all only: d) (simp_all add: blob_valid_def)
  have l: "length (blob_write b) = 35 + length (sb_ciphertext b)"
    using v by (simp add: w blob_valid_def byte_simps)
  have "from_le_bytes [?m ! 0, ?m ! 1, ?m ! 2, ?m ! 3] = sb_m b"
    by (subst list4) (simp_all add: byte_simps)
  with i d d2 l v show ?thesis
    by (simp add: blob_read_def Let_def blob_valid_def)
qed

lemma blob_write_read: "blob_read bs = Inr b \<Longrightarrow> blob_valid b \<and> blob_write b = bs"
proof -
  assume r: "blob_read bs = Inr b"
  then have l: "35 \<le> length bs" and v: "bs ! 0 = SECRET_VERSION"
    and b: "b = \<lparr>sb_m = from_le_bytes [bs ! 1, bs ! 2, bs ! 3, bs ! 4], sb_t = bs ! 5, sb_p = bs ! 6,
      sb_salt = take 16 (drop 7 bs), sb_nonce = take 12 (drop 23 bs), sb_ciphertext = drop 35 bs\<rparr>"
    by (auto simp: blob_read_def Let_def split: if_splits)
  have h: "take 7 bs = [bs ! 0, bs ! 1, bs ! 2, bs ! 3, bs ! 4, bs ! 5, bs ! 6]"
  proof -
    have "take 7 bs = map ((!) bs) [0 ..< 7]" by (rule nth_equalityI) (use l in simp_all)
    also have "[0 ..< 7] = [0, 1, 2, 3, 4, 5, 6 :: nat]" by code_simp
    finally show ?thesis by simp
  qed
  have "blob_write b = take 7 bs @ take 16 (drop 7 bs) @ take 12 (drop 23 bs) @ drop 35 bs"
    using v by (simp add: b h blob_write_def byte_simps)
  also have "take 12 (drop 23 bs) @ drop 35 bs = drop 23 bs"
    using append_take_drop_id [of 12 "drop 23 bs"] by simp
  also have "take 16 (drop 7 bs) @ drop 23 bs = drop 7 bs"
    using append_take_drop_id [of 16 "drop 7 bs"] by simp
  finally show ?thesis using l by (simp add: blob_valid_def b)
qed

interpretation secret_codec: strict_codec blob_write "\<lambda>bs. rok (blob_read bs)" blob_valid
  by unfold_locales (auto simp: blob_read_write blob_write_read)

lemma u8_of_Inr: "u8_of msg x = Inr y \<Longrightarrow> (ucast y :: u32) = x"
proof -
  assume "u8_of msg x = Inr y"
  then have x: "unat x < 256" and y: "y = ucast x" by (auto simp: u8_of_def split: if_splits)
  have "unat (ucast y :: u32) = unat x" using x
    by (simp add: y unsigned_ucast_eq take_bit_nat_eq_self unsigned_take_bit_eq)
  then show ?thesis by (rule unsigned_word_eqI)
qed

lemma encrypt_secret_opens:
  assumes "sealing_lawful k" and "draws rng" and "encrypt_secret k rng pt password s = Some (Inr blob, s')"
  shows "decrypt_secret k blob password = Inr pt" and "length blob = 51 + length pt"
    and "\<exists>b. blob_valid b \<and> blob = blob_write b"
proof -
  obtain m t p where cost: "argon2_cost k = (m, t, p)" by (metis prod_cases3)
  from assms(3) obtain salt s1 nonce s2 s3 key ct t8 p8 where "draw rng 16 s1 = Some (Inr salt, s2)"
    "draw rng 12 s2 = Some (Inr nonce, s3)"
    and key: "derive_key_with k password salt m t p = Inr key" and ct: "encrypt_under k key nonce pt = Inr ct"
    and u8: "u8_of ''argon2 t_cost too large for secret blob'' t = Inr t8"
      "u8_of ''argon2 p_cost too large for secret blob'' p = Inr p8"
    and blob: "blob = blob_write \<lparr>sb_m = m, sb_t = t8, sb_p = p8, sb_salt = salt, sb_nonce = nonce, sb_ciphertext = ct\<rparr>"
    by (auto simp: encrypt_secret_def try_op_Inr_iff cost rbind_eq_Inr)
  let ?b = "\<lparr>sb_m = m, sb_t = t8, sb_p = p8, sb_salt = salt, sb_nonce = nonce, sb_ciphertext = ct\<rparr>"
  have len: "length salt = 16" "length nonce = 12" using \<open>draw rng 16 s1 = _\<close> \<open>draw rng 12 s2 = _\<close> draws_length [OF assms(2)] by blast+
  then have v: "blob_valid ?b" by (simp add: blob_valid_def)
  then show "\<exists>b. blob_valid b \<and> blob = blob_write b" using blob by blast
  show "decrypt_secret k blob password = Inr pt"
    using key decrypt_encrypted(1) [OF assms(1) ct] u8_of_Inr [OF u8(1)] u8_of_Inr [OF u8(2)]
    by (simp add: decrypt_secret_def blob blob_read_write [OF v])
  show "length blob = 51 + length pt"
    using len decrypt_encrypted(2) [OF assms(1) ct] by (simp add: blob blob_write_def byte_simps)
qed

section \<open>Changing the password\<close>

text \<open>
  The state is the cached old password with the state the random source and the prompt work on;
  \<open>on_rest\<close> runs an operation on the latter.
\<close>

definition on_rest :: "('s, 'e, 'a) eop \<Rightarrow> ('c \<times> 's, 'e, 'a) eop" where
  "on_rest m w = (case w of (c, s) \<Rightarrow> map_option (\<lambda>(r, s). (r, c, s)) (m s))"

definition cached :: "('c \<times> 's, 'e, 'c) eop" where
  "cached w = Some (Inr (fst w), w)"

definition cache_put :: "'c \<Rightarrow> ('c \<times> 's, 'e, unit) eop" where
  "cache_put c w = Some (Inr (), c, snd w)"

lemma cache_ops [simp]:
  "on_rest m (c, s) = map_option (\<lambda>(r, s). (r, c, s)) (m s)" "cached (c, s) = Some (Inr c, c, s)"
  "cache_put d (c, s) = Some (Inr (), d, s)"
  by (simp_all add: on_rest_def cached_def cache_put_def)

definition reencrypt_envelope ::
  "'j sealing \<Rightarrow> (nat \<Rightarrow> 's \<Rightarrow> bytes \<times> 's) \<Rightarrow> bytes \<Rightarrow> string \<Rightarrow> ('s, string) vop \<Rightarrow>
     (string option \<times> 's, bytes option) vop" where
  "reencrypt_envelope k rng envelope new_password prompt_old =
     (if \<not> is_encrypted_envelope k envelope then fail ''file is not a bingle encrypted envelope''
      else if rok (decrypt_bytes k envelope new_password) \<noteq> None then ret None
      else
        try_op cached (\<lambda>old_password.
        try_op (case Option.bind old_password (\<lambda>pw. rok (decrypt_bytes k envelope pw)) of
                  Some pt \<Rightarrow> ret pt
                | None \<Rightarrow>
                    try_op (on_rest prompt_old) (\<lambda>pw.
                    try_op (lift (rmap_err (\<lambda>_. ''old password did not decrypt this file'') (decrypt_bytes k envelope pw))) (\<lambda>pt.
                    try_op (cache_put (Some pw)) (\<lambda>_. ret pt)))) (\<lambda>plaintext.
        try_op (on_rest (encrypt_bytes k rng plaintext new_password)) (\<lambda>env. ret (Some env)))))"

text \<open>
  C23: Changing the password of an envelope keeps its contents. When the operation answers a new
  envelope, it opens under the new password to exactly what the old envelope held under the old one,
  which is left in the cache; it answers that nothing is to be done only when the new password opens
  the envelope already; and whatever happens, failure included, a password that enters the cache is
  one that opens the envelope.\<close>

theorem reencrypt_keeps_contents:
  assumes "sealing_lawful k" and "draws rng"
    and "reencrypt_envelope k rng env new prompt (old, s) = Some (r, old', s')"
  shows "(\<forall>env'. r = Inr (Some env') \<longrightarrow> (\<exists>pw pt. old' = Some pw \<and> decrypt_bytes k env pw = Inr pt \<and>
      decrypt_bytes k env' new = Inr pt \<and> is_encrypted_envelope k env')) \<and>
    (r = Inr None \<longrightarrow> (\<exists>pt. decrypt_bytes k env new = Inr pt) \<and> old' = old \<and> s' = s) \<and>
    (old' \<noteq> old \<longrightarrow> (\<exists>pw pt. old' = Some pw \<and> decrypt_bytes k env pw = Inr pt))"
proof -
  note opens = encrypt_bytes_opens [OF assms(1,2)]
  have "\<exists>pw. old = Some pw \<and> decrypt_bytes k env pw = Inr pt"
    if "Option.bind old (\<lambda>pw. rok (decrypt_bytes k env pw)) = Some pt" for pt
    using that by (cases old) auto
  moreover have "\<exists>pt. decrypt_bytes k env new = Inr pt" if "\<forall>e. decrypt_bytes k env new \<noteq> Inl e"
    using that by (cases "decrypt_bytes k env new") auto
  ultimately show ?thesis using assms(3)
    unfolding reencrypt_envelope_def
    by (auto simp: try_op_def lift_def opens split: if_splits option.splits prod.splits sum.splits
        elim!: opens dest: opens)
qed

section \<open>Properties\<close>

text \<open>A concrete cipher for the witnesses: the text followed by a tag that repeats the key's last byte.\<close>

definition toy_tag :: "bytes \<Rightarrow> bytes" where
  "toy_tag key = replicate 16 (last (0 # key))"

definition toy_sealing :: "json sealing" where
  "toy_sealing = \<lparr>se_json = flat_json, se_b64 = plain_engine, se_fast_kdf = True, se_params = (\<lambda>_ _ _. Inr ()),
     se_argon2 = (\<lambda>_ _ _ pw _. Inr (replicate 32 (sum_list pw))), se_cipher = (\<lambda>_. Inr ()),
     se_encrypt = (\<lambda>key _ pt. Inr (pt @ toy_tag key)),
     se_decrypt = (\<lambda>key _ ct. if drop (length ct - 16) ct = toy_tag key then Some (take (length ct - 16) ct) else None)\<rparr>"

definition toy_rng :: "nat \<Rightarrow> 's \<Rightarrow> bytes \<times> 's" where
  "toy_rng n s = (replicate n 7, s)"

lemma toy_sealing_lawful: "sealing_lawful toy_sealing"
  by (simp add: sealing_lawful_def toy_sealing_def toy_tag_def flat_json_lawful plain_engine_lawful)

lemma toy_rng_draws: "draws toy_rng"
  by (simp add: draws_def toy_rng_def)

lemma toy_encrypts: "\<exists>env. encrypt_bytes toy_sealing toy_rng pt pw s = Some (Inr env, s)"
proof -
  obtain salt nonce ct where c: "salt = replicate 16 (7 :: u8)" "nonce = replicate 12 (7 :: u8)" by blast
  have "\<exists>env. write_envelope toy_sealing (m, t, p) salt nonce ct = Inr env" for m t p salt nonce ct
    by (simp add: write_envelope_def Let_def toy_sealing_def flat_json_def)
  then show ?thesis
    by (simp add: encrypt_bytes_def draw_def toy_rng_def argon2_cost_def derive_key_with_def encrypt_under_def)
      (simp add: toy_sealing_def)
qed

lemma toy_wrong_password:
  assumes "encrypt_bytes toy_sealing toy_rng pt pw s = Some (Inr env, s')"
    and "sum_list (utf8_bytes pw') \<noteq> sum_list (utf8_bytes pw)"
  shows "rok (decrypt_bytes toy_sealing env pw') = None"
proof -
  have w: "write_envelope toy_sealing (8, 1, 1) (replicate 16 7) (replicate 12 7)
      (pt @ toy_tag (replicate 32 (sum_list (utf8_bytes pw)))) = Inr env"
    using assms(1)
    by (simp add: encrypt_bytes_def draw_def toy_rng_def argon2_cost_def derive_key_with_def encrypt_under_def)
      (simp add: toy_sealing_def)
  show ?thesis
    using write_envelope_read(2) [OF toy_sealing_lawful w, of pw'] assms(2)
    by (auto simp: derive_key_with_def decrypt_under_def toy_sealing_def toy_tag_def ok_or_def)
qed

text \<open>The cost setting plays no part in reading.\<close>

lemma reading_ignores_cost [simp]:
  "json_cost (k\<lparr>se_fast_kdf := fast\<rparr>) = json_cost k" "decode_field (k\<lparr>se_fast_kdf := fast\<rparr>) = decode_field k"
  "derive_key_with (k\<lparr>se_fast_kdf := fast\<rparr>) = derive_key_with k"
  "decrypt_under (k\<lparr>se_fast_kdf := fast\<rparr>) = decrypt_under k"
  by (simp_all add: fun_eq_iff json_cost_def decode_field_def derive_key_with_def decrypt_under_def)

text \<open>
  C24: A sealed file opens to what was sealed, whatever the salt, the nonce and the cost were: what
  \<open>encrypt_bytes\<close> writes is recognised as an envelope and decrypts under its password to the original
  bytes, also by a program whose own cost setting is another, because the envelope carries its cost.\<close>

theorem envelope_roundtrip:
  assumes "sealing_lawful k" and "draws rng" and "encrypt_bytes k rng plaintext password s = Some (Inr env, s')"
  shows "is_encrypted_envelope k env \<and>
    decrypt_bytes (k\<lparr>se_fast_kdf := fast\<rparr>) env password = Inr plaintext"
proof -
  have "decrypt_bytes (k\<lparr>se_fast_kdf := fast\<rparr>) env password = decrypt_bytes k env password"
    unfolding decrypt_bytes_def reading_ignores_cost by simp
  then show ?thesis using encrypt_bytes_opens [OF assms] by simp
qed

theorem envelope_roundtrip_witness:
  "\<exists>env. is_encrypted_envelope toy_sealing env \<and>
     decrypt_bytes (toy_sealing\<lparr>se_fast_kdf := False\<rparr>) env ''pw'' = Inr [1, 2, 3]"
  using toy_encrypts [of "[1, 2, 3]" "''pw''" "0 :: nat"]
  by (elim exE) (rule exI, erule envelope_roundtrip [OF toy_sealing_lawful toy_rng_draws])

text \<open>
  A binary secret opens to what was sealed and is 51 bytes longer, 83 for a private key; its
  form is strict, a blob the reader accepts is exactly the one the writer makes of what was read, so
  two blobs with the same parts are the same bytes.\<close>

theorem secret_roundtrip:
  assumes "sealing_lawful k" and "draws rng" and "encrypt_secret k rng plaintext password s = Some (Inr blob, s')"
  shows "decrypt_secret k blob password = Inr plaintext \<and> length blob = 51 + length plaintext \<and>
    (blob_read blob' = Inr b \<longleftrightarrow> blob_valid b \<and> blob_write b = blob')"
  using encrypt_secret_opens [OF assms] secret_codec.dec_iff [of blob' b] by simp

lemma toy_encrypts_secret: "\<exists>blob. encrypt_secret toy_sealing toy_rng pt pw s = Some (Inr blob, s)"
  by (simp add: encrypt_secret_def draw_def toy_rng_def argon2_cost_def derive_key_with_def encrypt_under_def u8_of_def)
    (simp add: toy_sealing_def)

theorem secret_roundtrip_witness:
  "\<exists>blob. decrypt_secret toy_sealing blob ''pw'' = Inr (replicate 32 5) \<and> length blob = 83"
  using toy_encrypts_secret [of "replicate 32 5" "''pw''" "(0::nat)"] secret_roundtrip [OF toy_sealing_lawful toy_rng_draws]
  by fastforce

theorem reencrypt_keeps_contents_witness:
  "\<exists>env env'. decrypt_bytes toy_sealing env ''old'' = Inr [9] \<and> decrypt_bytes toy_sealing env' ''new'' = Inr [9]"
proof -
  obtain env where e: "encrypt_bytes toy_sealing toy_rng [9] ''old'' (0::nat) = Some (Inr env, (0::nat))"
    by (rule exE [OF toy_encrypts])
  obtain env' where e': "encrypt_bytes toy_sealing toy_rng [9] ''new'' (0::nat) = Some (Inr env', (0::nat))"
    by (rule exE [OF toy_encrypts])
  note o = encrypt_bytes_opens [OF toy_sealing_lawful toy_rng_draws e]
  have n: "rok (decrypt_bytes toy_sealing env ''new'') = None"
    by (rule toy_wrong_password [OF e]) (simp add: utf8_bytes_def)
  have "reencrypt_envelope toy_sealing toy_rng env ''new'' (ret ''old'') (None, (0::nat)) =
      Some (Inr (Some env'), Some ''old'', (0::nat))"
    using o n e' by (simp add: reencrypt_envelope_def)
  from reencrypt_keeps_contents [OF toy_sealing_lawful toy_rng_draws this] o(2) show ?thesis by auto
qed

end
