(* ===== verification/Disk.thy ===== *)
theory Disk
  imports Envelope "HOL-Library.List_Lexorder" "HOL-Library.Char_ord"
begin

text \<open>
  What the vault uses of \<open>std::fs\<close> and \<open>std::path\<close>. The disk is a map from paths to contents with two
  further fields: the contents it went through, latest first, so that a theorem can speak of a crash
  at any moment, and the faults still to come, one per operation. A failed write leaves any bytes, and
  a write may silently leave other bytes than those it was given; a read is exact or fails. Paths are
  Unix paths in UTF-8, and the files reached by different paths are different.
\<close>

type_synonym path = string
type_synonym files = "path \<Rightarrow> bytes option"

section \<open>Paths\<close>

datatype component = RootDir | CurDir | ParentDir | Normal string

text \<open>The order of \<open>std::path::Component\<close>, by which paths compare.\<close>

fun component_key :: "component \<Rightarrow> nat \<times> string" where
  "component_key RootDir = (1, [])"
| "component_key CurDir = (2, [])"
| "component_key ParentDir = (3, [])"
| "component_key (Normal s) = (4, s)"

lemma component_key_inj: "component_key a = component_key b \<Longrightarrow> a = b"
  by (cases a; cases b) simp_all

instantiation component :: linorder
begin

definition less_eq_component :: "component \<Rightarrow> component \<Rightarrow> bool" where
  "less_eq_component a b \<longleftrightarrow>
     fst (component_key a) < fst (component_key b) \<or>
     fst (component_key a) = fst (component_key b) \<and> snd (component_key a) \<le> snd (component_key b)"

definition less_component :: "component \<Rightarrow> component \<Rightarrow> bool" where
  "less_component a b \<longleftrightarrow> a \<le> b \<and> \<not> b \<le> (a :: component)"

instance
  by standard
    (auto simp: less_eq_component_def less_component_def intro: order_trans component_key_inj
      simp: prod_eq_iff)

end

text \<open>Cutting a string at every occurrence of a character, and the components of a path.\<close>

fun split_on :: "char \<Rightarrow> string \<Rightarrow> string list" where
  "split_on d [] = [[]]"
| "split_on d (c # cs) =
     (if c = d then [] # split_on d cs
      else case split_on d cs of [] \<Rightarrow> [[c]] | w # ws \<Rightarrow> (c # w) # ws)"

definition component_of :: "string \<Rightarrow> component" where
  "component_of s = (if s = ''..'' then ParentDir else Normal s)"

definition components :: "path \<Rightarrow> component list" where
  "components p =
     (let parts = split_on CHR ''/'' p; rooted = starts_with p ''/'';
          rest = map component_of (filter (\<lambda>s. s \<noteq> [] \<and> s \<noteq> ''.'') parts)
      in if rooted then RootDir # rest
         else if parts \<noteq> [] \<and> hd parts = ''.'' then CurDir # rest
         else rest)"

definition component_text :: "component \<Rightarrow> string" where
  "component_text c = (case c of RootDir \<Rightarrow> ''/'' | CurDir \<Rightarrow> ''.'' | ParentDir \<Rightarrow> ''..'' | Normal s \<Rightarrow> s)"

text \<open>\<open>Path::join\<close>.\<close>

definition path_join :: "path \<Rightarrow> path \<Rightarrow> path" where
  "path_join dir p =
     (if starts_with p ''/'' then p
      else if dir = [] \<or> last dir = CHR ''/'' then dir @ p
      else dir @ ''/'' @ p)"

text \<open>A file name cut at its last dot into stem and extension; none when the only dot comes first.\<close>

definition split_at_dot :: "string \<Rightarrow> string \<times> string option" where
  "split_at_dot name =
     (let ext = rev (takeWhile (\<lambda>c. c \<noteq> CHR ''.'') (rev name));
          stem = rev (tl (dropWhile (\<lambda>c. c \<noteq> CHR ''.'') (rev name)))
      in if CHR ''.'' \<notin> set name \<or> stem = [] then (name, None) else (stem, Some ext))"

definition path_extension :: "path \<Rightarrow> string option" where
  "path_extension p =
     (case rev (components p) of Normal name # _ \<Rightarrow> snd (split_at_dot name) | _ \<Rightarrow> None)"

text \<open>The components of \<open>p.with_extension("")\<close>.\<close>

definition without_extension :: "component list \<Rightarrow> component list" where
  "without_extension cs =
     (case rev cs of Normal name # r \<Rightarrow> rev r @ [Normal (fst (split_at_dot name))] | _ \<Rightarrow> cs)"

section \<open>The disk\<close>

datatype fault = Works | Fails bytes | Garbles bytes

record disk =
  d_files :: files
  d_past :: "files list"
  d_faults :: "fault list"

definition next_fault :: "'p disk_scheme \<Rightarrow> fault \<times> 'p disk_scheme" where
  "next_fault d = (case d_faults d of [] \<Rightarrow> (Works, d) | x # xs \<Rightarrow> (x, d\<lparr>d_faults := xs\<rparr>))"

definition put :: "path \<Rightarrow> bytes option \<Rightarrow> 'p disk_scheme \<Rightarrow> 'p disk_scheme" where
  "put p c d = d\<lparr>d_files := (d_files d)(p := c), d_past := d_files d # d_past d\<rparr>"

definition fs_exists :: "path \<Rightarrow> ('p disk_scheme, bool) vop" where
  "fs_exists p d =
     (case next_fault d of
        (Fails _, d) \<Rightarrow> Some (Inr False, d)
      | (_, d) \<Rightarrow> Some (Inr (d_files d p \<noteq> None), d))"

definition fs_read :: "path \<Rightarrow> ('p disk_scheme, bytes) vop" where
  "fs_read p d =
     (case next_fault d of
        (Fails _, d) \<Rightarrow> Some (Inl ''read error'', d)
      | (_, d) \<Rightarrow> Some (ok_or ''No such file or directory'' (d_files d p), d))"

definition fs_create_new :: "path \<Rightarrow> ('p disk_scheme, unit) vop" where
  "fs_create_new p d =
     (case next_fault d of
        (Fails _, d) \<Rightarrow> Some (Inl ''create error'', d)
      | (_, d) \<Rightarrow> if d_files d p \<noteq> None then Some (Inl ''File exists'', d) else Some (Inr (), put p (Some []) d))"

definition fs_write_all :: "path \<Rightarrow> bytes \<Rightarrow> ('p disk_scheme, unit) vop" where
  "fs_write_all p bs d =
     (case next_fault d of
        (Works, d) \<Rightarrow> Some (Inr (), put p (Some bs) d)
      | (Fails left, d) \<Rightarrow> Some (Inl ''write error'', put p (Some left) d)
      | (Garbles left, d) \<Rightarrow> Some (Inr (), put p (Some left) d))"

definition fs_sync_all :: "path \<Rightarrow> ('p disk_scheme, unit) vop" where
  "fs_sync_all p d =
     (case next_fault d of
        (Fails _, d) \<Rightarrow> Some (Inl ''sync error'', d)
      | (_, d) \<Rightarrow> Some (Inr (), d))"

definition fs_remove_file :: "path \<Rightarrow> ('p disk_scheme, unit) vop" where
  "fs_remove_file p d =
     (case next_fault d of
        (Fails _, d) \<Rightarrow> Some (Inl ''remove error'', d)
      | (_, d) \<Rightarrow> if d_files d p = None then Some (Inl ''No such file or directory'', d) else Some (Inr (), put p None d))"

lemmas fs_defs = fs_exists_def fs_read_def fs_create_new_def fs_write_all_def fs_sync_all_def fs_remove_file_def

lemma next_fault_keeps: "next_fault d = (x, d') \<Longrightarrow> d_files d' = d_files d \<and> d_past d' = d_past d"
  by (auto simp: next_fault_def split: list.splits)

lemma put_simps [simp]:
  "d_files (put p c d) = (d_files d)(p := c)" "d_past (put p c d) = d_files d # d_past d"
  "d_faults (put p c d) = d_faults d"
  by (simp_all add: put_def)

text \<open>The states a run leads through, the last one included.\<close>

definition seen :: "'p disk_scheme \<Rightarrow> files list" where
  "seen d = d_files d # d_past d"

text \<open>Every state of the run from \<open>d\<close> to \<open>d'\<close> satisfies \<open>C\<close>, when the first one does.\<close>

definition through :: "(files \<Rightarrow> bool) \<Rightarrow> 'p disk_scheme \<Rightarrow> 'q disk_scheme \<Rightarrow> bool" where
  "through C d d' \<longleftrightarrow> (C (d_files d) \<longrightarrow> (\<exists>run. seen d' = run @ seen d \<and> (\<forall>fs \<in> set run. C fs)))"

lemma through_last: "through C d d' \<Longrightarrow> C (d_files d) \<Longrightarrow> C (d_files d')"
  unfolding through_def seen_def by (metis append_Cons append_Nil list.inject list.set_intros(1) neq_Nil_conv)

lemma through_refl: "reflp (through C)"
  by (auto simp: reflp_def through_def)

lemma through_trans: "transp (through C)"
proof (rule transpI)
  fix a b c :: "'a disk_scheme"
  assume ab: "through C a b" and bc: "through C b c"
  show "through C a c"
  proof (unfold through_def, intro impI)
    assume "C (d_files a)"
    with ab bc through_last [OF ab this] obtain r r' where
      "seen b = r @ seen a" "\<forall>fs \<in> set r. C fs" "seen c = r' @ seen b" "\<forall>fs \<in> set r'. C fs"
      by (auto simp: through_def)
    then have "seen c = (r' @ r) @ seen a" "\<forall>fs \<in> set (r' @ r). C fs" by auto
    then show "\<exists>run. seen c = run @ seen a \<and> (\<forall>fs \<in> set run. C fs)" by blast
  qed
qed

lemma through_same: "d_files d' = d_files d \<Longrightarrow> d_past d' = d_past d \<Longrightarrow> through C d d'"
  by (simp add: through_def seen_def)

lemma through_put: "(C (d_files d) \<Longrightarrow> C ((d_files d)(p := c))) \<Longrightarrow> through C d (put p c d)"
  unfolding through_def seen_def by (intro impI exI [of _ "[(d_files d)(p := c)]"]) simp

lemma through_put': "next_fault d = (x, d1) \<Longrightarrow> (C (d_files d) \<Longrightarrow> C ((d_files d)(p := c))) \<Longrightarrow> through C d (put p c d1)"
  using through_put [of C d1 p c] next_fault_keeps [of d x d1] by (simp add: through_def seen_def)

lemma through_fault: "next_fault d = (x, d1) \<Longrightarrow> through C d d1"
  using next_fault_keeps [of d x d1] by (simp add: through_same)

lemma keeps_read [simp, intro]:
  "keeps (through C) (fs_exists p)" "keeps (through C) (fs_read p)" "keeps (through C) (fs_sync_all p)"
  by (auto simp: keeps_def fs_defs split: prod.splits fault.splits intro: through_fault)

lemma keeps_write:
  assumes "\<And>fs c. C fs \<Longrightarrow> C (fs(p := c))"
  shows "keeps (through C) (fs_create_new p)" and "keeps (through C) (fs_write_all p bs)"
    and "keeps (through C) (fs_remove_file p)"
  by (auto simp: keeps_def fs_defs split: prod.splits fault.splits if_splits
      intro: through_fault through_put' assms)

end
