(* ===== verification/PasswordCache.thy ===== *)
theory PasswordCache
  imports Envelope
begin

text \<open>
  The interface of a reader of sealed files that caches its password: the vault and the account
  directory both open a file with the cached password first, ask for one only when that is absent or
  does not open the file, and cache a password only after it has opened one. What is proved from the
  three laws holds for both: files sealed under one password ask for it at most once.
\<close>

locale password_cache =
  fixes unlock :: "'f \<Rightarrow> ('s, string) vop \<Rightarrow> (string option \<times> 's, 'r) vop"
    and opens :: "'f \<Rightarrow> string \<Rightarrow> 'r option"
    and wrong :: "'f \<Rightarrow> string"
  assumes hit: "opens f pw = Some r \<Longrightarrow> unlock f prompt (Some pw, s) = Some (Inr r, Some pw, s)"
    and ask: "Option.bind cache (opens f) = None \<Longrightarrow>
      unlock f prompt (cache, s) = try_op (on_rest prompt) (\<lambda>pw.
        case opens f pw of
          None \<Rightarrow> fail (wrong f)
        | Some r \<Rightarrow> try_op (cache_put (Some pw)) (\<lambda>_. ret r)) (cache, s)"
begin

lemma hits:
  "\<forall>f \<in> set fs. opens f pw \<noteq> None \<Longrightarrow>
     collect_ops fs (\<lambda>f. unlock f prompt) (Some pw, s) = Some (Inr (map (\<lambda>f. the (opens f pw)) fs), Some pw, s)"
  by (induction fs) (auto simp: hit)

lemma asked_once:
  assumes "prompt s = Some (Inr pw, s')" and "\<forall>f \<in> set fs. opens f pw \<noteq> None" and "fs \<noteq> []"
  shows "collect_ops fs (\<lambda>f. unlock f prompt) (None, s) = Some (Inr (map (\<lambda>f. the (opens f pw)) fs), Some pw, s')"
proof -
  obtain f gs where fs: "fs = f # gs" using assms(3) by (cases fs) auto
  with assms have "unlock f prompt (None, s) = Some (Inr (the (opens f pw)), Some pw, s')"
    by (subst ask) auto
  with fs assms(2) hits [of gs pw prompt s'] show ?thesis by simp
qed

lemma cached_opens:
  assumes "unlock f prompt (cache, s) = Some (r, cache', s')"
  shows "cache' = cache \<or> (\<exists>pw x. cache' = Some pw \<and> opens f pw = Some x)"
    and "r = Inr x \<Longrightarrow> \<exists>pw. cache' = Some pw \<and> opens f pw = Some x"
    and "Option.bind cache (opens f) \<noteq> None \<Longrightarrow> s' = s"
proof -
  show "cache' = cache \<or> (\<exists>pw x. cache' = Some pw \<and> opens f pw = Some x)"
    "r = Inr x \<Longrightarrow> \<exists>pw. cache' = Some pw \<and> opens f pw = Some x"
    "Option.bind cache (opens f) \<noteq> None \<Longrightarrow> s' = s"
  proof (atomize (full), cases "Option.bind cache (opens f)")
    case None
    with assms show "(cache' = cache \<or> (\<exists>pw x. cache' = Some pw \<and> opens f pw = Some x)) \<and>
        (r = Inr x \<longrightarrow> (\<exists>pw. cache' = Some pw \<and> opens f pw = Some x)) \<and>
        (Option.bind cache (opens f) \<noteq> None \<longrightarrow> s' = s)"
      by (auto simp: ask try_op_def split: option.splits sum.splits prod.splits)
  next
    case (Some y)
    then obtain pw where "cache = Some pw" "opens f pw = Some y" by (cases cache) auto
    with assms show "(cache' = cache \<or> (\<exists>pw x. cache' = Some pw \<and> opens f pw = Some x)) \<and>
        (r = Inr x \<longrightarrow> (\<exists>pw. cache' = Some pw \<and> opens f pw = Some x)) \<and>
        (Option.bind cache (opens f) \<noteq> None \<longrightarrow> s' = s)"
      by (auto simp: hit)
  qed
qed

end

end
