(* ===== verification/Vault.thy ===== *)
theory Vault
  imports Disk PasswordCache
begin

text \<open>
  Key files in a directory, \<open>blockchain_account_vault/src/vault.rs\<close>: their two forms, finding them,
  opening one and sealing one. The vault's password is the first component of the state; the disk is
  the second. A directory is read as a tree, so it is finite.
\<close>

section \<open>Key files\<close>

datatype key_file = KeyFile (kf_plain: path)

definition SEALED_SUFFIX :: string where "SEALED_SUFFIX = ''.enc''"

definition key_file_at :: "path \<Rightarrow> key_file" where
  "key_file_at p = KeyFile (case strip_suffix SEALED_SUFFIX p of Some stripped \<Rightarrow> stripped | None \<Rightarrow> p)"

definition sealed_path :: "key_file \<Rightarrow> path" where
  "sealed_path f = kf_plain f @ SEALED_SUFFIX"

definition key_file_exists :: "key_file \<Rightarrow> ('p disk_scheme, bool) vop" where
  "key_file_exists f =
     try_op (fs_exists (kf_plain f)) (\<lambda>plain. if plain then ret True else fs_exists (sealed_path f))"

definition is_sealed :: "key_file \<Rightarrow> ('p disk_scheme, bool) vop" where
  "is_sealed f =
     try_op (fs_exists (kf_plain f)) (\<lambda>plain. if plain then ret False else fs_exists (sealed_path f))"

definition name_under :: "path \<Rightarrow> key_file \<Rightarrow> string" where
  "name_under root f =
     (let cs = components (kf_plain f);
          relative = (case strip_prefix (components root) cs of Some r \<Rightarrow> r | None \<Rightarrow> cs)
      in concat (case map component_text (without_extension relative) of
           [] \<Rightarrow> []
         | w # ws \<Rightarrow> w # map (\<lambda>v. ''/'' @ v) ws))"

definition is_key_file_name :: "string \<Rightarrow> bool" where
  "is_key_file_name name =
     (let plain = (case strip_suffix SEALED_SUFFIX name of Some s \<Rightarrow> s | None \<Rightarrow> name)
      in case path_extension plain of Some e \<Rightarrow> e \<in> set [''json'', ''key''] | None \<Rightarrow> False)"

section \<open>Finding them\<close>

datatype dir_tree = Unreadable string | Listing "dir_entry list"
  and dir_entry = BadEntry string | FileEntry string | DirEntry string dir_tree

text \<open>The debug form of a path in an error's text.\<close>

definition debug_path :: "path \<Rightarrow> string" where
  "debug_path p =
     [CHR 0x22] @ concat (map (\<lambda>c. if c = CHR 0x22 \<or> c = CHR 0x5C then [CHR 0x5C, c] else [c]) p) @ [CHR 0x22]"

text \<open>\<open>BTreeSet::insert\<close>: by the order of the paths' components, keeping an element that is there.\<close>

abbreviation kf_components :: "key_file \<Rightarrow> component list" where
  "kf_components f \<equiv> components (kf_plain f)"

definition insert_found :: "key_file \<Rightarrow> key_file list \<Rightarrow> key_file list" where
  "insert_found = insort_insert_key kf_components"

fun collect_dir :: "path \<Rightarrow> bool \<Rightarrow> dir_tree \<Rightarrow> key_file list \<Rightarrow> string + key_file list"
  and collect_entries :: "path \<Rightarrow> bool \<Rightarrow> dir_entry list \<Rightarrow> key_file list \<Rightarrow> string + key_file list" where
  "collect_dir dir recursive (Unreadable e) found = Inl (''failed to read directory '' @ debug_path dir)"
| "collect_dir dir recursive (Listing es) found = collect_entries dir recursive es found"
| "collect_entries dir recursive [] found = Inr found"
| "collect_entries dir recursive (BadEntry e # es) found = Inl e"
| "collect_entries dir recursive (FileEntry name # es) found =
     collect_entries dir recursive es
       (if is_key_file_name name then insert_found (key_file_at (path_join dir name)) found else found)"
| "collect_entries dir recursive (DirEntry name t # es) found =
     (if recursive
      then rbind (collect_dir (path_join dir name) recursive t found) (collect_entries dir recursive es)
      else collect_entries dir recursive es found)"

definition discover :: "path \<Rightarrow> bool \<Rightarrow> dir_tree \<Rightarrow> string + key_file list" where
  "discover dir recursive t = collect_dir dir recursive t []"

section \<open>Opening\<close>

record opened =
  op_bytes :: bytes
  op_was_sealed :: bool

text \<open>An error's text replaced by that of its context.\<close>

abbreviation with_context :: "string \<Rightarrow> ('s, 'a) vop \<Rightarrow> ('s, 'a) vop" where
  "with_context msg m \<equiv> map_err (\<lambda>_. msg) m"

definition vault_decrypt ::
  "'j sealing \<Rightarrow> path \<Rightarrow> bytes \<Rightarrow> ('s, string) vop \<Rightarrow> (string option \<times> 's, opened) vop" where
  "vault_decrypt k p envelope prompt =
     try_op cached (\<lambda>password.
       case Option.bind password (\<lambda>pw. rok (decrypt_bytes k envelope pw)) of
         Some bs \<Rightarrow> ret \<lparr>op_bytes = bs, op_was_sealed = True\<rparr>
       | None \<Rightarrow>
           try_op (on_rest prompt) (\<lambda>pw.
           try_op (lift (rmap_err (\<lambda>_. ''the password does not open '' @ debug_path p) (decrypt_bytes k envelope pw))) (\<lambda>bs.
           try_op (cache_put (Some pw)) (\<lambda>_. ret \<lparr>op_bytes = bs, op_was_sealed = True\<rparr>))))"

definition vault_open ::
  "'j sealing \<Rightarrow> key_file \<Rightarrow> ('p disk_scheme, string) vop \<Rightarrow> (string option \<times> 'p disk_scheme, opened) vop" where
  "vault_open k file prompt =
     (let plain = kf_plain file; sealed = sealed_path file
      in try_op (on_rest (fs_exists plain)) (\<lambda>here.
         if here then
           try_op (on_rest (with_context (''failed to read '' @ debug_path plain) (fs_read plain))) (\<lambda>bs.
             if is_encrypted_envelope k bs then vault_decrypt k plain bs prompt
             else ret \<lparr>op_bytes = bs, op_was_sealed = False\<rparr>)
         else
           try_op (on_rest (fs_exists sealed)) (\<lambda>there.
             if there then
               try_op (on_rest (with_context (''failed to read '' @ debug_path sealed) (fs_read sealed))) (\<lambda>bs.
                 vault_decrypt k sealed bs prompt)
             else fail (''no key file at '' @ debug_path plain @ '' (nor '' @ debug_path sealed @ '')''))))"

interpretation vault_cache: password_cache
  "\<lambda>(p, envelope). vault_decrypt k p envelope"
  "\<lambda>(p, envelope) pw. map_option (\<lambda>bs. \<lparr>op_bytes = bs, op_was_sealed = True\<rparr>) (rok (decrypt_bytes k envelope pw))"
  "\<lambda>(p, envelope). ''the password does not open '' @ debug_path p"
proof unfold_locales
  fix f :: "path \<times> bytes" and pw r prompt and s :: 's
  assume "(case f of (p, envelope) \<Rightarrow> \<lambda>pw. map_option (\<lambda>bs. \<lparr>op_bytes = bs, op_was_sealed = True\<rparr>)
      (rok (decrypt_bytes k envelope pw))) pw = Some r"
  then show "(case f of (p, envelope) \<Rightarrow> vault_decrypt k p envelope) prompt (Some pw, s) = Some (Inr r, Some pw, s)"
    by (cases f) (auto simp: vault_decrypt_def)
next
  fix f :: "path \<times> bytes" and cache prompt and s :: 's
  obtain p envelope where f: "f = (p, envelope)" by (cases f)
  assume "Option.bind cache (case f of (p, envelope) \<Rightarrow> \<lambda>pw. map_option (\<lambda>bs. \<lparr>op_bytes = bs, op_was_sealed = True\<rparr>)
      (rok (decrypt_bytes k envelope pw))) = None"
  then have "Option.bind cache (\<lambda>pw. rok (decrypt_bytes k envelope pw)) = None"
    by (cases cache) (auto simp: f)
  then show "(case f of (p, envelope) \<Rightarrow> vault_decrypt k p envelope) prompt (cache, s) =
      try_op (on_rest prompt) (\<lambda>pw.
        case (case f of (p, envelope) \<Rightarrow> \<lambda>pw. map_option (\<lambda>bs. \<lparr>op_bytes = bs, op_was_sealed = True\<rparr>)
            (rok (decrypt_bytes k envelope pw))) pw of
          None \<Rightarrow> fail (case f of (p, envelope) \<Rightarrow> ''the password does not open '' @ debug_path p)
        | Some r \<Rightarrow> try_op (cache_put (Some pw)) (\<lambda>_. ret r)) (cache, s)"
    by (simp add: f vault_decrypt_def rok_def rmap_err_def lift_def try_op_def
        split: option.splits sum.splits prod.splits)
qed

section \<open>Sealing\<close>

definition required_password :: "string option \<Rightarrow> string + string" where
  "required_password password = ok_or ''the vault has no password yet'' password"

definition write_private :: "path \<Rightarrow> bytes \<Rightarrow> ('p disk_scheme, unit) vop" where
  "write_private p bs =
     try_op (with_context (''failed to create '' @ debug_path p) (fs_create_new p)) (\<lambda>_.
     try_op (with_context (''failed to write '' @ debug_path p) (fs_write_all p bs)) (\<lambda>_.
       with_context (''failed to flush '' @ debug_path p) (fs_sync_all p)))"

text \<open>Writing the sealed file, reading it back, and removing it when that gives other bytes.\<close>

definition write_checked :: "path \<Rightarrow> bytes \<Rightarrow> string \<Rightarrow> ('p disk_scheme, unit) vop" where
  "write_checked sealed envelope msg =
     try_op (write_private sealed envelope) (\<lambda>_.
     try_op (with_context (''failed to re-read '' @ debug_path sealed) (fs_read sealed)) (\<lambda>written.
       if written \<noteq> envelope then attempt (fs_remove_file sealed) (\<lambda>_. fail msg) else ret ()))"

definition check_opens :: "'j sealing \<Rightarrow> string option \<Rightarrow> path \<Rightarrow> ('p disk_scheme, unit) vop" where
  "check_opens k password sealed =
     try_op (lift (required_password password)) (\<lambda>password.
     try_op (with_context (''failed to read '' @ debug_path sealed) (fs_read sealed)) (\<lambda>envelope.
       lift (rmap_err (\<lambda>_. ''the password does not open '' @ debug_path sealed)
               (rbind (decrypt_bytes k envelope password) (\<lambda>_. Inr ())))))"

text \<open>The envelope a key file's bytes are sealed as.\<close>

definition envelope_for ::
  "'j sealing \<Rightarrow> (nat \<Rightarrow> 's \<Rightarrow> bytes \<times> 's) \<Rightarrow> string \<Rightarrow> path \<Rightarrow> bytes \<Rightarrow> ('s, bytes) vop" where
  "envelope_for k rng password plain bs =
     (if is_encrypted_envelope k bs then
        try_op (lift (rmap_err (\<lambda>_. ''the password does not open '' @ debug_path plain) (decrypt_bytes k bs password)))
          (\<lambda>_. ret bs)
      else
        try_op (encrypt_bytes k rng bs password) (\<lambda>envelope.
        try_op (lift (decrypt_bytes k envelope password)) (\<lambda>reopened.
          if reopened \<noteq> bs
          then fail (''sealing '' @ debug_path plain @ '' did not round-trip; it is left as it was'')
          else ret envelope)))"

text \<open>\<open>seal\<close> up to the removal of the plaintext.\<close>

definition seal_beside ::
  "'j sealing \<Rightarrow> (nat \<Rightarrow> 'p disk_scheme \<Rightarrow> bytes \<times> 'p disk_scheme) \<Rightarrow> string \<Rightarrow> key_file \<Rightarrow> ('p disk_scheme, unit) vop" where
  "seal_beside k rng password file =
     (let plain = kf_plain file; sealed = sealed_path file
      in try_op (fs_exists sealed) (\<lambda>there.
         if there then
           fail (''both '' @ debug_path plain @ '' and '' @ debug_path sealed @ '' exist; remove the one that is out of date'')
         else
           try_op (with_context (''failed to read '' @ debug_path plain) (fs_read plain)) (\<lambda>bs.
           try_op (envelope_for k rng password plain bs) (\<lambda>envelope.
             write_checked sealed envelope
               (debug_path sealed @ '' did not read back as written; '' @ debug_path plain @ '' is left as it was'')))))"

definition vault_seal ::
  "'j sealing \<Rightarrow> (nat \<Rightarrow> 'p disk_scheme \<Rightarrow> bytes \<times> 'p disk_scheme) \<Rightarrow> string option \<Rightarrow> key_file \<Rightarrow>
     ('p disk_scheme, bool) vop" where
  "vault_seal k rng password file =
     (let plain = kf_plain file; sealed = sealed_path file
      in try_op (lift (required_password password)) (\<lambda>password.
         try_op (fs_exists plain) (\<lambda>here.
         if \<not> here then
           try_op (fs_exists sealed) (\<lambda>there.
             if there then ret False else fail (''no key file at '' @ debug_path plain))
         else
           try_op (seal_beside k rng password file) (\<lambda>_.
           try_op (with_context (''failed to remove '' @ debug_path plain) (fs_remove_file plain)) (\<lambda>_. ret True)))))"

definition refuse_existing :: "key_file \<Rightarrow> ('p disk_scheme, unit) vop" where
  "refuse_existing file =
     try_op (key_file_exists file) (\<lambda>there.
       if there then fail (debug_path (kf_plain file) @ '' exists already (in plain or sealed form); it is left as it is'')
       else ret ())"

definition vault_seal_new ::
  "'j sealing \<Rightarrow> (nat \<Rightarrow> 'p disk_scheme \<Rightarrow> bytes \<times> 'p disk_scheme) \<Rightarrow> string option \<Rightarrow> key_file \<Rightarrow> bytes \<Rightarrow>
     ('p disk_scheme, path) vop" where
  "vault_seal_new k rng password file bs =
     try_op (lift (required_password password)) (\<lambda>password.
     try_op (refuse_existing file) (\<lambda>_.
     try_op (encrypt_bytes k rng bs password) (\<lambda>envelope.
     try_op (lift (decrypt_bytes k envelope password)) (\<lambda>reopened.
       if reopened \<noteq> bs then fail (''sealing '' @ debug_path (kf_plain file) @ '' did not round-trip'')
       else
         try_op (write_checked (sealed_path file) envelope (debug_path (sealed_path file) @ '' did not read back as written''))
           (\<lambda>_. ret (sealed_path file))))))"

definition write_new_plain :: "key_file \<Rightarrow> bytes \<Rightarrow> ('p disk_scheme, path) vop" where
  "write_new_plain file bs =
     try_op (refuse_existing file) (\<lambda>_.
     try_op (write_private (kf_plain file) bs) (\<lambda>_. ret (kf_plain file)))"

section \<open>What a key file holds\<close>

text \<open>
  The abstract contents of a key file under a password: its plaintext bytes, whichever of the two
  forms is on disk. This is what opening it gives; sealing must not change it at any moment.
\<close>

definition contents :: "'j sealing \<Rightarrow> string \<Rightarrow> files \<Rightarrow> key_file \<Rightarrow> bytes option" where
  "contents k pw fs f =
     (case fs (kf_plain f) of
        Some bs \<Rightarrow> if is_encrypted_envelope k bs then rok (decrypt_bytes k bs pw) else Some bs
      | None \<Rightarrow> Option.bind (fs (sealed_path f)) (\<lambda>env. rok (decrypt_bytes k env pw)))"

text \<open>The random source draws what it is asked for and leaves the disk alone.\<close>

definition rng_lawful :: "(nat \<Rightarrow> 'p disk_scheme \<Rightarrow> bytes \<times> 'p disk_scheme) \<Rightarrow> bool" where
  "rng_lawful rng \<longleftrightarrow> draws rng \<and>
     (\<forall>n d. d_files (snd (rng n d)) = d_files d \<and> d_past (snd (rng n d)) = d_past d)"

lemma sealed_neq_plain [simp]: "sealed_path f \<noteq> kf_plain f" "kf_plain f \<noteq> sealed_path f"
  by (auto simp: sealed_path_def SEALED_SUFFIX_def)

lemma keeps_draw: "rng_lawful rng \<Longrightarrow> keeps (through C) (draw rng n)"
proof (unfold keeps_def, intro allI impI)
  fix s r s'
  assume "rng_lawful rng" "draw rng n s = Some (r, s')"
  then have "d_files s' = d_files s \<and> d_past s' = d_past s"
    by (cases "rng n s") (auto simp: rng_lawful_def draw_def, metis snd_conv, metis snd_conv)
  then show "through C s s'" by (simp add: through_same)
qed

lemmas keeps_through = keeps_try [OF through_trans] keeps_attempt [OF through_trans] keeps_lift [OF through_refl]
  keeps_ret [OF through_refl] keeps_fail [OF through_refl]

lemma keeps_map_err: "keeps (through C) m \<Longrightarrow> keeps (through C) (map_err g m)"
  unfolding map_err_def by (intro keeps_through)

lemma keeps_if: "keeps R m \<Longrightarrow> keeps R m' \<Longrightarrow> keeps R (if b then m else m')"
  by simp

lemma keeps_encrypt: "rng_lawful rng \<Longrightarrow> keeps (through C) (encrypt_bytes k rng pt pw)"
  unfolding encrypt_bytes_def by (intro keeps_through keeps_draw)

lemma keeps_envelope_for: "rng_lawful rng \<Longrightarrow> keeps (through C) (envelope_for k rng pw plain bs)"
  unfolding envelope_for_def by (intro keeps_through keeps_if keeps_encrypt)

lemma keeps_write_checked:
  assumes "\<And>fs c. C fs \<Longrightarrow> C (fs(p := c))"
  shows "keeps (through C) (write_checked p envelope msg)" and "keeps (through C) (write_private p envelope)"
  unfolding write_checked_def write_private_def
  by (intro keeps_through keeps_if keeps_map_err keeps_read keeps_write assms; assumption)+

lemma write_private_new: "write_private p bs d = Some (Inr u, d') \<Longrightarrow> d_files d p = None"
  by (auto simp: write_private_def try_op_def map_err_def attempt_def fs_create_new_def rmap_err_def lift_def
      split: option.splits sum.splits prod.splits fault.splits if_splits dest!: next_fault_keeps)

lemma fs_read_exact: "fs_read p d = Some (Inr bs, d') \<Longrightarrow> d_files d' p = Some bs \<and> d_files d' = d_files d"
  by (auto simp: fs_read_def ok_or_def split: prod.splits fault.splits option.splits dest!: next_fault_keeps)

lemma with_context_value: "with_context msg m s = Some (Inr x, s') \<Longrightarrow> m s = Some (Inr x, s')"
  by (auto simp: map_err_def attempt_def lift_def rmap_err_def split: option.splits sum.splits prod.splits)

lemma write_checked_ok:
  assumes "write_checked p envelope msg d = Some (Inr u, d')"
  shows "d_files d p = None" and "d_files d' p = Some envelope"
proof -
  from assms obtain d1 written d2 where w: "write_private p envelope d = Some (Inr (), d1)"
    and r: "fs_read p d1 = Some (Inr written, d2)"
    and f: "(if written \<noteq> envelope then attempt (fs_remove_file p) (\<lambda>_. fail msg) else ret ()) d2 = Some (Inr u, d')"
    unfolding write_checked_def by (auto simp: try_op_Inr_iff dest: with_context_value)
  show "d_files d p = None" by (rule write_private_new [OF w])
  from f have "written = envelope" "d' = d2" by (auto simp: attempt_def fail_def split: if_splits option.splits prod.splits)
  with conjunct1 [OF fs_read_exact [OF r]] show "d_files d' p = Some envelope" by simp
qed

lemma through_mono: "through C d d' \<Longrightarrow> C (d_files d) \<Longrightarrow> (\<And>fs. C fs \<Longrightarrow> D fs) \<Longrightarrow> through D d d'"
  unfolding through_def by blast

lemma fs_exists_cases:
  obtains b d1 where "fs_exists p d = Some (Inr b, d1)" and "d_files d1 = d_files d" and "d_past d1 = d_past d"
    and "b \<Longrightarrow> d_files d p \<noteq> None"
proof -
  obtain x d1 where n: "next_fault d = (x, d1)" by (cases "next_fault d")
  note k = next_fault_keeps [OF n]
  show thesis
  proof (cases x)
    case (Fails l)
    with n k show thesis by (intro that [of False d1]) (auto simp: fs_exists_def)
  qed (use n k in \<open>intro that [of "d_files d p \<noteq> None" d1]; auto simp: fs_exists_def\<close>)+
qed

lemma keeps_seal_beside:
  assumes "rng_lawful rng" and "\<And>fs c. C fs \<Longrightarrow> C (fs(sealed_path file := c))"
  shows "keeps (through C) (seal_beside k rng pw file)"
  unfolding seal_beside_def Let_def
  by (intro keeps_through keeps_if keeps_map_err keeps_read keeps_envelope_for keeps_write_checked assms; assumption)

lemma seal_beside_ok:
  assumes "rng_lawful rng" and "seal_beside k rng pw file d = Some (Inr u, d')" and "d_files d (kf_plain file) = Some bs"
  shows "\<exists>env. d_files d' (sealed_path file) = Some env \<and> rok (decrypt_bytes k env pw) = contents k pw (d_files d) file \<and>
    contents k pw (d_files d) file \<noteq> None"
proof -
  let ?C = "\<lambda>fs. fs (kf_plain file) = Some bs"
  from assms(2) obtain b d1 bs' d2 env d3 msg where e: "fs_exists (sealed_path file) d = Some (Inr b, d1)"
    and r: "fs_read (kf_plain file) d1 = Some (Inr bs', d2)"
    and s: "envelope_for k rng pw (kf_plain file) bs' d2 = Some (Inr env, d3)"
    and w: "write_checked (sealed_path file) env msg d3 = Some (Inr u, d')"
    unfolding seal_beside_def Let_def by (auto simp: try_op_Inr_iff split: if_splits dest!: with_context_value)
  have "through ?C d d1" using e keeps_read(1) [of ?C] unfolding keeps_def by blast
  with assms(3) have "d_files d1 (kf_plain file) = Some bs" by (rule through_last [where C = ?C, rotated])
  with fs_read_exact [OF r] have "bs' = bs" by (metis option.inject)
  with s have "rok (decrypt_bytes k env pw) = contents k pw (d_files d) file \<and> contents k pw (d_files d) file \<noteq> None"
    by (auto simp: envelope_for_def try_op_Inr_iff contents_def assms(3) split: if_splits)
  with write_checked_ok(2) [OF w] show ?thesis by blast
qed

lemma seal_through:
  assumes "rng_lawful rng" and "vault_seal k rng (Some pw) file d = Some (r, d')"
  shows "through (\<lambda>fs. contents k pw fs file = contents k pw (d_files d) file \<and>
      (\<forall>q. q \<noteq> kf_plain file \<and> q \<noteq> sealed_path file \<longrightarrow> fs q = d_files d q)) d d' \<and>
    (r = Inr True \<longrightarrow> d_files d' (kf_plain file) = None \<and> contents k pw (d_files d) file \<noteq> None)"
proof -
  let ?others = "\<lambda>fs. \<forall>q. q \<noteq> kf_plain file \<and> q \<noteq> sealed_path file \<longrightarrow> fs q = d_files d q"
  let ?D = "\<lambda>fs. contents k pw fs file = contents k pw (d_files d) file \<and> ?others fs"
  obtain b d1 where e: "fs_exists (kf_plain file) d = Some (Inr b, d1)" and f1: "d_files d1 = d_files d" "d_past d1 = d_past d"
    and b: "b \<Longrightarrow> d_files d (kf_plain file) \<noteq> None" by (rule fs_exists_cases [of "kf_plain file" d]) blast
  show ?thesis
  proof (cases b)
    case False
    let ?rest = "try_op (fs_exists (sealed_path file))
        (\<lambda>there. if there then ret False else fail (''no key file at '' @ debug_path (kf_plain file)))"
    have k: "keeps (through ?D) ?rest"
      by (intro keeps_through keeps_if keeps_read)
    from assms(2) e False have run: "?rest d1 = Some (r, d')"
      by (simp add: vault_seal_def Let_def required_password_def)
    with k have "through ?D d1 d'" unfolding keeps_def by blast
    moreover from run have "r \<noteq> Inr True"
      by (auto simp: try_op_def split: option.splits prod.splits sum.splits if_splits)
    ultimately show ?thesis using f1 by (simp add: through_def seen_def)
  next
    case True
    with b obtain bs where bs: "d_files d (kf_plain file) = Some bs" by auto
    let ?C = "\<lambda>fs. fs (kf_plain file) = Some bs \<and> ?others fs"
    have CD: "?D fs" if "?C fs" for fs using that bs by (simp add: contents_def)
    have C1: "?C (d_files d1)" using f1 bs by simp
    have keeps: "keeps (through ?C) (seal_beside k rng pw file)"
      using assms(1) by (rule keeps_seal_beside) auto
    from assms(2) e True have run: "try_op (seal_beside k rng pw file) (\<lambda>_.
        try_op (with_context (''failed to remove '' @ debug_path (kf_plain file)) (fs_remove_file (kf_plain file))) (\<lambda>_. ret True)) d1 =
        Some (r, d')"
      by (simp add: vault_seal_def Let_def required_password_def)
    then show ?thesis
    proof (cases rule: try_op_Some_cases)
      case (err x)
      have "through ?D d1 d'" by (rule through_mono [OF keepsD [OF keeps err(1)] C1 CD])
      with err f1 show ?thesis by (simp add: through_def seen_def)
    next
      case (ok u d2)
      have 12: "through ?D d1 d2" by (rule through_mono [OF keepsD [OF keeps ok(1)] C1 CD])
      have C2: "?C (d_files d2)" by (rule through_last [OF keepsD [OF keeps ok(1)] C1])
      obtain env where env: "d_files d2 (sealed_path file) = Some env"
          "rok (decrypt_bytes k env pw) = contents k pw (d_files d) file" "contents k pw (d_files d) file \<noteq> None"
        using seal_beside_ok [OF assms(1) ok(1), of bs] f1 bs by auto
      let ?gone = "(d_files d2)(kf_plain file := None)"
      have "?D ?gone" using env C2 by (simp add: contents_def)
      moreover from ok(2) have "(\<exists>e. r = Inl e) \<and> d_files d' = d_files d2 \<and> d_past d' = d_past d2 \<or>
          r = Inr True \<and> d_files d' = ?gone \<and> d_past d' = d_files d2 # d_past d2"
        by (auto simp: try_op_def map_err_def attempt_def fs_remove_file_def lift_def ret_def
            split: option.splits prod.splits sum.splits fault.splits if_splits dest!: next_fault_keeps)
      ultimately have "through ?D d2 d' \<and> (r = Inr True \<longrightarrow> d_files d' (kf_plain file) = None)"
        by (auto simp: through_def seen_def intro: exI [of _ "[]"] exI [of _ "[?gone]"])
      with 12 f1 env(3) show ?thesis
        using transpD [OF through_trans, of ?D d1 d2 d'] by (simp add: through_def seen_def)
    qed
  qed
qed

section \<open>Properties\<close>

text \<open>
  C21: Sealing never loses a key. For every run of \<open>seal\<close>, whatever fails on the way (a write that stops
  half way or leaves other bytes, a read, the removal) and wherever it is cut off, the key file's
  contents under the vault's password are at every moment what they were before: the plaintext is
  removed only after the sealed file has been read back and found to open to it. No other file is
  touched, and success means that only the sealed form is left.\<close>

theorem seal_keeps_contents:
  assumes "rng_lawful rng" and "vault_seal k rng (Some pw) file d = Some (r, d')"
  shows "(\<exists>run. seen d' = run @ seen d \<and> (\<forall>fs \<in> set run.
      contents k pw fs file = contents k pw (d_files d) file \<and>
      (\<forall>q. q \<noteq> kf_plain file \<and> q \<noteq> sealed_path file \<longrightarrow> fs q = d_files d q))) \<and>
    (r = Inr True \<longrightarrow> d_files d' (kf_plain file) = None \<and> contents k pw (d_files d) file \<noteq> None)"
  using seal_through [OF assms] by (auto simp: through_def)

text \<open>A disk without further faults.\<close>

lemma next_fault_none [simp]: "d_faults d = [] \<Longrightarrow> next_fault d = (Works, d)"
  by (simp add: next_fault_def)

lemma reliable_disk:
  assumes "d_faults d = []"
  shows "fs_exists p d = Some (Inr (d_files d p \<noteq> None), d)"
    and "d_files d p = Some bs \<Longrightarrow> with_context msg (fs_read p) d = Some (Inr bs, d)"
  using assms by (simp_all add: fs_exists_def fs_read_def map_err_def)

lemma vault_open_sealed:
  assumes "d_faults d = []" and "d_files d (kf_plain f) = None" and "d_files d (sealed_path f) = Some env"
  shows "vault_open k f prompt (c, d) = vault_decrypt k (sealed_path f) env prompt (c, d)"
  by (simp add: vault_open_def Let_def reliable_disk [OF assms(1)] assms(2,3) try_op_def)

lemma vault_open_contents:
  assumes "d_faults d = []" and "contents k pw (d_files d) f = Some bs"
  shows "vault_open k f prompt (Some pw, d) =
    Some (Inr \<lparr>op_bytes = bs, op_was_sealed = (d_files d (kf_plain f) = None \<or>
      (\<exists>env. d_files d (kf_plain f) = Some env \<and> is_encrypted_envelope k env))\<rparr>, Some pw, d)"
proof (cases "d_files d (kf_plain f)")
  case None
  with assms(2) obtain env where env: "d_files d (sealed_path f) = Some env" "decrypt_bytes k env pw = Inr bs"
    by (auto simp: contents_def bind_eq_Some_conv)
  show ?thesis
    using vault_open_sealed [OF assms(1) None env(1), of k prompt "Some pw"]
      vault_cache.hit [where k = k and f = "(sealed_path f, env)" and pw = pw and prompt = prompt and s = d] env(2) None by simp
next
  case (Some x)
  then have "vault_open k f prompt (Some pw, d) =
      (if is_encrypted_envelope k x then vault_decrypt k (kf_plain f) x prompt
       else ret \<lparr>op_bytes = x, op_was_sealed = False\<rparr>) (Some pw, d)"
    by (simp add: vault_open_def Let_def reliable_disk [OF assms(1)] try_op_def)
  with Some assms(2) vault_cache.hit [where k = k and f = "(kf_plain f, x)" and pw = pw and prompt = prompt and s = d]
  show ?thesis by (auto simp: contents_def)
qed

text \<open>
  A sealed key file opens. After a successful \<open>seal\<close>, on a disk that works, \<open>open\<close> with the same
  password answers the bytes the file held before, says that they were sealed, asks for no password
  and changes nothing.\<close>

theorem sealed_file_opens:
  assumes "rng_lawful rng" and "vault_seal k rng (Some pw) file d = Some (Inr True, d')" and "d_faults d' = []"
  shows "\<exists>bs. contents k pw (d_files d) file = Some bs \<and>
    vault_open k file prompt (Some pw, d') = Some (Inr \<lparr>op_bytes = bs, op_was_sealed = True\<rparr>, Some pw, d')"
proof -
  note s = seal_through [OF assms(1,2)]
  from s obtain bs where "contents k pw (d_files d) file = Some bs" and g: "d_files d' (kf_plain file) = None" by auto
  moreover have "contents k pw (d_files d') file = contents k pw (d_files d) file"
    using through_last [OF conjunct1 [OF s]] by simp
  ultimately show ?thesis using vault_open_contents [OF assms(3), where k = k and pw = pw and f = "file" and prompt = prompt] by auto
qed

lemma vault_opens_cached:
  assumes "d_faults d = []" and "\<forall>f \<in> set fs. contents k pw (d_files d) f \<noteq> None"
  shows "\<exists>os. collect_ops fs (\<lambda>f. vault_open k f prompt) (Some pw, d) = Some (Inr os, Some pw, d) \<and>
    map op_bytes os = map (\<lambda>f. the (contents k pw (d_files d) f)) fs"
  using assms(2)
proof (induction fs)
  case (Cons f fs)
  then obtain bs where "contents k pw (d_files d) f = Some bs" by auto
  with Cons vault_open_contents [OF assms(1), where k = k and pw = pw and f = f and prompt = prompt] show ?case by auto
qed simp

text \<open>
  One password is asked for once. Opening any number of sealed key files that are all under the
  password the prompt gives, the vault asks for it at the first and opens the others with it: the
  answers are the contents of the files, in order, and the state after is the one the single prompt
  left.\<close>

theorem vault_asks_once:
  assumes "d_faults d = []" and "prompt d = Some (Inr pw, d')" and "d_files d' = d_files d" and "d_faults d' = []"
    and "fs \<noteq> []" and "\<forall>f \<in> set fs. d_files d (kf_plain f) = None \<and> contents k pw (d_files d) f \<noteq> None"
  shows "\<exists>os. collect_ops fs (\<lambda>f. vault_open k f prompt) (None, d) = Some (Inr os, Some pw, d') \<and>
    map op_bytes os = map (\<lambda>f. the (contents k pw (d_files d) f)) fs"
proof -
  obtain f gs where fs: "fs = f # gs" using assms(5) by (cases fs) auto
  with assms(6) obtain bs env where f: "d_files d (kf_plain f) = None" "d_files d (sealed_path f) = Some env"
      "contents k pw (d_files d) f = Some bs" "decrypt_bytes k env pw = Inr bs"
    by (auto simp: contents_def bind_eq_Some_conv)
  have "vault_open k f prompt (None, d) = Some (Inr \<lparr>op_bytes = bs, op_was_sealed = True\<rparr>, Some pw, d')"
    using vault_open_sealed [OF assms(1) f(1,2), of k prompt None] assms(2) f(4)
      vault_cache.asked_once [where k = k and fs = "[(sealed_path f, env)]" and s = d and pw = pw and prompt = prompt and s' = d']
    by (auto split: option.splits sum.splits prod.splits simp: try_op_def)
  with fs f(3) assms(3,6) vault_opens_cached [OF assms(4), of gs k pw prompt] show ?thesis by auto
qed

lemma keeps_write_existing:
  assumes "\<And>fs. C fs \<Longrightarrow> fs p \<noteq> None"
  shows "keeps (through C) (write_private p bs)"
proof (unfold keeps_def, intro allI impI)
  fix d r d'
  assume run: "write_private p bs d = Some (r, d')"
  show "through C d d'"
  proof (cases "C (d_files d)")
    case True
    with assms have "d_files d p \<noteq> None" by blast
    with run have "d_files d' = d_files d \<and> d_past d' = d_past d"
      by (auto simp: write_private_def try_op_def map_err_def attempt_def fs_create_new_def lift_def
          split: option.splits prod.splits sum.splits fault.splits if_splits dest!: next_fault_keeps)
    then show ?thesis by (simp add: through_same)
  qed (simp add: through_def)
qed

lemma keeps_write_checked_existing:
  assumes "\<And>fs. C fs \<Longrightarrow> fs p \<noteq> None"
  shows "keeps (through C) (write_checked p env msg)"
proof (unfold keeps_def, intro allI impI)
  fix d r d'
  assume run: "write_checked p env msg d = Some (r, d')"
  show "through C d d'"
  proof (cases "C (d_files d)")
    case True
    with assms have "d_files d p \<noteq> None" by blast
    then have "write_private p env d \<noteq> Some (Inr u, d1)" for u d1
      using write_private_new [of p env d u d1] by auto
    with run have "write_private p env d = Some (r, d') \<or> (\<exists>e. r = Inl e \<and> write_private p env d = Some (Inl e, d'))"
      by (auto simp: write_checked_def try_op_def split: option.splits prod.splits sum.splits)
    moreover have "keeps (through C) (write_private p env)" by (rule keeps_write_existing) (rule assms)
    ultimately show ?thesis by (blast dest: keepsD)
  qed (simp add: through_def)
qed

lemma keeps_refuse: "keeps (through C) (refuse_existing file)"
  unfolding refuse_existing_def key_file_exists_def by (intro keeps_through keeps_if keeps_read)

lemma seal_new_ok:
  assumes "vault_seal_new k rng (Some pw) file bs d = Some (Inr p, d')"
  obtains d1 d2 env msg where "refuse_existing file d = Some (Inr (), d1)"
    and "encrypt_bytes k rng bs pw d1 = Some (Inr env, d2)" and "decrypt_bytes k env pw = Inr bs"
    and "write_checked (sealed_path file) env msg d2 = Some (Inr (), d')" and "p = sealed_path file"
proof -
  from assms obtain d1 env d2 where 1: "refuse_existing file d = Some (Inr (), d1)"
      "encrypt_bytes k rng bs pw d1 = Some (Inr env, d2)"
    and 2: "try_op (lift (decrypt_bytes k env pw)) (\<lambda>reopened.
       if reopened \<noteq> bs then fail (''sealing '' @ debug_path (kf_plain file) @ '' did not round-trip'')
       else
         try_op (write_checked (sealed_path file) env (debug_path (sealed_path file) @ '' did not read back as written''))
           (\<lambda>_. ret (sealed_path file))) d2 = Some (Inr p, d')"
    unfolding vault_seal_new_def required_password_def ok_or_simps by (auto elim!: try_op_Some_cases)
  then have "decrypt_bytes k env pw = Inr bs" and w: "try_op (write_checked (sealed_path file) env
      (debug_path (sealed_path file) @ '' did not read back as written'')) (\<lambda>_. ret (sealed_path file)) d2 = Some (Inr p, d')"
    by (auto elim!: try_op_Some_cases split: if_splits)
  with 1 w show thesis by (elim try_op_Some_cases) (auto intro: that)
qed

lemma keeps_seal_new:
  assumes "rng_lawful rng"
  shows "keeps (through (\<lambda>now. \<forall>q. (before q \<noteq> None \<or> q \<noteq> sealed_path file) \<longrightarrow> now q = before q))
    (vault_seal_new k rng (Some pw) file bs)"
proof -
  let ?C = "\<lambda>now. \<forall>q. (before q \<noteq> None \<or> q \<noteq> sealed_path file) \<longrightarrow> now q = before q"
  have "keeps (through ?C) (write_checked (sealed_path file) env msg)" for env msg
  proof (cases "before (sealed_path file)")
    case None
    then show ?thesis by (intro keeps_write_checked) auto
  next
    case (Some x)
    then show ?thesis by (intro keeps_write_checked_existing) auto
  qed
  then show ?thesis
    unfolding vault_seal_new_def by (intro keeps_through keeps_if keeps_refuse keeps_encrypt assms)
qed

lemma keeps_new_plain:
  "keeps (through (\<lambda>now. \<forall>q. before q \<noteq> None \<longrightarrow> now q = before q)) (write_new_plain file bs)"
proof -
  let ?D = "\<lambda>now. \<forall>q. before q \<noteq> None \<longrightarrow> now q = before q"
  have "keeps (through ?D) (write_private p bs)" for p
  proof (cases "before p")
    case None
    then show ?thesis by (intro keeps_write_checked) auto
  next
    case (Some x)
    then show ?thesis by (intro keeps_write_existing) auto
  qed
  then show ?thesis unfolding write_new_plain_def by (intro keeps_through keeps_refuse)
qed

lemma seal_new_written:
  assumes "rng_lawful rng" and "vault_seal_new k rng (Some pw) file bs d = Some (Inr p, d')"
  shows "p = sealed_path file \<and> d_files d p = None \<and> (\<exists>env. d_files d' p = Some env \<and> decrypt_bytes k env pw = Inr bs)"
proof -
  let ?E = "\<lambda>fs. fs = d_files d"
  from seal_new_ok [OF assms(2)] obtain d1 d2 env msg where rf: "refuse_existing file d = Some (Inr (), d1)"
    and en: "encrypt_bytes k rng bs pw d1 = Some (Inr env, d2)"
    and e: "decrypt_bytes k env pw = Inr bs" and w: "write_checked (sealed_path file) env msg d2 = Some (Inr (), d')"
    and p: "p = sealed_path file" .
  from transpD [OF through_trans keepsD [OF keeps_refuse rf, of ?E] keepsD [OF keeps_encrypt [OF assms(1)] en]]
  have "through ?E d d2" .
  from through_last [OF this] have "d_files d2 = d_files d" by simp
  with write_checked_ok [OF w] e p show ?thesis by auto
qed

text \<open>
  Creating a key file overwrites nothing and, sealed, never shows its plaintext. At every moment of
  \<open>seal_new\<close> and \<open>write_new_plain\<close>, whatever fails, every file that was there has its bytes, and
  \<open>seal_new\<close> touches no path but the sealed one; success means that the sealed file is new and opens
  under the vault's password to exactly the bytes given.\<close>

theorem creation_overwrites_nothing:
  assumes "rng_lawful rng"
  shows "(vault_seal_new k rng (Some pw) file bs d = Some (r, d') \<longrightarrow>
      (\<exists>run. seen d' = run @ seen d \<and> (\<forall>fs \<in> set run. \<forall>q. (d_files d q \<noteq> None \<or> q \<noteq> sealed_path file) \<longrightarrow> fs q = d_files d q)) \<and>
      (\<forall>p. r = Inr p \<longrightarrow> p = sealed_path file \<and> d_files d p = None \<and>
        (\<exists>env. d_files d' p = Some env \<and> decrypt_bytes k env pw = Inr bs))) \<and>
    (write_new_plain file bs d = Some (r, d') \<longrightarrow>
      (\<exists>run. seen d' = run @ seen d \<and> (\<forall>fs \<in> set run. \<forall>q. d_files d q \<noteq> None \<longrightarrow> fs q = d_files d q)))"
proof (intro conjI impI allI)
  assume "vault_seal_new k rng (Some pw) file bs d = Some (r, d')"
  from keepsD [OF keeps_seal_new [OF assms, where before = "d_files d"] this]
  show "\<exists>run. seen d' = run @ seen d \<and> (\<forall>fs \<in> set run. \<forall>q. (d_files d q \<noteq> None \<or> q \<noteq> sealed_path file) \<longrightarrow> fs q = d_files d q)"
    unfolding through_def by simp
next
  fix p
  assume "vault_seal_new k rng (Some pw) file bs d = Some (r, d')" "r = Inr p"
  then have "vault_seal_new k rng (Some pw) file bs d = Some (Inr p, d')" by simp
  from seal_new_written [OF assms this]
  show "p = sealed_path file" "d_files d p = None" "\<exists>env. d_files d' p = Some env \<and> decrypt_bytes k env pw = Inr bs" by auto
next
  assume "write_new_plain file bs d = Some (r, d')"
  from keepsD [OF keeps_new_plain [where before = "d_files d"] this]
  show "\<exists>run. seen d' = run @ seen d \<and> (\<forall>fs \<in> set run. \<forall>q. d_files d q \<noteq> None \<longrightarrow> fs q = d_files d q)"
    unfolding through_def by simp
qed

text \<open>Which paths a directory's key files have, without the order of the listing.\<close>

fun key_paths :: "path \<Rightarrow> bool \<Rightarrow> dir_tree \<Rightarrow> path list"
  and entry_key_paths :: "path \<Rightarrow> bool \<Rightarrow> dir_entry list \<Rightarrow> path list" where
  "key_paths dir recursive (Unreadable e) = []"
| "key_paths dir recursive (Listing es) = entry_key_paths dir recursive es"
| "entry_key_paths dir recursive [] = []"
| "entry_key_paths dir recursive (BadEntry e # es) = entry_key_paths dir recursive es"
| "entry_key_paths dir recursive (FileEntry name # es) =
     (if is_key_file_name name then [path_join dir name] else []) @ entry_key_paths dir recursive es"
| "entry_key_paths dir recursive (DirEntry name t # es) =
     (if recursive then key_paths (path_join dir name) recursive t else []) @ entry_key_paths dir recursive es"

definition in_order :: "key_file list \<Rightarrow> bool" where
  "in_order fs \<longleftrightarrow> sorted (map kf_components fs) \<and> distinct (map kf_components fs)"

lemma map_insort_key: "map f (insort_key f x xs) = insort (f x) (map f xs)"
  by (induction xs) simp_all

lemma insert_found_keys:
  "in_order fs \<Longrightarrow> in_order (insert_found f fs)"
  "kf_components ` set (insert_found f fs) = insert (kf_components f) (kf_components ` set fs)"
  by (cases "kf_components f \<in> kf_components ` set fs";
      simp add: in_order_def insert_found_def insort_insert_key_def map_insort_key distinct_insort sorted_insort
        set_insort_key insert_absorb)+

lemma collect_found:
  "collect_dir dir recursive t found = Inr fs \<Longrightarrow> in_order found \<Longrightarrow> in_order fs \<and>
     kf_components ` set fs = kf_components ` set found \<union> (\<lambda>p. kf_components (key_file_at p)) ` set (key_paths dir recursive t)"
  "collect_entries dir recursive es found = Inr fs \<Longrightarrow> in_order found \<Longrightarrow> in_order fs \<and>
     kf_components ` set fs = kf_components ` set found \<union> (\<lambda>p. kf_components (key_file_at p)) ` set (entry_key_paths dir recursive es)"
proof (induction dir recursive t found and dir recursive es found arbitrary: fs and fs rule: collect_dir_collect_entries.induct)
  case (5 dir recursive name es found)
  then show ?case
    by (cases "is_key_file_name name") (simp_all add: insert_found_keys)
next
  case (6 dir recursive name t es found)
  show ?case
  proof (cases recursive)
    case True
    with "6.prems" obtain mid where "collect_dir (path_join dir name) recursive t found = Inr mid"
      "collect_entries dir recursive es mid = Inr fs" by (auto simp: rbind_eq_Inr)
    with "6.IH"(1,2) "6.prems"(2) True show ?thesis by (simp add: image_Un Un_assoc)
  next
    case False
    with 6 show ?thesis by simp
  qed
qed simp_all

text \<open>
  The search for key files is complete and without repetition. When it succeeds, the key files
  found are exactly those named by a \<open>.json\<close> or \<open>.key\<close> file, sealed or not, of the directory, and of
  those beneath it when the search is recursive; they are in the order of their paths and a key file
  that is there in both forms appears once.\<close>

theorem discover_complete:
  assumes "discover dir recursive t = Inr fs"
  shows "kf_components ` set fs = (\<lambda>p. kf_components (key_file_at p)) ` set (key_paths dir recursive t) \<and>
    sorted (map kf_components fs) \<and> distinct (map kf_components fs)"
  using collect_found(1) [OF assms [unfolded discover_def]] by (simp add: in_order_def)

theorem discover_complete_witness:
  "\<exists>fs. discover ''k'' False (Listing [FileEntry ''a.key'', FileEntry ''a.key.enc'', FileEntry ''b.txt'']) = Inr fs \<and>
     kf_components ` set fs = {[Normal ''k'', Normal ''a.key'']}"
proof -
  let ?t = "Listing [FileEntry ''a.key'', FileEntry ''a.key.enc'', FileEntry ''b.txt'']"
  have n: "is_key_file_name ''a.key''" "is_key_file_name ''a.key.enc''" "\<not> is_key_file_name ''b.txt''" by code_simp+
  have p: "key_file_at (path_join ''k'' ''a.key'') = KeyFile ''k/a.key''"
    "key_file_at (path_join ''k'' ''a.key.enc'') = KeyFile ''k/a.key''" by code_simp+
  have c: "components ''k/a.key'' = [Normal ''k'', Normal ''a.key'']" by code_simp
  have r: "discover ''k'' False ?t = Inr [KeyFile ''k/a.key'']"
    by (simp add: discover_def n p insert_found_def insort_insert_key_def)
  have k: "(\<lambda>p. kf_components (key_file_at p)) ` set (key_paths ''k'' False ?t) = {[Normal ''k'', Normal ''a.key'']}"
    by (simp add: n p c)
  show ?thesis
    by (rule exI, rule conjI [OF r], rule trans [OF conjunct1 [OF discover_complete [OF r]] k])
qed

section \<open>A disk for the witnesses\<close>

definition one_key :: "fault list \<Rightarrow> disk" where
  "one_key faults = \<lparr>d_files = [''a.key'' \<mapsto> [1, 2]], d_past = [], d_faults = faults\<rparr>"

lemma toy_rng_lawful: "rng_lawful toy_rng"
  by (simp add: rng_lawful_def toy_rng_draws) (simp add: toy_rng_def)

lemma not_an_envelope: "\<not> is_encrypted_envelope toy_sealing [1, 2]"
  by (simp add: is_encrypted_envelope_def toy_sealing_def flat_json_def)

lemma toy_envelope_for:
  "\<exists>env. env \<noteq> [9] \<and> (\<forall>d :: 'p disk_scheme. envelope_for toy_sealing toy_rng ''pw'' p [1, 2] d = Some (Inr env, d))"
proof -
  fix d0 :: "'p disk_scheme"
  obtain env where e: "encrypt_bytes toy_sealing toy_rng [1, 2] ''pw'' d0 = Some (Inr env, d0)"
    by (rule exE [OF toy_encrypts])
  note o = encrypt_bytes_opens [OF toy_sealing_lawful toy_rng_draws e]
  have "encrypt_bytes toy_sealing toy_rng [1, 2] ''pw'' d = Some (Inr env, d)" for d :: "'p disk_scheme"
    using e by (auto simp: encrypt_bytes_def draw_def toy_rng_def)
  moreover have "env \<noteq> [9]"
    using o(1) by (auto simp: is_encrypted_envelope_def toy_sealing_def flat_json_def)
  ultimately show ?thesis using o(2) not_an_envelope by (auto simp: envelope_for_def)
qed

lemma one_key_garbled:
  "\<exists>msg. vault_seal toy_sealing toy_rng (Some ''pw'') (KeyFile ''a.key'') (one_key [Works, Works, Works, Works, Garbles [9]]) =
     Some (Inl msg, \<lparr>d_files = [''a.key'' \<mapsto> [1, 2]], d_past =
       [[''a.key'' \<mapsto> [1, 2], ''a.key.enc'' \<mapsto> [9]], [''a.key'' \<mapsto> [1, 2], ''a.key.enc'' \<mapsto> []], [''a.key'' \<mapsto> [1, 2]]],
       d_faults = []\<rparr>)"
proof -
  from toy_envelope_for [of "''a.key''"] obtain env where e: "env \<noteq> [9]"
    "\<And>d :: disk. envelope_for toy_sealing toy_rng ''pw'' ''a.key'' [1, 2] d = Some (Inr env, d)" by blast
  then show ?thesis
    by (simp add: vault_seal_def Let_def required_password_def sealed_path_def SEALED_SUFFIX_def one_key_def
        seal_beside_def write_checked_def write_private_def map_err_def attempt_def fs_defs next_fault_def put_def fun_upd_twist)
qed

lemma one_key_sealed:
  "\<exists>env. vault_seal toy_sealing toy_rng (Some ''pw'') (KeyFile ''a.key'') (one_key []) =
     Some (Inr True, \<lparr>d_files = [''a.key.enc'' \<mapsto> env], d_past =
       [[''a.key'' \<mapsto> [1, 2], ''a.key.enc'' \<mapsto> env], [''a.key'' \<mapsto> [1, 2], ''a.key.enc'' \<mapsto> []], [''a.key'' \<mapsto> [1, 2]]],
       d_faults = []\<rparr>)"
proof -
  from toy_envelope_for [of "''a.key''"] obtain env where e: "env \<noteq> [9]"
    "\<And>d :: disk. envelope_for toy_sealing toy_rng ''pw'' ''a.key'' [1, 2] d = Some (Inr env, d)" by blast
  then show ?thesis
    by (simp add: vault_seal_def Let_def required_password_def sealed_path_def SEALED_SUFFIX_def one_key_def
        seal_beside_def write_checked_def write_private_def map_err_def attempt_def fs_defs next_fault_def put_def fun_upd_twist)
      (rule exI [of _ env], simp add: fun_eq_iff)
qed

lemma contents_one_key: "contents toy_sealing ''pw'' [''a.key'' \<mapsto> [1, 2]] (KeyFile ''a.key'') = Some [1, 2]"
  by (simp add: contents_def not_an_envelope)

theorem seal_keeps_contents_witness:
  "\<exists>msg d' run. vault_seal toy_sealing toy_rng (Some ''pw'') (KeyFile ''a.key'')
       (one_key [Works, Works, Works, Works, Garbles [9]]) = Some (Inl msg, d') \<and>
     seen d' = run @ seen (one_key [Works, Works, Works, Works, Garbles [9]]) \<and> length run = 3 \<and>
     list_all (\<lambda>fs. contents toy_sealing ''pw'' fs (KeyFile ''a.key'') = Some [1, 2]) run"
proof -
  obtain msg d' where v: "vault_seal toy_sealing toy_rng (Some ''pw'') (KeyFile ''a.key'')
      (one_key [Works, Works, Works, Works, Garbles [9]]) = Some (Inl msg, d')" and l: "length (seen d') = 4"
    using one_key_garbled by (force simp: seen_def)
  obtain run where run: "seen d' = run @ seen (one_key [Works, Works, Works, Works, Garbles [9]])"
    and c: "\<forall>fs \<in> set run. contents toy_sealing ''pw'' fs (KeyFile ''a.key'') = Some [1, 2]"
    using seal_keeps_contents [OF toy_rng_lawful v] contents_one_key by (auto simp: one_key_def)
  have "length run = 3" using arg_cong [OF run, of length] l by (simp add: seen_def one_key_def)
  with v run c show ?thesis by (auto simp: list_all_iff)
qed

theorem sealed_file_opens_witness:
  "\<exists>d'. vault_open toy_sealing (KeyFile ''a.key'') (fail ''no terminal'') (Some ''pw'', d') =
     Some (Inr \<lparr>op_bytes = [1, 2], op_was_sealed = True\<rparr>, Some ''pw'', d' :: disk)"
proof -
  obtain d' where v: "vault_seal toy_sealing toy_rng (Some ''pw'') (KeyFile ''a.key'') (one_key []) = Some (Inr True, d')"
    and n: "d_faults d' = []" using one_key_sealed by force
  show ?thesis
    using sealed_file_opens [OF toy_rng_lawful v n, of "fail ''no terminal''"] contents_one_key
    by (auto simp: one_key_def)
qed

theorem vault_asks_once_witness:
  "\<exists>os d. collect_ops [KeyFile ''a.key'', KeyFile ''a.key''] (\<lambda>f. vault_open toy_sealing f (ret ''pw'')) (None, d :: disk) =
     Some (Inr os, Some ''pw'', d) \<and> map op_bytes os = [[1, 2], [1, 2]]"
proof -
  obtain d' where v: "vault_seal toy_sealing toy_rng (Some ''pw'') (KeyFile ''a.key'') (one_key []) = Some (Inr True, d')"
    and n: "d_faults d' = []" using one_key_sealed by force
  note t = seal_through [OF toy_rng_lawful v]
  have c: "contents toy_sealing ''pw'' (d_files d') (KeyFile ''a.key'') = Some [1, 2]"
    using through_last [OF conjunct1 [OF t]] contents_one_key by (simp add: one_key_def)
  have g: "d_files d' ''a.key'' = None" using t by simp
  show ?thesis
    using vault_asks_once [where prompt = "ret ''pw''" and pw = "''pw''" and k = toy_sealing and d = d' and d' = d' and
        fs = "[KeyFile ''a.key'', KeyFile ''a.key'']"] n c g by auto
qed

theorem creation_overwrites_nothing_witness:
  "\<exists>msg d' run. write_new_plain (KeyFile ''b.key'') [5] (one_key [Works, Works, Works, Fails [5]]) = Some (Inl msg, d') \<and>
     seen d' = run @ seen (one_key [Works, Works, Works, Fails [5]]) \<and> run \<noteq> [] \<and>
     list_all (\<lambda>fs. fs ''a.key'' = Some [1, 2]) run"
proof -
  let ?d = "one_key [Works, Works, Works, Fails [5]]"
  have "\<exists>msg d'. write_new_plain (KeyFile ''b.key'') [5] ?d = Some (Inl msg, d') \<and> length (seen d') = 3"
    by (simp add: write_new_plain_def refuse_existing_def key_file_exists_def sealed_path_def SEALED_SUFFIX_def one_key_def
        write_private_def map_err_def attempt_def fs_defs next_fault_def put_def seen_def try_op_def)
  then obtain msg d' where v: "write_new_plain (KeyFile ''b.key'') [5] ?d = Some (Inl msg, d')" and l: "length (seen d') = 3"
    by blast
  from mp [OF conjunct2 [OF creation_overwrites_nothing [OF toy_rng_lawful, of toy_sealing "''pw''" "KeyFile ''b.key''"
      "[5]" ?d "Inl msg" d']] v]
  obtain run where run: "seen d' = run @ seen ?d"
    and c': "\<forall>fs \<in> set run. \<forall>q. d_files ?d q \<noteq> None \<longrightarrow> fs q = d_files ?d q" by blast
  have c: "\<forall>fs \<in> set run. fs ''a.key'' = Some [1, 2]"
    using c' [rule_format, of _ "''a.key''"] by (simp add: one_key_def)
  have "run \<noteq> []" using arg_cong [OF run, of length] l by (auto simp: seen_def one_key_def)
  with v run c show ?thesis by (auto simp: list_all_iff)
qed

end
