(* ===== verification/AccountDir.thy ===== *)
theory AccountDir
  imports Vault
begin

text \<open>
  Named account files in a directory, \<open>blockchain_account_vault/src/account_dir.rs\<close>. The reader's state
  is its cached password, the first component, with the disk. It is shown to be the vault's reader at
  the path of the account's plain file.
\<close>

definition plaintext_path :: "path \<Rightarrow> string \<Rightarrow> path" where
  "plaintext_path dir name = path_join dir (name @ ''.json'')"

definition enc_path :: "path \<Rightarrow> string \<Rightarrow> path" where
  "enc_path dir name = path_join dir (name @ ''.json.enc'')"

definition account_exists :: "path \<Rightarrow> string \<Rightarrow> ('p disk_scheme, bool) vop" where
  "account_exists dir name =
     try_op (fs_exists (plaintext_path dir name)) (\<lambda>plain. if plain then ret True else fs_exists (enc_path dir name))"

definition account_is_encrypted :: "path \<Rightarrow> string \<Rightarrow> ('p disk_scheme, bool) vop" where
  "account_is_encrypted dir name =
     try_op (fs_exists (plaintext_path dir name)) (\<lambda>plain. if plain then ret False else fs_exists (enc_path dir name))"

text \<open>The names of a listing: \<open>Inl\<close> an entry that could not be read.\<close>

fun account_stem :: "string \<Rightarrow> string option" where
  "account_stem name =
     (case strip_suffix ''.json.enc'' name of
        Some stem \<Rightarrow> Some stem
      | None \<Rightarrow> strip_suffix ''.json'' name)"

declare account_stem.simps [simp del]

definition discover_names :: "path \<Rightarrow> string + (string + string) list \<Rightarrow> string + string list" where
  "discover_names dir listing =
     rbind (rmap_err (\<lambda>_. ''failed to read accounts directory '' @ debug_path dir) listing) (\<lambda>entries.
     rbind (collect_results (\<lambda>entry. entry) entries) (\<lambda>names.
       Inr (fold insort_insert (List.map_filter account_stem names) [])))"

definition account_decrypt ::
  "'j sealing \<Rightarrow> string \<Rightarrow> bytes \<Rightarrow> ('s, string) vop \<Rightarrow> (string option \<times> 's, bytes) vop" where
  "account_decrypt k name envelope prompt =
     try_op cached (\<lambda>cached_password.
       case Option.bind cached_password (\<lambda>pw. rok (decrypt_bytes k envelope pw)) of
         Some plaintext \<Rightarrow> ret plaintext
       | None \<Rightarrow>
           try_op (on_rest prompt) (\<lambda>pw.
           try_op (lift (rmap_err (\<lambda>_. ''password did not decrypt encrypted account file for '' @ [CHR 0x27] @ name @ [CHR 0x27])
                           (decrypt_bytes k envelope pw))) (\<lambda>plaintext.
           try_op (cache_put (Some pw)) (\<lambda>_. ret plaintext))))"

definition read_account ::
  "'j sealing \<Rightarrow> path \<Rightarrow> string \<Rightarrow> ('p disk_scheme, string) vop \<Rightarrow> (string option \<times> 'p disk_scheme, bytes) vop" where
  "read_account k dir name prompt =
     (let plaintext = plaintext_path dir name; enc = enc_path dir name
      in try_op (on_rest (fs_exists plaintext)) (\<lambda>here.
         if here then
           try_op (on_rest (with_context (''failed to read '' @ debug_path plaintext) (fs_read plaintext))) (\<lambda>bs.
             if is_encrypted_envelope k bs then account_decrypt k name bs prompt else ret bs)
         else
           try_op (on_rest (fs_exists enc)) (\<lambda>there.
             if there then
               try_op (on_rest (with_context (''failed to read '' @ debug_path enc) (fs_read enc))) (\<lambda>bs.
                 account_decrypt k name bs prompt)
             else fail (''no account file for '' @ [CHR 0x27] @ name @ [CHR 0x27] @ '' in '' @ debug_path dir @
                        '' (looked for '' @ name @ ''.json and '' @ name @ ''.json.enc)''))))"

interpretation account_cache: password_cache
  "\<lambda>(name, envelope). account_decrypt k name envelope"
  "\<lambda>(name, envelope) pw. rok (decrypt_bytes k envelope pw)"
  "\<lambda>(name, envelope). ''password did not decrypt encrypted account file for '' @ [CHR 0x27] @ name @ [CHR 0x27]"
proof unfold_locales
  fix f :: "string \<times> bytes" and pw r prompt and s :: 's
  assume "(case f of (name, envelope) \<Rightarrow> \<lambda>pw. rok (decrypt_bytes k envelope pw)) pw = Some r"
  then show "(case f of (name, envelope) \<Rightarrow> account_decrypt k name envelope) prompt (Some pw, s) = Some (Inr r, Some pw, s)"
    by (cases f) (auto simp: account_decrypt_def)
next
  fix f :: "string \<times> bytes" and cache prompt and s :: 's
  obtain name envelope where f: "f = (name, envelope)" by (cases f)
  assume "Option.bind cache (case f of (name, envelope) \<Rightarrow> \<lambda>pw. rok (decrypt_bytes k envelope pw)) = None"
  then show "(case f of (name, envelope) \<Rightarrow> account_decrypt k name envelope) prompt (cache, s) =
      try_op (on_rest prompt) (\<lambda>pw.
        case (case f of (name, envelope) \<Rightarrow> \<lambda>pw. rok (decrypt_bytes k envelope pw)) pw of
          None \<Rightarrow> fail (case f of (name, envelope) \<Rightarrow>
            ''password did not decrypt encrypted account file for '' @ [CHR 0x27] @ name @ [CHR 0x27])
        | Some r \<Rightarrow> try_op (cache_put (Some pw)) (\<lambda>_. ret r)) (cache, s)"
    by (simp add: f account_decrypt_def rok_def rmap_err_def lift_def try_op_def
        split: option.splits sum.splits prod.splits)
qed

section \<open>Properties\<close>

lemma set_fold_insort: "set (fold insort_insert xs ys) = set xs \<union> set ys"
  by (induction xs arbitrary: ys) (auto simp: set_insort_insert)

lemma sorted_fold_insort: "sorted ys \<and> distinct ys \<Longrightarrow> sorted (fold insort_insert xs ys) \<and> distinct (fold insort_insert xs ys)"
  by (induction xs arbitrary: ys) (simp_all add: sorted_insort_insert distinct_insort_insert)

text \<open>
  The accounts of a directory are found exactly once, in order: when the listing can be read, the
  names are the strictly ascending list of those whose plain or sealed file is in it.\<close>

theorem discover_names_exact:
  assumes "discover_names dir (Inr (map Inr names)) = Inr found"
  shows "sorted found \<and> distinct found \<and>
    set found = {n. (n @ ''.json'') \<in> set names \<or> (n @ ''.json.enc'') \<in> set names}"
proof -
  have "collect_results (\<lambda>entry. entry) (map Inr names :: (string + string) list) = Inr names"
    by (induction names) simp_all
  with assms have f: "found = fold insort_insert (List.map_filter account_stem names) []"
    by (simp add: discover_names_def)
  have "account_stem x = Some n \<longleftrightarrow> x = n @ ''.json.enc'' \<or> x = n @ ''.json''" for x n
  proof (cases "strip_suffix ''.json.enc'' x")
    case None
    then show ?thesis using strip_suffix_Some [of "''.json.enc''" x n] strip_suffix_Some [of "''.json''" x n]
      by (simp add: account_stem.simps)
  next
    case (Some m)
    then have "x = m @ ''.json.enc''" by (simp add: strip_suffix_Some)
    then have "x \<noteq> n @ ''.json''"
      using append_eq_append_conv_if [of m "''.json.enc''" n "''.json''"] arg_cong [of x "n @ ''.json''" last] by auto
    with Some \<open>x = m @ _\<close> show ?thesis by (simp add: account_stem.simps)
  qed
  then show ?thesis
    using sorted_fold_insort [of "[]" "List.map_filter account_stem names"]
    by (auto simp: f set_fold_insort map_filter_def image_iff) (metis option.sel)+
qed

lemma map_err_try: "map_err g (try_op m f) = try_op (map_err g m) (\<lambda>x. map_err g (f x))"
  by (rule ext) (simp add: map_err_def attempt_def try_op_def rmap_err_def lift_def split: option.splits sum.splits prod.splits)

lemma map_err_map_err: "map_err g (map_err h m) = map_err (\<lambda>e. g (h e)) m"
  by (rule ext) (simp add: map_err_def attempt_def rmap_err_def lift_def split: option.splits sum.splits prod.splits)

lemma map_err_base: "map_err g (ret x) = ret x" "map_err g (fail e) = fail (g e)" "map_err g (lift r) = lift (rmap_err g r)"
  by (rule ext, simp add: map_err_def)+

lemma map_err_on_rest: "map_err g (on_rest m) = on_rest (map_err g m)"
  by (rule ext) (simp add: map_err_def attempt_def on_rest_def lift_def split: option.splits prod.splits)

lemma map_err_cache: "map_err g cached = cached" "map_err g (cache_put c) = cache_put c"
  by (rule ext, simp add: map_err_def attempt_def cached_def cache_put_def)+

lemma try_op_assoc: "try_op (try_op m f) g = try_op m (\<lambda>x. try_op (f x) g)"
  by (rule ext) (simp add: try_op_def split: option.splits sum.splits prod.splits)

lemma map_err_if: "map_err g (if b then m else n) = (if b then map_err g m else map_err g n)"
  by simp

lemma try_op_if: "try_op (if b then m else n) f = (if b then try_op m f else try_op n f)"
  by simp

lemmas forget_errors = map_err_try map_err_map_err map_err_base map_err_on_rest map_err_cache try_op_assoc map_err_if
  try_op_if try_op_ret try_op_fail

lemma rmap_err_rmap_err: "rmap_err g (rmap_err h r) = rmap_err (\<lambda>e. g (h e)) r"
  by (cases r) simp_all

theorem discover_names_exact_witness:
  "\<exists>found. discover_names ''d'' (Inr (map Inr [''b.json.enc'', ''a.json'', ''b.json'', ''x.txt''])) = Inr found \<and>
     sorted found \<and> set found = {''a'', ''b''}"
proof -
  obtain found where f: "discover_names ''d'' (Inr (map Inr [''b.json.enc'', ''a.json'', ''b.json'', ''x.txt''])) = Inr found"
    by (simp add: discover_names_def)
  have s: "{n. (n @ ''.json'') \<in> set [''b.json.enc'', ''a.json'', ''b.json'', ''x.txt''] \<or>
      (n @ ''.json.enc'') \<in> set [''b.json.enc'', ''a.json'', ''b.json'', ''x.txt'']} = {''a'', ''b''}" (is "?S = _")
  proof (intro equalityI subsetI)
    fix n assume "n \<in> ?S"
    then show "n \<in> {''a'', ''b''}" by (cases n rule: rev_cases) (auto simp: append_eq_Cons_conv)
  qed auto
  from discover_names_exact [OF f] f s show ?thesis by auto
qed

text \<open>Both ways to decrypt, without the texts of their errors.\<close>

lemma map_err_option: "map_err g (case x of None \<Rightarrow> m | Some y \<Rightarrow> f y) = (case x of None \<Rightarrow> map_err g m | Some y \<Rightarrow> map_err g (f y))"
  by (simp split: option.split)

lemma try_op_option: "try_op (case x of None \<Rightarrow> m | Some y \<Rightarrow> f y) g = (case x of None \<Rightarrow> try_op m g | Some y \<Rightarrow> try_op (f y) g)"
  by (simp split: option.split)

lemma decrypts_alike:
  "map_err (\<lambda>_. ()) (account_decrypt k name envelope prompt) =
   try_op (map_err (\<lambda>_. ()) (vault_decrypt k [] envelope prompt)) (\<lambda>opened. ret (op_bytes opened))"
  unfolding account_decrypt_def vault_decrypt_def forget_errors map_err_option try_op_option opened.select_convs
    rmap_err_rmap_err by (rule refl)

lemma vault_decrypts_alike:
  "map_err (\<lambda>_. ()) (vault_decrypt k p envelope prompt) = map_err (\<lambda>_. ()) (vault_decrypt k [] envelope prompt)"
  unfolding vault_decrypt_def forget_errors map_err_option rmap_err_rmap_err by (rule refl)

lemma account_paths:
  "kf_plain (key_file_at (plaintext_path dir name)) = plaintext_path dir name"
  "sealed_path (key_file_at (plaintext_path dir name)) = enc_path dir name"
proof -
  have "strip_suffix SEALED_SUFFIX (plaintext_path dir name) = None"
  proof (cases "strip_suffix SEALED_SUFFIX (plaintext_path dir name)")
    case (Some r)
    then have "plaintext_path dir name = r @ ''.enc''" by (simp add: strip_suffix_Some SEALED_SUFFIX_def)
    then have "last (plaintext_path dir name) = CHR ''c''" by simp
    then show ?thesis by (simp add: plaintext_path_def path_join_def split: if_splits)
  qed
  then show p: "kf_plain (key_file_at (plaintext_path dir name)) = plaintext_path dir name"
    by (simp add: key_file_at_def)
  have "starts_with (name @ ''.json'') ''/'' \<longleftrightarrow> starts_with (name @ ''.json.enc'') ''/''"
    by (cases name) (simp_all add: starts_with_def)
  then show "sealed_path (key_file_at (plaintext_path dir name)) = enc_path dir name"
    unfolding sealed_path_def p by (simp add: enc_path_def plaintext_path_def SEALED_SUFFIX_def path_join_def)
qed

text \<open>
  The account directory and the vault read alike. Reading an account gives what the
  vault's \<open>open\<close> gives for the key file of its plain path, on any disk and with any faults: the same bytes, the same
  cached password, the same prompts and the same state after, or an error of both; only the texts of
  the errors differ. So what holds of the vault's reader holds of every account file.\<close>

theorem read_account_is_vault_open:
  "map_err (\<lambda>_. ()) (read_account k dir name prompt) =
   map_err (\<lambda>_. ()) (try_op (vault_open k (key_file_at (plaintext_path dir name)) prompt) (\<lambda>opened. ret (op_bytes opened)))"
  unfolding read_account_def vault_open_def Let_def account_paths forget_errors decrypts_alike
    vault_decrypts_alike [of k "plaintext_path dir name"] vault_decrypts_alike [of k "enc_path dir name"] opened.select_convs
  by (rule refl)

end
