(* ===== verification/Float64.thy ===== *)
theory Float64
  imports Prelude Complex_Main
begin

text \<open>
  IEEE double precision as the limiter uses it: a value is a rational, every operation computes the
  exact rational result and rounds it to the nearest 53-bit significand, ties to even. The
  exponent is unbounded: the limiter's values lie between \<open>2^-60\<close> and \<open>2^80\<close>, so the overflow,
  subnormal and NaN cases of the format do not arise in it.
\<close>

fun log2n :: "nat \<Rightarrow> nat" where
  "log2n n = (if n < 2 then 0 else Suc (log2n (n div 2)))"

declare log2n.simps [simp del]

definition pow2 :: "int \<Rightarrow> rat" where
  "pow2 e = (if 0 \<le> e then 2 ^ nat e else 1 / 2 ^ nat (- e))"

text \<open>The binary exponent of a positive rational.\<close>

definition exponent_of :: "rat \<Rightarrow> int" where
  "exponent_of x =
     (if 1 \<le> x then int (log2n (nat \<lfloor>x\<rfloor>)) else - int (Suc (log2n (nat \<lceil>1 / x\<rceil> - 1))))"

definition round_even :: "rat \<Rightarrow> int" where
  "round_even y =
     (let f = \<lfloor>y\<rfloor>; d = y - of_int f
      in if d < 1 / 2 then f else if d > 1 / 2 then f + 1 else if even f then f else f + 1)"

text \<open>To the nearest significand of \<open>p\<close> bits.\<close>

definition round_bits :: "nat \<Rightarrow> rat \<Rightarrow> rat" where
  "round_bits p x = (let u = pow2 (exponent_of x + 1 - int p) in of_int (round_even (x / u)) * u)"

definition round_pos :: "rat \<Rightarrow> rat" where
  "round_pos x = round_bits 53 x"

definition round64 :: "rat \<Rightarrow> rat" where
  "round64 x = (if x = 0 then 0 else if x < 0 then - round_pos (- x) else round_pos x)"

definition f64_add :: "rat \<Rightarrow> rat \<Rightarrow> rat" where "f64_add x y = round64 (x + y)"
definition f64_sub :: "rat \<Rightarrow> rat \<Rightarrow> rat" where "f64_sub x y = round64 (x - y)"
definition f64_mul :: "rat \<Rightarrow> rat \<Rightarrow> rat" where "f64_mul x y = round64 (x * y)"
definition f64_div :: "rat \<Rightarrow> rat \<Rightarrow> rat" where "f64_div x y = round64 (x / y)"

text \<open>\<open>as f64\<close> of an unsigned integer.\<close>

definition f64_of_nat :: "nat \<Rightarrow> rat" where
  "f64_of_nat n = round64 (of_nat n)"

section \<open>The exponent\<close>

lemma of_nat_pow_le: "2 ^ k \<le> n \<Longrightarrow> (2 :: rat) ^ k \<le> of_nat n"
  by (drule of_nat_mono [where 'a = rat]) (simp only: of_nat_power of_nat_numeral)

lemma of_nat_le_pow: "n \<le> 2 ^ k \<Longrightarrow> of_nat n \<le> (2 :: rat) ^ k"
  by (drule of_nat_mono [where 'a = rat]) (simp only: of_nat_power of_nat_numeral)

lemma log2n_bounds: "0 < n \<Longrightarrow> 2 ^ log2n n \<le> n \<and> n < 2 ^ Suc (log2n n)"
proof (induction n rule: log2n.induct)
  case (1 n)
  show ?case
  proof (cases "n < 2")
    case True
    with 1 show ?thesis by (simp add: log2n.simps [of n])
  next
    case False
    with 1 have "2 ^ log2n (n div 2) \<le> n div 2 \<and> n div 2 < 2 ^ Suc (log2n (n div 2))" by simp
    then have "2 * 2 ^ log2n (n div 2) \<le> 2 * (n div 2)" "n div 2 + 1 \<le> 2 ^ Suc (log2n (n div 2))"
      by simp_all
    moreover have "2 * (n div 2) \<le> n" "n < 2 * (n div 2 + 1)" by presburger+
    ultimately have "2 * 2 ^ log2n (n div 2) \<le> n" "n < 2 * 2 ^ Suc (log2n (n div 2))" by linarith+
    moreover from False have "log2n n = Suc (log2n (n div 2))" by (simp add: log2n.simps [of n])
    ultimately show ?thesis by simp
  qed
qed

lemma pow2_pos [simp]: "0 < pow2 e"
  by (simp add: pow2_def)

lemma pow2_nz [simp]: "pow2 e \<noteq> 0"
  using pow2_pos [of e] by linarith

lemma pow2_powi: "pow2 e = 2 powi e"
  by (simp add: pow2_def power_int_def field_simps)

lemma pow2_add: "pow2 (a + b) = pow2 a * pow2 b"
  by (simp add: pow2_powi power_int_add)

lemma pow2_of_nat: "pow2 (int n) = 2 ^ n"
  by (simp add: pow2_def)

lemma pow2_minus: "pow2 (- int n) = 1 / 2 ^ n"
  by (cases "n = 0") (simp_all add: pow2_def)

lemma exponent_of_bounds:
  assumes "0 < x"
  shows "pow2 (exponent_of x) \<le> x \<and> x < pow2 (exponent_of x + 1)"
proof (cases "1 \<le> x")
  case True
  define n where "n = nat \<lfloor>x\<rfloor>"
  from True have n: "0 < n" "of_nat n \<le> x" "x < of_nat n + 1"
    by (auto simp: n_def) linarith
  have "2 ^ log2n n \<le> n" "n + 1 \<le> 2 ^ Suc (log2n n)" using log2n_bounds [of n] n by auto
  then have "(2::rat) ^ log2n n \<le> of_nat n" "of_nat n + 1 \<le> (2::rat) ^ Suc (log2n n)"
    using of_nat_pow_le [of "log2n n" n] of_nat_le_pow [of "n + 1" "Suc (log2n n)"]
    by (simp_all only: of_nat_add of_nat_1)
  moreover have "exponent_of x = int (log2n n)" using True by (simp add: exponent_of_def n_def)
  moreover have "pow2 (int (log2n n) + 1) = 2 ^ Suc (log2n n)"
    using pow2_of_nat [of "Suc (log2n n)"] by (simp add: add.commute)
  ultimately have "pow2 (exponent_of x) \<le> of_nat n" "of_nat n + 1 \<le> pow2 (exponent_of x + 1)"
    by (simp_all only: pow2_of_nat)
  with n show ?thesis by linarith
next
  case False
  define m where "m = nat \<lceil>1 / x\<rceil>"
  from False assms have "1 < 1 / x" by simp
  then have m: "2 \<le> m" "of_nat m - 1 < 1 / x" "1 / x \<le> of_nat m"
    unfolding m_def by linarith+
  define k where "k = Suc (log2n (m - 1))"
  have "2 ^ log2n (m - 1) \<le> m - 1" "m - 1 < 2 ^ k"
    using log2n_bounds [of "m - 1"] m by (auto simp: k_def)
  then have b: "2 ^ log2n (m - 1) + 1 \<le> m" "m \<le> 2 ^ k" using m by auto
  then have "(2::rat) ^ log2n (m - 1) + 1 \<le> of_nat m" "of_nat m \<le> (2::rat) ^ k"
    using of_nat_le_pow [of m k] of_nat_mono [of "2 ^ log2n (m - 1) + 1" m, where 'a = rat]
    by (simp_all only: of_nat_add of_nat_1 of_nat_power of_nat_numeral)
  with m have "(2::rat) ^ log2n (m - 1) < 1 / x" "1 / x \<le> (2::rat) ^ k" by linarith+
  with assms have "1 / 2 ^ k \<le> x" "x < 1 / 2 ^ log2n (m - 1)"
    by (simp_all add: field_simps)
  moreover have "exponent_of x = - int k"
    using False by (simp add: exponent_of_def k_def m_def)
  moreover have "- int k + 1 = - int (log2n (m - 1))" by (simp add: k_def)
  ultimately show ?thesis by (simp only: pow2_minus)
qed

section \<open>Rounding\<close>

lemma round_even_of_int [simp]: "round_even (of_int n) = n"
  by (simp add: round_even_def)

lemma round_even_error: "\<bar>of_int (round_even y) - y\<bar> \<le> 1 / 2"
  unfolding round_even_def Let_def by (auto simp: abs_if) linarith+

lemma round_even_mono:
  assumes "x \<le> y"
  shows "round_even x \<le> round_even y"
proof (cases "\<lfloor>x\<rfloor> = \<lfloor>y\<rfloor>")
  case True
  with assms show ?thesis unfolding round_even_def Let_def by auto
next
  case False
  with assms have "\<lfloor>x\<rfloor> + 1 \<le> \<lfloor>y\<rfloor>" using floor_mono [of x y] by linarith
  then show ?thesis unfolding round_even_def Let_def by auto
qed

lemma round_bits_error:
  assumes "0 < x"
  shows "\<bar>round_bits p x - x\<bar> \<le> x / 2 ^ p"
proof -
  define u where "u = pow2 (exponent_of x + 1 - int p)"
  have u: "0 < u" by (simp add: u_def)
  have "\<bar>of_int (round_even (x / u)) * u - x / u * u\<bar> = \<bar>of_int (round_even (x / u)) - x / u\<bar> * u"
    using u by (simp only: left_diff_distrib [symmetric] abs_mult abs_of_pos)
  also have "\<dots> \<le> 1 / 2 * u"
    using round_even_error [of "x / u"] u by (intro mult_right_mono) auto
  finally have "\<bar>round_bits p x - x\<bar> \<le> u / 2"
    using u by (simp add: round_bits_def Let_def u_def [symmetric])
  moreover have "u * 2 ^ p = pow2 (exponent_of x) * 2"
    using pow2_add [of "exponent_of x + 1 - int p" "int p"] pow2_add [of "exponent_of x" 1]
    by (simp add: u_def pow2_of_nat pow2_def [of 1])
  with exponent_of_bounds [OF assms] have "u * 2 ^ p \<le> x * 2" by simp
  then have "u / 2 \<le> x / 2 ^ p" by (simp add: field_simps)
  ultimately show ?thesis by linarith
qed

lemma round_pos_error: "0 < x \<Longrightarrow> \<bar>round_pos x - x\<bar> \<le> x / 2 ^ 53"
  unfolding round_pos_def by (rule round_bits_error)

lemma round64_error: "\<bar>round64 x - x\<bar> \<le> \<bar>x\<bar> / 2 ^ 53"
  using round_pos_error [of x] round_pos_error [of "- x"]
  by (cases x "0 :: rat" rule: linorder_cases) (auto simp: round64_def abs_minus_commute)

lemma round64_zero [simp]: "round64 0 = 0"
  by (simp add: round64_def)

lemma round64_pos: "0 < x \<Longrightarrow> 0 < round64 x"
  using round64_error [of x] by (simp add: field_simps abs_if split: if_splits)

lemma round64_nonneg: "0 \<le> x \<Longrightarrow> 0 \<le> round64 x"
  using round64_pos [of x] by (cases "x = 0") auto

lemma round_bits_nat:
  assumes "n \<le> 2 ^ p" and "0 < n" and "0 < p"
  shows "round_bits p (of_nat n) = of_nat n"
proof -
  define x where "x = (of_nat n :: rat)"
  define e where "e = exponent_of x"
  from assms have x: "1 \<le> x" "0 < x" by (simp_all add: x_def)
  then have e0: "0 \<le> e" by (simp add: e_def exponent_of_def)
  have b: "pow2 e \<le> x" "x < pow2 (e + 1)" using exponent_of_bounds [OF x(2)] by (simp_all add: e_def)
  have "x \<le> 2 ^ p"
    using of_nat_le_pow [OF assms(1)] by (simp only: x_def)
  have "\<exists>k :: int. x / pow2 (e + 1 - int p) = of_int k"
  proof (cases "e + 1 \<le> int p")
    case True
    have "pow2 (e + 1 - int p) * 2 ^ nat (int p - e - 1) = 1"
      using pow2_add [of "e + 1 - int p" "int p - e - 1"] True by (simp add: pow2_def)
    then have "x * 2 ^ nat (int p - e - 1) * pow2 (e + 1 - int p) = x"
      by (simp only: mult.assoc mult.commute [of "2 ^ nat (int p - e - 1)"] mult_1_right)
    then have "x / pow2 (e + 1 - int p) = x * 2 ^ nat (int p - e - 1)"
      by (simp add: nonzero_divide_eq_eq)
    also have "\<dots> = of_int (int n * 2 ^ nat (int p - e - 1))" by (simp add: x_def)
    finally show ?thesis by blast
  next
    case False
    then have "p \<le> nat e" by simp
    then have "(2::rat) ^ p \<le> 2 ^ nat e" by (intro power_increasing) simp_all
    then have "2 ^ p \<le> pow2 e" using e0 by (simp add: pow2_def)
    with b \<open>x \<le> 2 ^ p\<close> have "pow2 e = 2 ^ p" "x = 2 ^ p" by simp_all
    then have "(2::rat) ^ nat e = 2 ^ p" using e0 by (simp add: pow2_def)
    then have "nat e = p" using power_inject_exp [of "2 :: rat" "nat e" p] by simp
    with e0 have "e = int p" by simp
    moreover have "2 ^ p = pow2 1 * of_int (2 ^ (p - 1))"
      using assms(3) by (cases p) (simp_all add: pow2_def)
    ultimately show ?thesis
      using \<open>x = 2 ^ p\<close> by (auto simp: pow2_def intro: exI [of _ "2 ^ (p - 1)"])
  qed
  then obtain k :: int where k: "x / pow2 (e + 1 - int p) = of_int k" by blast
  have "round_bits p x = of_int (round_even (x / pow2 (e + 1 - int p))) * pow2 (e + 1 - int p)"
    by (simp only: round_bits_def Let_def e_def)
  also have "\<dots> = x / pow2 (e + 1 - int p) * pow2 (e + 1 - int p)" by (simp only: k round_even_of_int)
  also have "\<dots> = x" using pow2_pos [of "e + 1 - int p"] by simp
  finally show ?thesis by (simp only: x_def)
qed

lemma round64_nat: "n \<le> 2 ^ 53 \<Longrightarrow> round64 (of_nat n) = of_nat n"
  using round_bits_nat [of n 53] by (cases "n = 0") (simp_all add: round64_def round_pos_def)

lemma f64_of_nat_exact [simp]: "n \<le> 2 ^ 53 \<Longrightarrow> f64_of_nat n = of_nat n"
  by (simp add: f64_of_nat_def round64_nat)

section \<open>Evaluation on concrete fractions\<close>

lemma rat_floor_fraction [simp]:
  "\<lfloor>numeral a / numeral b :: rat\<rfloor> = numeral a div numeral b"
  "\<lfloor>1 / numeral b :: rat\<rfloor> = 1 div numeral b"
  using floor_divide_of_int_eq [of "numeral a" "numeral b", where 'a = rat]
    floor_divide_of_int_eq [of 1 "numeral b", where 'a = rat]
  by simp_all

lemma rat_ceiling_fraction [simp]:
  "\<lceil>numeral a / numeral b :: rat\<rceil> = - (- numeral a div numeral b)"
  using floor_divide_of_int_eq [of "- numeral a" "numeral b", where 'a = rat]
  by (simp add: ceiling_def)

lemmas f64_eval =
  f64_add_def f64_sub_def f64_mul_def f64_div_def f64_of_nat_def round64_def round_pos_def round_bits_def
  exponent_of_def pow2_def log2n.simps round_even_def Let_def

end
