(* ===== verification/Limiter.thy ===== *)
theory Limiter
  imports Float64 AlgoError
begin

text \<open>
  The token bucket of \<open>algo_ops/src/ops.rs\<close> (\<open>RateLimitConfig\<close>, \<open>RateLimiter\<close>). Its arithmetic is
  that of \<open>f64\<close>, modelled with its rounding. An \<open>Instant\<close> is a number of nanoseconds since an
  arbitrary origin.
\<close>

datatype rate_limit_mode = Block | Reject

record rate_limit_config =
  rl_max_requests :: u32
  rl_per_millis :: u64
  rl_mode :: rate_limit_mode

record rate_limiter =
  lim_capacity :: rat
  lim_tokens :: rat
  lim_refill_per_sec :: rat
  lim_last_refill :: nat

definition limiter_new :: "rate_limit_config \<Rightarrow> nat \<Rightarrow> rate_limiter" where
  "limiter_new cfg now =
     (let capacity = f64_of_nat (unat (max (rl_max_requests cfg) 1));
          per_secs = f64_div (f64_of_nat (unat (max (rl_per_millis cfg) 1))) 1000
      in \<lparr>lim_capacity = capacity, lim_tokens = capacity,
          lim_refill_per_sec = f64_div capacity per_secs, lim_last_refill = now\<rparr>)"

text \<open>\<open>Duration::as_secs_f64\<close> and \<open>Duration::from_secs_f64\<close> (to the nearest nanosecond, ties even).\<close>

definition as_secs_f64 :: "duration \<Rightarrow> rat" where
  "as_secs_f64 d =
     f64_add (f64_of_nat (d div 10 ^ 9)) (f64_div (f64_of_nat (d mod 10 ^ 9)) (10 ^ 9))"

definition from_secs_f64 :: "rat \<Rightarrow> duration" where
  "from_secs_f64 x = nat (round_even (x * 10 ^ 9))"

definition refilled :: "nat \<Rightarrow> rate_limiter \<Rightarrow> rat" where
  "refilled now r =
     (let elapsed = as_secs_f64 (now - lim_last_refill r)
      in min (f64_add (lim_tokens r) (f64_mul elapsed (lim_refill_per_sec r))) (lim_capacity r))"

definition poll :: "nat \<Rightarrow> rate_limiter \<Rightarrow> duration \<times> rate_limiter" where
  "poll now r =
     (let r = r\<lparr>lim_tokens := refilled now r, lim_last_refill := now\<rparr>
      in if lim_tokens r \<ge> 1
         then (0, r\<lparr>lim_tokens := f64_sub (lim_tokens r) 1\<rparr>)
         else (from_secs_f64 (f64_div (f64_sub 1 (lim_tokens r)) (lim_refill_per_sec r)), r))"

section \<open>The invariant\<close>

definition limiter_ok :: "rate_limiter \<Rightarrow> bool" where
  "limiter_ok r \<longleftrightarrow>
     1 \<le> lim_capacity r \<and> lim_capacity r \<le> 2 ^ 32 \<and>
     0 \<le> lim_tokens r \<and> lim_tokens r \<le> lim_capacity r \<and> 0 < lim_refill_per_sec r"

lemma max_1_word: "1 \<le> unat (max (w :: 'a::len word) 1) \<and> unat (max w 1) < 2 ^ LENGTH('a)"
proof -
  have "1 \<le> max w 1" by simp
  then have "unat (1 :: 'a word) \<le> unat (max w 1)" by (simp add: word_le_nat_alt)
  moreover have "unat (max w 1) < 2 ^ LENGTH('a)" by (rule unsigned_less)
  ultimately show ?thesis by simp
qed

lemma limiter_new_capacity:
  "lim_capacity (limiter_new cfg now) = of_nat (unat (max (rl_max_requests cfg) 1))"
  using max_1_word [of "rl_max_requests cfg"] by (simp add: limiter_new_def Let_def)

lemma limiter_new_ok: "limiter_ok (limiter_new cfg now)"
proof -
  let ?c = "unat (max (rl_max_requests cfg) 1)" and ?p = "unat (max (rl_per_millis cfg) 1)"
  have c: "1 \<le> ?c" "?c \<le> 2 ^ 32" using max_1_word [of "rl_max_requests cfg"] by auto
  have "0 < ?p" using max_1_word [of "rl_per_millis cfg"] by linarith
  then have "0 < (of_nat ?p :: rat)" by (simp only: of_nat_0_less_iff)
  then have "0 < f64_div (f64_of_nat ?p) 1000"
    by (simp add: f64_div_def f64_of_nat_def round64_pos)
  moreover have "f64_of_nat ?c = of_nat ?c" using c by simp
  moreover have "(1::rat) \<le> of_nat ?c" "of_nat ?c \<le> (2 :: rat) ^ 32"
    using of_nat_mono [of 1 ?c, where 'a = rat] c of_nat_le_pow [of ?c 32] by (simp_all only: of_nat_1)
  ultimately show ?thesis
    by (simp add: limiter_ok_def limiter_new_def Let_def f64_div_def round64_pos)
qed

lemma as_secs_f64_nonneg: "0 \<le> as_secs_f64 d"
  by (simp add: as_secs_f64_def f64_add_def f64_div_def f64_of_nat_def round64_nonneg)

lemma refilled_bounds:
  assumes "limiter_ok r"
  shows "0 \<le> refilled now r \<and> refilled now r \<le> lim_capacity r"
  using assms as_secs_f64_nonneg [of "now - lim_last_refill r"]
  by (simp add: refilled_def Let_def limiter_ok_def f64_add_def f64_mul_def round64_nonneg)

text \<open>Rounding never crosses zero or a bound of the bucket.\<close>

lemma round64_le_self_plus: "0 \<le> x \<Longrightarrow> round64 x \<le> x + x / 2 ^ 53"
  using round64_error [of x] abs_ge_self [of "round64 x - x"] by (simp only: abs_of_nonneg)

lemma poll_grant:
  assumes "1 \<le> refilled now r"
  shows "poll now r =
    (0, r\<lparr>lim_tokens := f64_sub (refilled now r) 1, lim_last_refill := now\<rparr>)"
  using assms by (simp add: poll_def Let_def)

lemma poll_wait:
  assumes "\<not> 1 \<le> refilled now r"
  shows "poll now r =
    (from_secs_f64 (f64_div (f64_sub 1 (refilled now r)) (lim_refill_per_sec r)),
     r\<lparr>lim_tokens := refilled now r, lim_last_refill := now\<rparr>)"
  using assms by (simp add: poll_def Let_def)

lemma f64_sub_one_bounds:
  assumes "1 \<le> x" and "x \<le> 2 ^ 32"
  shows "0 \<le> f64_sub x 1 \<and> f64_sub x 1 \<le> x"
proof -
  have "round64 (x - 1) \<le> (x - 1) + (x - 1) / 2 ^ 53"
    using assms by (intro round64_le_self_plus) simp
  also have "\<dots> \<le> x" using assms by simp
  finally show ?thesis using assms by (simp add: f64_sub_def round64_nonneg)
qed

lemma poll_ok:
  assumes "limiter_ok r"
  shows "limiter_ok (snd (poll now r))"
proof (cases "1 \<le> refilled now r")
  case True
  have "refilled now r \<le> 2 ^ 32"
    using assms refilled_bounds [OF assms, of now] by (simp add: limiter_ok_def)
  with True have "0 \<le> f64_sub (refilled now r) 1 \<and> f64_sub (refilled now r) 1 \<le> refilled now r"
    by (rule f64_sub_one_bounds)
  with True assms refilled_bounds [OF assms, of now] show ?thesis
    by (simp add: poll_grant limiter_ok_def)
next
  case False
  with assms refilled_bounds [OF assms, of now] show ?thesis
    by (simp add: poll_wait limiter_ok_def)
qed

section \<open>Runs of polls\<close>

fun polls :: "nat list \<Rightarrow> rate_limiter \<Rightarrow> duration list \<times> rate_limiter" where
  "polls [] r = ([], r)"
| "polls (t # ts) r =
     (let (d, r) = poll t r; (ds, r) = polls ts r in (d # ds, r))"

text \<open>The polls of a run that take a token.\<close>

fun charges :: "nat list \<Rightarrow> rate_limiter \<Rightarrow> nat" where
  "charges [] r = 0"
| "charges (t # ts) r = (if 1 \<le> refilled t r then 1 else 0) + charges ts (snd (poll t r))"

lemma snd_polls_Cons: "snd (polls (t # ts) r) = snd (polls ts (snd (poll t r)))"
  by (simp add: Let_def split_beta)

lemma poll_consts [simp]:
  "lim_capacity (snd (poll t r)) = lim_capacity r"
  "lim_refill_per_sec (snd (poll t r)) = lim_refill_per_sec r"
  "lim_last_refill (snd (poll t r)) = t"
  by (simp_all add: poll_def Let_def)

lemma polls_ok: "limiter_ok r \<Longrightarrow> limiter_ok (snd (polls ts r))"
proof (induction ts arbitrary: r)
  case (Cons t ts)
  then show ?case unfolding snd_polls_Cons by (blast intro: poll_ok)
qed simp

lemma polls_consts [simp]:
  "lim_capacity (snd (polls ts r)) = lim_capacity r"
  "lim_refill_per_sec (snd (polls ts r)) = lim_refill_per_sec r"
  by (induction ts arbitrary: r) (simp_all only: snd_polls_Cons poll_consts, simp_all)

lemma polls_append:
  "polls (ts @ us) r =
     (fst (polls ts r) @ fst (polls us (snd (polls ts r))), snd (polls us (snd (polls ts r))))"
  by (induction ts arbitrary: r) (simp_all add: Let_def split_beta)

text \<open>
  The error of one poll: the tokens kept plus the token taken exceed the exact refill by at most
  the rounding of five operations.
\<close>

abbreviation eps :: rat where "eps \<equiv> 1 / 2 ^ 53"

definition secs :: "nat \<Rightarrow> rat" where
  "secs d = of_nat d / 10 ^ 9"

lemma round64_upper: "0 \<le> x \<Longrightarrow> x \<le> y \<Longrightarrow> round64 x \<le> y * (1 + eps)"
  using round64_le_self_plus [of x] by (simp add: field_simps)

lemma secs_div_mod: "secs d = of_nat (d div 10 ^ 9) + of_nat (d mod 10 ^ 9) / 10 ^ 9"
proof -
  have "(of_nat d :: rat) = of_nat (d div 10 ^ 9 * 10 ^ 9 + d mod 10 ^ 9)"
    by (simp only: div_mult_mod_eq)
  also have "\<dots> = of_nat (d div 10 ^ 9) * 10 ^ 9 + of_nat (d mod 10 ^ 9)"
    by (simp only: of_nat_add of_nat_mult of_nat_power of_nat_numeral)
  finally show ?thesis by (simp add: secs_def field_simps)
qed

lemma as_secs_f64_upper: "as_secs_f64 d \<le> secs d * (1 + eps) * (1 + eps)"
proof -
  let ?s = "of_nat (d div 10 ^ 9) :: rat" and ?n = "of_nat (d mod 10 ^ 9) :: rat"
  have a: "f64_of_nat (d div 10 ^ 9) \<le> ?s * (1 + eps)"
    unfolding f64_of_nat_def by (rule round64_upper) simp_all
  have "d mod 10 ^ 9 \<le> 2 ^ 53" using mod_less_divisor [of "10 ^ 9" d] by simp
  then have "f64_of_nat (d mod 10 ^ 9) = ?n" by (rule f64_of_nat_exact)
  then have b: "f64_div (f64_of_nat (d mod 10 ^ 9)) (10 ^ 9) \<le> ?n / 10 ^ 9 * (1 + eps)"
    unfolding f64_div_def by (intro round64_upper) simp_all
  have nn: "0 \<le> f64_of_nat (d div 10 ^ 9) + f64_div (f64_of_nat (d mod 10 ^ 9)) (10 ^ 9)"
    by (simp add: f64_div_def f64_of_nat_def round64_nonneg)
  have "f64_of_nat (d div 10 ^ 9) + f64_div (f64_of_nat (d mod 10 ^ 9)) (10 ^ 9) \<le> secs d * (1 + eps)"
    using a b by (simp only: secs_div_mod distrib_right)
  then show ?thesis
    unfolding as_secs_f64_def f64_add_def by (rule round64_upper [OF nn])
qed

lemma refilled_upper:
  assumes "limiter_ok r"
  shows "refilled t r \<le> lim_tokens r + lim_capacity r * eps +
    secs (t - lim_last_refill r) * lim_refill_per_sec r * (1 + eps) ^ 4"
proof -
  let ?e = "as_secs_f64 (t - lim_last_refill r)" and ?s = "secs (t - lim_last_refill r)"
  let ?p = "lim_refill_per_sec r"
  have p: "0 < ?p" "0 \<le> lim_tokens r" "lim_tokens r \<le> lim_capacity r"
    using assms by (simp_all add: limiter_ok_def)
  have "?e * ?p \<le> ?s * (1 + eps) * (1 + eps) * ?p"
    using as_secs_f64_upper p by (intro mult_right_mono) simp_all
  moreover have "0 \<le> ?e * ?p" using as_secs_f64_nonneg p by simp
  ultimately have m: "f64_mul ?e ?p \<le> ?s * (1 + eps) * (1 + eps) * ?p * (1 + eps)"
    unfolding f64_mul_def by (intro round64_upper)
  have "0 \<le> f64_mul ?e ?p" using \<open>0 \<le> ?e * ?p\<close> by (simp add: f64_mul_def round64_nonneg)
  with p have "0 \<le> lim_tokens r + f64_mul ?e ?p" by simp
  moreover from m have "lim_tokens r + f64_mul ?e ?p \<le>
      lim_tokens r + ?s * (1 + eps) * (1 + eps) * ?p * (1 + eps)" by simp
  ultimately have "f64_add (lim_tokens r) (f64_mul ?e ?p) \<le>
      (lim_tokens r + ?s * (1 + eps) * (1 + eps) * ?p * (1 + eps)) * (1 + eps)"
    unfolding f64_add_def by (intro round64_upper)
  also have "\<dots> = lim_tokens r + lim_tokens r * eps + ?s * ?p * (1 + eps) ^ 4"
    by (simp only: power4_eq_xxxx algebra_simps)
  also have "\<dots> \<le> lim_tokens r + lim_capacity r * eps + ?s * ?p * (1 + eps) ^ 4"
    using p by simp
  finally show ?thesis by (simp add: refilled_def Let_def min_le_iff_disj)
qed

lemma poll_potential:
  assumes "limiter_ok r"
  shows "lim_tokens (snd (poll t r)) + (if 1 \<le> refilled t r then 1 else 0) \<le>
    lim_tokens r + 2 * lim_capacity r * eps +
    secs (t - lim_last_refill r) * lim_refill_per_sec r * (1 + eps) ^ 4"
proof (cases "1 \<le> refilled t r")
  case True
  have "refilled t r \<le> lim_capacity r" using refilled_bounds [OF assms] by simp
  have "f64_sub (refilled t r) 1 \<le> refilled t r - 1 + (refilled t r - 1) / 2 ^ 53"
    unfolding f64_sub_def using True by (intro round64_le_self_plus) simp
  also have "\<dots> \<le> refilled t r - 1 + lim_capacity r * eps"
    using \<open>refilled t r \<le> lim_capacity r\<close> by simp
  finally show ?thesis using refilled_upper [OF assms, of t] True by (simp add: poll_grant)
next
  case False
  have "0 \<le> lim_capacity r * eps" using assms by (simp add: limiter_ok_def)
  with False refilled_upper [OF assms, of t] show ?thesis by (simp add: poll_wait)
qed

lemma charges_bound:
  assumes "limiter_ok r" and "sorted (lim_last_refill r # ts)"
  shows "of_nat (charges ts r) + lim_tokens (snd (polls ts r)) \<le>
    lim_tokens r + of_nat (length ts) * (2 * lim_capacity r * eps) +
    secs (last (lim_last_refill r # ts) - lim_last_refill r) * lim_refill_per_sec r * (1 + eps) ^ 4"
  using assms
proof (induction ts arbitrary: r)
  case Nil
  then show ?case by (simp add: secs_def)
next
  case (Cons t ts)
  let ?r = "snd (poll t r)"
  let ?l = "last (t # ts)" and ?k = "lim_refill_per_sec r * (1 + eps) ^ 4"
  have srt: "lim_last_refill r \<le> t" "sorted (t # ts)" "t \<le> ?l" using Cons.prems(2) by auto
  have ih: "of_nat (charges ts ?r) + lim_tokens (snd (polls ts ?r)) \<le>
    lim_tokens ?r + of_nat (length ts) * (2 * lim_capacity r * eps) + secs (?l - t) * ?k"
    using Cons.IH [OF poll_ok [OF Cons.prems(1)], of t] srt(2) by (simp add: mult.assoc)
  have st: "lim_tokens ?r + (if 1 \<le> refilled t r then 1 else 0) \<le>
    lim_tokens r + 2 * lim_capacity r * eps + secs (t - lim_last_refill r) * ?k"
    using poll_potential [OF Cons.prems(1), of t] by (simp add: mult.assoc)
  have "?l - lim_last_refill r = (?l - t) + (t - lim_last_refill r)" using srt by linarith
  then have tt: "secs (?l - lim_last_refill r) * ?k =
      secs (?l - t) * ?k + secs (t - lim_last_refill r) * ?k"
    by (simp only: secs_def of_nat_add add_divide_distrib distrib_right)
  have "of_nat (charges (t # ts) r) = (if 1 \<le> refilled t r then 1 else 0) + (of_nat (charges ts ?r) :: rat)"
    by simp
  moreover have "of_nat (length (t # ts)) * (2 * lim_capacity r * eps) =
      2 * lim_capacity r * eps + of_nat (length ts) * (2 * lim_capacity r * eps)"
    by (simp only: length_Cons of_nat_Suc distrib_right mult_1_left)
  ultimately show ?case
    using ih st tt unfolding snd_polls_Cons last_ConsR [OF list.distinct(2), of _ t ts] mult.assoc
    by linarith
qed

section \<open>What the configuration promises\<close>

definition cfg_capacity :: "rate_limit_config \<Rightarrow> nat" where
  "cfg_capacity cfg = unat (max (rl_max_requests cfg) 1)"

definition cfg_per_millis :: "rate_limit_config \<Rightarrow> nat" where
  "cfg_per_millis cfg = unat (max (rl_per_millis cfg) 1)"

lemma round64_lower: "0 \<le> y \<Longrightarrow> y \<le> x \<Longrightarrow> y * (1 - eps) \<le> round64 x"
proof -
  assume y: "0 \<le> y" "y \<le> x"
  have "x - round64 x \<le> x / 2 ^ 53"
    using round64_error [of x] abs_ge_minus_self [of "round64 x - x"] y by (simp only: abs_of_nonneg)
  then have "x * (1 - eps) \<le> round64 x" by (simp add: field_simps)
  moreover have "y * (1 - eps) \<le> x * (1 - eps)" using y by (intro mult_right_mono) simp_all
  ultimately show ?thesis by linarith
qed

lemma limiter_new_refill:
  "lim_refill_per_sec (limiter_new cfg now) * (1 + eps) ^ 4 \<le>
     of_nat (cfg_capacity cfg) * 1000 / of_nat (cfg_per_millis cfg) * (1 + 1 / 2 ^ 50)"
proof -
  define c p where "c = (of_nat (cfg_capacity cfg) :: rat)" and "p = (of_nat (cfg_per_millis cfg) :: rat)"
  have "1 \<le> cfg_per_millis cfg" "1 \<le> cfg_capacity cfg" "cfg_capacity cfg \<le> 2 ^ 53"
    using max_1_word [of "rl_per_millis cfg"] max_1_word [of "rl_max_requests cfg"]
    by (simp_all add: cfg_per_millis_def cfg_capacity_def)
  then have p: "0 < p" and c: "0 < c" "f64_of_nat (cfg_capacity cfg) = c"
    by (simp_all add: c_def p_def)
  define q where "q = f64_div (f64_of_nat (cfg_per_millis cfg)) 1000"
  have "p * (1 - eps) \<le> f64_of_nat (cfg_per_millis cfg)"
    unfolding f64_of_nat_def p_def by (rule round64_lower) simp_all
  then have "p * (1 - eps) / 1000 * (1 - eps) \<le> q"
    unfolding q_def f64_div_def using p by (intro round64_lower) simp_all
  then have q: "p * ((1 - eps) * (1 - eps)) / 1000 \<le> q" by (simp only: mult.assoc times_divide_eq_left)
  moreover have "0 < p * ((1 - eps) * (1 - eps)) / 1000" using p by simp
  ultimately have q0: "0 < q" by (rule less_le_trans [rotated])
  have "c / q \<le> c / (p * ((1 - eps) * (1 - eps)) / 1000)"
    using q \<open>0 < p * ((1 - eps) * (1 - eps)) / 1000\<close> q0 c(1)
    by (intro divide_left_mono mult_pos_pos) (simp_all only: less_imp_le)
  moreover have "c / (p * ((1 - eps) * (1 - eps)) / 1000) = c * 1000 / p * (1 / ((1 - eps) * (1 - eps)))"
    by (simp only: divide_divide_eq_right times_divide_times_eq mult_1_right)
  ultimately have "c / q \<le> c * 1000 / p * (1 / ((1 - eps) * (1 - eps)))" "0 \<le> c / q"
    using c q0 by auto
  then have "round64 (c / q) \<le> c * 1000 / p * (1 / ((1 - eps) * (1 - eps))) * (1 + eps)"
    by (intro round64_upper)
  then have "round64 (c / q) * (1 + eps) ^ 4 \<le>
      c * 1000 / p * (1 / ((1 - eps) * (1 - eps))) * (1 + eps) * (1 + eps) ^ 4"
    by (rule mult_right_mono) simp
  also have "\<dots> = c * 1000 / p * (1 / ((1 - eps) * (1 - eps)) * (1 + eps) * (1 + eps) ^ 4)"
    by (simp only: mult.assoc)
  also have "\<dots> \<le> c * 1000 / p * (1 + 1 / 2 ^ 50)"
    using c p by (intro mult_left_mono) (simp_all add: power4_eq_xxxx)
  finally show ?thesis
    using c by (simp add: limiter_new_def Let_def f64_div_def c_def p_def q_def
        cfg_capacity_def cfg_per_millis_def)
qed

text \<open>
  C8: The token bucket bounds the rate. From a fresh bucket, the polls of any run at non-decreasing
  instants take at most \<open>max_requests\<close> tokens plus \<open>max_requests\<close> per \<open>per_millis\<close> of elapsed
  time; the two factors next to 1 are the accumulated rounding of the \<open>f64\<close> arithmetic.
\<close>

theorem limiter_rate_bound:
  assumes "sorted (now # ts)"
  shows "of_nat (charges ts (limiter_new cfg now)) \<le>
    (of_nat (cfg_capacity cfg) :: rat) * (1 + of_nat (length ts) / 2 ^ 52) +
    of_nat (cfg_capacity cfg) * (of_nat (last (now # ts) - now) / 10 ^ 6) /
      of_nat (cfg_per_millis cfg) * (1 + 1 / 2 ^ 50)"
proof -
  let ?r = "limiter_new cfg now" and ?c = "of_nat (cfg_capacity cfg) :: rat"
  let ?T = "secs (last (now # ts) - now)"
  have ok: "limiter_ok ?r" by (rule limiter_new_ok)
  have last: "lim_last_refill ?r = now" and cap: "lim_capacity ?r = ?c" "lim_tokens ?r = ?c"
    using limiter_new_capacity [of cfg now]
    by (simp_all add: limiter_new_def Let_def cfg_capacity_def)
  have "0 \<le> lim_tokens (snd (polls ts ?r))" using polls_ok [OF ok, of ts] by (simp add: limiter_ok_def)
  then have "of_nat (charges ts ?r) \<le> ?c + of_nat (length ts) * (2 * ?c * eps) +
      ?T * (lim_refill_per_sec ?r * (1 + eps) ^ 4)"
    using charges_bound [OF ok, of ts] assms unfolding last cap mult.assoc by linarith
  also have "\<dots> \<le> ?c + of_nat (length ts) * (2 * ?c * eps) +
      ?T * (?c * 1000 / of_nat (cfg_per_millis cfg) * (1 + 1 / 2 ^ 50))"
    using limiter_new_refill [of cfg now] by (intro add_left_mono mult_left_mono) (simp_all add: secs_def)
  finally show ?thesis by (simp add: secs_def field_simps)
qed

theorem limiter_rate_bound_witness:
  "(of_nat (charges [0, 0, 0, 500000000] (limiter_new \<lparr>rl_max_requests = 3, rl_per_millis = 1000, rl_mode = Reject\<rparr> 0)) :: rat)
     \<le> 3 * (1 + 4 / 2 ^ 52) + 3 * 500 / 1000 * (1 + 1 / 2 ^ 50)"
  using limiter_rate_bound [of 0 "[0, 0, 0, 500000000]" "\<lparr>rl_max_requests = 3, rl_per_millis = 1000, rl_mode = Reject\<rparr>"]
  by (simp add: cfg_capacity_def cfg_per_millis_def)

section \<open>Bursts\<close>

lemma refilled_same_instant:
  assumes "limiter_ok r" and "lim_last_refill r = now" and "lim_tokens r = of_nat k"
  shows "refilled now r = of_nat k"
proof -
  have "as_secs_f64 0 = 0" by (simp add: as_secs_f64_def f64_add_def f64_div_def)
  moreover have "of_nat k \<le> (2 :: rat) ^ 32" using assms by (simp add: limiter_ok_def)
  then have "k \<le> 2 ^ 53" using of_nat_pow_le [of 53 k] by (cases "2 ^ 53 \<le> k") simp_all
  ultimately show ?thesis
    using assms by (simp add: refilled_def Let_def f64_mul_def f64_add_def round64_nat limiter_ok_def)
qed

lemma burst_aux:
  assumes "limiter_ok r" and "lim_last_refill r = now" and "lim_tokens r = of_nat k" and "n \<le> k"
  shows "polls (replicate n now) r = (replicate n 0, r\<lparr>lim_tokens := of_nat (k - n)\<rparr>)"
  using assms
proof (induction n arbitrary: r k)
  case 0
  then show ?case by (cases r) simp
next
  case (Suc n)
  from Suc.prems have k: "1 \<le> k" by simp
  have f: "refilled now r = of_nat k" using Suc.prems by (intro refilled_same_instant) simp_all
  have "of_nat k \<le> (2 :: rat) ^ 32" using Suc.prems by (simp add: limiter_ok_def)
  then have "k \<le> 2 ^ 53" using of_nat_pow_le [of 53 k] by (cases "2 ^ 53 \<le> k") simp_all
  then have "round64 (of_nat (k - 1)) = of_nat (k - 1)" by (intro round64_nat) simp
  then have s: "f64_sub (of_nat k) 1 = of_nat (k - 1)"
    using k by (simp add: f64_sub_def of_nat_diff)
  have p: "poll now r = (0, r\<lparr>lim_tokens := of_nat (k - 1)\<rparr>)"
    using k f s Suc.prems(2) by (cases r) (simp add: poll_grant)
  have "limiter_ok (r\<lparr>lim_tokens := of_nat (k - 1)\<rparr>)"
    using poll_ok [OF Suc.prems(1), of now] p by simp
  from Suc.IH [OF this, of "k - 1"] Suc.prems have
    "polls (replicate n now) (r\<lparr>lim_tokens := of_nat (k - 1)\<rparr>) =
       (replicate n 0, r\<lparr>lim_tokens := of_nat (k - 1 - n)\<rparr>)" by (cases r) simp
  with p show ?case by (simp add: Let_def)
qed

text \<open>
  A fresh bucket lets a burst of up to \<open>max_requests\<close> requests through at one instant, without a
  wait and taking exactly one token for each.
\<close>

theorem limiter_burst:
  assumes "n \<le> cfg_capacity cfg"
  shows "polls (replicate n now) (limiter_new cfg now) =
    (replicate n 0, (limiter_new cfg now)\<lparr>lim_tokens := of_nat (cfg_capacity cfg - n)\<rparr>)"
proof (rule burst_aux [OF limiter_new_ok _ _ assms])
  show "lim_tokens (limiter_new cfg now) = of_nat (cfg_capacity cfg)"
    using limiter_new_capacity [of cfg now] by (simp add: limiter_new_def Let_def cfg_capacity_def)
qed (simp add: limiter_new_def Let_def)

theorem limiter_burst_witness:
  "polls [7, 7] (limiter_new \<lparr>rl_max_requests = 3, rl_per_millis = 1000, rl_mode = Reject\<rparr> 7) =
     ([0, 0], (limiter_new \<lparr>rl_max_requests = 3, rl_per_millis = 1000, rl_mode = Reject\<rparr> 7)
        \<lparr>lim_tokens := 1\<rparr>)"
proof -
  have c: "cfg_capacity \<lparr>rl_max_requests = 3, rl_per_millis = 1000, rl_mode = Reject\<rparr> = 3"
    by (simp add: cfg_capacity_def max_def word_le_nat_alt)
  have "polls (replicate 2 7) (limiter_new \<lparr>rl_max_requests = 3, rl_per_millis = 1000, rl_mode = Reject\<rparr> 7) =
     (replicate 2 0, (limiter_new \<lparr>rl_max_requests = 3, rl_per_millis = 1000, rl_mode = Reject\<rparr> 7)
        \<lparr>lim_tokens := of_nat (3 - 2)\<rparr>)"
    unfolding c [symmetric] by (rule limiter_burst) (simp add: c)
  then show ?thesis by (simp add: numeral_2_eq_2 del: polls.simps)
qed

section \<open>A wait that rounds to zero\<close>

text \<open>
  Three requests per second. The three tokens are taken at instant 0; 333333333 ns later the bucket
  is a billionth of a token short, and the wait of a third of a nanosecond rounds to zero, which
  the caller reads as leave to proceed.
\<close>

definition cfg_3_per_second :: rate_limit_config where
  "cfg_3_per_second = \<lparr>rl_max_requests = 3, rl_per_millis = 1000, rl_mode = Reject\<rparr>"

definition drained :: rate_limiter where
  "drained = snd (polls [0, 0, 0] (limiter_new cfg_3_per_second 0))"

abbreviation almost_one :: rat where "almost_one \<equiv> 9007199245733793 / 9007199254740992"

lemma drained_eq:
  "drained = \<lparr>lim_capacity = 3, lim_tokens = 0, lim_refill_per_sec = 3, lim_last_refill = 0\<rparr>"
proof -
  have n: "limiter_new cfg_3_per_second 0 =
      \<lparr>lim_capacity = 3, lim_tokens = 3, lim_refill_per_sec = 3, lim_last_refill = 0\<rparr>"
    by (simp add: limiter_new_def cfg_3_per_second_def f64_eval)
  have "cfg_capacity cfg_3_per_second = 3" by (simp add: cfg_capacity_def cfg_3_per_second_def)
  then have "polls (replicate 3 0) (limiter_new cfg_3_per_second 0) =
      (replicate 3 0, (limiter_new cfg_3_per_second 0)\<lparr>lim_tokens := of_nat (3 - 3)\<rparr>)"
    using burst_aux [OF limiter_new_ok, of cfg_3_per_second 0 0 3 3] n by simp
  then show ?thesis by (simp add: drained_def n numeral_3_eq_3)
qed

definition nearly_refilled :: rate_limiter where
  "nearly_refilled = drained\<lparr>lim_tokens := almost_one, lim_last_refill := 333333333\<rparr>"

lemma elapsed_third: "as_secs_f64 333333333 = 3002399748577931 / 9007199254740992"
  by (simp add: as_secs_f64_def) (simp add: f64_eval)

lemma elapsed_zero: "as_secs_f64 0 = 0"
  by (simp add: as_secs_f64_def f64_eval)

lemma refilled_drained: "refilled 333333333 drained = almost_one"
  by (simp add: refilled_def drained_eq elapsed_third) (simp add: f64_eval)

lemma refilled_nearly: "refilled 333333333 nearly_refilled = almost_one"
  by (simp add: refilled_def nearly_refilled_def drained_eq elapsed_zero) (simp add: f64_eval)

lemma wait_rounds_to_zero: "from_secs_f64 (f64_div (f64_sub 1 almost_one) 3) = 0"
proof -
  have "f64_div (f64_sub 1 almost_one) 3 = 6447604188927317 / 19342813113834066795298816"
    by (simp add: f64_eval)
  then show ?thesis by (simp add: from_secs_f64_def) (simp add: f64_eval)
qed

lemma poll_drained: "poll 333333333 drained = (0, nearly_refilled)"
proof -
  have "\<not> 1 \<le> refilled 333333333 drained" by (simp add: refilled_drained)
  moreover have "lim_refill_per_sec drained = 3" by (simp add: nearly_refilled_def drained_eq)
  ultimately have "poll 333333333 drained =
      (0, drained\<lparr>lim_tokens := almost_one, lim_last_refill := 333333333\<rparr>)"
    by (simp only: poll_wait refilled_drained wait_rounds_to_zero simp_thms)
  then show ?thesis by (simp add: nearly_refilled_def)
qed

lemma poll_nearly: "poll 333333333 nearly_refilled = (0, nearly_refilled)"
proof -
  have "\<not> 1 \<le> refilled 333333333 nearly_refilled" by (simp add: refilled_nearly)
  moreover have "lim_refill_per_sec nearly_refilled = 3" by (simp add: nearly_refilled_def drained_eq)
  ultimately have "poll 333333333 nearly_refilled =
      (0, nearly_refilled\<lparr>lim_tokens := almost_one, lim_last_refill := 333333333\<rparr>)"
    by (simp only: poll_wait refilled_nearly wait_rounds_to_zero simp_thms)
  then show ?thesis by (simp add: nearly_refilled_def)
qed

text \<open>
  With three requests per second, once the bucket is drained, any number of requests at the
  instant 333333333 ns later is let through with no wait although no token is available or taken:
  the bucket's wait rounds to the zero that means a token was granted.
\<close>

theorem limiter_grants_uncharged:
  "polls (replicate (Suc k) 333333333) drained = (replicate (Suc k) 0, nearly_refilled) \<and>
   charges (replicate (Suc k) 333333333) drained = 0"
proof -
  have "polls (replicate k 333333333) nearly_refilled = (replicate k 0, nearly_refilled)"
    by (induction k) (simp_all add: poll_nearly)
  moreover have "charges (replicate k 333333333) nearly_refilled = 0"
    by (induction k) (simp_all add: poll_nearly refilled_nearly)
  ultimately show ?thesis by (simp add: poll_drained refilled_drained)
qed
end
