(* ===== verification/Budget.thy ===== *)
theory Budget
  imports AlgoError
begin

text \<open>
  The wall-clock daily request budget of \<open>algo_ops/src/ops.rs\<close> (\<open>DailyBudgetConfig\<close>,
  \<open>DailyBudget\<close>, \<open>DailyBudgetState\<close>). Times are Unix seconds in a \<open>u64\<close>; the signed arithmetic of
  \<open>window_start_for\<close> is that of \<open>i64\<close>, with its wrap-around.
\<close>

record daily_budget_config =
  db_max_requests_per_day :: u32
  db_day_start_offset_secs :: u32

record daily_budget =
  bud_max :: u32
  bud_day_start_offset_secs :: u32
  bud_window_start_unix :: u64
  bud_spent :: u32

record daily_budget_state =
  dbs_window_start_unix :: u64
  dbs_spent :: u32
  dbs_max :: u32

definition window_start_for :: "u64 \<Rightarrow> u64 \<Rightarrow> u64" where
  "window_start_for now offset =
     (let k = sint (now - offset) div 86400
      in word_of_int (max (sint (word_of_int (k * 86400) + offset :: u64)) 0))"

definition roll :: "u64 \<Rightarrow> daily_budget \<Rightarrow> daily_budget" where
  "roll now b =
     (let end = saturating_add (bud_window_start_unix b) 86400
      in if now < bud_window_start_unix b \<or> now \<ge> end
         then b\<lparr>bud_window_start_unix :=
                  window_start_for now (ucast (bud_day_start_offset_secs b)),
                bud_spent := 0\<rparr>
         else b)"

definition budget_new :: "daily_budget_config \<Rightarrow> u64 \<Rightarrow> u32 \<Rightarrow> daily_budget" where
  "budget_new cfg now_unix_secs primed_spent =
     (let day_start_offset_secs = db_day_start_offset_secs cfg mod 86400
      in \<lparr>bud_max = db_max_requests_per_day cfg,
          bud_day_start_offset_secs = day_start_offset_secs,
          bud_window_start_unix = window_start_for now_unix_secs (ucast day_start_offset_secs),
          bud_spent = primed_spent\<rparr>)"

definition check :: "u64 \<Rightarrow> daily_budget \<Rightarrow> (duration + unit) \<times> daily_budget" where
  "check now_unix_secs b =
     (let b = roll now_unix_secs b
      in if bud_spent b \<ge> bud_max b
         then (let end = saturating_add (bud_window_start_unix b) 86400
               in (Inl (from_secs (unat (saturating_sub end now_unix_secs))), b))
         else (Inr (), b))"

definition record_spend :: "u64 \<Rightarrow> daily_budget \<Rightarrow> daily_budget" where
  "record_spend now_unix_secs b =
     (let b = roll now_unix_secs b in b\<lparr>bud_spent := saturating_add (bud_spent b) 1\<rparr>)"

section \<open>Windows\<close>

text \<open>
  Times before the year 292 billion fit an \<open>i64\<close>, and a window starts at or after the epoch as soon
  as the clock is past the first day start.
\<close>

definition sane_time :: "u64 \<Rightarrow> u64 \<Rightarrow> bool" where
  "sane_time now offset \<longleftrightarrow> offset < 86400 \<and> offset \<le> now \<and> unat now + 86400 < 2 ^ 63"

lemma sint_small: "unat (w :: u64) < 2 ^ 63 \<Longrightarrow> sint w = int (unat w)"
proof -
  assume w: "unat w < 2 ^ 63"
  then have "int (unat w) < int (2 ^ 63)" by (simp only: of_nat_less_iff)
  then have u: "uint w < 2 ^ 63" by simp
  have "- (2 ^ 63) \<le> (0 :: int)" by simp
  also have "0 \<le> uint w" by simp
  finally have "- (2 ^ 63) \<le> uint w" .
  note this u
  then have "signed_take_bit 63 (uint w) = uint w" by (rule signed_take_bit_int_eq_self)
  then show ?thesis by (simp add: sint_uint)
qed

lemma word_of_int_nat: "n < 2 ^ 64 \<Longrightarrow> unat (word_of_int (int n) :: u64) = n"
  by (simp add: unat_of_nat)

lemma window_start_for_value:
  assumes "sane_time now offset"
  shows "unat (window_start_for now offset) =
    unat offset + (unat now - unat offset) div 86400 * 86400"
proof -
  let ?n = "unat now" and ?o = "unat offset"
  have o: "?o \<le> ?n" "?n < 2 ^ 63" using assms by (simp_all add: sane_time_def word_le_nat_alt)
  have d: "unat (now - offset) = ?n - ?o" using o by (simp add: unat_sub_if' word_le_nat_alt)
  define k where "k = (?n - ?o) div 86400"
  have "k * 86400 \<le> ?n - ?o" unfolding k_def by (rule div_times_less_eq_dividend)
  then have kb: "k * 86400 + ?o \<le> ?n" using o by linarith
  have "sint (now - offset) = int (?n - ?o)" using sint_small [of "now - offset"] d o by simp
  then have q: "sint (now - offset) div 86400 = int k" by (simp add: k_def zdiv_int)
  have "unat (word_of_int (int (k * 86400)) + offset :: u64) = k * 86400 + ?o"
    using kb o word_of_int_nat [of "k * 86400"] by (subst unat_plus_if') simp
  then have "sint (word_of_int (int k * 86400) + offset :: u64) = int (k * 86400 + ?o)"
    using sint_small [of "word_of_int (int k * 86400) + offset"] kb o by simp
  then have "window_start_for now offset = word_of_int (int (k * 86400 + ?o))"
    by (simp add: window_start_for_def q)
  then show ?thesis using word_of_int_nat [of "k * 86400 + ?o"] kb o by (simp add: k_def)
qed
abbreviation ws_nat :: "daily_budget \<Rightarrow> nat" where
  "ws_nat b \<equiv> unat (bud_window_start_unix b)"

definition in_window :: "u64 \<Rightarrow> daily_budget \<Rightarrow> bool" where
  "in_window now b \<longleftrightarrow> ws_nat b \<le> unat now \<and> unat now < ws_nat b + 86400"

definition budget_ok :: "daily_budget \<Rightarrow> bool" where
  "budget_ok b \<longleftrightarrow>
     bud_day_start_offset_secs b < 86400 \<and>
     ws_nat b mod 86400 = unat (bud_day_start_offset_secs b) \<and>
     ws_nat b + 86400 < 2 ^ 63"

abbreviation sane :: "u64 \<Rightarrow> daily_budget \<Rightarrow> bool" where
  "sane now b \<equiv> sane_time now (ucast (bud_day_start_offset_secs b))"

lemma unat_ucast_32_64: "unat (ucast (w :: u32) :: u64) = unat w"
proof -
  have "unat w < 2 ^ 32" using unsigned_less [of w, where 'a = nat] by simp
  then have "take_bit 64 (unat w) = unat w" by (simp add: take_bit_nat_eq_self)
  then show ?thesis by (subst unsigned_ucast_eq) simp
qed

lemma window_end:
  assumes "ws_nat b + 86400 < 2 ^ 63"
  shows "unat (saturating_add (bud_window_start_unix b) 86400) = ws_nat b + 86400"
  using assms by (simp add: saturating_add_def unat_plus_if')

lemma roll_eq:
  assumes "budget_ok b"
  shows "roll now b =
    (if in_window now b then b
     else b\<lparr>bud_window_start_unix := window_start_for now (ucast (bud_day_start_offset_secs b)),
            bud_spent := 0\<rparr>)"
  using assms window_end [of b]
  by (auto simp: roll_def Let_def in_window_def budget_ok_def word_le_nat_alt word_less_nat_alt)

lemma window_start_for_ok:
  assumes "sane_time now offset"
  shows "unat (window_start_for now offset) mod 86400 = unat offset"
    and "unat (window_start_for now offset) \<le> unat now"
    and "unat now < unat (window_start_for now offset) + 86400"
proof -
  have o: "unat offset < 86400" "unat offset \<le> unat now"
    using assms by (simp_all add: sane_time_def word_le_nat_alt word_less_nat_alt)
  have v: "unat (window_start_for now offset) =
      unat offset + (unat now - unat offset) div 86400 * 86400"
    using assms by (rule window_start_for_value)
  have d: "(unat now - unat offset) div 86400 * 86400 \<le> unat now - unat offset"
    "unat now - unat offset < (unat now - unat offset) div 86400 * 86400 + 86400"
    using div_mult_mod_eq [of "unat now - unat offset" 86400]
      mod_less_divisor [of 86400 "unat now - unat offset"] by linarith+
  show "unat (window_start_for now offset) mod 86400 = unat offset"
    using o v by simp
  show "unat (window_start_for now offset) \<le> unat now"
    "unat now < unat (window_start_for now offset) + 86400"
    using d o v by linarith+
qed

lemma roll_consts [simp]:
  "bud_max (roll now b) = bud_max b"
  "bud_day_start_offset_secs (roll now b) = bud_day_start_offset_secs b"
  by (simp_all add: roll_def Let_def)

lemma roll_ok:
  assumes "budget_ok b" and "sane now b"
  shows "budget_ok (roll now b) \<and> in_window now (roll now b)"
proof (cases "in_window now b")
  case True
  with assms show ?thesis by (simp add: roll_eq)
next
  case False
  have "unat (ucast (bud_day_start_offset_secs b) :: u64) = unat (bud_day_start_offset_secs b)"
    by (rule unat_ucast_32_64)
  with False window_start_for_ok [OF assms(2)] assms show ?thesis
    by (simp add: roll_eq budget_ok_def in_window_def sane_time_def)
qed

lemma budget_new_ok:
  assumes "sane_time now (ucast (db_day_start_offset_secs cfg mod 86400))"
  shows "budget_ok (budget_new cfg now primed)"
  using window_start_for_ok [OF assms] assms unat_ucast_32_64 [of "db_day_start_offset_secs cfg mod 86400"]
  by (simp add: budget_new_def Let_def budget_ok_def sane_time_def word_less_nat_alt)

lemma windows_disjoint:
  assumes "V mod 86400 = W mod (86400 :: nat)"
    and "V \<le> t" "t < V + 86400" "W \<le> t" "t < W + 86400"
  shows "V = W"
proof -
  have "V = V div 86400 * 86400 + V mod 86400" "W = W div 86400 * 86400 + W mod 86400" by simp_all
  with assms have "V div 86400 = W div 86400" by linarith
  with assms(1) show ?thesis by (metis div_mult_mod_eq)
qed

section \<open>Sequences of requests\<close>

text \<open>
  A request peeks and, when the budget allows it, is charged at the same time (the clock is read
  once per request).
\<close>

definition request :: "u64 \<Rightarrow> daily_budget \<Rightarrow> bool \<times> daily_budget" where
  "request now b =
     (case check now b of
        (Inl _, b) \<Rightarrow> (False, b)
      | (Inr _, b) \<Rightarrow> (True, record_spend now b))"

fun admitted :: "u64 list \<Rightarrow> daily_budget \<Rightarrow> u64 list" where
  "admitted [] b = []"
| "admitted (t # ts) b =
     (case request t b of (ok, b) \<Rightarrow> (if ok then t # admitted ts b else admitted ts b))"

lemma roll_idem:
  assumes "budget_ok b" and "sane now b"
  shows "roll now (roll now b) = roll now b"
  using roll_ok [OF assms] by (simp add: roll_eq [of "roll now b"])

lemma saturating_add_1:
  assumes "(x :: u32) < m"
  shows "unat (saturating_add x 1) = unat x + 1"
proof -
  have "unat x < unat m" "unat m < 2 ^ 32"
    using assms unsigned_less [of m, where 'a = nat] by (simp_all add: word_less_nat_alt)
  then show ?thesis by (simp add: saturating_add_def unat_plus_if')
qed

lemma request_eq:
  assumes "budget_ok b" and "sane now b"
  shows "request now b =
    (let r = roll now b
     in if bud_spent r \<ge> bud_max b then (False, r)
        else (True, r\<lparr>bud_spent := saturating_add (bud_spent r) 1\<rparr>))"
  using roll_idem [OF assms] by (simp add: request_def check_def record_spend_def Let_def)

lemma admitted_subset: "set (admitted ts b) \<subseteq> set ts"
proof (induction ts arbitrary: b)
  case (Cons t ts)
  obtain ok b' where "request t b = (ok, b')" by (cases "request t b") auto
  with Cons.IH [of b'] show ?case by auto
qed simp

lemma admitted_per_window:
  assumes "budget_ok b" and "bud_spent b \<le> bud_max b" and "sorted ts" and "\<forall>t \<in> set ts. sane t b"
    and "\<forall>t \<in> set ts. ws_nat b \<le> unat t"
    and "W mod 86400 = unat (bud_day_start_offset_secs b)"
  shows "length (filter (\<lambda>t. W \<le> unat t \<and> unat t < W + 86400) (admitted ts b))
    \<le> unat (bud_max b) - (if ws_nat b = W then unat (bud_spent b) else 0)"
  using assms
proof (induction ts arbitrary: b)
  case Nil
  then show ?case by simp
next
  case (Cons t ts)
  let ?in = "\<lambda>t. W \<le> unat t \<and> unat t < W + 86400"
  define r where "r = roll t b"
  define b' where "b' = snd (request t b)"
  have san: "sane t b" and okb: "budget_ok b" using Cons.prems by simp_all
  have r: "budget_ok r" "in_window t r" "bud_max r = bud_max b"
    "bud_day_start_offset_secs r = bud_day_start_offset_secs b"
    using roll_ok [OF okb san] by (simp_all add: r_def)
  have rspent: "bud_spent r \<le> bud_max b"
    using Cons.prems(2) okb by (auto simp: r_def roll_eq)
  have req: "request t b = (if bud_spent r \<ge> bud_max b then (False, r)
      else (True, r\<lparr>bud_spent := saturating_add (bud_spent r) 1\<rparr>))"
    using request_eq [OF okb san] by (simp add: r_def Let_def)
  have b': "budget_ok b'" "bud_max b' = bud_max b"
    "bud_day_start_offset_secs b' = bud_day_start_offset_secs b"
    "bud_window_start_unix b' = bud_window_start_unix r" "bud_spent b' \<le> bud_max b'"
    using r rspent saturating_add_1 [of "bud_spent r" "bud_max b"]
    by (auto simp: b'_def req budget_ok_def word_le_nat_alt word_less_nat_alt)
  have tw: "ws_nat r \<le> unat t" "unat t < ws_nat r + 86400" using r(2) by (simp_all add: in_window_def)
  have later: "unat t \<le> unat u" if "u \<in> set ts" for u
    using Cons.prems(3) that by (simp add: word_le_nat_alt)
  have ih: "length (filter ?in (admitted ts b')) \<le>
      unat (bud_max b) - (if ws_nat r = W then unat (bud_spent b') else 0)"
    using Cons.IH [of b'] Cons.prems b' tw later by force
  have split: "?in t \<longleftrightarrow> ws_nat r = W"
    using windows_disjoint [of "ws_nat r" W "unat t"] tw r Cons.prems(6)
    by (auto simp: budget_ok_def)
  show ?case
  proof (cases "ws_nat b = W \<and> \<not> in_window t b")
    case True
    then have "W + 86400 \<le> unat t" using Cons.prems(5) by (simp add: in_window_def)
    then have "\<forall>u \<in> set (t # ts). \<not> ?in u" using later by fastforce
    then have "filter ?in (admitted (t # ts) b) = []"
      using admitted_subset [of "t # ts" b] by (auto simp: filter_empty_conv simp del: admitted.simps)
    then show ?thesis by simp
  next
    case False
    then have rb: "ws_nat b = W \<Longrightarrow> r = b" using okb by (auto simp: r_def roll_eq)
    have rb': "ws_nat b = W \<longrightarrow> ws_nat r = W \<and> unat (bud_spent r) = unat (bud_spent b)"
    proof
      assume "ws_nat b = W"
      then have "r = b" by (rule rb)
      with \<open>ws_nat b = W\<close> show "ws_nat r = W \<and> unat (bud_spent r) = unat (bud_spent b)" by blast
    qed
    show ?thesis
    proof (cases "bud_spent r \<ge> bud_max b")
      case True
      then have "admitted (t # ts) b = admitted ts b'" "b' = r" by (simp_all add: req b'_def)
      with ih rb' show ?thesis by (auto split: if_splits)
    next
      case nf: False
      then have a: "admitted (t # ts) b = t # admitted ts b'" "unat (bud_spent b') = unat (bud_spent r) + 1"
        using saturating_add_1 [of "bud_spent r" "bud_max b"] by (simp_all add: req b'_def)
      show ?thesis
      proof (cases "ws_nat r = W")
        case True
        have "unat (bud_spent r) < unat (bud_max b)" using nf by (simp add: word_le_nat_alt)
        with ih True a split rb' show ?thesis by (auto split: if_splits)
      next
        case F: False
        with ih a split rb' show ?thesis by (auto split: if_splits)
      qed
    qed
  qed
qed

section \<open>The reported wait\<close>

lemma check_eq:
  assumes "budget_ok b" and "sane now b"
  shows "check now b =
    (if bud_spent (roll now b) \<ge> bud_max b
     then Inl (from_secs (ws_nat (roll now b) + 86400 - unat now)) else Inr (), roll now b)"
proof -
  have r: "budget_ok (roll now b)" "in_window now (roll now b)" using roll_ok [OF assms] by simp_all
  then have e: "unat (saturating_add (bud_window_start_unix (roll now b)) 86400) = ws_nat (roll now b) + 86400"
    by (intro window_end) (simp add: budget_ok_def)
  then have "unat (saturating_sub (saturating_add (bud_window_start_unix (roll now b)) 86400) now) =
      ws_nat (roll now b) + 86400 - unat now"
    using r(2) by (auto simp: saturating_sub_def in_window_def word_le_nat_alt unat_sub_if')
  then show ?thesis by (simp add: check_def Let_def)
qed

lemma in_window_later:
  "in_window now b \<Longrightarrow> unat now \<le> unat t \<Longrightarrow> unat t < ws_nat b + 86400 \<Longrightarrow> in_window t b"
  by (simp add: in_window_def)

text \<open>
  The wait of a daily rejection is exact. When \<open>check\<close> rejects with \<open>wait\<close>, the wait is
  positive and at most a day, and a later check of the same budget (no request being charged in
  between) passes exactly when at least \<open>wait\<close> has gone by.
\<close>

theorem budget_wait_exact:
  assumes "budget_ok b" and "sane now b" and "0 < bud_max b"
    and "check now b = (Inl wait, b')" and "sane t b" and "unat now \<le> unat t"
  shows "0 < wait \<and> wait \<le> from_secs 86400 \<and>
    (fst (check t b') = Inr () \<longleftrightarrow> from_secs (unat t - unat now) \<ge> wait)"
proof -
  have b': "b' = roll now b" and w: "wait = from_secs (ws_nat b' + 86400 - unat now)"
    and spent: "bud_spent b' \<ge> bud_max b'"
    using assms(4) by (auto simp: check_eq [OF assms(1,2)] split: if_splits)
  have ok: "budget_ok b'" "in_window now b'" "bud_max b' = bud_max b" "sane t b'"
    using roll_ok [OF assms(1,2)] assms(5) by (simp_all add: b')
  then have nw: "ws_nat b' \<le> unat now" "unat now < ws_nat b' + 86400" by (simp_all add: in_window_def)
  have "fst (check t b') = Inr () \<longleftrightarrow> \<not> in_window t b'"
    using spent assms(3) ok by (auto simp: check_eq [OF ok(1,4)] roll_eq [OF ok(1)])
  also have "\<dots> \<longleftrightarrow> ws_nat b' + 86400 - unat now \<le> unat t - unat now"
    using nw assms(6) by (auto simp: in_window_def)
  also have "\<dots> \<longleftrightarrow> wait \<le> from_secs (unat t - unat now)"
    unfolding w from_secs_def by simp
  finally show ?thesis using nw by (simp add: w from_secs_def)
qed

text \<open>A spent budget, for the concrete instances.\<close>

definition spent_budget :: daily_budget where
  "spent_budget = budget_new \<lparr>db_max_requests_per_day = 2, db_day_start_offset_secs = 3600\<rparr> 100000 2"

lemma spent_budget_window: "window_start_for 100000 3600 = 90000"
  by (simp add: window_start_for_def)

lemma spent_budget_eq:
  "spent_budget = \<lparr>bud_max = 2, bud_day_start_offset_secs = 3600, bud_window_start_unix = 90000,
     bud_spent = 2\<rparr>"
  by (simp add: spent_budget_def budget_new_def spent_budget_window)

lemma spent_budget_check: "check 100000 spent_budget = (Inl (from_secs 76400), spent_budget)"
  by (simp add: spent_budget_eq check_def roll_def saturating_add_def saturating_sub_def)

lemma spent_budget_ok: "budget_ok spent_budget"
  by (simp add: spent_budget_eq budget_ok_def)

theorem budget_wait_exact_witness:
  "0 < from_secs 76400 \<and> from_secs 76400 \<le> from_secs 86400 \<and>
   (fst (check 176400 spent_budget) = Inr () \<longleftrightarrow> from_secs (176400 - 100000) \<ge> from_secs 76400)"
  using budget_wait_exact [of spent_budget 100000 "from_secs 76400" spent_budget 176400]
  by (simp add: spent_budget_ok spent_budget_check) (simp add: spent_budget_eq sane_time_def)

section \<open>The daily cap\<close>

text \<open>
  C4: The daily budget caps every day. From a fresh budget primed with what was already spent, the
  requests admitted one after the other, at clock times that do not go back, number at most
  \<open>max_requests_per_day\<close> in every day window aligned to the configured day start.
\<close>

theorem budget_daily_cap:
  assumes "sorted (now # ts)" and "\<forall>t \<in> set (now # ts). sane_time t (ucast (db_day_start_offset_secs cfg mod 86400))"
    and "primed \<le> db_max_requests_per_day cfg"
    and "W mod 86400 = unat (db_day_start_offset_secs cfg mod 86400)"
  shows "length (filter (\<lambda>t. W \<le> unat t \<and> unat t < W + 86400) (admitted ts (budget_new cfg now primed)))
    \<le> unat (db_max_requests_per_day cfg)"
proof -
  let ?b = "budget_new cfg now primed"
  have san: "sane_time now (ucast (db_day_start_offset_secs cfg mod 86400))" using assms(2) by simp
  have f: "bud_max ?b = db_max_requests_per_day cfg" "bud_spent ?b = primed"
    "bud_day_start_offset_secs ?b = db_day_start_offset_secs cfg mod 86400"
    "ws_nat ?b \<le> unat now"
    using window_start_for_ok(2) [OF san] by (simp_all add: budget_new_def Let_def)
  have "unat now \<le> unat t" if "t \<in> set ts" for t
    using assms(1) that by (simp add: word_le_nat_alt)
  with f have "\<forall>t \<in> set ts. ws_nat ?b \<le> unat t" by (meson le_trans)
  then have "length (filter (\<lambda>t. W \<le> unat t \<and> unat t < W + 86400) (admitted ts ?b)) \<le>
      unat (bud_max ?b) - (if ws_nat ?b = W then unat (bud_spent ?b) else 0)"
    using assms by (intro admitted_per_window budget_new_ok san) (simp_all only: f, simp_all)
  then show ?thesis unfolding f by (rule le_trans) simp
qed

theorem budget_daily_cap_witness:
  "length (filter (\<lambda>t. 90000 \<le> unat t \<and> unat t < 90000 + 86400)
     (admitted [100000, 100001, 100002] (budget_new \<lparr>db_max_requests_per_day = 2, db_day_start_offset_secs = 3600\<rparr> 100000 0)))
   \<le> unat (2 :: u32)"
  using budget_daily_cap [of 100000 "[100000, 100001, 100002]"
      "\<lparr>db_max_requests_per_day = 2, db_day_start_offset_secs = 3600\<rparr>" 0 90000]
  by (simp add: sane_time_def)

section \<open>Concurrent requests\<close>

text \<open>
  The lock is released between \<open>check\<close> and \<open>record\<close>: a request that passed the check is pending
  until it is recorded. At most \<open>n\<close> requests run at once.
\<close>

inductive budget_step :: "nat \<Rightarrow> daily_budget \<times> nat \<Rightarrow> daily_budget \<times> nat \<Rightarrow> bool" for n where
  reject: "check now b = (Inl w, b') \<Longrightarrow> budget_step n (b, pending) (b', pending)"
| pass: "check now b = (Inr (), b') \<Longrightarrow> pending < n \<Longrightarrow> budget_step n (b, pending) (b', Suc pending)"
| commit: "budget_step n (b, Suc pending) (record_spend now b, pending)"

inductive_cases budget_stepE: "budget_step n (b, pending) s"

inductive budget_run :: "nat \<Rightarrow> daily_budget \<Rightarrow> daily_budget \<times> nat \<Rightarrow> bool" for n b0 where
  start: "budget_run n b0 (b0, 0)"
| step: "budget_run n b0 s \<Longrightarrow> budget_step n s s' \<Longrightarrow> budget_run n b0 s'"

lemma roll_spent: "bud_spent (roll now b) = bud_spent b \<or> bud_spent (roll now b) = 0"
  by (simp add: roll_def Let_def)

lemma saturating_add_le: "unat (saturating_add (x :: u32) 1) \<le> unat x + 1"
proof (cases "unat x + 1 < 2 ^ 32")
  case True
  then show ?thesis by (simp add: saturating_add_def unat_plus_if')
next
  case False
  then have "2 ^ 32 \<le> unat x + 1" by simp
  moreover have "unat (- 1 :: u32) = 2 ^ 32 - 1"
    by (simp add: unsigned_minus_1_eq_mask mask_eq_exp_minus_1)
  ultimately show ?thesis using False by (simp add: saturating_add_def)
qed

lemma check_consts:
  "bud_max (snd (check now b)) = bud_max b" "snd (check now b) = roll now b"
  "fst (check now b) = Inr () \<Longrightarrow> bud_spent (roll now b) < bud_max b"
  by (auto simp: check_def Let_def not_le split: if_splits)

lemma budget_run_bound:
  assumes "budget_run n b0 s" and "bud_spent b0 \<le> bud_max b0" and "0 < n"
  shows "bud_max (fst s) = bud_max b0 \<and> snd s \<le> n \<and>
    unat (bud_spent (fst s)) + snd s < unat (bud_max b0) + n"
  using assms
proof (induction rule: budget_run.induct)
  case start
  then show ?case by (simp add: word_le_nat_alt)
next
  case (step s s')
  then have ih: "bud_max (fst s) = bud_max b0" "snd s \<le> n"
    "unat (bud_spent (fst s)) + snd s < unat (bud_max b0) + n" by simp_all
  from step.hyps(2) show ?case
  proof cases
    case (reject now b w b' pending)
    then have "b' = roll now b" using check_consts(2) [of now b] by simp
    with reject ih roll_spent [of now b] show ?thesis by auto
  next
    case (pass now b b' pending)
    then have "b' = roll now b" "bud_spent (roll now b) < bud_max b"
      using check_consts(2,3) [of now b] by auto
    with pass ih show ?thesis by (auto simp: word_less_nat_alt)
  next
    case (commit b pending now)
    have "unat (bud_spent (record_spend now b)) \<le> unat (bud_spent (roll now b)) + 1"
      using saturating_add_le by (simp add: record_spend_def Let_def)
    moreover have "unat (bud_spent (roll now b)) \<le> unat (bud_spent b)" using roll_spent [of now b] by auto
    moreover have "bud_max (record_spend now b) = bud_max b" by (simp add: record_spend_def Let_def)
    ultimately show ?thesis using commit ih by simp
  qed
qed

text \<open>
  The soft cap under concurrency. With at most \<open>n\<close> requests between their check and their record
  at any moment, in any interleaving and with any clock readings, the spent count of a window
  exceeds the maximum by less than \<open>n\<close>; with one request at a time it never exceeds it.
\<close>

theorem budget_concurrent_overshoot:
  assumes "budget_run n b0 (b, pending)" and "bud_spent b0 \<le> bud_max b0" and "0 < n"
  shows "unat (bud_spent b) + pending < unat (bud_max b0) + n"
  using budget_run_bound [OF assms] by simp

theorem budget_concurrent_overshoot_witness:
  "unat (bud_spent spent_budget) + 0 < unat (2 :: u32) + 5"
  using budget_concurrent_overshoot [of 5 spent_budget spent_budget 0] budget_run.start
  by (simp add: spent_budget_eq)

end
