(* ===== verification/CallPath.thy ===== *)
theory CallPath
  imports Effects Limiter Budget
begin

text \<open>
  The client and its call path, from \<open>algo_ops/src/ops.rs\<close>: the configuration and the \<open>AlgoOps\<close>
  struct with the cells its clones share, the gate every request passes (\<open>apply_rate_limit\<close>), the
  bridge to the asynchronous runtime (\<open>rt_block_on\<close>) and the retry loop (\<open>call_with_retry\<close>).

  The environment is a type variable: the clocks, the sleep and the asynchronous runtime act on it.
  A future is its effect on the environment and its result, an \<open>algonaut::Error\<close> or a value.
\<close>

record algo_chain_config =
  cc_client_api_url :: string
  cc_client_api_port :: u16
  cc_indexer_api_url :: string
  cc_indexer_api_port :: u16
  cc_token :: "string option"
  cc_token_key :: "string option"
  cc_app_id :: "u64 option"
  cc_asset_id :: "u64 option"
  cc_rate_limit :: "rate_limit_config option"
  cc_daily_budget :: "daily_budget_config option"

definition default_chain_config :: algo_chain_config where
  "default_chain_config =
     \<lparr>cc_client_api_url = ''http://localhost'', cc_client_api_port = 4001,
      cc_indexer_api_url = ''http://localhost'', cc_indexer_api_port = 8980,
      cc_token = Some (replicate 64 CHR ''a''), cc_token_key = Some ''X-Algo-API-Token'',
      cc_app_id = None, cc_asset_id = None, cc_rate_limit = None, cc_daily_budget = None\<rparr>"

record algo_ops =
  ops_passphrase :: "string option"
  ops_address :: "string option"
  ops_config :: algo_chain_config
  ops_rate_limiter :: "rate_limiter option"
  ops_requests_made :: u64
  ops_daily_budget :: "daily_budget option"
  ops_timeout :: "duration option"
  ops_app_creators :: "u64 \<Rightarrow> string option"

type_synonym 'e world = "algo_ops \<times> 'e"

record 'e runtime =
  rt_instant :: "'e \<Rightarrow> nat \<times> 'e"
  rt_unix_secs :: "'e \<Rightarrow> u64 \<times> 'e"
  rt_sleep :: "duration \<Rightarrow> 'e \<Rightarrow> 'e"
  rt_build :: "'e \<Rightarrow> (string + unit) \<times> 'e"
  rt_elapses :: "duration \<Rightarrow> 'e \<Rightarrow> bool \<times> 'e"
  rt_hangs :: "'e \<Rightarrow> bool"

datatype call_kind = Algod | IndexerRead

fun call_operation :: "call_kind \<Rightarrow> string" where
  "call_operation Algod = ''algod call''"
| "call_operation IndexerRead = ''indexer search''"

text \<open>An \<open>algonaut::Error\<close>: its \<open>Request\<close> shape with an HTTP status, and its \<open>Display\<close> text.\<close>

datatype node_error = RequestHttp u16 string | OtherError string

fun node_display :: "node_error \<Rightarrow> string" where
  "node_display (RequestHttp status text) = text"
| "node_display (OtherError text) = text"

type_synonym ('e, 'a) future = "'e \<Rightarrow> (node_error + 'a) \<times> 'e"

section \<open>Builders\<close>

definition with_rate_limit_mode ::
  "nat \<Rightarrow> u32 \<Rightarrow> duration \<Rightarrow> rate_limit_mode \<Rightarrow> algo_ops \<Rightarrow> algo_ops" where
  "with_rate_limit_mode now max_reqs per mode self =
     (let cfg = \<lparr>rl_max_requests = max_reqs, rl_per_millis = of_nat (as_millis per), rl_mode = mode\<rparr>
      in self\<lparr>ops_rate_limiter := Some (limiter_new cfg now),
              ops_config := (ops_config self)\<lparr>cc_rate_limit := Some cfg\<rparr>\<rparr>)"

definition with_rate_limit :: "nat \<Rightarrow> u32 \<Rightarrow> duration \<Rightarrow> algo_ops \<Rightarrow> algo_ops" where
  "with_rate_limit now max_reqs per self = with_rate_limit_mode now max_reqs per Block self"

definition with_timeout :: "duration \<Rightarrow> algo_ops \<Rightarrow> algo_ops" where
  "with_timeout timeout self = self\<lparr>ops_timeout := Some timeout\<rparr>"

definition with_initial_request_count :: "u64 \<Rightarrow> algo_ops \<Rightarrow> algo_ops" where
  "with_initial_request_count count self = self\<lparr>ops_requests_made := count\<rparr>"

definition with_daily_budget :: "u64 \<Rightarrow> u32 \<Rightarrow> u32 \<Rightarrow> algo_ops \<Rightarrow> algo_ops" where
  "with_daily_budget now_unix_secs max_per_day day_start_offset_secs self =
     (let cfg = \<lparr>db_max_requests_per_day = max_per_day,
                 db_day_start_offset_secs = day_start_offset_secs\<rparr>
      in self\<lparr>ops_daily_budget := Some (budget_new cfg now_unix_secs 0),
              ops_config := (ops_config self)\<lparr>cc_daily_budget := Some cfg\<rparr>\<rparr>)"

definition with_daily_spent :: "u32 \<Rightarrow> algo_ops \<Rightarrow> algo_ops" where
  "with_daily_spent spent self =
     self\<lparr>ops_daily_budget := map_option (\<lambda>d. d\<lparr>bud_spent := spent\<rparr>) (ops_daily_budget self)\<rparr>"

definition daily_budget_state :: "u64 \<Rightarrow> algo_ops \<Rightarrow> daily_budget_state option \<times> algo_ops" where
  "daily_budget_state now_unix_secs self =
     (case ops_daily_budget self of
        None \<Rightarrow> (None, self)
      | Some daily \<Rightarrow>
          (let guard = roll now_unix_secs daily
           in (Some \<lparr>dbs_window_start_unix = bud_window_start_unix guard,
                     dbs_spent = bud_spent guard, dbs_max = bud_max guard\<rparr>,
               self\<lparr>ops_daily_budget := Some guard\<rparr>)))"

section \<open>The gate\<close>

text \<open>
  The token step of \<open>apply_rate_limit\<close>. In \<open>Block\<close> mode it sleeps until the bucket grants a token and
  may not return, when the clock does not advance.
\<close>

partial_function (option) token_loop ::
  "'e runtime \<Rightarrow> bool \<Rightarrow> string \<Rightarrow> rate_limiter \<Rightarrow> 'e \<Rightarrow>
     ((any_error + unit) \<times> rate_limiter \<times> 'e) option" where
  "token_loop rt reject operation limiter e =
     (let (now, e) = rt_instant rt e;
          (wait, limiter) = poll now limiter
      in if wait = 0 then Some (Inr (), limiter, e)
         else if reject then Some (Inl (Typed (rate_limited operation wait)), limiter, e)
         else token_loop rt reject operation limiter (rt_sleep rt wait e))"

definition budget_peek :: "u64 option \<Rightarrow> ('e world, unit) op" where
  "budget_peek now_secs w =
     (case w of (ops, e) \<Rightarrow>
        case (ops_daily_budget ops, now_secs) of
          (Some daily, Some now) \<Rightarrow>
            (case check now daily of
               (Inl wait, guard) \<Rightarrow>
                 Some (Inl (Typed (daily_budget_exceeded wait (bud_day_start_offset_secs guard))),
                       ops\<lparr>ops_daily_budget := Some guard\<rparr>, e)
             | (Inr _, guard) \<Rightarrow> Some (Inr (), ops\<lparr>ops_daily_budget := Some guard\<rparr>, e))
        | _ \<Rightarrow> Some (Inr (), ops, e))"

definition take_token :: "'e runtime \<Rightarrow> string \<Rightarrow> ('e world, unit) op" where
  "take_token rt operation w =
     (case w of (ops, e) \<Rightarrow>
        case ops_rate_limiter ops of
          None \<Rightarrow> Some (Inr (), ops, e)
        | Some limiter \<Rightarrow>
            (let reject = (map_option rl_mode (cc_rate_limit (ops_config ops)) = Some Reject)
             in case token_loop rt reject operation limiter e of
                  None \<Rightarrow> None
                | Some (r, limiter, e) \<Rightarrow> Some (r, ops\<lparr>ops_rate_limiter := Some limiter\<rparr>, e)))"

definition charge :: "u64 option \<Rightarrow> ('e world, unit) op" where
  "charge now_secs w =
     (case w of (ops, e) \<Rightarrow>
        let ops = (case (ops_daily_budget ops, now_secs) of
                     (Some daily, Some now) \<Rightarrow>
                       ops\<lparr>ops_daily_budget := Some (record_spend now daily)\<rparr>
                   | _ \<Rightarrow> ops)
        in Some (Inr (), ops\<lparr>ops_requests_made := ops_requests_made ops + 1\<rparr>, e))"

definition apply_rate_limit :: "'e runtime \<Rightarrow> string \<Rightarrow> ('e world, unit) op" where
  "apply_rate_limit rt operation w =
     (case w of (ops, e) \<Rightarrow>
        let (now_secs, e) =
              (case ops_daily_budget ops of
                 None \<Rightarrow> (None, e)
               | Some _ \<Rightarrow> (let (now, e) = rt_unix_secs rt e in (Some now, e)))
        in try_op (budget_peek now_secs)
             (\<lambda>_. try_op (take_token rt operation) (\<lambda>_. charge now_secs)) (ops, e))"

section \<open>The bridge to the runtime\<close>

text \<open>The \<open>Debug\<close> form of a duration: the largest unit it reaches, with its decimal fraction.\<close>

fun frac_digits :: "nat \<Rightarrow> nat \<Rightarrow> string" where
  "frac_digits 0 n = []"
| "frac_digits (Suc k) n =
     (if n = 0 then [] else char_of (48 + n div 10 ^ k) # frac_digits k (n mod 10 ^ k))"

definition show_decimal :: "nat \<Rightarrow> nat \<Rightarrow> nat \<Rightarrow> string" where
  "show_decimal ip fp width =
     show_nat ip @ (if fp = 0 then [] else CHR ''.'' # frac_digits width fp)"

definition debug_duration :: "duration \<Rightarrow> string" where
  "debug_duration d =
     (if d \<ge> 10 ^ 9 then show_decimal (d div 10 ^ 9) (d mod 10 ^ 9) 9 @ ''s''
      else if d \<ge> 10 ^ 6 then show_decimal (d div 10 ^ 6) (d mod 10 ^ 6) 6 @ ''ms''
      else if d \<ge> 10 ^ 3 then show_decimal (d div 10 ^ 3) (d mod 10 ^ 3) 3 @ [CHR 0xC2, CHR 0xB5] @ ''s''
      else show_nat d @ ''ns'')"

text \<open>
  \<open>rt_elapses d\<close> runs the timer against the future: it answers whether the timer fires first, and
  when it does, its effect is that of the cancelled request. \<open>rt_hangs e\<close> tells, of the environment a
  request leaves behind, that its answer never comes: the future then never completes, so the caller
  waits for ever without a timeout, and with one the timer is what ends the wait.
\<close>

definition rt_block_on ::
  "'e runtime \<Rightarrow> string \<Rightarrow> ('e, 'a) future \<Rightarrow> ('e world, node_error + 'a) op" where
  "rt_block_on rt operation fut w =
     (case w of (ops, e) \<Rightarrow>
        case rt_build rt e of
          (Inl err, e) \<Rightarrow> Some (Inl (Msg (''failed to build tokio runtime: '' @ err)), ops, e)
        | (Inr _, e) \<Rightarrow>
            (case ops_timeout ops of
               Some dur \<Rightarrow>
                 (let exceeded =
                        Inl (Msg (operation @ '' exceeded timeout of '' @ debug_duration dur))
                  in case rt_elapses rt dur e of
                       (True, e) \<Rightarrow> Some (exceeded, ops, e)
                     | (False, e) \<Rightarrow>
                         (case fut e of
                            (r, e) \<Rightarrow> if rt_hangs rt e then Some (exceeded, ops, e) else Some (Inr r, ops, e)))
             | None \<Rightarrow> (case fut e of (r, e) \<Rightarrow> if rt_hangs rt e then None else Some (Inr r, ops, e))))"

section \<open>Retries\<close>

definition RETRYABLE_STATUS_CODES :: "u16 list" where
  "RETRYABLE_STATUS_CODES = [408, 425, 429, 502, 503, 504]"

definition INDEXER_READ_RETRYABLE_STATUS_CODES :: "u16 list" where
  "INDEXER_READ_RETRYABLE_STATUS_CODES = [500]"

definition http_status :: "node_error \<Rightarrow> u16 option" where
  "http_status e = (case e of RequestHttp status _ \<Rightarrow> Some status | OtherError _ \<Rightarrow> None)"

definition is_retryable_for :: "call_kind \<Rightarrow> node_error \<Rightarrow> bool" where
  "is_retryable_for kind e =
     (case http_status e of
        Some status \<Rightarrow>
          status \<in> set RETRYABLE_STATUS_CODES \<or>
          (kind = IndexerRead \<and> status \<in> set INDEXER_READ_RETRYABLE_STATUS_CODES)
      | None \<Rightarrow> False)"

abbreviation MAX_RETRIES :: nat where "MAX_RETRIES \<equiv> 3"
abbreviation RETRY_BASE_MS :: nat where "RETRY_BASE_MS \<equiv> 1000"

definition pause :: "'e runtime \<Rightarrow> duration \<Rightarrow> ('e world, unit) op" where
  "pause rt d w = (case w of (ops, e) \<Rightarrow> Some (Inr (), ops, rt_sleep rt d e))"

text \<open>One turn of the loop; \<open>left\<close> is \<open>MAX_RETRIES - attempt\<close>, so the loop ends.\<close>

fun call_attempts ::
  "'e runtime \<Rightarrow> call_kind \<Rightarrow> ('e, 'a) future \<Rightarrow> nat \<Rightarrow> ('e world, 'a) op" where
  "call_attempts rt kind fut left =
     (let operation = call_operation kind; attempt = MAX_RETRIES - left
      in try_op (apply_rate_limit rt operation) (\<lambda>_.
         try_op (map_err (\<lambda>e. Msg (''runtime error: '' @ any_display e)) (rt_block_on rt operation fut))
           (\<lambda>result.
             case result of
               Inr val \<Rightarrow> ret val
             | Inl e \<Rightarrow>
                 (case left of
                    Suc left' \<Rightarrow>
                      if is_retryable_for kind e
                      then try_op (pause rt (from_millis (RETRY_BASE_MS * 2 ^ attempt)))
                             (\<lambda>_. call_attempts rt kind fut left')
                      else (case http_status e of
                              Some status \<Rightarrow> fail (Typed (algo_http operation status (node_display e)))
                            | None \<Rightarrow> fail (Msg (node_display e)))
                  | 0 \<Rightarrow>
                      if is_retryable_for kind e
                      then fail (Typed (algo_transient operation (node_display e)))
                      else (case http_status e of
                              Some status \<Rightarrow> fail (Typed (algo_http operation status (node_display e)))
                            | None \<Rightarrow> fail (Msg (node_display e)))))))"

declare call_attempts.simps [simp del]

definition call_with_retry ::
  "'e runtime \<Rightarrow> call_kind \<Rightarrow> ('e, 'a) future \<Rightarrow> ('e world, 'a) op" where
  "call_with_retry rt kind fut = call_attempts rt kind fut MAX_RETRIES"

definition algod_call :: "'e runtime \<Rightarrow> ('e, 'a) future \<Rightarrow> ('e world, 'a) op" where
  "algod_call rt fut = call_with_retry rt Algod fut"

definition indexer_call :: "'e runtime \<Rightarrow> ('e, 'a) future \<Rightarrow> ('e world, 'a) op" where
  "indexer_call rt fut = call_with_retry rt IndexerRead fut"

section \<open>What one pass through the gate does\<close>

lemma budget_peek_eq:
  "budget_peek now_secs (ops, e) =
    (case (ops_daily_budget ops, now_secs) of
       (Some daily, Some now) \<Rightarrow>
         Some (if bud_spent (roll now daily) \<ge> bud_max daily
               then Inl (Typed (daily_budget_exceeded
                      (from_secs (unat (saturating_sub (saturating_add (bud_window_start_unix (roll now daily)) 86400) now)))
                      (bud_day_start_offset_secs daily)))
               else Inr (),
               ops\<lparr>ops_daily_budget := Some (roll now daily)\<rparr>, e)
     | _ \<Rightarrow> Some (Inr (), ops, e))"
  by (auto simp: budget_peek_def check_def Let_def split: option.splits)

lemma token_loop_reject:
  assumes "token_loop rt True operation limiter e = Some (r, limiter', e')"
  shows "limiter' = snd (poll (fst (rt_instant rt e)) limiter) \<and> e' = snd (rt_instant rt e) \<and>
    r = (if fst (poll (fst (rt_instant rt e)) limiter) = 0 then Inr ()
         else Inl (Typed (rate_limited operation (fst (poll (fst (rt_instant rt e)) limiter)))))"
  using assms by (subst (asm) token_loop.simps) (auto simp: Let_def split_beta split: if_splits)

lemma token_loop_reject_returns:
  "token_loop rt True operation limiter e \<noteq> None"
  by (subst token_loop.simps) (auto simp: Let_def split_beta)

text \<open>What the clock and the sleep do not change, the loop does not change.\<close>

lemma token_loop_keeps:
  assumes "token_loop rt reject operation limiter e = Some (r, limiter', e')"
    and "\<And>e. f (snd (rt_instant rt e)) = f e" and "\<And>d e. f (rt_sleep rt d e) = f e"
  shows "f e' = f e"
proof -
  have "y = (r, limiter', e') \<longrightarrow> rt' = rt \<longrightarrow> f e' = f e"
    if "token_loop rt' reject operation limiter e = Some y" for rt' y r limiter' e'
  proof (rule token_loop.raw_induct [where P = "\<lambda>rt' reject operation limiter e y.
      y = (r, limiter', e') \<longrightarrow> rt' = rt \<longrightarrow> f e' = f e", OF _ that])
    fix tl rt' reject operation limiter e y
    assume ih: "\<And>rt' reject operation limiter e y. tl rt' reject operation limiter e = Some y \<Longrightarrow>
        y = (r, limiter', e') \<longrightarrow> rt' = rt \<longrightarrow> f e' = f e"
      and body: "(let (now, e) = rt_instant rt' e; (wait, limiter) = poll now limiter
         in if wait = 0 then Some (Inr (), limiter, e)
            else if reject then Some (Inl (Typed (rate_limited operation wait)), limiter, e)
            else tl rt' reject operation limiter (rt_sleep rt' wait e)) = Some y"
    show "y = (r, limiter', e') \<longrightarrow> rt' = rt \<longrightarrow> f e' = f e"
    proof (intro impI)
      assume y: "y = (r, limiter', e')" and rt: "rt' = rt"
      define e1 where "e1 = snd (rt_instant rt e)"
      define p where "p = poll (fst (rt_instant rt e)) limiter"
      from body y rt consider "e' = e1" | "tl rt reject operation (snd p) (rt_sleep rt (fst p) e1) = Some y"
        by (auto simp: Let_def split_beta e1_def p_def split: if_splits)
      then show "f e' = f e"
      proof cases
        case 1
        then show ?thesis using assms(2) by (simp add: e1_def)
      next
        case 2
        with ih y have "f e' = f (rt_sleep rt (fst p) e1)" by blast
        then show ?thesis using assms(2,3) by (simp add: e1_def)
      qed
    qed
  qed
  with assms(1) show ?thesis by blast
qed

lemma take_token_cases:
  assumes "take_token rt operation (ops, e) = Some (r, ops', e')"
  shows "(ops_rate_limiter ops = None \<and> r = Inr () \<and> ops' = ops \<and> e' = e) \<or>
    (\<exists>l l'. ops_rate_limiter ops = Some l \<and> ops' = ops\<lparr>ops_rate_limiter := Some l'\<rparr> \<and>
       token_loop rt (map_option rl_mode (cc_rate_limit (ops_config ops)) = Some Reject) operation l e
         = Some (r, l', e'))"
  using assms by (auto simp: take_token_def Let_def split: option.splits prod.splits)

definition gate_clock :: "'e runtime \<Rightarrow> algo_ops \<Rightarrow> 'e \<Rightarrow> u64 option \<times> 'e" where
  "gate_clock rt ops e =
     (case ops_daily_budget ops of
        None \<Rightarrow> (None, e)
      | Some _ \<Rightarrow> (Some (fst (rt_unix_secs rt e)), snd (rt_unix_secs rt e)))"

lemma apply_rate_limit_eq:
  "apply_rate_limit rt operation (ops, e) =
     try_op (budget_peek (fst (gate_clock rt ops e)))
       (\<lambda>_. try_op (take_token rt operation) (\<lambda>_. charge (fst (gate_clock rt ops e))))
       (ops, snd (gate_clock rt ops e))"
  by (auto simp: apply_rate_limit_def gate_clock_def split: option.splits prod.splits)

lemma charge_eq:
  "charge now_secs (ops, e) =
     Some (Inr (), ops\<lparr>ops_daily_budget := (case (ops_daily_budget ops, now_secs) of
                          (Some daily, Some now) \<Rightarrow> Some (record_spend now daily) | _ \<Rightarrow> ops_daily_budget ops),
                      ops_requests_made := ops_requests_made ops + 1\<rparr>, e)"
  by (cases ops) (auto simp: charge_def Let_def split: option.splits)

lemma budget_peek_state:
  assumes "budget_peek now_secs (ops, e) = Some (r, ops1, e1)"
  shows "e1 = e \<and> (\<exists>d. ops1 = ops\<lparr>ops_daily_budget := d\<rparr>) \<and>
    (r = Inr () \<or> (\<exists>w off. r = Inl (Typed (daily_budget_exceeded w off))))"
proof (cases "ops_daily_budget ops")
  case None
  with assms show ?thesis by (cases ops) (auto simp: budget_peek_eq)
next
  case (Some d)
  with assms show ?thesis by (cases now_secs; cases ops) (auto simp: budget_peek_eq split: if_splits)
qed

text \<open>The cells of the client that a call never changes.\<close>

definition same_client :: "algo_ops \<Rightarrow> algo_ops \<Rightarrow> bool" where
  "same_client ops ops' \<longleftrightarrow>
     ops_passphrase ops' = ops_passphrase ops \<and> ops_address ops' = ops_address ops \<and>
     ops_config ops' = ops_config ops \<and> ops_timeout ops' = ops_timeout ops \<and>
     ops_app_creators ops' = ops_app_creators ops \<and>
     (ops_rate_limiter ops' = None \<longleftrightarrow> ops_rate_limiter ops = None) \<and>
     (ops_daily_budget ops' = None \<longleftrightarrow> ops_daily_budget ops = None)"

lemma same_client_trans: "same_client a b \<Longrightarrow> same_client b c \<Longrightarrow> same_client a c"
  by (simp add: same_client_def)

lemma same_client_refl [simp]: "same_client a a"
  by (simp add: same_client_def)

lemma apply_rate_limit_step:
  assumes "apply_rate_limit rt operation (ops, e) = Some (r, ops', e')"
    and "\<And>e. f (snd (rt_instant rt e)) = f e" and "\<And>d e. f (rt_sleep rt d e) = f e"
    and "\<And>e. f (snd (rt_unix_secs rt e)) = f e"
  shows "same_client ops ops' \<and> f e' = f e \<and>
    ops_requests_made ops' = ops_requests_made ops + (if r = Inr () then 1 else 0)"
proof -
  let ?n = "fst (gate_clock rt ops e)" and ?e = "snd (gate_clock rt ops e)"
  have fe: "f ?e = f e" using assms(4) by (auto simp: gate_clock_def split: option.splits)
  from assms(1) show ?thesis unfolding apply_rate_limit_eq
  proof (cases rule: try_op_Some_cases)
    case (err err)
    then have "\<exists>d. ops' = ops\<lparr>ops_daily_budget := d\<rparr>" "e' = ?e"
      using budget_peek_state [of ?n ops ?e] by auto
    moreover have "ops_daily_budget ops' = None \<longleftrightarrow> ops_daily_budget ops = None"
      using err by (auto simp: budget_peek_eq split: option.splits)
    ultimately show ?thesis using fe err(2) by (auto simp: same_client_def)
  next
    case (ok u w1)
    obtain ops1 e1 where w1: "w1 = (ops1, e1)" by (cases w1) auto
    then have s1: "\<exists>d. ops1 = ops\<lparr>ops_daily_budget := d\<rparr>" "e1 = ?e"
      using ok(1) budget_peek_state [of ?n ops ?e] by auto
    have d1: "ops_daily_budget ops1 = None \<longleftrightarrow> ops_daily_budget ops = None"
      using ok(1) w1 by (auto simp: budget_peek_eq split: option.splits)
    from ok(2) show ?thesis
    proof (cases rule: try_op_Some_cases)
      case (err err)
      then have "take_token rt operation (ops1, e1) = Some (Inl err, ops', e')" using w1 by simp
      from take_token_cases [OF this] show ?thesis
        using s1 d1 fe err(2) token_loop_keeps [of rt _ operation _ e1 _ _ e' f] assms(2,3)
        by (auto simp: same_client_def)
    next
      case (ok v w2)
      obtain ops2 e2 where w2: "w2 = (ops2, e2)" by (cases w2) auto
      with ok w1 have "take_token rt operation (ops1, e1) = Some (Inr v, ops2, e2)" by simp
      from take_token_cases [OF this] have "f e2 = f e1" "same_client ops1 ops2"
        "ops_requests_made ops2 = ops_requests_made ops1"
        using token_loop_keeps [of rt _ operation _ e1 _ _ e2 f] assms(2,3)
        by (auto simp: same_client_def)
      with ok(2) w2 s1 d1 fe show ?thesis
        by (auto simp: charge_eq same_client_def split: option.splits)
    qed
  qed
qed

lemma token_loop_block_accepts:
  assumes "token_loop rt False operation limiter e = Some (r, limiter', e')"
  shows "r = Inr ()"
proof -
  have "reject = False \<longrightarrow> fst y = Inr ()"
    if "token_loop rt reject operation limiter e = Some y" for reject y
  proof (rule token_loop.raw_induct [where P = "\<lambda>rt reject operation limiter e y.
      reject = False \<longrightarrow> fst y = Inr ()", OF _ that])
    fix tl :: "'a runtime \<Rightarrow> bool \<Rightarrow> string \<Rightarrow> rate_limiter \<Rightarrow> 'a \<Rightarrow>
       ((any_error + unit) \<times> rate_limiter \<times> 'a) option"
    fix rt reject operation limiter e y
    assume ih: "\<And>rt reject operation limiter e y. tl rt reject operation limiter e = Some y \<Longrightarrow>
        reject = False \<longrightarrow> fst y = Inr ()"
      and body: "(let (now, e) = rt_instant rt e; (wait, limiter) = poll now limiter
         in if wait = 0 then Some (Inr (), limiter, e)
            else if reject then Some (Inl (Typed (rate_limited operation wait)), limiter, e)
            else tl rt reject operation limiter (rt_sleep rt wait e)) = Some y"
    show "reject = False \<longrightarrow> fst y = Inr ()"
    proof
      assume rj: "reject = False"
      define e1 where "e1 = snd (rt_instant rt e)"
      define p where "p = poll (fst (rt_instant rt e)) limiter"
      from body rj consider "fst y = Inr ()" | "tl rt False operation (snd p) (rt_sleep rt (fst p) e1) = Some y"
        by (auto simp: Let_def split_beta e1_def p_def split: if_splits)
      then show "fst y = Inr ()"
      proof cases
        case 2
        from ih [OF this] show ?thesis by simp
      qed
    qed
  qed
  with assms show ?thesis by fastforce
qed

lemma poll_zero_or_short:
  "fst (poll now l) \<noteq> 0 \<Longrightarrow> \<not> 1 \<le> refilled now l"
  using poll_grant [of now l] by fastforce

text \<open>
  A request the gate rejects costs nothing. It does not count as a request; a rejection by the
  daily budget leaves the token bucket untouched; a rejection by the token bucket happens only in
  \<open>Reject\<close> mode with less than one token, takes no token, and does not charge the daily budget,
  whose window is at most rolled to the clock.
\<close>

theorem gate_rejection_uncharged:
  assumes "apply_rate_limit rt operation (ops, e) = Some (Inl err, ops', e')"
  shows "ops_requests_made ops' = ops_requests_made ops \<and>
    ops_daily_budget ops' = map_option (roll (fst (rt_unix_secs rt e))) (ops_daily_budget ops) \<and>
    ((\<exists>w off. err = Typed (daily_budget_exceeded w off) \<and> ops_rate_limiter ops' = ops_rate_limiter ops) \<or>
     (\<exists>w l now. err = Typed (rate_limited operation w) \<and> ops_rate_limiter ops = Some l \<and>
        map_option rl_mode (cc_rate_limit (ops_config ops)) = Some Reject \<and> refilled now l < 1 \<and>
        ops_rate_limiter ops' = Some (l\<lparr>lim_tokens := refilled now l, lim_last_refill := now\<rparr>)))"
proof -
  let ?n = "fst (gate_clock rt ops e)" and ?e = "snd (gate_clock rt ops e)"
  have peek: "ops1 = ops\<lparr>ops_daily_budget := map_option (roll (fst (rt_unix_secs rt e))) (ops_daily_budget ops)\<rparr>
      \<and> (r = Inr () \<or> (\<exists>w off. r = Inl (Typed (daily_budget_exceeded w off))))"
    if "budget_peek ?n (ops, ?e) = Some (r, ops1, e1)" for r ops1 e1
    using that by (cases ops) (auto simp: budget_peek_eq gate_clock_def split: option.splits if_splits)
  from assms show ?thesis unfolding apply_rate_limit_eq
  proof (cases rule: try_op_Some_cases)
    case (err x)
    with peek [OF err(1)] show ?thesis by auto
  next
    case (ok u w1)
    obtain ops1 e1 where w1: "w1 = (ops1, e1)" by (cases w1) auto
    note ops1 = peek [OF ok(1) [unfolded w1], THEN conjunct1]
    from ok(2) show ?thesis
    proof (cases rule: try_op_Some_cases)
      case (err x)
      then have t: "take_token rt operation (ops1, e1) = Some (Inl x, ops', e')" and x: "x = err"
        using w1 by simp_all
      from take_token_cases [OF t] obtain l l' where l: "ops_rate_limiter ops1 = Some l"
        "ops' = ops1\<lparr>ops_rate_limiter := Some l'\<rparr>"
        and loop: "token_loop rt (map_option rl_mode (cc_rate_limit (ops_config ops1)) = Some Reject)
           operation l e1 = Some (Inl x, l', e')" by auto
      have rej: "map_option rl_mode (cc_rate_limit (ops_config ops1)) = Some Reject"
        using loop token_loop_block_accepts [of rt operation l e1] by (metis Inl_Inr_False)
      define now where "now = fst (rt_instant rt e1)"
      from loop have "token_loop rt True operation l e1 = Some (Inl x, l', e')" by (simp only: rej simp_thms)
      from token_loop_reject [OF this]
      have p: "l' = snd (poll now l)" "fst (poll now l) \<noteq> 0"
        "x = Typed (rate_limited operation (fst (poll now l)))"
        by (auto simp: now_def split: if_splits)
      from p(2) have s: "\<not> 1 \<le> refilled now l" by (rule poll_zero_or_short)
      then have "l' = l\<lparr>lim_tokens := refilled now l, lim_last_refill := now\<rparr>"
        using p(1) by (simp add: poll_wait)
      then have "\<exists>w l now. err = Typed (rate_limited operation w) \<and> ops_rate_limiter ops = Some l \<and>
          map_option rl_mode (cc_rate_limit (ops_config ops)) = Some Reject \<and> refilled now l < 1 \<and>
          ops_rate_limiter ops' = Some (l\<lparr>lim_tokens := refilled now l, lim_last_refill := now\<rparr>)"
        using l p(3) s rej ops1 x
        by (intro exI [of _ "fst (poll now l)"] exI [of _ l] exI [of _ now]) (simp add: not_le)
      with l ops1 show ?thesis by simp
    next
      case (ok v w2)
      then show ?thesis by (cases w2) (auto simp: charge_eq)
    qed
  qed
qed

definition still_runtime :: "nat runtime" where
  "still_runtime = \<lparr>rt_instant = (\<lambda>e. (0, e)), rt_unix_secs = (\<lambda>e. (100000, e)), rt_sleep = (\<lambda>_ e. e),
     rt_build = (\<lambda>e. (Inr (), e)), rt_elapses = (\<lambda>_ e. (False, e)), rt_hangs = (\<lambda>_. False)\<rparr>"

definition plain_client :: algo_ops where
  "plain_client = \<lparr>ops_passphrase = None, ops_address = None, ops_config = default_chain_config,
     ops_rate_limiter = None, ops_requests_made = 0, ops_daily_budget = None, ops_timeout = None,
     ops_app_creators = (\<lambda>_. None)\<rparr>"

lemma spent_client_rejected:
  "apply_rate_limit still_runtime operation (plain_client\<lparr>ops_daily_budget := Some spent_budget\<rparr>, 0) =
     Some (Inl (Typed (daily_budget_exceeded (from_secs 76400) 3600)),
       plain_client\<lparr>ops_daily_budget := Some spent_budget\<rparr>, 0)"
  by (simp add: apply_rate_limit_def still_runtime_def plain_client_def budget_peek_def
      spent_budget_check) (simp add: spent_budget_eq)

theorem gate_rejection_uncharged_witness:
  "ops_requests_made (plain_client\<lparr>ops_daily_budget := Some spent_budget\<rparr>) = 0"
  using gate_rejection_uncharged [OF spent_client_rejected] by (simp add: plain_client_def)

section \<open>Every request that goes out is charged\<close>

definition quiet :: "'e runtime \<Rightarrow> ('e \<Rightarrow> nat) \<Rightarrow> bool" where
  "quiet rt sent \<longleftrightarrow>
     (\<forall>e. sent (snd (rt_instant rt e)) = sent e) \<and> (\<forall>e. sent (snd (rt_unix_secs rt e)) = sent e) \<and>
     (\<forall>d e. sent (rt_sleep rt d e) = sent e) \<and> (\<forall>e. sent (snd (rt_build rt e)) = sent e) \<and>
     (\<forall>d e. if fst (rt_elapses rt d e) then sent e \<le> sent (snd (rt_elapses rt d e)) \<and>
              sent (snd (rt_elapses rt d e)) \<le> sent e + 1
            else sent (snd (rt_elapses rt d e)) = sent e)"

definition builds :: "'e runtime \<Rightarrow> bool" where
  "builds rt \<longleftrightarrow> (\<forall>e. fst (rt_build rt e) = Inr ())"

text \<open>A runtime under which every request is answered, if only by an error.\<close>

definition prompt :: "'e runtime \<Rightarrow> bool" where
  "prompt rt \<longleftrightarrow> (\<forall>e. \<not> rt_hangs rt e)"

lemma rt_block_on_sent:
  assumes "quiet rt sent" and "\<And>e. sent (snd (fut e)) = sent e + 1"
    and "rt_block_on rt operation fut (ops, e) = Some (r, ops', e')"
  shows "ops' = ops \<and> sent e \<le> sent e' \<and> sent e' \<le> sent e + 1 \<and>
    (ops_timeout ops = None \<and> builds rt \<longrightarrow> sent e' = sent e + 1)"
proof -
  obtain b eb where b: "rt_build rt e = (b, eb)" by (cases "rt_build rt e") auto
  then have sb: "sent eb = sent e" using assms(1) by (metis quiet_def snd_conv)
  show ?thesis
  proof (cases b)
    case (Inl x)
    with b have "\<not> builds rt" by (metis Inl_Inr_False builds_def fst_conv)
    with Inl assms(3) b sb show ?thesis by (auto simp: rt_block_on_def)
  next
    case (Inr u)
    have f: "sent (snd (fut e1)) = sent e1 + 1" for e1 by (rule assms(2))
    show ?thesis
    proof (cases "ops_timeout ops")
      case None
      with assms(3) b sb Inr f [of eb] show ?thesis
        by (auto simp: rt_block_on_def split: prod.splits if_splits)
    next
      case (Some d)
      obtain t et where t: "rt_elapses rt d eb = (t, et)" by (cases "rt_elapses rt d eb") auto
      then have "if t then sent eb \<le> sent et \<and> sent et \<le> sent eb + 1 else sent et = sent eb"
        using assms(1) unfolding quiet_def by (metis fst_conv snd_conv)
      with Some assms(3) b sb Inr t f [of et] show ?thesis
        by (cases t) (auto simp: rt_block_on_def Let_def split: prod.splits if_splits)
    qed
  qed
qed

lemma call_attempts_charged:
  assumes "quiet rt sent" and "\<And>e. sent (snd (fut e)) = sent e + 1"
    and "call_attempts rt kind fut left (ops, e) = Some (r, ops', e')"
  shows "same_client ops ops' \<and> (\<exists>k \<le> Suc left.
    ops_requests_made ops' = ops_requests_made ops + of_nat k \<and> sent e \<le> sent e' \<and> sent e' \<le> sent e + k \<and>
    (ops_timeout ops = None \<and> builds rt \<longrightarrow> sent e' = sent e + k))"
  using assms(3)
proof (induction left arbitrary: ops e r ops' e' rule: less_induct)
  case (less left)
  let ?op = "call_operation kind"
  have q: "\<And>e. sent (snd (rt_instant rt e)) = sent e" "\<And>d e. sent (rt_sleep rt d e) = sent e"
    "\<And>e. sent (snd (rt_unix_secs rt e)) = sent e"
    using assms(1) by (simp_all add: quiet_def)
  from less.prems show ?case
    unfolding call_attempts.simps [of rt kind fut left] Let_def
  proof (cases rule: try_op_Some_cases)
    case (err x)
    from apply_rate_limit_step [where f = sent, OF err(1) q] show ?thesis by (auto intro: exI [of _ 0])
  next
    case (ok u w1)
    obtain ops1 e1 where w1: "w1 = (ops1, e1)" by (cases w1) auto
    have g: "same_client ops ops1" "sent e1 = sent e" "ops_requests_made ops1 = ops_requests_made ops + 1"
      using apply_rate_limit_step [where f = sent, OF ok(1) [unfolded w1] q] by auto
    then have to: "ops_timeout ops1 = ops_timeout ops" by (simp add: same_client_def)
    from ok(2) [unfolded w1] show ?thesis
    proof (cases rule: try_op_Some_cases)
      case (err x)
      then obtain r1 where "rt_block_on rt ?op fut (ops1, e1) = Some (r1, ops', e')"
        by (auto simp: map_err_def elim!: attempt_Some_cases)
      from rt_block_on_sent [OF assms(1,2) this] g to show ?thesis by (auto intro!: exI [of _ 1])
    next
      case (ok res w2)
      obtain ops2 e2 where w2: "w2 = (ops2, e2)" by (cases w2) auto
      with ok(1) obtain r1 where "rt_block_on rt ?op fut (ops1, e1) = Some (r1, ops2, e2)"
        by (auto simp: map_err_def elim!: attempt_Some_cases)
      from rt_block_on_sent [OF assms(1,2) this] have b: "ops2 = ops1" "sent e1 \<le> sent e2"
        "sent e2 \<le> sent e1 + 1" "ops_timeout ops1 = None \<and> builds rt \<longrightarrow> sent e2 = sent e1 + 1" by auto
      show ?thesis
      proof (cases "\<exists>x l. res = Inl x \<and> left = Suc l \<and> is_retryable_for kind x")
        case False
        with ok(2) w2 have "ops' = ops2" "e' = e2"
          by (auto split: sum.splits nat.splits if_splits option.splits)
        with b g to show ?thesis by (auto intro!: exI [of _ 1])
      next
        case True
        then obtain x l where x: "res = Inl x" "left = Suc l" "is_retryable_for kind x" by blast
        with ok(2) w2 have "call_attempts rt kind fut l (ops2, rt_sleep rt (from_millis (RETRY_BASE_MS * 2 ^ (MAX_RETRIES - left))) e2)
            = Some (r, ops', e')" by (simp add: try_op_def pause_def)
        from less.IH [OF _ this] x(2) obtain k where k: "same_client ops2 ops'" "k \<le> Suc l"
          "ops_requests_made ops' = ops_requests_made ops2 + of_nat k" "sent e2 \<le> sent e'"
          "sent e' \<le> sent e2 + k" "ops_timeout ops2 = None \<and> builds rt \<longrightarrow> sent e' = sent e2 + k"
          by (auto simp: q(2))
        have "same_client ops ops'" using g(1) k(1) b(1) same_client_trans by blast
        moreover have "Suc k \<le> Suc left" using k(2) x(2) by simp
        moreover have "ops_requests_made ops' = ops_requests_made ops + of_nat (Suc k)"
          using k(3) b(1) g(3) by simp
        ultimately show ?thesis using b g to k by (intro conjI exI [of _ "Suc k"]) auto
      qed
    qed
  qed
qed

text \<open>
  C7: Every request that goes out is charged exactly once, retries included. A call makes at most
  four requests, adds one to the shared counter for each turn of its loop, and never sends a
  request it did not count; without a timeout the requests counted are exactly the requests sent.
\<close>

theorem call_charges_every_request:
  assumes "quiet rt sent" and "\<forall>e. sent (snd (fut e)) = sent e + 1"
    and "call_with_retry rt kind fut (ops, e) = Some (r, ops', e')"
  shows "\<exists>k \<le> 4. ops_requests_made ops' = ops_requests_made ops + of_nat k \<and> sent e' \<le> sent e + k \<and>
    (ops_timeout ops = None \<and> builds rt \<longrightarrow> sent e' = sent e + k)"
  using call_attempts_charged [OF assms(1) _ assms(3) [unfolded call_with_retry_def]] assms(2) by auto

text \<open>A client without limits, on a runtime that always starts.\<close>

definition unthrottled :: "algo_ops \<Rightarrow> bool" where
  "unthrottled ops \<longleftrightarrow>
     ops_rate_limiter ops = None \<and> ops_daily_budget ops = None \<and> ops_timeout ops = None"

definition counted :: "nat \<Rightarrow> algo_ops \<Rightarrow> algo_ops" where
  "counted k ops = ops\<lparr>ops_requests_made := ops_requests_made ops + of_nat k\<rparr>"

lemma counted_simps [simp]:
  "unthrottled (counted k ops) = unthrottled ops"
  "counted k (counted j ops) = counted (j + k) ops"
  "counted 0 ops = ops"
  by (simp_all add: counted_def unthrottled_def add.assoc)

lemma apply_rate_limit_unthrottled:
  "unthrottled ops \<Longrightarrow> apply_rate_limit rt operation (ops, e) = Some (Inr (), counted 1 ops, e)"
  by (cases ops) (simp add: unthrottled_def apply_rate_limit_eq gate_clock_def budget_peek_def take_token_def
      charge_def counted_def)

lemma rt_block_on_unthrottled:
  "unthrottled ops \<Longrightarrow> builds rt \<Longrightarrow> prompt rt \<Longrightarrow>
     rt_block_on rt operation fut (ops, e) =
       Some (Inr (fst (fut (snd (rt_build rt e)))), ops, snd (fut (snd (rt_build rt e))))"
  by (auto simp: unthrottled_def builds_def prompt_def rt_block_on_def split: prod.splits sum.splits)
     (metis Inl_Inr_False fst_conv)

text \<open>What the last request of a call makes of its result.\<close>

definition verdict :: "call_kind \<Rightarrow> node_error + 'a \<Rightarrow> any_error + 'a" where
  "verdict kind r =
     (case r of
        Inr v \<Rightarrow> Inr v
      | Inl e \<Rightarrow>
          Inl (if is_retryable_for kind e then Typed (algo_transient (call_operation kind) (node_display e))
               else case http_status e of
                      Some status \<Rightarrow> Typed (algo_http (call_operation kind) status (node_display e))
                    | None \<Rightarrow> Msg (node_display e)))"

fun retry_again :: "call_kind \<Rightarrow> node_error + 'a \<Rightarrow> bool" where
  "retry_again kind (Inl e) = is_retryable_for kind e"
| "retry_again kind (Inr v) = False"

lemma call_attempts_unthrottled:
  assumes "unthrottled ops" and "builds rt" and "prompt rt"
  shows "call_attempts rt kind fut left (ops, e) =
    (let r = fst (fut (snd (rt_build rt e))); e1 = snd (fut (snd (rt_build rt e)))
     in if left \<noteq> 0 \<and> retry_again kind r
        then call_attempts rt kind fut (left - 1)
               (counted 1 ops, rt_sleep rt (from_millis (RETRY_BASE_MS * 2 ^ (MAX_RETRIES - left))) e1)
        else Some (verdict kind r, counted 1 ops, e1))"
proof -
  let ?r = "fst (fut (snd (rt_build rt e)))"
  have m: "map_err g (rt_block_on rt operation fut) (counted 1 ops, e) =
      Some (Inr ?r, counted 1 ops, snd (fut (snd (rt_build rt e))))" for g :: "any_error \<Rightarrow> any_error" and operation
    using rt_block_on_unthrottled [of "counted 1 ops" rt operation fut e] assms by (simp add: map_err_def)
  show ?thesis
    unfolding call_attempts.simps [of rt kind fut left] Let_def
    using apply_rate_limit_unthrottled [OF assms(1), of rt "call_operation kind" e]
      m [of "\<lambda>e. Msg (''runtime error: '' @ any_display e)" "call_operation kind"]
    by (cases ?r; cases left) (simp_all add: verdict_def pause_def split: option.split)
qed

lemma plain_client_call:
  "call_with_retry still_runtime Algod (\<lambda>e. (Inr e, e + 1)) (plain_client, 7) =
     Some (Inr 7, counted 1 plain_client, 8)"
proof -
  have "unthrottled plain_client" "builds still_runtime" "prompt still_runtime"
    by (simp_all add: unthrottled_def plain_client_def builds_def prompt_def still_runtime_def)
  then show ?thesis
    unfolding call_with_retry_def
    by (subst call_attempts_unthrottled) (simp_all add: verdict_def still_runtime_def)
qed

theorem call_charges_every_request_witness:
  "\<exists>k \<le> 4. ops_requests_made (counted 1 plain_client) = ops_requests_made plain_client + of_nat k \<and>
     id 8 \<le> id 7 + k \<and> (ops_timeout plain_client = None \<and> builds still_runtime \<longrightarrow> id 8 = id 7 + k)"
proof (rule call_charges_every_request [OF _ _ plain_client_call])
  show "quiet still_runtime id" by (simp add: quiet_def still_runtime_def)
qed simp

section \<open>Calls that cannot hang\<close>

definition never_blocks :: "algo_ops \<Rightarrow> bool" where
  "never_blocks ops \<longleftrightarrow>
     ops_rate_limiter ops = None \<or> map_option rl_mode (cc_rate_limit (ops_config ops)) = Some Reject"

lemma apply_rate_limit_returns:
  assumes "never_blocks ops"
  shows "apply_rate_limit rt operation (ops, e) \<noteq> None"
proof -
  have t1: "budget_peek n (ops, e1) \<noteq> None" for n e1
    by (auto simp: budget_peek_eq split: option.splits)
  have t2: "take_token rt operation (ops1, e1) \<noteq> None" if "never_blocks ops1" for ops1 e1
  proof (cases "ops_rate_limiter ops1")
    case None
    then show ?thesis by (simp add: take_token_def)
  next
    case (Some l)
    with that have "map_option rl_mode (cc_rate_limit (ops_config ops1)) = Some Reject"
      by (simp add: never_blocks_def)
    with Some token_loop_reject_returns [of rt operation l e1] show ?thesis
      by (auto simp del: map_option_eq_Some simp: take_token_def Let_def split: option.split)
  qed
  have t3: "never_blocks ops1" if "budget_peek n (ops, e1) = Some (r, ops1, e2)" for n e1 r ops1 e2
    using that budget_peek_state [of n ops e1 r ops1 e2] assms by (auto simp: never_blocks_def)
  have t4: "charge n w \<noteq> None" for n w by (cases w) (simp add: charge_eq)
  let ?n = "fst (gate_clock rt ops e)" and ?e = "snd (gate_clock rt ops e)"
  obtain r1 ops1 e1 where p: "budget_peek ?n (ops, ?e) = Some (r1, ops1, e1)"
    using t1 [of ?n ?e] by auto
  show ?thesis
  proof (cases r1)
    case (Inl x)
    with p show ?thesis by (simp add: apply_rate_limit_eq)
  next
    case (Inr u)
    obtain r2 w2 where k: "take_token rt operation (ops1, e1) = Some (r2, w2)"
      using t2 [OF t3 [OF p], of e1] by auto
    obtain w3 where c: "charge ?n w2 = Some w3" using t4 [of ?n w2] by auto
    from p Inr k c show ?thesis by (cases r2) (simp_all add: apply_rate_limit_eq)
  qed
qed

lemma same_client_never_blocks: "same_client ops ops' \<Longrightarrow> never_blocks ops' = never_blocks ops"
  by (simp add: same_client_def never_blocks_def)

lemma rt_block_on_returns:
  assumes "ops_timeout ops \<noteq> None \<or> (\<forall>e. \<not> rt_hangs rt (snd (fut e)))"
  shows "\<exists>r e'. rt_block_on rt operation fut (ops, e) = Some (r, ops, e')"
  using assms
  by (auto simp: rt_block_on_def Let_def split: prod.splits sum.splits option.splits bool.splits)
     (metis snd_conv)

lemma call_attempts_returns:
  assumes "never_blocks ops" and "ops_timeout ops \<noteq> None \<or> (\<forall>e. \<not> rt_hangs rt (snd (fut e)))"
  shows "call_attempts rt kind fut left (ops, e) \<noteq> None"
  using assms
proof (induction left arbitrary: ops e rule: less_induct)
  case (less left)
  obtain r1 ops1 e1 where a: "apply_rate_limit rt (call_operation kind) (ops, e) = Some (r1, ops1, e1)"
    using apply_rate_limit_returns [OF less.prems(1)] by (metis not_None_eq prod_cases3)
  have sc: "same_client ops ops1"
    using apply_rate_limit_step [where f = "\<lambda>_. ()", OF a] by simp
  then have to: "ops_timeout ops1 \<noteq> None \<or> (\<forall>e. \<not> rt_hangs rt (snd (fut e)))"
    using less.prems(2) by (simp add: same_client_def)
  from rt_block_on_returns [OF this]
  obtain r2 e2 where b: "rt_block_on rt (call_operation kind) fut (ops1, e1) = Some (r2, ops1, e2)" by blast
  have nb: "never_blocks ops1" using sc less.prems(1) same_client_never_blocks by blast
  have rec: "call_attempts rt kind fut l (ops1, e3) \<noteq> None" if "l < left" for l e3
    using less.IH [OF that nb to] .
  show ?case
    using a b rec unfolding call_attempts.simps [of rt kind fut left] Let_def
    by (cases r1; cases r2)
       (auto simp: map_err_def try_op_def pause_def split: sum.splits nat.splits option.splits)
qed

text \<open>What a hung request makes of the call: nothing without a timeout, the timeout's error with one.\<close>

lemma hung_call:
  assumes "apply_rate_limit rt (call_operation kind) (ops, e) = Some (Inr (), ops1, e1)"
    and "rt_build rt e1 = (Inr (), e2)"
  shows "ops_timeout ops = None \<Longrightarrow> rt_hangs rt (snd (fut e2)) \<Longrightarrow>
      call_with_retry rt kind fut (ops, e) = None"
    and "ops_timeout ops = Some dur \<Longrightarrow> rt_elapses rt dur e2 = (fires, e3) \<Longrightarrow>
      fires \<or> rt_hangs rt (snd (fut e3)) \<Longrightarrow>
      call_with_retry rt kind fut (ops, e) =
        Some (Inl (Msg (''runtime error: '' @ call_operation kind @ '' exceeded timeout of '' @ debug_duration dur)),
          ops1, if fires then e3 else snd (fut e3))"
proof -
  have "same_client ops ops1" using apply_rate_limit_step [where f = "\<lambda>_. ()", OF assms(1)] by simp
  then have to: "ops_timeout ops1 = ops_timeout ops" by (simp add: same_client_def)
  note c = call_with_retry_def call_attempts.simps [of rt kind fut MAX_RETRIES] Let_def
  show "call_with_retry rt kind fut (ops, e) = None"
    if "ops_timeout ops = None" "rt_hangs rt (snd (fut e2))"
  proof -
    have "map_err g (rt_block_on rt (call_operation kind) fut) (ops1, e1) = None" for g :: "any_error \<Rightarrow> any_error"
      using assms(2) to that by (simp add: rt_block_on_def map_err_def attempt_def split_beta)
    with assms(1) show ?thesis unfolding c by simp
  qed
  show "call_with_retry rt kind fut (ops, e) =
        Some (Inl (Msg (''runtime error: '' @ call_operation kind @ '' exceeded timeout of '' @ debug_duration dur)),
          ops1, if fires then e3 else snd (fut e3))"
    if "ops_timeout ops = Some dur" "rt_elapses rt dur e2 = (fires, e3)" "fires \<or> rt_hangs rt (snd (fut e3))"
  proof -
    have "map_err g (rt_block_on rt (call_operation kind) fut) (ops1, e1) =
        Some (Inl (g (Msg (call_operation kind @ '' exceeded timeout of '' @ debug_duration dur))),
          ops1, if fires then e3 else snd (fut e3))" for g :: "any_error \<Rightarrow> any_error"
      using assms(2) to that
      by (cases fires) (simp_all add: rt_block_on_def map_err_def attempt_def Let_def split_beta)
    with assms(1) show ?thesis unfolding c by simp
  qed
qed

text \<open>
  C35: When a call returns. A client with no rate limit, or one in \<open>Reject\<close> mode, is never held up by
  its own limiter: given a timeout, every call returns, whatever the node answers, however the clock
  moves and even when an endpoint hangs; without a timeout it returns when the requests are answered.
  A request that hangs ends the call with the timeout's error, and without a timeout the call waits
  for ever.
\<close>

theorem call_returns_without_blocking:
  assumes "never_blocks ops"
  shows "(ops_timeout ops \<noteq> None \<or> (\<forall>e. \<not> rt_hangs rt (snd (fut e))) \<longrightarrow>
      (\<exists>r ops' e'. call_with_retry rt kind fut (ops, e) = Some (r, ops', e'))) \<and>
    (apply_rate_limit rt (call_operation kind) (ops, e) = Some (Inr (), ops1, e1) \<and>
       rt_build rt e1 = (Inr (), e2) \<longrightarrow>
      (ops_timeout ops = None \<and> rt_hangs rt (snd (fut e2)) \<longrightarrow>
         call_with_retry rt kind fut (ops, e) = None) \<and>
      (\<forall>dur fires e3. ops_timeout ops = Some dur \<and> rt_elapses rt dur e2 = (fires, e3) \<and>
         (fires \<or> rt_hangs rt (snd (fut e3))) \<longrightarrow>
         call_with_retry rt kind fut (ops, e) =
           Some (Inl (Msg (''runtime error: '' @ call_operation kind @ '' exceeded timeout of '' @ debug_duration dur)),
             ops1, if fires then e3 else snd (fut e3))))"
proof (intro conjI impI allI)
  assume "ops_timeout ops \<noteq> None \<or> (\<forall>e. \<not> rt_hangs rt (snd (fut e)))"
  from call_attempts_returns [OF assms this]
  show "\<exists>r ops' e'. call_with_retry rt kind fut (ops, e) = Some (r, ops', e')"
    unfolding call_with_retry_def by (metis not_None_eq prod_cases3)
next
  assume gate: "apply_rate_limit rt (call_operation kind) (ops, e) = Some (Inr (), ops1, e1) \<and>
      rt_build rt e1 = (Inr (), e2)"
  note h = hung_call [OF gate [THEN conjunct1] gate [THEN conjunct2]]
  show "call_with_retry rt kind fut (ops, e) = None"
    if "ops_timeout ops = None \<and> rt_hangs rt (snd (fut e2))"
    using h(1) that by blast
  fix dur fires e3
  show "call_with_retry rt kind fut (ops, e) =
      Some (Inl (Msg (''runtime error: '' @ call_operation kind @ '' exceeded timeout of '' @ debug_duration dur)),
        ops1, if fires then e3 else snd (fut e3))"
    if "ops_timeout ops = Some dur \<and> rt_elapses rt dur e2 = (fires, e3) \<and>
        (fires \<or> rt_hangs rt (snd (fut e3)))"
    using h(2) that by blast
qed

text \<open>An endpoint that takes every request and answers none.\<close>

definition hung_runtime :: "nat runtime" where
  "hung_runtime = still_runtime\<lparr>rt_hangs := (\<lambda>_. True)\<rparr>"

theorem call_returns_without_blocking_witness:
  "call_with_retry hung_runtime Algod (\<lambda>e. (Inr e, e + 1)) (plain_client, 7) = None \<and>
   call_with_retry hung_runtime Algod (\<lambda>e. (Inr e, e + 1)) (with_timeout (from_secs 5) plain_client, 7) =
     Some (Inl (Msg ''runtime error: algod call exceeded timeout of 5s''),
       counted 1 (with_timeout (from_secs 5) plain_client), 8)"
proof
  have d: "debug_duration (from_secs 5) = ''5s''"
    by (simp add: debug_duration_def from_secs_def show_decimal_def show_nat.simps char_of_def bit_numeral_rec bit_0)
  have nb: "never_blocks plain_client" "never_blocks (with_timeout (from_secs 5) plain_client)"
    by (simp_all add: never_blocks_def plain_client_def with_timeout_def)
  have g: "apply_rate_limit hung_runtime operation (ops, e) = Some (Inr (), counted 1 ops, e)"
    if "ops_rate_limiter ops = None" "ops_daily_budget ops = None" for operation ops e
    using that by (cases ops) (simp add: apply_rate_limit_eq gate_clock_def budget_peek_def take_token_def
        charge_def counted_def)
  have b: "rt_build hung_runtime e = (Inr (), e)" "rt_elapses hung_runtime d e = (False, e)"
    "rt_hangs hung_runtime e" for d e
    by (simp_all add: hung_runtime_def still_runtime_def)
  let ?fut = "\<lambda>e :: nat. (Inr e :: node_error + nat, e + 1)"
  show "call_with_retry hung_runtime Algod ?fut (plain_client, 7) = None"
    using call_returns_without_blocking [OF nb(1), of hung_runtime ?fut Algod 7 "counted 1 plain_client" 7 7]
      g [of plain_client _ 7] b by (simp add: plain_client_def)
  show "call_with_retry hung_runtime Algod ?fut (with_timeout (from_secs 5) plain_client, 7) =
     Some (Inl (Msg ''runtime error: algod call exceeded timeout of 5s''),
       counted 1 (with_timeout (from_secs 5) plain_client), 8)"
    using call_returns_without_blocking [OF nb(2), of hung_runtime ?fut Algod 7
        "counted 1 (with_timeout (from_secs 5) plain_client)" 7 7]
      g [of "with_timeout (from_secs 5) plain_client" _ 7] b d exI [of Not False]
    by (simp add: plain_client_def with_timeout_def)
qed

section \<open>Back-off\<close>

text \<open>An environment that answers from a script and records the sleeps.\<close>

record 'a script_env =
  script :: "(node_error + 'a) list"
  slept :: "duration list"

definition script_runtime :: "'a script_env runtime" where
  "script_runtime =
     \<lparr>rt_instant = (\<lambda>e. (0, e)), rt_unix_secs = (\<lambda>e. (0, e)),
      rt_sleep = (\<lambda>d e. e\<lparr>slept := slept e @ [d]\<rparr>),
      rt_build = (\<lambda>e. (Inr (), e)), rt_elapses = (\<lambda>_ e. (False, e)), rt_hangs = (\<lambda>_. False)\<rparr>"

definition answer :: "('a script_env, 'a) future" where
  "answer e =
     (case script e of
        [] \<Rightarrow> (Inl (OtherError ''no answer''), e)
      | r # rs \<Rightarrow> (r, e\<lparr>script := rs\<rparr>))"

lemma script_runtime_simps [simp]:
  "builds script_runtime" "prompt script_runtime" "rt_build script_runtime e = (Inr (), e)"
  "rt_sleep script_runtime d e = e\<lparr>slept := slept e @ [d]\<rparr>"
  by (simp_all add: script_runtime_def builds_def prompt_def)

abbreviation leading_retries :: "nat \<Rightarrow> call_kind \<Rightarrow> (node_error + 'a) list \<Rightarrow> nat" where
  "leading_retries left kind rs \<equiv> min left (length (takeWhile (retry_again kind) rs))"

lemma call_attempts_script:
  assumes "unthrottled ops" and "left \<le> MAX_RETRIES" and "leading_retries left kind rs < length rs"
  shows "call_attempts script_runtime kind answer left (ops, \<lparr>script = rs, slept = ds\<rparr>) =
    Some (verdict kind (rs ! leading_retries left kind rs), counted (Suc (leading_retries left kind rs)) ops,
      \<lparr>script = drop (Suc (leading_retries left kind rs)) rs,
       slept = ds @ map (\<lambda>i. from_millis (RETRY_BASE_MS * 2 ^ i))
                    [MAX_RETRIES - left ..< MAX_RETRIES - left + leading_retries left kind rs]\<rparr>)"
  using assms
proof (induction left arbitrary: ops rs ds)
  case 0
  then obtain r rs' where "rs = r # rs'" by (cases rs) auto
  with 0 show ?case by (subst call_attempts_unthrottled) (simp_all add: answer_def)
next
  case (Suc left)
  then obtain r rs' where rs: "rs = r # rs'" by (cases rs) auto
  show ?case
  proof (cases "retry_again kind r")
    case False
    with Suc.prems rs show ?thesis by (subst call_attempts_unthrottled) (simp_all add: answer_def)
  next
    case True
    let ?k = "leading_retries left kind rs'"
    have k: "leading_retries (Suc left) kind rs = Suc ?k" using True rs by simp
    have "?k < length rs'" using Suc.prems(3) k rs by simp
    moreover have m: "MAX_RETRIES - left = Suc (MAX_RETRIES - Suc left)" using Suc.prems(2) by simp
    ultimately have "call_attempts script_runtime kind answer left
        (counted 1 ops, \<lparr>script = rs', slept = ds @ [from_millis (RETRY_BASE_MS * 2 ^ (MAX_RETRIES - Suc left))]\<rparr>) =
      Some (verdict kind (rs' ! ?k), counted (Suc ?k) (counted 1 ops),
        \<lparr>script = drop (Suc ?k) rs',
         slept = (ds @ [from_millis (RETRY_BASE_MS * 2 ^ (MAX_RETRIES - Suc left))]) @
           map (\<lambda>i. from_millis (RETRY_BASE_MS * 2 ^ i)) [MAX_RETRIES - left ..< MAX_RETRIES - left + ?k]\<rparr>)"
      using Suc.prems Suc.IH [of "counted 1 ops" rs'] by simp
    moreover have "[MAX_RETRIES - Suc left ..< MAX_RETRIES - Suc left + Suc ?k] =
        (MAX_RETRIES - Suc left) # [MAX_RETRIES - left ..< MAX_RETRIES - left + ?k]"
      using upt_conv_Cons [of "MAX_RETRIES - Suc left" "MAX_RETRIES - Suc left + Suc ?k"] m
      by (simp only: add_Suc_right add_Suc)
    ultimately show ?thesis
      using True rs Suc.prems(1) unfolding k
      by (subst call_attempts_unthrottled) (simp_all add: answer_def)
  qed
qed

text \<open>
  C13: The retry policy. A call resends a request while the node answers with a status that is
  retryable for its kind, at most three times, sleeping 1, 2 and 4 seconds; the result of the last
  request decides: its value, a typed transient error when it is still retryable, a typed HTTP error
  with its status otherwise, or the text of a failure that carried no status.
\<close>

theorem retry_backoff:
  assumes "unthrottled ops" and "leading_retries MAX_RETRIES kind rs < length rs"
  shows "call_with_retry script_runtime kind answer (ops, \<lparr>script = rs, slept = []\<rparr>) =
    (let k = leading_retries MAX_RETRIES kind rs
     in Some (verdict kind (rs ! k), counted (Suc k) ops,
          \<lparr>script = drop (Suc k) rs, slept = take k (map from_millis [1000, 2000, 4000])\<rparr>))"
proof -
  have "map (\<lambda>i. from_millis (RETRY_BASE_MS * 2 ^ i)) [0 ..< k] = take k (map from_millis [1000, 2000, 4000])"
    if "k \<le> 3" for k
  proof (rule nth_equalityI)
    fix i
    assume "i < length (map (\<lambda>i. from_millis (RETRY_BASE_MS * 2 ^ i)) [0 ..< k])"
    with that have i: "i < k" "i = 0 \<or> i = 1 \<or> i = 2" by auto
    then show "map (\<lambda>i. from_millis (RETRY_BASE_MS * 2 ^ i)) [0 ..< k] ! i =
        take k (map from_millis [1000, 2000, 4000]) ! i" by auto
  qed (use that in simp)
  then show ?thesis
    using call_attempts_script [OF assms(1) _ assms(2), of "[]"]
    by (simp add: call_with_retry_def Let_def)
qed

theorem retry_backoff_witness:
  "call_with_retry script_runtime IndexerRead answer
     (plain_client, \<lparr>script = [Inl (RequestHttp 500 ''a''), Inl (RequestHttp 403 ''b''), Inr (7 :: nat)], slept = []\<rparr>) =
   Some (Inl (Typed (algo_http ''indexer search'' 403 ''b'')), counted 2 plain_client,
     \<lparr>script = [Inr 7], slept = [from_millis 1000]\<rparr>)"
proof -
  let ?rs = "[Inl (RequestHttp 500 ''a''), Inl (RequestHttp 403 ''b''), Inr (7 :: nat)]"
  have u: "unthrottled plain_client" by (simp add: unthrottled_def plain_client_def)
  have r: "is_retryable_for IndexerRead (RequestHttp 500 ''a'')"
    "\<not> is_retryable_for IndexerRead (RequestHttp 403 ''b'')"
    by (simp_all add: is_retryable_for_def http_status_def RETRYABLE_STATUS_CODES_def
        INDEXER_READ_RETRYABLE_STATUS_CODES_def)
  then have k: "leading_retries MAX_RETRIES IndexerRead ?rs = 1" by simp
  then have "leading_retries MAX_RETRIES IndexerRead ?rs < length ?rs" by simp
  from retry_backoff [OF u this] show ?thesis
    unfolding k Let_def by (simp add: verdict_def r http_status_def numeral_2_eq_2)
qed
end
