(* ===== verification/Node.thy ===== *)
theory Node
  imports CallPath Codec Json
begin

text \<open>
  The third-party side of the client as one record of functions: the asynchronous runtime, the
  \<open>serde_json\<close> accessors over a type of JSON values, the base64 engine, address parsing, and the
  endpoints of algod and the indexer that \<open>algo_ops/src/ops.rs\<close> reads, each a future over the
  environment. \<open>'a\<close> is the type of parsed addresses and \<open>'j\<close> that of JSON values. A response is the
  record of the fields the code reads; \<open>serde_json::to_value\<close> of it is a field too.
\<close>

type_synonym client = "string \<times> string"

datatype idx_txn =
  IdxTxn (it_round: "u64 option") (it_sender: string) (it_note: "bytes option")
    (it_app_accounts: "string list option option") (it_inner: "idx_txn list option")

record 'a txn_search =
  ts_next :: "string option"
  ts_note_prefix :: "string option"
  ts_min_round :: "u64 option"
  ts_address :: "'a option"
  ts_address_role :: "string option"
  ts_app_id :: "u64 option"

record idx_txn_response =
  tr_transactions :: "idx_txn list"
  tr_next_token :: "string option"
  tr_current_round :: u64

record 'j account_info =
  ai_address :: string
  ai_amount :: u64
  ai_min_balance :: u64
  ai_json :: "string + 'j"

record 'j idx_accounts_response =
  ar_accounts :: "'j account_info list"
  ar_next_token :: "string option"
  ar_current_round :: u64

record 'j pending_info =
  pi_confirmed_round :: "u64 option"
  pi_txn_json :: "(string + 'j) option"
  pi_asset_index :: "u64 option"
  pi_pool_error :: string
  pi_json :: "string + 'j"

record params_info =
  sp_last_round :: u64
  sp_min_fee :: u64
  sp_genesis_hash :: bytes
  sp_genesis_id :: string

record node_params = params_info +
  sp_fee :: u64

text \<open>
  What \<open>reqwest\<close> gives of a GET: a failure with its kind and text, or the status with its \<open>Display\<close>
  and the body, which can fail to be read.
\<close>

record http_failure =
  hf_connect :: bool
  hf_timeout :: bool
  hf_text :: string

record http_response =
  hr_status :: u16
  hr_status_text :: string
  hr_body :: "string + string"

record ('e, 'a, 'j) node =
  nd_rt :: "'e runtime"
  nd_json :: "'j json_api"
  nd_b64 :: base64_engine
  nd_parse_address :: "string \<Rightarrow> string + 'a"
  nd_algod_new :: "string \<Rightarrow> string \<Rightarrow> string + unit"
  nd_indexer_new :: "string \<Rightarrow> string \<Rightarrow> string + unit"
  nd_account :: "client \<Rightarrow> 'a \<Rightarrow> ('e, 'j account_info) future"
  nd_app :: "client \<Rightarrow> u64 \<Rightarrow> ('e, string + 'j) future"
  nd_asset :: "client \<Rightarrow> u64 \<Rightarrow> ('e, string + 'j) future"
  nd_status :: "client \<Rightarrow> ('e, u64) future"
  nd_status_after_block :: "client \<Rightarrow> u64 \<Rightarrow> ('e, u64) future"
  nd_pending_transaction :: "client \<Rightarrow> string \<Rightarrow> ('e, 'j pending_info) future"
  nd_suggested_params :: "client \<Rightarrow> ('e, node_params) future"
  nd_send_raw :: "client \<Rightarrow> bytes \<Rightarrow> ('e, string) future"
  nd_search_for_transactions :: "client \<Rightarrow> 'a txn_search \<Rightarrow> ('e, idx_txn_response) future"
  nd_search_for_accounts ::
    "client \<Rightarrow> string option \<Rightarrow> string list option \<Rightarrow> u64 \<Rightarrow> ('e, 'j idx_accounts_response) future"
  nd_lookup_account_by_id :: "client \<Rightarrow> 'a \<Rightarrow> string list option \<Rightarrow> ('e, 'j account_info) future"
  nd_http_get :: "string \<Rightarrow> string \<Rightarrow> string \<Rightarrow> 'e \<Rightarrow> (http_failure + http_response) \<times> 'e"
  nd_parse_block_seed :: "bytes \<Rightarrow> string + string"

section \<open>Clients, addresses and the mapping of unreachable hosts\<close>

definition show_u16 :: "u16 \<Rightarrow> string" where "show_u16 w = show_nat (unat w)"

definition algod_client :: "('e, 'a, 'j, 'z) node_scheme \<Rightarrow> ('e world, client) op" where
  "algod_client nd w =
     (case w of (ops, e) \<Rightarrow>
        let cfg = ops_config ops;
            url = cc_client_api_url cfg @ '':'' @ show_u16 (cc_client_api_port cfg);
            token = (case cc_token cfg of Some t \<Rightarrow> t | None \<Rightarrow> [])
        in lift (rbind (rmap_err (\<lambda>e. Msg (''failed to construct Algod client: '' @ e)) (nd_algod_new nd url token))
                   (\<lambda>_. Inr (url, token))) w)"

definition indexer_client :: "('e, 'a, 'j, 'z) node_scheme \<Rightarrow> ('e world, client) op" where
  "indexer_client nd w =
     (case w of (ops, e) \<Rightarrow>
        let cfg = ops_config ops;
            url = cc_indexer_api_url cfg @ '':'' @ show_u16 (cc_indexer_api_port cfg);
            token = (case cc_token cfg of Some t \<Rightarrow> t | None \<Rightarrow> [])
        in lift (rbind (rmap_err (\<lambda>e. Msg (''failed to construct Indexer client: '' @ e)) (nd_indexer_new nd url token))
                   (\<lambda>_. Inr (url, token))) w)"

definition parse_address :: "('e, 'a, 'j, 'z) node_scheme \<Rightarrow> string \<Rightarrow> any_error + 'a" where
  "parse_address nd addr = rmap_err (\<lambda>e. Msg (''invalid address: '' @ e)) (nd_parse_address nd addr)"

definition require_address :: "('e, 'a, 'j, 'z) node_scheme \<Rightarrow> ('e world, 'a) op" where
  "require_address nd w =
     (case ops_address (fst w) of
        None \<Rightarrow> fail (Msg ''This operation needs an address'') w
      | Some addr \<Rightarrow> lift (parse_address nd addr) w)"

definition address_str :: "('e world, string) op" where
  "address_str w =
     (case ops_address (fst w) of
        None \<Rightarrow> fail (Msg ''This operation needs an address'') w
      | Some addr \<Rightarrow> ret addr w)"

text \<open>
  The recurring \<open>match ... { Ok(v) => v, Err(e) if is_host_unreachable(&e) => return
  Err(unreachable(op, e)), Err(e) => ... }\<close>: \<open>other\<close> is what the remaining errors become.
\<close>

definition unless_unreachable ::
  "string \<Rightarrow> (any_error \<Rightarrow> ('s, 'b) op) \<Rightarrow> ('s, 'c) op \<Rightarrow> ('c \<Rightarrow> ('s, 'b) op) \<Rightarrow> ('s, 'b) op" where
  "unless_unreachable name other m f =
     attempt m (\<lambda>r. case r of
        Inr v \<Rightarrow> f v
      | Inl e \<Rightarrow> if is_host_unreachable e then fail (Typed (algo_unreachable name (any_display e)))
                 else other e)"

text \<open>The empty pagination token ends a paged read like an absent one.\<close>

definition next_token_of :: "string option \<Rightarrow> string option" where
  "next_token_of t = (case t of Some tok \<Rightarrow> if tok = [] then None else Some tok | None \<Rightarrow> None)"


section \<open>A concrete node\<close>

text \<open>Every endpoint adds one to the environment, the number of requests received.\<close>

definition refuse :: "(nat, 'b) future" where
  "refuse e = (Inl (OtherError ''refused''), e + 1)"

definition answers :: "'b \<Rightarrow> (nat, 'b) future" where
  "answers v e = (Inr v, e + 1)"

definition refusing_node :: "(nat, string, json) node" where
  "refusing_node = \<lparr>nd_rt = still_runtime, nd_json = json_accessors, nd_b64 = plain_engine,
     nd_parse_address = Inr, nd_algod_new = (\<lambda>_ _. Inr ()), nd_indexer_new = (\<lambda>_ _. Inr ()),
     nd_account = (\<lambda>_ _. refuse), nd_app = (\<lambda>_ _. refuse), nd_asset = (\<lambda>_ _. refuse), nd_status = (\<lambda>_. refuse),
     nd_status_after_block = (\<lambda>_ _. refuse), nd_pending_transaction = (\<lambda>_ _. refuse),
     nd_suggested_params = (\<lambda>_. refuse), nd_send_raw = (\<lambda>_ _. refuse),
     nd_search_for_transactions = (\<lambda>_ _. refuse), nd_search_for_accounts = (\<lambda>_ _ _ _. refuse),
     nd_lookup_account_by_id = (\<lambda>_ _ _. refuse), nd_http_get = (\<lambda>_ _ _ e. (Inl \<lparr>hf_connect = False, hf_timeout = False, hf_text = ''refused''\<rparr>, e + 1)),
     nd_parse_block_seed = (\<lambda>_. Inl ''refused'')\<rparr>"

lemma unthrottled_plain_client [simp]: "unthrottled plain_client"
  by (simp add: unthrottled_def plain_client_def)

lemma builds_still_runtime [simp]: "builds still_runtime" "prompt still_runtime"
  by (simp_all add: builds_def prompt_def still_runtime_def)

lemma still_runtime_call:
  assumes "unthrottled ops" and "fut e = (r, e')" and "\<not> retry_again kind r"
  shows "call_with_retry still_runtime kind fut (ops, e) = Some (verdict kind r, counted 1 ops, e')"
  unfolding call_with_retry_def
  using assms by (subst call_attempts_unthrottled) (simp_all add: Let_def, simp_all add: still_runtime_def)

lemma still_runtime_answers [simp]:
  "unthrottled ops \<Longrightarrow>
     call_with_retry still_runtime kind (answers v) (ops, e) = Some (Inr v, counted 1 ops, e + 1)"
  by (subst still_runtime_call [where r = "Inr v" and e' = "e + 1"]) (simp_all add: answers_def verdict_def)

lemma counted_numerals [simp]: "counted (Suc (Suc 0)) = counted 2" "counted (Suc (Suc (Suc 0))) = counted 3"
  by (simp_all add: numeral_2_eq_2 numeral_3_eq_3)

text \<open>The URL and token a client is built on.\<close>

definition algod_at :: "algo_chain_config \<Rightarrow> client" where
  "algod_at cfg = (cc_client_api_url cfg @ '':'' @ show_u16 (cc_client_api_port cfg),
     case cc_token cfg of Some t \<Rightarrow> t | None \<Rightarrow> [])"

definition indexer_at :: "algo_chain_config \<Rightarrow> client" where
  "indexer_at cfg = (cc_indexer_api_url cfg @ '':'' @ show_u16 (cc_indexer_api_port cfg),
     case cc_token cfg of Some t \<Rightarrow> t | None \<Rightarrow> [])"

lemma client_ok:
  "nd_algod_new nd = (\<lambda>_ _. Inr ()) \<Longrightarrow> algod_client nd (ops, e) = Some (Inr (algod_at (ops_config ops)), ops, e)"
  "nd_indexer_new nd = (\<lambda>_ _. Inr ()) \<Longrightarrow> indexer_client nd (ops, e) = Some (Inr (indexer_at (ops_config ops)), ops, e)"
  by (simp_all add: algod_client_def indexer_client_def algod_at_def indexer_at_def Let_def)

lemma refusing_node_simps [simp]:
  "nd_rt refusing_node = still_runtime" "nd_json refusing_node = json_accessors"
  "nd_b64 refusing_node = plain_engine" "nd_parse_address refusing_node = Inr"
  "nd_algod_new refusing_node = (\<lambda>_ _. Inr ())" "nd_indexer_new refusing_node = (\<lambda>_ _. Inr ())"
  by (simp_all add: refusing_node_def)

end
