(* ===== verification/StateDecode.thy ===== *)
theory StateDecode
  imports Node
begin

text \<open>
  Decoding of application state from the node's JSON (\<open>algo_ops/src/ops.rs\<close>: \<open>json_get\<close>,
  \<open>decode_state_entries\<close>, \<open>decode_app_local_state\<close>, \<open>app_global_bytes\<close>' search). Strings are bytes, so
  \<open>String::from_utf8\<close> is the validity test of the UTF-8 encoding.
\<close>

definition is_cont :: "u8 \<Rightarrow> bool" where
  "is_cont b = (0x80 \<le> b \<and> b \<le> 0xBF)"

fun utf8_valid :: "bytes \<Rightarrow> bool" where
  "utf8_valid [] = True"
| "utf8_valid (b # bs) =
     (if b < 0x80 then utf8_valid bs
      else if 0xC2 \<le> b \<and> b \<le> 0xDF then
        (case bs of c # r \<Rightarrow> is_cont c \<and> utf8_valid (drop 1 bs) | _ \<Rightarrow> False)
      else if 0xE0 \<le> b \<and> b \<le> 0xEF then
        (case bs of
           c # d # r \<Rightarrow>
             (if b = 0xE0 then 0xA0 \<le> c \<and> c \<le> 0xBF
              else if b = 0xED then 0x80 \<le> c \<and> c \<le> 0x9F else is_cont c) \<and>
             is_cont d \<and> utf8_valid (drop 2 bs)
         | _ \<Rightarrow> False)
      else if 0xF0 \<le> b \<and> b \<le> 0xF4 then
        (case bs of
           c # d # f # r \<Rightarrow>
             (if b = 0xF0 then 0x90 \<le> c \<and> c \<le> 0xBF
              else if b = 0xF4 then 0x80 \<le> c \<and> c \<le> 0x8F else is_cont c) \<and>
             is_cont d \<and> is_cont f \<and> utf8_valid (drop 3 bs)
         | _ \<Rightarrow> False)
      else False)"

definition from_utf8 :: "bytes \<Rightarrow> string option" where
  "from_utf8 bs = (if utf8_valid bs then Some (bytes_str bs) else None)"

definition json_get :: "'j json_api \<Rightarrow> 'j \<Rightarrow> string \<Rightarrow> string \<Rightarrow> 'j option" where
  "json_get js v k1 k2 = (case js_get js k1 v of Some x \<Rightarrow> Some x | None \<Rightarrow> js_get js k2 v)"

text \<open>\<open>v.get(k).and_then(f)\<close>.\<close>

definition get_then :: "'j json_api \<Rightarrow> ('j \<Rightarrow> 'b option) \<Rightarrow> string \<Rightarrow> 'j \<Rightarrow> 'b option" where
  "get_then js f k v = Option.bind (js_get js k v) f"

text \<open>
  The bytes of a state value: an array of numbers, of which those that are not unsigned or
  non-negative are skipped and the others reduced to their low byte, or a base64 string.
\<close>

definition byte_of_number :: "'j json_api \<Rightarrow> 'j \<Rightarrow> u8 option" where
  "byte_of_number js n =
     (case js_u64 js n of
        Some u \<Rightarrow> Some (ucast (u AND 0xFF))
      | None \<Rightarrow> (case js_i64 js n of
                  Some i \<Rightarrow> if 0 \<le> i then Some (ucast ((word_of_int i :: u64) AND 0xFF)) else None
                | None \<Rightarrow> None))"

definition value_bytes :: "'j json_api \<Rightarrow> base64_engine \<Rightarrow> 'j \<Rightarrow> bytes option" where
  "value_bytes js b64 val_obj =
     (case get_then js (js_array js) ''bytes'' val_obj of
        Some arr \<Rightarrow> Some (List.map_filter (byte_of_number js) arr)
      | None \<Rightarrow> (case get_then js (js_str js) ''bytes'' val_obj of
                  Some s \<Rightarrow> rok (b64_decode b64 s)
                | None \<Rightarrow> None))"

definition show_bytes_value :: "bytes \<Rightarrow> string" where
  "show_bytes_value bs = (case from_utf8 bs of Some s \<Rightarrow> s | None \<Rightarrow> ''0x'' @ hex_lower bs)"

definition decode_state_entry :: "'j json_api \<Rightarrow> base64_engine \<Rightarrow> 'j \<Rightarrow> (string \<times> string) option" where
  "decode_state_entry js b64 entry =
     (case get_then js (js_str js) ''key'' entry of
        None \<Rightarrow> None
      | Some key_b64 \<Rightarrow>
          (let key = (case b64_decode b64 key_b64 of
                        Inr bs \<Rightarrow> (case from_utf8 bs of Some s \<Rightarrow> s | None \<Rightarrow> key_b64)
                      | Inl _ \<Rightarrow> key_b64)
           in case js_get js ''value'' entry of
                None \<Rightarrow> None
              | Some val_obj \<Rightarrow>
                  if \<not> js_is_object js val_obj then None
                  else
                    (let vtype = (case get_then js (js_u64 js) ''type'' val_obj of Some t \<Rightarrow> t | None \<Rightarrow> 0);
                         val = (if vtype = 1
                                then (case value_bytes js b64 val_obj of
                                        Some bs \<Rightarrow> show_bytes_value bs | None \<Rightarrow> [])
                                else (case get_then js (js_u64 js) ''uint'' val_obj of
                                        Some u \<Rightarrow> show_nat (unat u) | None \<Rightarrow> ''0''))
                     in Some (key, val))))"

definition decode_state_entries :: "'j json_api \<Rightarrow> base64_engine \<Rightarrow> 'j list \<Rightarrow> (string \<times> string) list" where
  "decode_state_entries js b64 entries = List.map_filter (decode_state_entry js b64) entries"

definition key_values_of :: "'j json_api \<Rightarrow> 'j \<Rightarrow> string \<Rightarrow> string \<Rightarrow> 'j list" where
  "key_values_of js v k1 k2 =
     (case Option.bind (json_get js v k1 k2) (js_array js) of Some xs \<Rightarrow> xs | None \<Rightarrow> [])"

fun find_app_state :: "'j json_api \<Rightarrow> base64_engine \<Rightarrow> u64 \<Rightarrow> 'j list \<Rightarrow> (string \<times> string) list option" where
  "find_app_state js b64 app_id [] = None"
| "find_app_state js b64 app_id (st # sts) =
     (if get_then js (js_u64 js) ''id'' st = Some app_id
      then Some (decode_state_entries js b64 (key_values_of js st ''key_value'' ''key-value''))
      else find_app_state js b64 app_id sts)"

definition decode_app_local_state ::
  "'j json_api \<Rightarrow> base64_engine \<Rightarrow> 'j \<Rightarrow> u64 \<Rightarrow> (string \<times> string) list option" where
  "decode_app_local_state js b64 account_json app_id =
     Option.bind (Option.bind (json_get js account_json ''apps_local_state'' ''apps-local-state'') (js_array js))
       (find_app_state js b64 app_id)"

text \<open>The search of \<open>app_global_bytes\<close>: the first entry with the key and an object value decides.\<close>

fun find_global_bytes :: "'j json_api \<Rightarrow> base64_engine \<Rightarrow> string \<Rightarrow> 'j list \<Rightarrow> bytes option" where
  "find_global_bytes js b64 key [] = None"
| "find_global_bytes js b64 key (entry # entries) =
     (case Option.bind (get_then js (js_str js) ''key'' entry)
             (\<lambda>k. Option.bind (rok (b64_decode b64 k)) from_utf8) of
        None \<Rightarrow> find_global_bytes js b64 key entries
      | Some entry_key \<Rightarrow>
          if entry_key \<noteq> key then find_global_bytes js b64 key entries
          else (case js_get js ''value'' entry of
                  None \<Rightarrow> find_global_bytes js b64 key entries
                | Some val_obj \<Rightarrow>
                    if \<not> js_is_object js val_obj then find_global_bytes js b64 key entries
                    else value_bytes js b64 val_obj))"

end
