(* ===== verification/Paging.thy ===== *)
theory Paging
  imports Effects
begin

text \<open>
  Paged reads. Every paged read of \<open>algo_ops/src/ops.rs\<close> is the loop
  \<open>let page = fetch(next)?; use(page); match page.next_token { Some(t) => next = Some(t), None => break }\<close>,
  here \<open>page_loop\<close> with the use of a page as its \<open>step\<close>. It has no bound of its own: it returns when
  the server ends the sequence or a page fails, and then what it did is the fold of the pages
  delivered. \<open>Mutex\<close> poisoning is a flag next to the data.
\<close>

partial_function (option) page_loop ::
  "(string option \<Rightarrow> ('s, 'p) op) \<Rightarrow> ('p \<Rightarrow> string option) \<Rightarrow> ('p \<Rightarrow> 'acc \<Rightarrow> 'acc) \<Rightarrow>
     'acc \<Rightarrow> string option \<Rightarrow> 's \<Rightarrow> ((any_error + unit) \<times> 'acc \<times> 's) option" where
  "page_loop fetch token step acc tok s =
     (case fetch tok s of
        None \<Rightarrow> None
      | Some (Inl e, s) \<Rightarrow> Some (Inl e, acc, s)
      | Some (Inr page, s) \<Rightarrow>
          (let acc = step page acc
           in case token page of
                Some t \<Rightarrow> page_loop fetch token step acc (Some t) s
              | None \<Rightarrow> Some (Inr (), acc, s)))"

text \<open>The pages a source delivers from a token, how the sequence ends, and the state left.\<close>

inductive delivers ::
  "(string option \<Rightarrow> ('s, 'p) op) \<Rightarrow> ('p \<Rightarrow> string option) \<Rightarrow> string option \<Rightarrow> 's \<Rightarrow>
     'p list \<Rightarrow> any_error + unit \<Rightarrow> 's \<Rightarrow> bool" for fetch token where
  last_page: "fetch tok s = Some (Inr p, s') \<Longrightarrow> token p = None \<Longrightarrow>
     delivers fetch token tok s [p] (Inr ()) s'"
| more: "fetch tok s = Some (Inr p, s1) \<Longrightarrow> token p = Some t \<Longrightarrow>
     delivers fetch token (Some t) s1 ps r s' \<Longrightarrow> delivers fetch token tok s (p # ps) r s'"
| failed: "fetch tok s = Some (Inl e, s') \<Longrightarrow> delivers fetch token tok s [] (Inl e) s'"

inductive_cases delivers_NilE: "delivers fetch token tok s [] r s'"
inductive_cases delivers_ConsE: "delivers fetch token tok s (p # ps) r s'"

lemma page_loop_of_delivers:
  "delivers fetch token tok s ps r s' \<Longrightarrow>
     page_loop fetch token step acc tok s = Some (r, fold step ps acc, s')"
proof (induction arbitrary: acc rule: delivers.induct)
  case (last_page tok s p s')
  then show ?case by (subst page_loop.simps) simp
next
  case (more tok s p s1 t ps r s')
  then show ?case by (subst page_loop.simps) simp
next
  case (failed tok s e s')
  then show ?case by (subst page_loop.simps) simp
qed

lemma delivers_of_page_loop:
  fixes fetch :: "string option \<Rightarrow> ('a, 'b) op" and acc :: 'c
  assumes "page_loop fetch token step acc tok s = Some (r, acc', s')"
  shows "\<exists>ps. delivers fetch token tok s ps r s' \<and> acc' = fold step ps acc"
proof -
  have "\<forall>r acc' s'. y = (r, acc', s') \<longrightarrow>
      (\<exists>ps. delivers fetch token tok s ps r s' \<and> acc' = fold step ps acc)"
    if "page_loop fetch token step acc tok s = Some y"
    for fetch :: "string option \<Rightarrow> ('a, 'b) op" and token and step and acc :: 'c and tok s y
  proof (rule page_loop.raw_induct [where P = "\<lambda>fetch token step acc tok s y.
      \<forall>r acc' s'. y = (r, acc', s') \<longrightarrow>
        (\<exists>ps. delivers fetch token tok s ps r s' \<and> acc' = fold step ps acc)", OF _ that])
    fix loop :: "(string option \<Rightarrow> ('a, 'b) op) \<Rightarrow> ('b \<Rightarrow> string option) \<Rightarrow> ('b \<Rightarrow> 'c \<Rightarrow> 'c) \<Rightarrow>
       'c \<Rightarrow> string option \<Rightarrow> 'a \<Rightarrow> ((any_error + unit) \<times> 'c \<times> 'a) option"
    fix fetch :: "string option \<Rightarrow> ('a, 'b) op" and token and step and acc :: 'c and tok s y
    assume ih: "\<And>fetch token step acc tok s y. loop fetch token step acc tok s = Some y \<Longrightarrow>
        \<forall>r acc' s'. y = (r, acc', s') \<longrightarrow>
          (\<exists>ps. delivers fetch token tok s ps r s' \<and> acc' = fold step ps acc)"
      and body: "(case fetch tok s of None \<Rightarrow> None
         | Some (Inl e, s) \<Rightarrow> Some (Inl e, acc, s)
         | Some (Inr page, s) \<Rightarrow>
             let acc = step page acc
             in case token page of None \<Rightarrow> Some (Inr (), acc, s)
                | Some t \<Rightarrow> loop fetch token step acc (Some t) s) = Some y"
    show "\<forall>r acc' s'. y = (r, acc', s') \<longrightarrow>
        (\<exists>ps. delivers fetch token tok s ps r s' \<and> acc' = fold step ps acc)"
    proof (intro allI impI)
      fix r acc' s'
      assume y: "y = (r, acc', s')"
      from body y consider
          (e) e where "fetch tok s = Some (Inl e, s')" "r = Inl e" "acc' = acc"
        | (last) p where "fetch tok s = Some (Inr p, s')" "token p = None" "r = Inr ()" "acc' = step p acc"
        | (more) p s1 t where "fetch tok s = Some (Inr p, s1)" "token p = Some t"
            "loop fetch token step (step p acc) (Some t) s1 = Some y"
        by (auto simp: Let_def split: option.splits sum.splits prod.splits)
      then show "\<exists>ps. delivers fetch token tok s ps r s' \<and> acc' = fold step ps acc"
      proof cases
        case e
        then have "delivers fetch token tok s [] r s' \<and> acc' = fold step [] acc"
          by (auto intro: delivers.failed)
        then show ?thesis by blast
      next
        case last
        then have "delivers fetch token tok s [p] r s' \<and> acc' = fold step [p] acc"
          by (auto intro: delivers.last_page)
        then show ?thesis by blast
      next
        case more
        from ih [OF more(3)] y obtain ps where
          "delivers fetch token (Some t) s1 ps r s'" "acc' = fold step ps (step p acc)" by blast
        with more have "delivers fetch token tok s (p # ps) r s' \<and> acc' = fold step (p # ps) acc"
          by (auto intro: delivers.more)
        then show ?thesis by blast
      qed
    qed
  qed
  with assms show ?thesis by blast
qed

lemma page_loop_iff:
  "page_loop fetch token step acc tok s = Some (r, acc', s') \<longleftrightarrow>
     (\<exists>ps. delivers fetch token tok s ps r s' \<and> acc' = fold step ps acc)"
  using delivers_of_page_loop page_loop_of_delivers by metis

lemma delivers_unique:
  "delivers fetch token tok s ps r s' \<Longrightarrow> delivers fetch token tok s ps' r' s'' \<Longrightarrow>
     ps' = ps \<and> r' = r \<and> s'' = s'"
proof -
  assume d: "delivers fetch token tok s ps r s'" "delivers fetch token tok s ps' r' s''"
  have snoc: "fold (\<lambda>p ps. ps @ [p]) qs acc = acc @ qs" for qs acc :: "'b list"
    by (induction qs arbitrary: acc) simp_all
  have "page_loop fetch token (\<lambda>p ps. ps @ [p]) [] tok s = Some (r, ps, s')"
    "page_loop fetch token (\<lambda>p ps. ps @ [p]) [] tok s = Some (r', ps', s'')"
    using d [THEN page_loop_of_delivers, of "\<lambda>p ps. ps @ [p]" "[]"] by (simp_all only: snoc append_Nil)
  then show "ps' = ps \<and> r' = r \<and> s'' = s'" by simp
qed

lemma two_pages:
  assumes "fetch tok s = Some (Inr p, s1)" and "token p = Some t"
    and "fetch (Some t) s1 = Some (Inr q, s2)" and "token q = None"
  shows "delivers fetch token tok s [p, q] (Inr ()) s2"
  using assms by (auto intro!: delivers.more delivers.last_page)

text \<open>A successful sequence has at least one page.\<close>

lemma delivers_ok_nonempty: "delivers fetch token tok s ps (Inr ()) s' \<Longrightarrow> ps \<noteq> []"
  by (cases ps) (auto elim: delivers_NilE)

record 'a mutex =
  mx_poisoned :: bool
  mx_data :: 'a

end
