(* ===== verification/TxnScan.thy ===== *)
theory TxnScan
  imports Paging
begin

text \<open>
  The incremental transaction scan of \<open>algo_ops/src/ops.rs\<close>: a caller-owned append-only cache with a
  round watermark, refreshed from a paged source (\<open>fetch_transactions_cached_with\<close>). The mutex is
  held for the whole refresh, so the cache is threaded as state; on an early return it keeps what
  the pages read so far pushed into it, as in the code.
\<close>

record scanned_txn =
  st_confirmed_round :: u64
  st_sender :: string
  st_note :: "bytes option"

record 't txn_scan_cache =
  tc_last_round :: u64
  tc_last_updated :: u64
  tc_entries :: "'t list"

definition txn_cache_new :: "'t txn_scan_cache" where
  "txn_cache_new = \<lparr>tc_last_round = 0, tc_last_updated = 0, tc_entries = []\<rparr>"

datatype query_mode = Refresh | CacheOnly | ForceFull

record txn_scan_page =
  tp_txns :: "scanned_txn list"
  tp_next_token :: "string option"
  tp_current_round :: u64

definition scan_cache_is_fresh :: "u64 \<Rightarrow> u64 \<Rightarrow> u64 option \<Rightarrow> bool" where
  "scan_cache_is_fresh last_updated now lifetime =
     (case lifetime of Some secs \<Rightarrow> saturating_sub now last_updated < secs | None \<Rightarrow> False)"

text \<open>
  Whether to fetch and from where: the outer \<open>None\<close> skips the network, the inner \<open>None\<close> is a full
  scan.
\<close>

definition txn_fetch_from ::
  "query_mode \<Rightarrow> u64 option \<Rightarrow> u64 \<Rightarrow> 't txn_scan_cache \<Rightarrow> u64 option option \<times> 't txn_scan_cache" where
  "txn_fetch_from mode lifetime now cache =
     (case mode of
        CacheOnly \<Rightarrow> (None, cache)
      | ForceFull \<Rightarrow> (Some None, cache\<lparr>tc_entries := [], tc_last_round := 0\<rparr>)
      | Refresh \<Rightarrow>
          if tc_last_updated cache = 0 then (Some None, cache)
          else if scan_cache_is_fresh (tc_last_updated cache) now lifetime then (None, cache)
          else (Some (Some (tc_last_round cache + 1)), cache))"

definition txn_page_step ::
  "(scanned_txn \<Rightarrow> 't option) \<Rightarrow> txn_scan_page \<Rightarrow> u64 \<times> 't list \<Rightarrow> u64 \<times> 't list" where
  "txn_page_step ingest page acc =
     (case acc of (watermark, entries) \<Rightarrow>
        (max watermark (tp_current_round page), entries @ List.map_filter ingest (tp_txns page)))"

definition fetch_transactions_cached_with ::
  "query_mode \<Rightarrow> u64 option \<Rightarrow> u64 \<Rightarrow> (scanned_txn \<Rightarrow> 't option) \<Rightarrow>
     (u64 option \<Rightarrow> string option \<Rightarrow> ('s, txn_scan_page) op) \<Rightarrow>
     ('t txn_scan_cache mutex \<times> 's, unit) op" where
  "fetch_transactions_cached_with mode cache_lifetime_secs now ingest fetch_page w =
     (case w of (mx, s) \<Rightarrow>
        if mx_poisoned mx then Some (Inl (Msg ''transaction scan cache mutex poisoned''), mx, s)
        else
          (case txn_fetch_from mode cache_lifetime_secs now (mx_data mx) of
             (None, cache) \<Rightarrow> Some (Inr (), mx\<lparr>mx_data := cache\<rparr>, s)
           | (Some min_round, cache) \<Rightarrow>
               (case page_loop (fetch_page min_round) tp_next_token (txn_page_step ingest)
                       (tc_last_round cache, tc_entries cache) None s of
                  None \<Rightarrow> None
                | Some (Inl e, (watermark, entries), s) \<Rightarrow>
                    Some (Inl e, mx\<lparr>mx_data := cache\<lparr>tc_entries := entries\<rparr>\<rparr>, s)
                | Some (Inr _, (watermark, entries), s) \<Rightarrow>
                    Some (Inr (), mx\<lparr>mx_data := cache\<lparr>tc_last_round := watermark, tc_last_updated := now,
                                                     tc_entries := entries\<rparr>\<rparr>, s))))"

section \<open>What the pages add\<close>

definition page_txns :: "txn_scan_page list \<Rightarrow> scanned_txn list" where
  "page_txns ps = concat (map tp_txns ps)"

definition pages_watermark :: "u64 \<Rightarrow> txn_scan_page list \<Rightarrow> u64" where
  "pages_watermark w ps = fold (\<lambda>p w. max w (tp_current_round p)) ps w"

lemma map_filter_append: "List.map_filter f (xs @ ys) = List.map_filter f xs @ List.map_filter f ys"
  by (simp add: List.map_filter_def)

lemma map_filter_Nil [simp]: "List.map_filter f [] = []"
  by (simp add: List.map_filter_def)

lemma fold_txn_page_step:
  "fold (txn_page_step ingest) ps (w, es) =
     (pages_watermark w ps, es @ List.map_filter ingest (page_txns ps))"
  by (induction ps arbitrary: w es)
     (simp_all add: txn_page_step_def pages_watermark_def page_txns_def map_filter_append)

lemma pages_watermark_ge: "w \<le> pages_watermark w ps"
proof (induction ps arbitrary: w)
  case (Cons p ps)
  have "w \<le> max w (tp_current_round p)" by simp
  also have "\<dots> \<le> pages_watermark (max w (tp_current_round p)) ps" by (rule Cons.IH)
  finally show ?case by (simp add: pages_watermark_def)
qed (simp add: pages_watermark_def)

lemma txn_scan_fetching:
  assumes "txn_fetch_from mode lifetime now (mx_data mx) = (Some m, cache)" and "\<not> mx_poisoned mx"
  shows "fetch_transactions_cached_with mode lifetime now ingest fetch_page (mx, s) = Some (r, mx', s') \<longleftrightarrow>
    (\<exists>ps. delivers (fetch_page m) tp_next_token None s ps r s' \<and>
       mx' = mx\<lparr>mx_data :=
         (let c = cache\<lparr>tc_entries := tc_entries cache @ List.map_filter ingest (page_txns ps)\<rparr>
          in if r = Inr () then c\<lparr>tc_last_round := pages_watermark (tc_last_round cache) ps,
                                tc_last_updated := now\<rparr>
             else c)\<rparr>)"
    (is "?lhs \<longleftrightarrow> ?rhs")
proof
  assume ?lhs
  then obtain w es where "page_loop (fetch_page m) tp_next_token (txn_page_step ingest)
      (tc_last_round cache, tc_entries cache) None s = Some (r, (w, es), s')"
    and mx': "mx' = mx\<lparr>mx_data := if r = Inr () then cache\<lparr>tc_last_round := w, tc_last_updated := now, tc_entries := es\<rparr>
       else cache\<lparr>tc_entries := es\<rparr>\<rparr>"
    using assms by (auto simp: fetch_transactions_cached_with_def split: option.splits sum.splits prod.splits)
  then obtain ps where "delivers (fetch_page m) tp_next_token None s ps r s'"
    "(w, es) = fold (txn_page_step ingest) ps (tc_last_round cache, tc_entries cache)"
    unfolding page_loop_iff by blast
  with mx' show ?rhs by (intro exI [of _ ps]) (simp add: fold_txn_page_step Let_def)
next
  assume ?rhs
  then obtain ps where d: "delivers (fetch_page m) tp_next_token None s ps r s'"
    and mx': "mx' = mx\<lparr>mx_data :=
         (let c = cache\<lparr>tc_entries := tc_entries cache @ List.map_filter ingest (page_txns ps)\<rparr>
          in if r = Inr () then c\<lparr>tc_last_round := pages_watermark (tc_last_round cache) ps,
                                tc_last_updated := now\<rparr> else c)\<rparr>" by blast
  from page_loop_of_delivers [OF d, of "txn_page_step ingest" "(tc_last_round cache, tc_entries cache)"]
  show ?lhs
    using assms mx'
    by (cases r) (simp_all add: fetch_transactions_cached_with_def fold_txn_page_step Let_def)
qed

section \<open>The cache follows the chain\<close>

text \<open>
  \<open>hist\<close> is the confirmed transactions in scope, in the indexer's order (by round). A page sequence
  serves it when it holds exactly the transactions from the requested round up to the round the
  indexer reports, which is what the code's comment states as the indexer's contract.
\<close>

definition serves :: "scanned_txn list \<Rightarrow> u64 option \<Rightarrow> txn_scan_page list \<Rightarrow> bool" where
  "serves hist lo ps \<longleftrightarrow>
     page_txns ps = filter (\<lambda>t. (case lo of None \<Rightarrow> True | Some r \<Rightarrow> r \<le> st_confirmed_round t) \<and>
                              st_confirmed_round t \<le> pages_watermark 0 ps) hist"

definition txn_coherent ::
  "scanned_txn list \<Rightarrow> (scanned_txn \<Rightarrow> 't option) \<Rightarrow> 't txn_scan_cache \<Rightarrow> bool" where
  "txn_coherent hist ingest c \<longleftrightarrow>
     tc_entries c = List.map_filter ingest
       (filter (\<lambda>t. st_confirmed_round t \<le> tc_last_round c) hist)"

lemma pages_watermark_max: "pages_watermark w ps = max w (pages_watermark 0 ps)"
proof -
  have "pages_watermark (max w v) ps = max w (pages_watermark v ps)" for v
    by (induction ps arbitrary: v) (simp_all add: pages_watermark_def max.assoc)
  from this [of 0] show ?thesis by simp
qed

lemma sorted_filter_split:
  fixes f :: "'a \<Rightarrow> 'b::linorder"
  assumes "sorted (map f xs)" and "a \<le> b"
  shows "filter (\<lambda>x. f x \<le> a) xs @ filter (\<lambda>x. a < f x \<and> f x \<le> b) xs = filter (\<lambda>x. f x \<le> b) xs"
  using assms(1)
proof (induction xs)
  case Nil
  then show ?case by simp
next
  case (Cons x xs)
  show ?case
  proof (cases "f x \<le> a")
    case True
    with Cons assms(2) show ?thesis by auto
  next
    case False
    then have "filter (\<lambda>x. f x \<le> a) (x # xs) = []"
      using Cons.prems by (fastforce simp: filter_empty_conv)
    moreover have "filter (\<lambda>x. f x \<le> b) (x # xs) = filter (\<lambda>x. a < f x \<and> f x \<le> b) (x # xs)"
      using Cons.prems False by (intro filter_cong) auto
    ultimately show ?thesis by simp
  qed
qed

lemma plus_1_le_iff: "w + 1 \<noteq> (0 :: u64) \<Longrightarrow> w + 1 \<le> r \<longleftrightarrow> w < r"
  using unatSuc [of w] by (simp add: word_le_nat_alt word_less_nat_alt add.commute Suc_le_eq)

text \<open>
  C2: A refreshed transaction cache is exactly the chain's transactions. If the indexer serves the
  history in round order, then after any successful refresh (incremental, bootstrap or forced) the
  entries are the ingested transactions of every round up to the watermark, each once and in order,
  and the watermark never goes back on an incremental refresh: no round is skipped or repeated.
\<close>

theorem txn_scan_coherent:
  assumes run: "fetch_transactions_cached_with mode lifetime now ingest fetch_page (mx, s) = Some (Inr (), mx', s')"
    and src: "\<And>lo ps s1. delivers (fetch_page lo) tp_next_token None s ps (Inr ()) s1 \<Longrightarrow> serves hist lo ps"
    and srt: "sorted (map st_confirmed_round hist)"
    and pre: "if tc_last_updated (mx_data mx) = 0 then mx_data mx = txn_cache_new
       else txn_coherent hist ingest (mx_data mx)"
    and full: "mode = CacheOnly \<Longrightarrow> tc_last_updated (mx_data mx) \<noteq> 0" "tc_last_round (mx_data mx) + 1 \<noteq> 0"
  shows "txn_coherent hist ingest (mx_data mx') \<and>
    (mode \<noteq> ForceFull \<longrightarrow> tc_last_round (mx_data mx) \<le> tc_last_round (mx_data mx'))"
proof -
  have np: "\<not> mx_poisoned mx" using run by (auto simp: fetch_transactions_cached_with_def)
  obtain ff c where ff: "txn_fetch_from mode lifetime now (mx_data mx) = (ff, c)"
    by (cases "txn_fetch_from mode lifetime now (mx_data mx)") auto
  show ?thesis
  proof (cases ff)
    case None
    then have "mx_data mx' = mx_data mx" "tc_last_updated (mx_data mx) \<noteq> 0"
      using run np ff full(1)
      by (auto simp: fetch_transactions_cached_with_def txn_fetch_from_def split: query_mode.splits if_splits)
    with pre show ?thesis by simp
  next
    case (Some lo)
    from iffD1 [OF txn_scan_fetching [OF ff [unfolded Some] np] run] obtain ps where
      d: "delivers (fetch_page lo) tp_next_token None s ps (Inr ()) s'" and
      mx': "mx_data mx' = c\<lparr>tc_entries := tc_entries c @ List.map_filter ingest (page_txns ps),
        tc_last_round := pages_watermark (tc_last_round c) ps, tc_last_updated := now\<rparr>"
      by (auto simp: Let_def)
    let ?W = "pages_watermark 0 ps"
    have sv: "page_txns ps = filter (\<lambda>t. (case lo of None \<Rightarrow> True | Some r \<Rightarrow> r \<le> st_confirmed_round t) \<and>
        st_confirmed_round t \<le> ?W) hist"
      using src [OF d] by (simp add: serves_def)
    show ?thesis
    proof (cases lo)
      case None
      then have c: "tc_entries c = []" "tc_last_round c = 0"
        using ff Some pre by (auto simp: txn_fetch_from_def txn_cache_new_def split: query_mode.splits if_splits)
      moreover have "mode \<noteq> ForceFull \<Longrightarrow> tc_last_round (mx_data mx) = 0"
        using ff Some None pre by (auto simp: txn_fetch_from_def txn_cache_new_def split: query_mode.splits if_splits)
      ultimately show ?thesis using mx' sv None by (auto simp: txn_coherent_def)
    next
      case (Some r)
      then have c: "c = mx_data mx" "r = tc_last_round (mx_data mx) + 1" "tc_last_updated (mx_data mx) \<noteq> 0"
        using ff \<open>ff = Some lo\<close> by (auto simp: txn_fetch_from_def split: query_mode.splits if_splits)
      let ?w = "tc_last_round (mx_data mx)"
      have "page_txns ps = filter (\<lambda>t. ?w < st_confirmed_round t \<and> st_confirmed_round t \<le> ?W) hist"
        using sv Some c(2) plus_1_le_iff [OF full(2)] by simp
      also have "\<dots> = filter (\<lambda>t. ?w < st_confirmed_round t \<and> st_confirmed_round t \<le> max ?w ?W) hist"
        by (intro filter_cong) (auto simp: max_def)
      finally have "filter (\<lambda>t. st_confirmed_round t \<le> ?w) hist @ page_txns ps =
          filter (\<lambda>t. st_confirmed_round t \<le> max ?w ?W) hist"
        using sorted_filter_split [OF srt, of ?w "max ?w ?W"] by simp
      moreover have "tc_entries (mx_data mx) = List.map_filter ingest (filter (\<lambda>t. st_confirmed_round t \<le> ?w) hist)"
        using pre c(3) by (simp add: txn_coherent_def)
      ultimately have "tc_entries (mx_data mx) @ List.map_filter ingest (page_txns ps) =
          List.map_filter ingest (filter (\<lambda>t. st_confirmed_round t \<le> max ?w ?W) hist)"
        by (metis map_filter_append)
      then show ?thesis
        using mx' c(1) pages_watermark_max [of ?w ps] by (simp add: txn_coherent_def)
    qed
  qed
qed

text \<open>A source over one transaction in round 5, for the concrete instances.\<close>

definition one_txn :: scanned_txn where
  "one_txn = \<lparr>st_confirmed_round = 5, st_sender = ''A'', st_note = None\<rparr>"

definition one_page_source :: "u64 option \<Rightarrow> string option \<Rightarrow> (unit, txn_scan_page) op" where
  "one_page_source lo tok = ret \<lparr>tp_txns = (if case lo of None \<Rightarrow> True | Some r \<Rightarrow> r \<le> 5 then [one_txn] else []),
     tp_next_token = None, tp_current_round = 9\<rparr>"

lemma one_page_source_delivers:
  "delivers (one_page_source lo) tp_next_token tok s ps r s' \<longleftrightarrow>
     r = Inr () \<and> s' = s \<and> ps = [\<lparr>tp_txns = (if case lo of None \<Rightarrow> True | Some r \<Rightarrow> r \<le> 5 then [one_txn] else []),
       tp_next_token = None, tp_current_round = 9\<rparr>]"
proof
  assume "delivers (one_page_source lo) tp_next_token tok s ps r s'"
  then show "r = Inr () \<and> s' = s \<and> ps = [\<lparr>tp_txns = (if case lo of None \<Rightarrow> True | Some r \<Rightarrow> r \<le> 5 then [one_txn] else []),
       tp_next_token = None, tp_current_round = 9\<rparr>]"
    by cases (auto simp: one_page_source_def)
qed (auto simp: one_page_source_def intro: delivers.last_page)

theorem txn_scan_coherent_witness:
  "txn_coherent [one_txn] Some \<lparr>tc_last_round = 9, tc_last_updated = 70, tc_entries = [one_txn]\<rparr>"
proof -
  let ?mx = "\<lparr>mx_poisoned = False, mx_data = txn_cache_new\<rparr>"
  let ?c = "\<lparr>tc_last_round = 9, tc_last_updated = 70, tc_entries = [one_txn]\<rparr>"
  have "page_loop (one_page_source None) tp_next_token (txn_page_step Some) (0, []) None () =
      Some (Inr (), (9, [one_txn]), ())"
    by (subst page_loop.simps) (simp add: one_page_source_def txn_page_step_def List.map_filter_def max_def)
  then have run: "fetch_transactions_cached_with Refresh None 70 Some one_page_source (?mx, ()) =
      Some (Inr (), \<lparr>mx_poisoned = False, mx_data = ?c\<rparr>, ())"
    by (simp add: fetch_transactions_cached_with_def txn_fetch_from_def txn_cache_new_def)
  have src: "serves [one_txn] lo ps" if "delivers (one_page_source lo) tp_next_token None () ps (Inr ()) s1" for lo ps s1
    using that by (auto simp: one_page_source_delivers serves_def page_txns_def pages_watermark_def one_txn_def split: option.splits)
  from txn_scan_coherent [OF run src] show ?thesis
    by (simp add: txn_cache_new_def)
qed

section \<open>After a failed refresh\<close>

text \<open>
  A refresh that fails after a page leaves the cache with that page's entries but the old
  watermark, so the retry pushes them again: after one page, a failure and a successful retry that
  serves the same page first, the page's entries are in the append-only cache twice.
\<close>

theorem txn_scan_retry_duplicates:
  assumes "\<not> mx_poisoned mx" and "tc_last_updated (mx_data mx) \<noteq> 0"
    and "delivers (fetch_page (Some (tc_last_round (mx_data mx) + 1))) tp_next_token None s [p] (Inl err) s1"
    and "delivers (fetch_page (Some (tc_last_round (mx_data mx) + 1))) tp_next_token None s1 (p # ps) (Inr ()) s2"
  shows "\<exists>mx1 mx2.
    fetch_transactions_cached_with Refresh None now ingest fetch_page (mx, s) = Some (Inl err, mx1, s1) \<and>
    fetch_transactions_cached_with Refresh None now' ingest fetch_page (mx1, s1) = Some (Inr (), mx2, s2) \<and>
    tc_entries (mx_data mx2) = tc_entries (mx_data mx) @
      List.map_filter ingest (tp_txns p) @ List.map_filter ingest (tp_txns p) @ List.map_filter ingest (page_txns ps)"
proof -
  let ?c = "mx_data mx"
  define mx1 where "mx1 = mx\<lparr>mx_data := ?c\<lparr>tc_entries := tc_entries ?c @ List.map_filter ingest (tp_txns p)\<rparr>\<rparr>"
  have f1: "txn_fetch_from Refresh None now ?c = (Some (Some (tc_last_round ?c + 1)), ?c)"
    using assms(2) by (simp add: txn_fetch_from_def scan_cache_is_fresh_def)
  have f2: "txn_fetch_from Refresh None now' (mx_data mx1) = (Some (Some (tc_last_round ?c + 1)), mx_data mx1)"
    using assms(2) by (simp add: txn_fetch_from_def scan_cache_is_fresh_def mx1_def)
  have "fetch_transactions_cached_with Refresh None now ingest fetch_page (mx, s) = Some (Inl err, mx1, s1)"
    unfolding txn_scan_fetching [OF f1 assms(1)]
    using assms(3) by (intro exI [of _ "[p]"]) (simp add: mx1_def page_txns_def)
  moreover have np1: "\<not> mx_poisoned mx1" using assms(1) by (simp add: mx1_def)
  have "\<exists>mx2. fetch_transactions_cached_with Refresh None now' ingest fetch_page (mx1, s1) = Some (Inr (), mx2, s2) \<and>
     tc_entries (mx_data mx2) = tc_entries (mx_data mx1) @ List.map_filter ingest (page_txns (p # ps))"
    unfolding txn_scan_fetching [OF f2 np1] using assms(4) by (auto simp: Let_def)
  ultimately show ?thesis by (auto simp: mx1_def page_txns_def map_filter_append)
qed

text \<open>A source that fails its second page until it is asked a third time.\<close>

definition flaky_source :: "u64 option \<Rightarrow> string option \<Rightarrow> (nat, txn_scan_page) op" where
  "flaky_source lo tok n =
     (if n = 1 then Some (Inl (Msg ''http 500''), 2)
      else if tok = None
      then Some (Inr \<lparr>tp_txns = [one_txn], tp_next_token = Some ''next'', tp_current_round = 9\<rparr>, n + 1)
      else Some (Inr \<lparr>tp_txns = [], tp_next_token = None, tp_current_round = 9\<rparr>, n + 1))"

definition small_cache :: "scanned_txn txn_scan_cache mutex" where
  "small_cache = \<lparr>mx_poisoned = False,
     mx_data = \<lparr>tc_last_round = 3, tc_last_updated = 10, tc_entries = []\<rparr>\<rparr>"

abbreviation first_page :: txn_scan_page where
  "first_page \<equiv> \<lparr>tp_txns = [one_txn], tp_next_token = Some ''next'', tp_current_round = 9\<rparr>"

abbreviation last_empty_page :: txn_scan_page where
  "last_empty_page \<equiv> \<lparr>tp_txns = [], tp_next_token = None, tp_current_round = 9\<rparr>"

lemma flaky_delivers:
  "delivers (flaky_source lo) tp_next_token None 0 [first_page] (Inl (Msg ''http 500'')) 2"
  "delivers (flaky_source lo) tp_next_token None 2 [first_page, last_empty_page] (Inr ()) 4"
proof -
  have "flaky_source lo None 0 = Some (Inr first_page, 1)" "flaky_source lo (Some ''next'') 1 = Some (Inl (Msg ''http 500''), 2)"
    "flaky_source lo None 2 = Some (Inr first_page, 3)" "flaky_source lo (Some ''next'') 3 = Some (Inr last_empty_page, 4)"
    by (simp_all add: flaky_source_def)
  then show "delivers (flaky_source lo) tp_next_token None 0 [first_page] (Inl (Msg ''http 500'')) 2"
    "delivers (flaky_source lo) tp_next_token None 2 [first_page, last_empty_page] (Inr ()) 4"
    by (auto intro!: delivers.more delivers.failed delivers.last_page)
qed

theorem txn_scan_retry_duplicates_witness:
  "\<exists>mx1 mx2.
    fetch_transactions_cached_with Refresh None 20 Some flaky_source (small_cache, 0) = Some (Inl (Msg ''http 500''), mx1, 2) \<and>
    fetch_transactions_cached_with Refresh None 30 Some flaky_source (mx1, 2) = Some (Inr (), mx2, 4) \<and>
    tc_entries (mx_data mx2) = [one_txn, one_txn]"
  using txn_scan_retry_duplicates [where mx = small_cache and now = 20 and now' = 30 and ingest = Some, OF _ _ flaky_delivers]
  by (simp add: small_cache_def List.map_filter_def page_txns_def)

text \<open>
  A forced rebuild that fails clears the entries but not the freshness stamp, so a refresh
  within the cache lifetime then succeeds without reading the network and leaves the cache empty.
\<close>

theorem txn_scan_failed_rebuild_reads_fresh:
  assumes "\<not> mx_poisoned mx" and "tc_last_updated (mx_data mx) \<noteq> 0"
    and "delivers (fetch_page None) tp_next_token None s [] (Inl err) s1"
    and "scan_cache_is_fresh (tc_last_updated (mx_data mx)) now' lifetime"
  shows "\<exists>mx1.
    fetch_transactions_cached_with ForceFull lifetime now ingest fetch_page (mx, s) = Some (Inl err, mx1, s1) \<and>
    fetch_transactions_cached_with Refresh lifetime now' ingest fetch_page (mx1, s1) = Some (Inr (), mx1, s1) \<and>
    tc_entries (mx_data mx1) = [] \<and> tc_last_round (mx_data mx1) = 0"
proof -
  let ?c = "(mx_data mx)\<lparr>tc_entries := [], tc_last_round := 0\<rparr>"
  have f1: "txn_fetch_from ForceFull lifetime now (mx_data mx) = (Some None, ?c)"
    by (simp add: txn_fetch_from_def)
  have "fetch_transactions_cached_with ForceFull lifetime now ingest fetch_page (mx, s) =
      Some (Inl err, mx\<lparr>mx_data := ?c\<rparr>, s1)"
    unfolding txn_scan_fetching [OF f1 assms(1)]
    using assms(3) by (intro exI [of _ "[]"]) (simp add: page_txns_def)
  moreover have "fetch_transactions_cached_with Refresh lifetime now' ingest fetch_page (mx\<lparr>mx_data := ?c\<rparr>, s1) =
      Some (Inr (), mx\<lparr>mx_data := ?c\<rparr>, s1)"
    using assms(1,2,4) by (simp add: fetch_transactions_cached_with_def txn_fetch_from_def)
  ultimately show ?thesis by (intro exI [of _ "mx\<lparr>mx_data := ?c\<rparr>"]) simp
qed

theorem txn_scan_failed_rebuild_reads_fresh_witness:
  "\<exists>mx1.
    fetch_transactions_cached_with ForceFull (Some 60) 15 Some flaky_source (small_cache, 1) = Some (Inl (Msg ''http 500''), mx1, 2) \<and>
    fetch_transactions_cached_with Refresh (Some 60) 20 Some flaky_source (mx1, 2) = Some (Inr (), mx1, 2) \<and>
    tc_entries (mx_data mx1) = [] \<and> tc_last_round (mx_data mx1) = 0"
proof (rule txn_scan_failed_rebuild_reads_fresh)
  show "delivers (flaky_source None) tp_next_token None 1 [] (Inl (Msg ''http 500'')) 2"
    by (auto simp: flaky_source_def intro: delivers.failed)
qed (simp_all add: small_cache_def scan_cache_is_fresh_def saturating_sub_def)
end
