(* ===== verification/AccountScan.thy ===== *)
theory AccountScan
  imports TxnScan
begin

text \<open>
  The incremental scan of the accounts opted into an application, from \<open>algo_ops/src/ops.rs\<close>
  (\<open>fetch_opted_in_accounts_cached_with\<close>). An account can change, so a refresh discovers the
  addresses touched since the watermark and reads only those again, replacing or removing their
  entry. The entries are a list keyed by address; the laws the refresh relies on are the interface
  \<open>keyed_store\<close>, interpreted on the code's own linear insert and remove.
\<close>

record scanned_account =
  sa_address :: string
  sa_local_state :: "(string \<times> string) list"

record 't account_scan_cache =
  ac_last_round :: u64
  ac_last_updated :: u64
  ac_entries :: "(string \<times> 't) list"

definition account_cache_new :: "'t account_scan_cache" where
  "account_cache_new = \<lparr>ac_last_round = 0, ac_last_updated = 0, ac_entries = []\<rparr>"

definition account_cache_clear :: "'t account_scan_cache \<Rightarrow> 't account_scan_cache" where
  "account_cache_clear cache = account_cache_new"

record account_scan_page =
  ap_accounts :: "scanned_account list"
  ap_next_token :: "string option"
  ap_current_round :: u64

record changed_addresses_page =
  cp_addresses :: "string list"
  cp_next_token :: "string option"
  cp_current_round :: u64

section \<open>The keyed store\<close>

locale keyed_store =
  fixes lookup :: "'m \<Rightarrow> 'k \<Rightarrow> 'v option"
    and upsert :: "'m \<Rightarrow> 'k \<Rightarrow> 'v \<Rightarrow> 'm"
    and remove :: "'m \<Rightarrow> 'k \<Rightarrow> 'm"
    and inv :: "'m \<Rightarrow> bool"
  assumes lookup_upsert: "inv m \<Longrightarrow> lookup (upsert m k v) j = (if j = k then Some v else lookup m j)"
    and lookup_remove: "inv m \<Longrightarrow> lookup (remove m k) j = (if j = k then None else lookup m j)"
    and inv_upsert: "inv m \<Longrightarrow> inv (upsert m k v)"
    and inv_remove: "inv m \<Longrightarrow> inv (remove m k)"
begin

definition revisit :: "('k \<Rightarrow> 'v option) \<Rightarrow> 'k \<Rightarrow> 'm \<Rightarrow> 'm" where
  "revisit f k m = (case f k of Some v \<Rightarrow> upsert m k v | None \<Rightarrow> remove m k)"

lemma revisit_simps:
  "f k = Some v \<Longrightarrow> revisit f k m = upsert m k v"
  "f k = None \<Longrightarrow> revisit f k m = remove m k"
  by (simp_all add: revisit_def)

lemma lookup_revisit: "inv m \<Longrightarrow> lookup (revisit f k m) j = (if j = k then f k else lookup m j)"
  by (cases "f k") (simp_all add: revisit_simps lookup_remove lookup_upsert)

lemma inv_revisit: "inv m \<Longrightarrow> inv (revisit f k m)"
  by (cases "f k") (simp_all add: revisit_simps inv_remove inv_upsert)

lemma revisit_all:
  "inv m \<Longrightarrow> inv (fold (revisit f) ks m) \<and>
     lookup (fold (revisit f) ks m) j = (if j \<in> set ks then f j else lookup m j)"
proof (induction ks arbitrary: m)
  case (Cons k ks)
  have i: "inv (revisit f k m)" using Cons.prems by (rule inv_revisit)
  from Cons.IH [OF i] show ?case by (simp add: lookup_revisit [OF Cons.prems])
qed simp

end

fun upsert_account_entry :: "(string \<times> 't) list \<Rightarrow> string \<Rightarrow> 't \<Rightarrow> (string \<times> 't) list" where
  "upsert_account_entry [] address entry = [(address, entry)]"
| "upsert_account_entry ((a, x) # entries) address entry =
     (if a = address then (a, entry) # entries else (a, x) # upsert_account_entry entries address entry)"

definition remove_account_entry :: "(string \<times> 't) list \<Rightarrow> string \<Rightarrow> (string \<times> 't) list" where
  "remove_account_entry entries address = filter (\<lambda>(a, _). a \<noteq> address) entries"

lemma map_of_upsert: "map_of (upsert_account_entry es a e) = (map_of es)(a \<mapsto> e)"
  by (induction es a e rule: upsert_account_entry.induct) auto

lemma map_of_remove: "map_of (remove_account_entry es a) b = (if b = a then None else map_of es b)"
  by (induction es) (auto simp: remove_account_entry_def)

lemma keys_upsert: "set (map fst (upsert_account_entry es a e)) = insert a (set (map fst es))"
  by (induction es a e rule: upsert_account_entry.induct) auto

lemma distinct_upsert:
  "distinct (map fst es) \<Longrightarrow> distinct (map fst (upsert_account_entry es a e))"
proof (induction es a e rule: upsert_account_entry.induct)
  case (2 b x es a e)
  then show ?case using keys_upsert [of es a e] by auto
qed simp

lemma distinct_remove:
  "distinct (map fst es) \<Longrightarrow> distinct (map fst (remove_account_entry es a))"
  by (simp add: remove_account_entry_def distinct_map_filter)

interpretation account_entries:
  keyed_store map_of upsert_account_entry remove_account_entry "\<lambda>es. distinct (map fst es)"
  by unfold_locales (simp_all only: map_of_upsert map_of_remove distinct_upsert distinct_remove fun_upd_apply)

section \<open>The refresh\<close>

definition account_scan_kind ::
  "query_mode \<Rightarrow> u64 option \<Rightarrow> u64 \<Rightarrow> 't account_scan_cache \<Rightarrow> bool option \<times> 't account_scan_cache" where
  "account_scan_kind mode lifetime now cache =
     (case mode of
        CacheOnly \<Rightarrow> (None, cache)
      | ForceFull \<Rightarrow> (Some True, cache\<lparr>ac_entries := [], ac_last_round := 0\<rparr>)
      | Refresh \<Rightarrow>
          if ac_last_updated cache = 0 \<or> ac_last_round cache = 0 then (Some True, cache)
          else if scan_cache_is_fresh (ac_last_updated cache) now lifetime then (None, cache)
          else (Some False, cache))"

definition full_page_step ::
  "(scanned_account \<Rightarrow> 't option) \<Rightarrow> account_scan_page \<Rightarrow> u64 option \<times> (string \<times> 't) list \<Rightarrow>
     u64 option \<times> (string \<times> 't) list" where
  "full_page_step ingest page acc =
     (case acc of (watermark, entries) \<Rightarrow>
        (Some (case watermark of Some w \<Rightarrow> min w (ap_current_round page) | None \<Rightarrow> ap_current_round page),
         entries @ List.map_filter (\<lambda>acct. map_option (Pair (sa_address acct)) (ingest acct)) (ap_accounts page)))"

text \<open>Accumulating the distinct addresses in first-seen order, with the set of those seen.\<close>

definition note_address :: "string \<Rightarrow> string set \<times> string list \<Rightarrow> string set \<times> string list" where
  "note_address addr acc =
     (case acc of (seen, changed) \<Rightarrow>
        if addr \<in> seen then (seen, changed) else (insert addr seen, changed @ [addr]))"

definition changed_page_step ::
  "changed_addresses_page \<Rightarrow> u64 \<times> string set \<times> string list \<Rightarrow> u64 \<times> string set \<times> string list" where
  "changed_page_step page acc =
     (case acc of (watermark, seen, changed) \<Rightarrow>
        (max watermark (cp_current_round page), fold note_address (cp_addresses page) (seen, changed)))"

fun reread_accounts ::
  "(string \<Rightarrow> ('s, scanned_account option) op) \<Rightarrow> (scanned_account \<Rightarrow> 't option) \<Rightarrow> string list \<Rightarrow>
     ((string \<times> 't) list \<times> 's, unit) op" where
  "reread_accounts lookup ingest [] w = Some (Inr (), w)"
| "reread_accounts lookup ingest (addr # addrs) (entries, s) =
     (case lookup addr s of
        None \<Rightarrow> None
      | Some (Inl e, s) \<Rightarrow> Some (Inl e, entries, s)
      | Some (Inr (Some acct), s) \<Rightarrow>
          (case ingest acct of
             Some entry \<Rightarrow> reread_accounts lookup ingest addrs (upsert_account_entry entries addr entry, s)
           | None \<Rightarrow> reread_accounts lookup ingest addrs (remove_account_entry entries addr, s))
      | Some (Inr None, s) \<Rightarrow>
          reread_accounts lookup ingest addrs (remove_account_entry entries addr, s))"

definition fetch_opted_in_accounts_cached_with ::
  "query_mode \<Rightarrow> u64 option \<Rightarrow> u64 \<Rightarrow> (scanned_account \<Rightarrow> 't option) \<Rightarrow>
     (string option \<Rightarrow> ('s, account_scan_page) op) \<Rightarrow>
     (u64 \<Rightarrow> string option \<Rightarrow> ('s, changed_addresses_page) op) \<Rightarrow>
     (string \<Rightarrow> ('s, scanned_account option) op) \<Rightarrow>
     ('t account_scan_cache mutex \<times> 's, unit) op" where
  "fetch_opted_in_accounts_cached_with mode lifetime now ingest fetch_full_page fetch_changed lookup_account w =
     (case w of (mx, s) \<Rightarrow>
        if mx_poisoned mx then Some (Inl (Msg ''account scan cache mutex poisoned''), mx, s)
        else
          (case account_scan_kind mode lifetime now (mx_data mx) of
             (None, cache) \<Rightarrow> Some (Inr (), mx\<lparr>mx_data := cache\<rparr>, s)
           | (Some True, cache) \<Rightarrow>
               (case page_loop fetch_full_page ap_next_token (full_page_step ingest) (None, []) None s of
                  None \<Rightarrow> None
                | Some (Inl e, (_, entries), s) \<Rightarrow>
                    Some (Inl e, mx\<lparr>mx_data := cache\<lparr>ac_entries := entries\<rparr>\<rparr>, s)
                | Some (Inr _, (watermark, entries), s) \<Rightarrow>
                    Some (Inr (), mx\<lparr>mx_data := cache\<lparr>ac_entries := entries,
                      ac_last_round := (case watermark of Some r \<Rightarrow> r | None \<Rightarrow> ac_last_round cache),
                      ac_last_updated := now\<rparr>\<rparr>, s))
           | (Some False, cache) \<Rightarrow>
               (case page_loop (fetch_changed (ac_last_round cache + 1)) cp_next_token changed_page_step
                       (ac_last_round cache, {}, []) None s of
                  None \<Rightarrow> None
                | Some (Inl e, _, s) \<Rightarrow> Some (Inl e, mx\<lparr>mx_data := cache\<rparr>, s)
                | Some (Inr _, (watermark, _, changed), s) \<Rightarrow>
                    (case reread_accounts lookup_account ingest changed (ac_entries cache, s) of
                       None \<Rightarrow> None
                     | Some (Inl e, entries, s) \<Rightarrow> Some (Inl e, mx\<lparr>mx_data := cache\<lparr>ac_entries := entries\<rparr>\<rparr>, s)
                     | Some (Inr _, entries, s) \<Rightarrow>
                         Some (Inr (), mx\<lparr>mx_data := cache\<lparr>ac_entries := entries, ac_last_round := watermark,
                                                          ac_last_updated := now\<rparr>\<rparr>, s)))))"

section \<open>What a refresh does\<close>

lemma note_addresses:
  "fold note_address as (seen, changed) = (seen', changed') \<Longrightarrow> seen = set changed \<Longrightarrow>
     seen' = set changed' \<and> set changed' = set changed \<union> set as"
proof (induction as arbitrary: seen changed)
  case (Cons a as)
  show ?case
  proof (cases "a \<in> seen")
    case True
    with Cons.prems Cons.IH [of seen changed] show ?thesis by (auto simp: note_address_def)
  next
    case False
    with Cons.prems Cons.IH [of "insert a seen" "changed @ [a]"] show ?thesis
      by (auto simp: note_address_def)
  qed
qed simp

definition changed_addresses :: "changed_addresses_page list \<Rightarrow> string set" where
  "changed_addresses ps = (\<Union>p \<in> set ps. set (cp_addresses p))"

lemma changed_page_step_eq:
  "changed_page_step page (w, seen, changed) =
     (max w (cp_current_round page), fold note_address (cp_addresses page) (seen, changed))"
  by (simp add: changed_page_step_def)

lemma fold_changed_page_step:
  "fold changed_page_step ps (w, seen, changed) = (w', seen', changed') \<Longrightarrow> seen = set changed \<Longrightarrow>
     set changed' = set changed \<union> changed_addresses ps \<and>
     w' = fold (\<lambda>p w. max w (cp_current_round p)) ps w"
proof (induction ps arbitrary: w seen changed)
  case Nil
  then show ?case by (simp add: changed_addresses_def)
next
  case (Cons p ps)
  obtain seen1 changed1 where s1: "fold note_address (cp_addresses p) (seen, changed) = (seen1, changed1)"
    by (cases "fold note_address (cp_addresses p) (seen, changed)") auto
  then have n: "seen1 = set changed1" "set changed1 = set changed \<union> set (cp_addresses p)"
    using note_addresses [OF s1] Cons.prems(2) by simp_all
  have "fold changed_page_step ps (max w (cp_current_round p), seen1, changed1) = (w', seen', changed')"
    using Cons.prems(1) s1 by (simp add: changed_page_step_eq)
  from Cons.IH [OF this n(1)] n(2) show ?case by (simp add: changed_addresses_def Un_assoc)
qed

text \<open>A lookup that answers from a fixed state of the accounts.\<close>

definition reads :: "(string \<Rightarrow> ('s, scanned_account option) op) \<Rightarrow> (string \<Rightarrow> scanned_account option) \<Rightarrow> bool" where
  "reads lookup truth \<longleftrightarrow> (\<forall>a s x s'. lookup a s = Some (Inr x, s') \<longrightarrow> x = truth a)"

abbreviation wanted ::
  "(scanned_account \<Rightarrow> 't option) \<Rightarrow> (string \<Rightarrow> scanned_account option) \<Rightarrow> string \<Rightarrow> 't option" where
  "wanted ingest truth a \<equiv> Option.bind (truth a) ingest"

lemma reread_accounts_fold:
  assumes "reads lookup truth" and "reread_accounts lookup ingest addrs (entries, s) = Some (Inr (), entries', s')"
  shows "entries' = fold (account_entries.revisit (wanted ingest truth)) addrs entries"
  using assms(2)
proof (induction addrs arbitrary: entries s)
  case Nil
  then show ?case by simp
next
  case (Cons a addrs)
  then obtain x s1 where x: "lookup a s = Some (Inr x, s1)"
    by (auto split: option.splits sum.splits prod.splits)
  with assms(1) have t: "x = truth a" by (auto simp: reads_def)
  show ?case
  proof (cases "wanted ingest truth a")
    case None
    with Cons.prems x t have "reread_accounts lookup ingest addrs (remove_account_entry entries a, s1) = Some (Inr (), entries', s')"
      by (auto split: option.splits)
    from Cons.IH [OF this] None show ?thesis by (simp add: account_entries.revisit_simps)
  next
    case (Some v)
    then obtain acct where "truth a = Some acct" "ingest acct = Some v" by (cases "truth a") auto
    with Cons.prems x t have "reread_accounts lookup ingest addrs (upsert_account_entry entries a v, s1) = Some (Inr (), entries', s')"
      by auto
    from Cons.IH [OF this] Some show ?thesis by (simp add: account_entries.revisit_simps)
  qed
qed

lemma incremental_refresh:
  assumes run: "fetch_opted_in_accounts_cached_with Refresh lifetime now ingest full changed lookup (mx, s) = Some (Inr (), mx', s')"
    and kind: "account_scan_kind Refresh lifetime now (mx_data mx) = (Some False, mx_data mx)"
    and truth: "reads lookup truth"
    and keys: "distinct (map fst (ac_entries (mx_data mx)))"
  obtains ps s1 where "delivers (changed (ac_last_round (mx_data mx) + 1)) cp_next_token None s ps (Inr ()) s1"
    and "distinct (map fst (ac_entries (mx_data mx')))"
    and "\<And>a. map_of (ac_entries (mx_data mx')) a =
      (if a \<in> changed_addresses ps then wanted ingest truth a else map_of (ac_entries (mx_data mx)) a)"
    and "ac_last_round (mx_data mx') = fold (\<lambda>p w. max w (cp_current_round p)) ps (ac_last_round (mx_data mx))"
proof -
  let ?c = "mx_data mx"
  have np: "\<not> mx_poisoned mx" using run by (auto simp: fetch_opted_in_accounts_cached_with_def)
  from run np kind obtain w seen ch s1 entries where
    l: "page_loop (changed (ac_last_round ?c + 1)) cp_next_token changed_page_step (ac_last_round ?c, {}, []) None s
        = Some (Inr (), (w, seen, ch), s1)" and
    r: "reread_accounts lookup ingest ch (ac_entries ?c, s1) = Some (Inr (), entries, s')" and
    mx': "mx_data mx' = ?c\<lparr>ac_entries := entries, ac_last_round := w, ac_last_updated := now\<rparr>"
    by (auto simp: fetch_opted_in_accounts_cached_with_def split: option.splits sum.splits prod.splits)
  from l obtain ps where d: "delivers (changed (ac_last_round ?c + 1)) cp_next_token None s ps (Inr ()) s1"
    and f: "fold changed_page_step ps (ac_last_round ?c, {}, []) = (w, seen, ch)"
    unfolding page_loop_iff by metis
  have ch: "set ch = changed_addresses ps" "w = fold (\<lambda>p w. max w (cp_current_round p)) ps (ac_last_round ?c)"
    using fold_changed_page_step [OF f] by simp_all
  have e: "entries = fold (account_entries.revisit (wanted ingest truth)) ch (ac_entries ?c)"
    by (rule reread_accounts_fold [OF truth r])
  show thesis
    using that [OF d] account_entries.revisit_all [OF keys, of "wanted ingest truth" ch] e ch mx' by simp
qed

text \<open>
  C3: An incremental account refresh tracks the chain. If the entries reflected the accounts at the
  watermark, the discovery pages name every account that changed since, and each re-read answers
  with the account's current state, then after the refresh the entries reflect the current state of
  every account: a changed entry is replaced, an opted-out one removed, a new one added, and no
  address appears twice.
\<close>

theorem account_refresh_tracks:
  assumes "fetch_opted_in_accounts_cached_with Refresh lifetime now ingest full changed lookup (mx, s) = Some (Inr (), mx', s')"
    and "account_scan_kind Refresh lifetime now (mx_data mx) = (Some False, mx_data mx)"
    and "reads lookup truth" and "distinct (map fst (ac_entries (mx_data mx)))"
    and "\<forall>a. map_of (ac_entries (mx_data mx)) a = wanted ingest before a"
    and "\<forall>ps s1. delivers (changed (ac_last_round (mx_data mx) + 1)) cp_next_token None s ps (Inr ()) s1 \<longrightarrow>
      {a. before a \<noteq> truth a} \<subseteq> changed_addresses ps"
  shows "distinct (map fst (ac_entries (mx_data mx'))) \<and>
    map_of (ac_entries (mx_data mx')) a = wanted ingest truth a"
proof -
  from incremental_refresh [OF assms(1-4)] obtain ps s1 where
    d: "delivers (changed (ac_last_round (mx_data mx) + 1)) cp_next_token None s ps (Inr ()) s1" and
    e: "distinct (map fst (ac_entries (mx_data mx')))"
      "map_of (ac_entries (mx_data mx')) a =
        (if a \<in> changed_addresses ps then wanted ingest truth a else map_of (ac_entries (mx_data mx)) a)"
    by metis
  show ?thesis
  proof (cases "a \<in> changed_addresses ps")
    case False
    then have "before a = truth a" using assms(6) d by blast
    with e False assms(5) show ?thesis by simp
  qed (use e in simp)
qed

section \<open>Full scans and accounts that change during them\<close>

definition pages_accounts :: "account_scan_page list \<Rightarrow> scanned_account list" where
  "pages_accounts ps = concat (map ap_accounts ps)"

definition scanned_entries :: "(scanned_account \<Rightarrow> 't option) \<Rightarrow> scanned_account list \<Rightarrow> (string \<times> 't) list" where
  "scanned_entries ingest accts = List.map_filter (\<lambda>acct. map_option (Pair (sa_address acct)) (ingest acct)) accts"

lemma scanned_entries_append:
  "scanned_entries ingest (xs @ ys) = scanned_entries ingest xs @ scanned_entries ingest ys"
  by (simp add: scanned_entries_def map_filter_append)

lemma full_page_step_eq:
  "full_page_step ingest page (None, es) = (Some (ap_current_round page), es @ scanned_entries ingest (ap_accounts page))"
  "full_page_step ingest page (Some w, es) =
     (Some (min w (ap_current_round page)), es @ scanned_entries ingest (ap_accounts page))"
  by (simp_all add: full_page_step_def scanned_entries_def)

lemma fold_full_page_step:
  "fold (full_page_step ingest) ps (Some w, es) =
     (Some (fold (\<lambda>p w. min w (ap_current_round p)) ps w), es @ scanned_entries ingest (pages_accounts ps))"
proof (induction ps arbitrary: w es)
  case Nil
  then show ?case by (simp add: scanned_entries_def pages_accounts_def)
next
  case (Cons p ps)
  then show ?case by (simp add: full_page_step_eq scanned_entries_append pages_accounts_def)
qed

lemma fold_min_le: "fold (\<lambda>p w. min w (f p)) ps w \<le> (w :: 'a::linorder) \<and>
    (\<forall>p \<in> set ps. fold (\<lambda>p w. min w (f p)) ps w \<le> f p)"
proof (induction ps arbitrary: w)
  case (Cons p ps)
  from Cons.IH [of "min w (f p)"] show ?case by auto
qed simp

lemma scanned_entries_keys: "set (map fst (scanned_entries ingest accts)) \<subseteq> set (map sa_address accts)"
  by (auto simp: scanned_entries_def List.map_filter_def)

lemma scanned_entries_map_of:
  "distinct (map sa_address accts) \<Longrightarrow>
     distinct (map fst (scanned_entries ingest accts)) \<and>
     map_of (scanned_entries ingest accts) a =
       Option.bind (map_of (map (\<lambda>x. (sa_address x, x)) accts) a) ingest"
proof (induction accts)
  case Nil
  then show ?case by (simp add: scanned_entries_def)
next
  case (Cons x accts)
  have st: "scanned_entries ingest (x # accts) =
      (case ingest x of None \<Rightarrow> [] | Some e \<Rightarrow> [(sa_address x, e)]) @ scanned_entries ingest accts"
    by (simp add: scanned_entries_def List.map_filter_def split: option.splits)
  have nk: "sa_address x \<notin> set (map fst (scanned_entries ingest accts))"
    using Cons.prems scanned_entries_keys [of ingest accts] by auto
  then have "map_of (scanned_entries ingest accts) (sa_address x) = None"
    by (simp add: map_of_eq_None_iff)
  with Cons nk st show ?case by (auto split: option.splits)
qed

lemma full_scan_result:
  assumes run: "fetch_opted_in_accounts_cached_with mode lifetime now ingest full changed lookup (mx, s) = Some (Inr (), mx', s')"
    and kind: "fst (account_scan_kind mode lifetime now (mx_data mx)) = Some True"
  obtains ps where "delivers full ap_next_token None s ps (Inr ()) s'"
    and "ac_entries (mx_data mx') = scanned_entries ingest (pages_accounts ps)"
    and "\<forall>p \<in> set ps. ac_last_round (mx_data mx') \<le> ap_current_round p"
    and "ac_last_updated (mx_data mx') = now" and "\<not> mx_poisoned mx'"
proof -
  have np: "\<not> mx_poisoned mx" using run by (auto simp: fetch_opted_in_accounts_cached_with_def)
  obtain c where k: "account_scan_kind mode lifetime now (mx_data mx) = (Some True, c)"
    using kind by (cases "account_scan_kind mode lifetime now (mx_data mx)") auto
  with run np obtain w es where
    l: "page_loop full ap_next_token (full_page_step ingest) (None, []) None s = Some (Inr (), (w, es), s')" and
    mx': "mx' = mx\<lparr>mx_data := c\<lparr>ac_entries := es, ac_last_round := (case w of Some r \<Rightarrow> r | None \<Rightarrow> ac_last_round c),
       ac_last_updated := now\<rparr>\<rparr>"
    by (auto simp: fetch_opted_in_accounts_cached_with_def split: option.splits sum.splits prod.splits)
  from l obtain ps where d: "delivers full ap_next_token None s ps (Inr ()) s'"
    and f: "fold (full_page_step ingest) ps (None, []) = (w, es)"
    unfolding page_loop_iff by metis
  from delivers_ok_nonempty [OF d] obtain p qs where ps: "ps = p # qs" by (cases ps) auto
  with f have w: "w = Some (fold (\<lambda>p w. min w (ap_current_round p)) qs (ap_current_round p))"
    and es: "es = scanned_entries ingest (pages_accounts ps)" by (simp_all add: full_page_step_eq fold_full_page_step scanned_entries_append pages_accounts_def)
  have "\<forall>q \<in> set ps. ac_last_round (mx_data mx') \<le> ap_current_round q"
    using fold_min_le [of ap_current_round qs "ap_current_round p"] by (auto simp: mx' w ps)
  with d es mx' np show thesis using that by simp
qed

text \<open>
  The accounts as a function of the round. A full scan covers the accounts when each address is read,
  present or absent, in the state of the round some page was computed at; pages may differ in round.
\<close>

definition covers :: "account_scan_page list \<Rightarrow> (u64 \<Rightarrow> string \<Rightarrow> scanned_account option) \<Rightarrow> bool" where
  "covers ps state \<longleftrightarrow> distinct (map sa_address (pages_accounts ps)) \<and>
     (\<forall>a. \<exists>p \<in> set ps. map_of (map (\<lambda>x. (sa_address x, x)) (pages_accounts ps)) a = state (ap_current_round p) a)"

text \<open>
  C12: A change that races a full scan is caught by the next refresh. The account pages of one scan
  may be computed at different rounds while accounts change; because the watermark is the lowest of
  the pages' rounds, an incremental refresh whose discovery names every account that changed after
  the watermark leaves the entries equal to the account states it read, whatever the interleaving.
\<close>

theorem account_scan_catches_races:
  assumes full: "fetch_opted_in_accounts_cached_with mode lifetime0 now0 ingest full changed0 lookup0 (mx, s) = Some (Inr (), mx1, s1)"
    and kind0: "fst (account_scan_kind mode lifetime0 now0 (mx_data mx)) = Some True"
    and covers: "\<forall>ps s'. delivers full ap_next_token None s ps (Inr ()) s' \<longrightarrow> covers ps state"
    and incr: "fetch_opted_in_accounts_cached_with Refresh lifetime now ingest full' changed lookup (mx1, s1) = Some (Inr (), mx2, s2)"
    and kind: "account_scan_kind Refresh lifetime now (mx_data mx1) = (Some False, mx_data mx1)"
    and reads: "reads lookup (state W)"
    and discovery: "\<forall>ps s'. delivers (changed (ac_last_round (mx_data mx1) + 1)) cp_next_token None s1 ps (Inr ()) s' \<longrightarrow>
      (\<forall>a r. ac_last_round (mx_data mx1) \<le> r \<and> state r a \<noteq> state W a \<longrightarrow> a \<in> changed_addresses ps)"
  shows "distinct (map fst (ac_entries (mx_data mx2))) \<and>
    map_of (ac_entries (mx_data mx2)) a = wanted ingest (state W) a"
proof -
  from full_scan_result [OF full kind0] obtain ps where
    d: "delivers full ap_next_token None s ps (Inr ()) s1" and
    e: "ac_entries (mx_data mx1) = scanned_entries ingest (pages_accounts ps)" and
    lo: "\<forall>p \<in> set ps. ac_last_round (mx_data mx1) \<le> ap_current_round p" by metis
  have c: "covers ps state" using covers d by blast
  have keys: "distinct (map fst (ac_entries (mx_data mx1)))"
    and m1: "map_of (ac_entries (mx_data mx1)) a =
      Option.bind (map_of (map (\<lambda>x. (sa_address x, x)) (pages_accounts ps)) a) ingest"
    using c scanned_entries_map_of [of "pages_accounts ps" ingest a] by (simp_all add: e covers_def)
  from c obtain p where p: "p \<in> set ps"
    "map_of (map (\<lambda>x. (sa_address x, x)) (pages_accounts ps)) a = state (ap_current_round p) a"
    by (auto simp: covers_def)
  from incremental_refresh [OF incr kind reads keys] obtain qs s' where
    q: "delivers (changed (ac_last_round (mx_data mx1) + 1)) cp_next_token None s1 qs (Inr ()) s'" and
    r: "distinct (map fst (ac_entries (mx_data mx2)))"
      "map_of (ac_entries (mx_data mx2)) a =
        (if a \<in> changed_addresses qs then wanted ingest (state W) a else map_of (ac_entries (mx_data mx1)) a)"
    by metis
  show ?thesis
  proof (cases "a \<in> changed_addresses qs")
    case False
    then have "state (ap_current_round p) a = state W a" using discovery q lo p(1) by blast
    with r False m1 p(2) show ?thesis by simp
  qed (use r in simp)
qed

text \<open>Sources over two accounts, of which the second opts in at round 6, while a scan runs.\<close>

definition acct_a :: scanned_account where "acct_a = \<lparr>sa_address = ''A'', sa_local_state = []\<rparr>"
definition acct_b :: scanned_account where "acct_b = \<lparr>sa_address = ''B'', sa_local_state = []\<rparr>"

definition two_accounts :: "u64 \<Rightarrow> string \<Rightarrow> scanned_account option" where
  "two_accounts r a = (if a = ''A'' then Some acct_a else if a = ''B'' \<and> 6 \<le> r then Some acct_b else None)"

definition scan_two :: "string option \<Rightarrow> (unit, account_scan_page) op" where
  "scan_two tok = ret (if tok = None then \<lparr>ap_accounts = [acct_a], ap_next_token = Some ''n'', ap_current_round = 5\<rparr>
     else \<lparr>ap_accounts = [], ap_next_token = None, ap_current_round = 7\<rparr>)"

definition changed_two :: "u64 \<Rightarrow> string option \<Rightarrow> (unit, changed_addresses_page) op" where
  "changed_two lo tok = ret \<lparr>cp_addresses = [''B''], cp_next_token = None, cp_current_round = 9\<rparr>"

definition lookup_two :: "string \<Rightarrow> (unit, scanned_account option) op" where
  "lookup_two a = ret (two_accounts 9 a)"

abbreviation page_a :: account_scan_page where
  "page_a \<equiv> \<lparr>ap_accounts = [acct_a], ap_next_token = Some ''n'', ap_current_round = 5\<rparr>"
abbreviation page_none :: account_scan_page where
  "page_none \<equiv> \<lparr>ap_accounts = [], ap_next_token = None, ap_current_round = 7\<rparr>"

lemma scan_two_delivers:
  assumes "delivers scan_two ap_next_token None () ps r s'"
  shows "ps = [page_a, page_none]"
proof -
  have a: "scan_two None () = Some (Inr page_a, ())" "scan_two (Some ''n'') () = Some (Inr page_none, ())"
    by (simp_all add: scan_two_def)
  have "delivers scan_two ap_next_token (Some ''n'') () [page_none] (Inr ()) ()"
    by (rule delivers.last_page) (simp_all add: scan_two_def)
  then have "delivers scan_two ap_next_token None () [page_a, page_none] (Inr ()) ()"
    using delivers.more [of scan_two None "()" page_a "()" ap_next_token "''n''" "[page_none]" "Inr ()" "()"] a(1)
    by simp
  from delivers_unique [OF this assms] show ?thesis by simp
qed

lemma changed_two_delivers:
  assumes "delivers (changed_two lo) cp_next_token None () ps r s'"
  shows "changed_addresses ps = {''B''}"
proof -
  have "delivers (changed_two lo) cp_next_token None ()
      [\<lparr>cp_addresses = [''B''], cp_next_token = None, cp_current_round = 9\<rparr>] (Inr ()) ()"
    by (intro delivers.last_page) (simp_all add: changed_two_def)
  from delivers_unique [OF this assms] show ?thesis by (simp add: changed_addresses_def)
qed

definition scanned_once :: "scanned_account account_scan_cache mutex" where
  "scanned_once = \<lparr>mx_poisoned = False, mx_data = \<lparr>ac_last_round = 5, ac_last_updated = 50, ac_entries = [(''A'', acct_a)]\<rparr>\<rparr>"

definition scanned_twice :: "scanned_account account_scan_cache mutex" where
  "scanned_twice = \<lparr>mx_poisoned = False, mx_data = \<lparr>ac_last_round = 9, ac_last_updated = 60,
      ac_entries = [(''A'', acct_a), (''B'', acct_b)]\<rparr>\<rparr>"

lemma first_scan:
  "fetch_opted_in_accounts_cached_with Refresh None 50 Some scan_two changed_two lookup_two
     (\<lparr>mx_poisoned = False, mx_data = account_cache_new\<rparr>, ()) = Some (Inr (), scanned_once, ())"
proof -
  have "page_loop scan_two ap_next_token (full_page_step Some) (None, []) None () =
      Some (Inr (), (Some 5, [(''A'', acct_a)]), ())"
    by (subst page_loop.simps, simp add: scan_two_def, subst page_loop.simps)
       (simp add: scan_two_def full_page_step_def List.map_filter_def acct_a_def min_def)
  then show ?thesis
    by (simp add: fetch_opted_in_accounts_cached_with_def account_scan_kind_def account_cache_new_def scanned_once_def)
qed

lemma second_scan:
  "fetch_opted_in_accounts_cached_with Refresh None 60 Some scan_two changed_two lookup_two (scanned_once, ()) =
     Some (Inr (), scanned_twice, ())"
proof -
  have "page_loop (changed_two 6) cp_next_token changed_page_step (5, {}, []) None () =
      Some (Inr (), (9, {''B''}, [''B'']), ())"
    by (subst page_loop.simps) (simp add: changed_two_def changed_page_step_def note_address_def max_def)
  then show ?thesis
    by (simp add: fetch_opted_in_accounts_cached_with_def account_scan_kind_def scan_cache_is_fresh_def
        lookup_two_def two_accounts_def scanned_once_def scanned_twice_def)
qed

lemma second_scan_kind:
  "account_scan_kind Refresh None 60 (mx_data scanned_once) = (Some False, mx_data scanned_once)"
  by (simp add: account_scan_kind_def scan_cache_is_fresh_def scanned_once_def)

lemma two_accounts_reads: "reads lookup_two (two_accounts 9)"
  by (simp add: reads_def lookup_two_def)

theorem account_refresh_tracks_witness:
  "distinct (map fst (ac_entries (mx_data scanned_twice))) \<and>
   map_of (ac_entries (mx_data scanned_twice)) ''B'' = wanted Some (two_accounts 9) ''B''"
proof (rule account_refresh_tracks [OF second_scan second_scan_kind two_accounts_reads, of "two_accounts 5"])
  show "\<forall>ps s1. delivers (changed_two (ac_last_round (mx_data scanned_once) + 1)) cp_next_token None () ps (Inr ()) s1 \<longrightarrow>
      {a. two_accounts 5 a \<noteq> two_accounts 9 a} \<subseteq> changed_addresses ps"
    by (auto dest!: changed_two_delivers simp: two_accounts_def split: if_splits)
qed (simp_all add: scanned_once_def two_accounts_def)

theorem account_scan_catches_races_witness:
  "distinct (map fst (ac_entries (mx_data scanned_twice))) \<and>
   map_of (ac_entries (mx_data scanned_twice)) ''B'' = wanted Some (two_accounts 9) ''B''"
proof (rule account_scan_catches_races [where state = two_accounts and W = 9, OF first_scan _ _ second_scan second_scan_kind two_accounts_reads])
  show "fst (account_scan_kind Refresh None 50 (mx_data \<lparr>mx_poisoned = False, mx_data = account_cache_new\<rparr>)) = Some True"
    by (simp add: account_scan_kind_def account_cache_new_def)
  show "\<forall>ps s'. delivers scan_two ap_next_token None () ps (Inr ()) s' \<longrightarrow> covers ps two_accounts"
    by (auto simp: covers_def pages_accounts_def two_accounts_def acct_a_def dest!: scan_two_delivers)
  show "\<forall>ps s'. delivers (changed_two (ac_last_round (mx_data scanned_once) + 1)) cp_next_token None () ps (Inr ()) s' \<longrightarrow>
    (\<forall>a r. ac_last_round (mx_data scanned_once) \<le> r \<and> two_accounts r a \<noteq> two_accounts 9 a \<longrightarrow> a \<in> changed_addresses ps)"
    by (auto dest!: changed_two_delivers simp: two_accounts_def split: if_splits)
qed

end
