(* ===== verification/Reads.thy ===== *)
theory Reads
  imports StateDecode TxnScan AccountScan
begin

text \<open>
  The read operations of \<open>AlgoOps\<close> (\<open>algo_ops/src/ops.rs\<close>) over the node record: balances, state,
  asset holdings, node status, suggested parameters, submission, confirmed transactions, the
  creator cache, the note searches and the page fetchers of the cached scans. Logging is left out.
\<close>

abbreviation msg_err :: "string \<Rightarrow> string \<Rightarrow> any_error" where
  "msg_err text e \<equiv> Msg (text @ '': '' @ e)"

text \<open>\<open>serde_json::to_value(&x).map_err(..)?\<close>, and \<open>e.to_string()\<close> re-wrapped by \<open>anyhow!\<close>.\<close>

definition to_value :: "string \<Rightarrow> string + 'j \<Rightarrow> ('s, 'j) op" where
  "to_value what r = lift (rmap_err (\<lambda>e. msg_err (''failed to serialize '' @ what) e) r)"

definition prefix_err :: "string \<Rightarrow> ('s, 'b) op \<Rightarrow> ('s, 'b) op" where
  "prefix_err text m = map_err (\<lambda>e. msg_err text (any_display e)) m"

abbreviation call_node :: "('e, 'a, 'j, 'z) node_scheme \<Rightarrow> ('e, 'b) future \<Rightarrow> ('e world, 'b) op" where
  "call_node nd fut \<equiv> algod_call (nd_rt nd) fut"

section \<open>Balances and state\<close>

definition f64_of_micro :: "u64 \<Rightarrow> rat" where
  "f64_of_micro micro = f64_div (f64_of_nat (unat micro)) 1000000"

definition account_balance :: "('e, 'a, 'j, 'z) node_scheme \<Rightarrow> ('e world, rat option) op" where
  "account_balance nd =
     try_op (algod_client nd) (\<lambda>client.
     try_op (require_address nd) (\<lambda>address.
     unless_unreachable ''account_information'' fail (call_node nd (nd_account nd client address)) (\<lambda>info.
       ret (Some (f64_of_micro (ai_amount info))))))"

definition created_app_state ::
  "('e, 'a, 'j, 'z) node_scheme \<Rightarrow> u64 option \<Rightarrow> 'j \<Rightarrow> (u64 \<times> (string \<times> string) list) option" where
  "created_app_state nd maybe_app_id app =
     (case get_then (nd_json nd) (js_u64 (nd_json nd)) ''id'' app of
        None \<Rightarrow> None
      | Some i \<Rightarrow>
          if (case maybe_app_id of Some flt \<Rightarrow> flt \<noteq> i | None \<Rightarrow> False) then None
          else (case js_get (nd_json nd) ''params'' app of
                  None \<Rightarrow> None
                | Some params \<Rightarrow>
                    if \<not> js_is_object (nd_json nd) params then None
                    else Some (i, decode_state_entries (nd_json nd) (nd_b64 nd)
                           (key_values_of (nd_json nd) params ''global_state'' ''global-state''))))"

definition global_state ::
  "('e, 'a, 'j, 'z) node_scheme \<Rightarrow> u64 option \<Rightarrow>
     ('e world, (u64 \<times> (string \<times> string) list) list option) op" where
  "global_state nd maybe_app_id =
     try_op (algod_client nd) (\<lambda>client.
     try_op (require_address nd) (\<lambda>address.
     unless_unreachable ''account_information'' (\<lambda>_. ret None) (call_node nd (nd_account nd client address)) (\<lambda>info.
     try_op (to_value ''account info'' (ai_json info)) (\<lambda>v.
       (case Option.bind (json_get (nd_json nd) v ''created_apps'' ''created-apps'') (js_array (nd_json nd)) of
          None \<Rightarrow> ret (Some [])
        | Some created \<Rightarrow> ret (Some (List.map_filter (created_app_state nd maybe_app_id) created)))))))"

definition app_global_bytes ::
  "('e, 'a, 'j, 'z) node_scheme \<Rightarrow> u64 \<Rightarrow> string \<Rightarrow> ('e world, bytes option) op" where
  "app_global_bytes nd app_id key =
     (if app_id = 0 then fail (Msg ''app_id must be > 0'')
      else
        try_op (algod_client nd) (\<lambda>client.
        unless_unreachable ''app_information'' (\<lambda>_. ret None) (call_node nd (nd_app nd client app_id)) (\<lambda>app_info.
        try_op (to_value ''app info'' app_info) (\<lambda>v.
          (case js_get (nd_json nd) ''params'' v of
             None \<Rightarrow> ret None
           | Some params \<Rightarrow>
               if \<not> js_is_object (nd_json nd) params then ret None
               else ret (find_global_bytes (nd_json nd) (nd_b64 nd) key
                      (key_values_of (nd_json nd) params ''global_state'' ''global-state'')))))))"

definition get_app_local_schema ::
  "('e, 'a, 'j, 'z) node_scheme \<Rightarrow> u64 \<Rightarrow> ('e world, u64 \<times> u64) op" where
  "get_app_local_schema nd app_id =
     (let js = nd_json nd;
          count = (\<lambda>schema k1 k2. case Option.bind (json_get js schema k1 k2) (js_u64 js) of Some n \<Rightarrow> n | None \<Rightarrow> 0)
      in if app_id = 0 then fail (Msg ''app_id must be > 0'')
         else
           try_op (algod_client nd) (\<lambda>client.
           try_op (prefix_err ''application_information failed'' (call_node nd (nd_app nd client app_id))) (\<lambda>app_info.
           try_op (to_value ''application info'' app_info) (\<lambda>v.
             (case Option.bind (js_get js ''params'' v)
                     (\<lambda>p. json_get js p ''local-state-schema'' ''local_state_schema'') of
                None \<Rightarrow> fail (Msg (''local-state-schema missing for app_id '' @ show_nat (unat app_id)))
              | Some schema \<Rightarrow>
                  ret (count schema ''num-uint'' ''num_uint'', count schema ''num-byte-slice'' ''num_byte_slice''))))))"

definition local_state_for_account ::
  "('e, 'a, 'j, 'z) node_scheme \<Rightarrow> u64 \<Rightarrow> string \<Rightarrow> ('e world, (string \<times> string) list option) op" where
  "local_state_for_account nd app_id account_address =
     try_op (algod_client nd) (\<lambda>client.
     try_op (lift (parse_address nd account_address)) (\<lambda>address.
     unless_unreachable ''account_information'' (\<lambda>_. ret None) (call_node nd (nd_account nd client address)) (\<lambda>info.
     try_op (to_value ''account info'' (ai_json info)) (\<lambda>v.
       ret (decode_app_local_state (nd_json nd) (nd_b64 nd) v app_id)))))"

section \<open>Assets\<close>

definition asset_id_of :: "'j json_api \<Rightarrow> 'j \<Rightarrow> u64" where
  "asset_id_of js a =
     (case get_then js (js_u64 js) ''asset-id'' a of
        Some i \<Rightarrow> i
      | None \<Rightarrow> (case get_then js (js_u64 js) ''asset_id'' a of Some i \<Rightarrow> i | None \<Rightarrow> 0))"

definition is_account_opted_in_to_asset ::
  "('e, 'a, 'j, 'z) node_scheme \<Rightarrow> string \<Rightarrow> u64 \<Rightarrow> ('e world, bool) op" where
  "is_account_opted_in_to_asset nd account_address asset_id =
     (if asset_id = 0 then fail (Msg ''asset_id must be > 0'')
      else
        try_op (algod_client nd) (\<lambda>client.
        try_op (lift (parse_address nd account_address)) (\<lambda>address.
        attempt (call_node nd (nd_account nd client address)) (\<lambda>r.
          (case r of
             Inl _ \<Rightarrow> ret False
           | Inr info \<Rightarrow>
               try_op (to_value ''account info'' (ai_json info)) (\<lambda>v.
                 ret (\<exists>a \<in> set (case get_then (nd_json nd) (js_array (nd_json nd)) ''assets'' v of
                                  Some xs \<Rightarrow> xs | None \<Rightarrow> []). asset_id_of (nd_json nd) a = asset_id)))))))"

fun holding_amount :: "'j json_api \<Rightarrow> u64 \<Rightarrow> 'j list \<Rightarrow> u64" where
  "holding_amount js asset_id [] = 0"
| "holding_amount js asset_id (h # hs) =
     (if asset_id_of js h = asset_id
      then (case get_then js (js_u64 js) ''amount'' h of Some n \<Rightarrow> n | None \<Rightarrow> 0)
      else holding_amount js asset_id hs)"

definition parse_holding_amount_from_account_value :: "'j json_api \<Rightarrow> 'j \<Rightarrow> u64 \<Rightarrow> u64" where
  "parse_holding_amount_from_account_value js v asset_id =
     (case get_then js (js_array js) ''assets'' v of
        Some arr \<Rightarrow> holding_amount js asset_id arr
      | None \<Rightarrow> 0)"

definition asset_holding ::
  "('e, 'a, 'j, 'z) node_scheme \<Rightarrow> string \<Rightarrow> u64 \<Rightarrow> ('e world, u64) op" where
  "asset_holding nd account_address asset_id =
     try_op (algod_client nd) (\<lambda>client.
     try_op (lift (parse_address nd account_address)) (\<lambda>address.
     try_op (prefix_err ''failed to fetch account information'' (call_node nd (nd_account nd client address))) (\<lambda>info.
     try_op (to_value ''account info'' (ai_json info)) (\<lambda>v.
       ret (parse_holding_amount_from_account_value (nd_json nd) v asset_id)))))"

record algo_account_funds =
  af_amount :: u64
  af_min_balance :: u64

definition spendable :: "algo_account_funds \<Rightarrow> u64" where
  "spendable f = saturating_sub (af_amount f) (af_min_balance f)"

definition account_funds ::
  "('e, 'a, 'j, 'z) node_scheme \<Rightarrow> string \<Rightarrow> ('e world, algo_account_funds) op" where
  "account_funds nd account_address =
     try_op (algod_client nd) (\<lambda>client.
     try_op (lift (parse_address nd account_address)) (\<lambda>address.
     unless_unreachable ''account_funds''
       (\<lambda>e. fail (contextualize (''failed to fetch account information for '' @ account_address) e))
       (call_node nd (nd_account nd client address)) (\<lambda>info.
       ret \<lparr>af_amount = ai_amount info, af_min_balance = ai_min_balance info\<rparr>)))"

definition microalgos_at :: "('e, 'a, 'j, 'z) node_scheme \<Rightarrow> string \<Rightarrow> ('e world, u64) op" where
  "microalgos_at nd account_address =
     try_op (algod_client nd) (\<lambda>client.
     try_op (lift (parse_address nd account_address)) (\<lambda>address.
     try_op (prefix_err (''failed to fetch account information for '' @ account_address)
              (call_node nd (nd_account nd client address))) (\<lambda>info.
       ret (ai_amount info))))"

section \<open>Node status, blocks and submission\<close>

definition node_round :: "('e, 'a, 'j, 'z) node_scheme \<Rightarrow> ('e world, u64) op" where
  "node_round nd =
     try_op (algod_client nd) (\<lambda>client.
     unless_unreachable ''node_status'' (\<lambda>e. fail (contextualize ''failed to get node status'' e))
       (call_node nd (nd_status nd client)) ret)"

definition parse_block_header_seed ::
  "('e, 'a, 'j, 'z) node_scheme \<Rightarrow> bytes \<Rightarrow> u64 \<Rightarrow> any_error + bytes" where
  "parse_block_header_seed nd body rnd =
     (let r = show_nat (unat rnd)
      in rbind (rmap_err (\<lambda>e. Msg (''failed to parse block '' @ r @ '' header seed: '' @ e)) (nd_parse_block_seed nd body))
           (\<lambda>seed64.
         rbind (rmap_err (\<lambda>e. Msg (''block '' @ r @ '' seed is not valid base64: '' @ e)) (b64_decode (nd_b64 nd) seed64))
           (\<lambda>seed.
         if length seed \<noteq> 32
         then Inl (Msg (''block '' @ r @ '' seed is '' @ show_nat (length seed) @ '' bytes, expected 32''))
         else Inr seed)))"

text \<open>
  \<open>block_seed\<close> goes to the runtime bridge directly; its future is the raw HTTP request, whose error is
  whether the host was unreachable and a message. The future never fails as an \<open>algonaut\<close> call does,
  so its value is the code's \<open>Result\<close> and the first branch below is not taken.
\<close>

definition block_response :: "http_failure + http_response \<Rightarrow> (bool \<times> string) + string" where
  "block_response r =
     (case r of
        Inl f \<Rightarrow> Inl (hf_connect f \<or> hf_timeout f, hf_text f)
      | Inr response \<Rightarrow>
          (case hr_body response of
             Inl text \<Rightarrow> Inl (False, text)
           | Inr body \<Rightarrow>
               if 200 \<le> hr_status response \<and> hr_status response < 300 then Inr body
               else Inl (False, ''HTTP '' @ hr_status_text response @ '': '' @ body)))"

definition block_seed :: "('e, 'a, 'j, 'z) node_scheme \<Rightarrow> u64 \<Rightarrow> ('e world, bytes) op" where
  "block_seed nd rnd w =
     (case w of (ops, e) \<Rightarrow>
        let cfg = ops_config ops;
            url = cc_client_api_url cfg @ '':'' @ show_u16 (cc_client_api_port cfg) @ ''/v2/blocks/'' @
                  show_nat (unat rnd) @ ''?format=json'';
            token = (case cc_token cfg of Some t \<Rightarrow> t | None \<Rightarrow> []);
            token_header = (case cc_token_key cfg of Some k \<Rightarrow> k | None \<Rightarrow> ''X-Algo-API-Token'');
            fut = (\<lambda>e. case nd_http_get nd url token_header token e of (r, e) \<Rightarrow> (Inr (block_response r), e))
        in try_op (rt_block_on (nd_rt nd) ''algod call'' fut) (\<lambda>fetched.
             case fetched of
               Inl _ \<Rightarrow> fail (Msg [])
             | Inr (Inl (unreachable, message)) \<Rightarrow>
                 fail (if unreachable then Typed (algo_unreachable ''block'' message)
                       else Msg (''failed to fetch block '' @ show_nat (unat rnd) @ '': '' @ message))
             | Inr (Inr body) \<Rightarrow> lift (parse_block_header_seed nd (utf8_bytes body) rnd)) w)"

definition suggested_params :: "('e, 'a, 'j, 'z) node_scheme \<Rightarrow> ('e world, params_info) op" where
  "suggested_params nd =
     try_op (algod_client nd) (\<lambda>client.
     unless_unreachable ''suggested_params'' (\<lambda>e. fail (contextualize ''failed to fetch suggested params'' e))
       (call_node nd (nd_suggested_params nd client)) (\<lambda>params. ret (params_info.truncate params)))"

definition submit_signed :: "('e, 'a, 'j, 'z) node_scheme \<Rightarrow> bytes \<Rightarrow> ('e world, string) op" where
  "submit_signed nd signed_txn =
     (if signed_txn = [] then fail (Msg ''signed_txn must not be empty'')
      else
        try_op (algod_client nd) (\<lambda>client.
        unless_unreachable ''send_raw'' (\<lambda>e. fail (contextualize ''send_raw failed'' e))
          (call_node nd (nd_send_raw nd client signed_txn)) ret))"

record confirmed_txn =
  ct_confirmed_round :: u64
  ct_note :: "bytes option"

definition confirmed_transaction ::
  "('e, 'a, 'j, 'z) node_scheme \<Rightarrow> string \<Rightarrow> ('e world, confirmed_txn option) op" where
  "confirmed_transaction nd txid =
     (if blank txid
      then fail (Msg ''txid must not be empty'')
      else
        try_op (algod_client nd) (\<lambda>client.
        unless_unreachable ''pending_transaction''
          (\<lambda>e. case e of Typed a \<Rightarrow> if is_quota a then fail e else ret None | Msg _ \<Rightarrow> ret None)
          (call_node nd (nd_pending_transaction nd client txid)) (\<lambda>resp.
          let confirmed_round = (case pi_confirmed_round resp of Some r \<Rightarrow> r | None \<Rightarrow> 0)
          in (case pi_txn_json resp of
                None \<Rightarrow> ret (Some \<lparr>ct_confirmed_round = confirmed_round, ct_note = None\<rparr>)
              | Some txn \<Rightarrow>
                  try_op (to_value ''pending transaction'' txn) (\<lambda>v.
                    ret (Some \<lparr>ct_confirmed_round = confirmed_round,
                      ct_note = Option.bind (get_then (nd_json nd) (js_str (nd_json nd)) ''note'' v)
                                  (\<lambda>s. rok (b64_decode (nd_b64 nd) s))\<rparr>))))))"

end
