(* ===== verification/Searches.thy ===== *)
theory Searches
  imports Reads
begin

text \<open>
  The indexer searches of \<open>algo_ops/src/ops.rs\<close>: the note lookups with their pagination
  (\<open>find_transaction_by_note*\<close>, \<open>find_transactions_by_note_prefix*\<close>), and the page fetchers and entry
  points of the two cached scans, whose engines are in the theories of the scans.
\<close>

abbreviation call_indexer :: "('e, 'a, 'j, 'z) node_scheme \<Rightarrow> ('e, 'b) future \<Rightarrow> ('e world, 'b) op" where
  "call_indexer nd fut \<equiv> indexer_call (nd_rt nd) fut"

text \<open>\<open>txn.confirmed_round.filter(|r| *r > 0)\<close>.\<close>

definition positive_round :: "u64 option \<Rightarrow> u64 option" where
  "positive_round r = (case r of Some n \<Rightarrow> if 0 < n then Some n else None | None \<Rightarrow> None)"

section \<open>Note searches\<close>

record notes_page =
  np_candidates :: "(u64 \<times> bytes) list"
  np_next_token :: "string option"

definition note_candidate :: "idx_txn \<Rightarrow> (u64 \<times> bytes) option" where
  "note_candidate txn =
     Option.bind (positive_round (it_round txn)) (\<lambda>r. map_option (Pair r) (it_note txn))"

definition confirmed_notes_page ::
  "('e, 'a, 'j, 'z) node_scheme \<Rightarrow> client \<Rightarrow> string \<Rightarrow> string option \<Rightarrow> string option \<Rightarrow>
     ('e world, notes_page) op" where
  "confirmed_notes_page nd client note_prefix sender tok =
     try_op (lift (transpose_opt (parse_address nd) sender)) (\<lambda>address.
     unless_unreachable ''search_for_transactions'' fail
       (call_indexer nd (nd_search_for_transactions nd client
          \<lparr>ts_next = tok, ts_note_prefix = Some note_prefix, ts_min_round = None, ts_address = address,
           ts_address_role = map_option (\<lambda>_. ''sender'') sender, ts_app_id = None\<rparr>))
       (\<lambda>resp. ret \<lparr>np_candidates = List.map_filter note_candidate (tr_transactions resp),
                    np_next_token = next_token_of (tr_next_token resp)\<rparr>))"

definition confirmed_of :: "u64 \<times> bytes \<Rightarrow> confirmed_txn" where
  "confirmed_of c = \<lparr>ct_confirmed_round = fst c, ct_note = Some (snd c)\<rparr>"

text \<open>The loop of the single lookups: it stops at the first page with a match.\<close>

partial_function (option) find_in_pages ::
  "(string option \<Rightarrow> ('s, notes_page) op) \<Rightarrow> (bytes \<Rightarrow> bool) \<Rightarrow> string option \<Rightarrow> 's \<Rightarrow>
     ((any_error + confirmed_txn option) \<times> 's) option" where
  "find_in_pages fetch hits tok s =
     (case fetch tok s of
        None \<Rightarrow> None
      | Some (Inl e, s) \<Rightarrow> Some (Inl e, s)
      | Some (Inr page, s) \<Rightarrow>
          (case find (\<lambda>c. hits (snd c)) (np_candidates page) of
             Some c \<Rightarrow> Some (Inr (Some (confirmed_of c)), s)
           | None \<Rightarrow>
               (case np_next_token page of
                  Some t \<Rightarrow> find_in_pages fetch hits (Some t) s
                | None \<Rightarrow> Some (Inr None, s))))"

definition find_confirmed_note_matching ::
  "('e, 'a, 'j, 'z) node_scheme \<Rightarrow> bytes \<Rightarrow> string option \<Rightarrow> (bytes \<Rightarrow> bool) \<Rightarrow>
     ('e world, confirmed_txn option) op" where
  "find_confirmed_note_matching nd query sender hits =
     try_op (indexer_client nd) (\<lambda>client.
       find_in_pages (confirmed_notes_page nd client (b64_encode (nd_b64 nd) query) sender) hits None)"

definition collect_page :: "(bytes \<Rightarrow> bool) \<Rightarrow> notes_page \<Rightarrow> confirmed_txn list \<Rightarrow> confirmed_txn list" where
  "collect_page hits page found =
     found @ map confirmed_of (filter (\<lambda>c. hits (snd c)) (np_candidates page))"

definition collect_confirmed_notes_matching ::
  "('e, 'a, 'j, 'z) node_scheme \<Rightarrow> bytes \<Rightarrow> string option \<Rightarrow> (bytes \<Rightarrow> bool) \<Rightarrow>
     ('e world, confirmed_txn list) op" where
  "collect_confirmed_notes_matching nd query sender hits =
     try_op (indexer_client nd) (\<lambda>client w.
       case page_loop (confirmed_notes_page nd client (b64_encode (nd_b64 nd) query) sender)
              np_next_token (collect_page hits) [] None w of
         None \<Rightarrow> None
       | Some (Inl e, found, w) \<Rightarrow> Some (Inl e, w)
       | Some (Inr _, found, w) \<Rightarrow> Some (Inr found, w))"

definition find_transaction_by_note ::
  "('e, 'a, 'j, 'z) node_scheme \<Rightarrow> bytes \<Rightarrow> ('e world, confirmed_txn option) op" where
  "find_transaction_by_note nd note =
     (if note = [] then fail (Msg ''note must not be empty'')
      else find_confirmed_note_matching nd note None (\<lambda>candidate. candidate = note))"

definition find_transaction_by_note_and_sender ::
  "('e, 'a, 'j, 'z) node_scheme \<Rightarrow> bytes \<Rightarrow> string \<Rightarrow> ('e world, confirmed_txn option) op" where
  "find_transaction_by_note_and_sender nd note sender =
     (if note = [] then fail (Msg ''note must not be empty'')
      else if sender = [] then fail (Msg ''sender must not be empty'')
      else find_confirmed_note_matching nd note (Some sender) (\<lambda>candidate. candidate = note))"

definition find_transaction_by_note_prefix ::
  "('e, 'a, 'j, 'z) node_scheme \<Rightarrow> bytes \<Rightarrow> ('e world, confirmed_txn option) op" where
  "find_transaction_by_note_prefix nd prefix =
     (if prefix = [] then fail (Msg ''prefix must not be empty'')
      else find_confirmed_note_matching nd prefix None (\<lambda>candidate. starts_with candidate prefix))"

definition find_transaction_by_note_prefix_and_sender ::
  "('e, 'a, 'j, 'z) node_scheme \<Rightarrow> bytes \<Rightarrow> string \<Rightarrow> ('e world, confirmed_txn option) op" where
  "find_transaction_by_note_prefix_and_sender nd prefix sender =
     (if prefix = [] then fail (Msg ''prefix must not be empty'')
      else if sender = [] then fail (Msg ''sender must not be empty'')
      else find_confirmed_note_matching nd prefix (Some sender) (\<lambda>candidate. starts_with candidate prefix))"

definition find_transactions_by_note_prefix ::
  "('e, 'a, 'j, 'z) node_scheme \<Rightarrow> bytes \<Rightarrow> ('e world, confirmed_txn list) op" where
  "find_transactions_by_note_prefix nd prefix =
     (if prefix = [] then fail (Msg ''prefix must not be empty'')
      else collect_confirmed_notes_matching nd prefix None (\<lambda>candidate. starts_with candidate prefix))"

definition find_transactions_by_note_prefix_and_sender ::
  "('e, 'a, 'j, 'z) node_scheme \<Rightarrow> bytes \<Rightarrow> string \<Rightarrow> ('e world, confirmed_txn list) op" where
  "find_transactions_by_note_prefix_and_sender nd prefix sender =
     (if prefix = [] then fail (Msg ''prefix must not be empty'')
      else if sender = [] then fail (Msg ''sender must not be empty'')
      else collect_confirmed_notes_matching nd prefix (Some sender) (\<lambda>candidate. starts_with candidate prefix))"

section \<open>Pages of the cached transaction scan\<close>

record txn_scan_filter =
  tf_note_prefix :: "bytes option"
  tf_sender :: "string option"
  tf_app_id :: "u64 option"

record 'a prepared_scan_filter =
  pf_note_prefix :: "string option"
  pf_address :: "'a option"
  pf_app_id :: "u64 option"

definition prepare ::
  "('e, 'a, 'j, 'z) node_scheme \<Rightarrow> txn_scan_filter \<Rightarrow> any_error + 'a prepared_scan_filter" where
  "prepare nd f =
     rbind (transpose_opt (parse_address nd) (tf_sender f)) (\<lambda>address.
       Inr \<lparr>pf_note_prefix = map_option (b64_encode (nd_b64 nd)) (tf_note_prefix f),
            pf_address = address, pf_app_id = tf_app_id f\<rparr>)"

definition scanned_txn_of :: "idx_txn \<Rightarrow> scanned_txn option" where
  "scanned_txn_of txn =
     map_option (\<lambda>r. \<lparr>st_confirmed_round = r, st_sender = it_sender txn, st_note = it_note txn\<rparr>)
       (positive_round (it_round txn))"

definition fetch_scan_page ::
  "('e, 'a, 'j, 'z) node_scheme \<Rightarrow> client \<Rightarrow> 'a prepared_scan_filter \<Rightarrow> u64 option \<Rightarrow> string option \<Rightarrow>
     ('e world, txn_scan_page) op" where
  "fetch_scan_page nd client flt min_round tok =
     unless_unreachable ''search_for_transactions'' fail
       (call_indexer nd (nd_search_for_transactions nd client
          \<lparr>ts_next = tok, ts_note_prefix = pf_note_prefix flt, ts_min_round = min_round,
           ts_address = pf_address flt, ts_address_role = map_option (\<lambda>_. ''sender'') (pf_address flt),
           ts_app_id = pf_app_id flt\<rparr>))
       (\<lambda>resp. ret \<lparr>tp_txns = List.map_filter scanned_txn_of (tr_transactions resp),
                    tp_next_token = next_token_of (tr_next_token resp),
                    tp_current_round = tr_current_round resp\<rparr>)"

text \<open>Lifting an operation on the client into a state that also holds the caller's cache.\<close>

definition beside :: "('s, 'e, 'b) eop \<Rightarrow> ('m \<times> 's, 'e, 'b) eop" where
  "beside m w = (case m (snd w) of None \<Rightarrow> None | Some (r, s) \<Rightarrow> Some (r, fst w, s))"

definition now_unix_secs :: "'e runtime \<Rightarrow> ('e world, u64) op" where
  "now_unix_secs rt w = (case rt_unix_secs rt (snd w) of (now, e) \<Rightarrow> Some (Inr now, fst w, e))"

definition fetch_transactions_cached ::
  "('e, 'a, 'j, 'z) node_scheme \<Rightarrow> txn_scan_filter \<Rightarrow> query_mode \<Rightarrow> u64 option \<Rightarrow>
     (scanned_txn \<Rightarrow> 't option) \<Rightarrow> ('t txn_scan_cache mutex \<times> 'e world, unit) op" where
  "fetch_transactions_cached nd flt mode lifetime ingest =
     try_op (beside (indexer_client nd)) (\<lambda>client.
     try_op (lift (prepare nd flt)) (\<lambda>prepared.
     try_op (beside (now_unix_secs (nd_rt nd))) (\<lambda>now.
       fetch_transactions_cached_with mode lifetime now ingest (fetch_scan_page nd client prepared))))"

section \<open>Pages of the cached account scan\<close>

definition account_scan_excludes :: "string list option" where
  "account_scan_excludes =
     Some [''assets'', ''created-apps'', ''created-assets'']"

definition scanned_account_from :: "'j json_api \<Rightarrow> base64_engine \<Rightarrow> u64 \<Rightarrow> 'j \<Rightarrow> scanned_account" where
  "scanned_account_from js b64 app_id v =
     \<lparr>sa_address = (case get_then js (js_str js) ''address'' v of Some s \<Rightarrow> s | None \<Rightarrow> []),
      sa_local_state = (case decode_app_local_state js b64 v app_id of Some l \<Rightarrow> l | None \<Rightarrow> [])\<rparr>"

definition fetch_account_page ::
  "('e, 'a, 'j, 'z) node_scheme \<Rightarrow> client \<Rightarrow> u64 \<Rightarrow> string option \<Rightarrow> ('e world, account_scan_page) op" where
  "fetch_account_page nd client app_id tok =
     unless_unreachable ''search_for_accounts'' fail
       (call_indexer nd (nd_search_for_accounts nd client tok account_scan_excludes app_id))
       (\<lambda>resp.
          try_op (collect_ops (ar_accounts resp) (\<lambda>acct.
            try_op (to_value ''account'' (ai_json acct)) (\<lambda>v.
              ret (scanned_account_from (nd_json nd) (nd_b64 nd) app_id v)))) (\<lambda>accounts.
          ret \<lparr>ap_accounts = accounts, ap_next_token = next_token_of (ar_next_token resp),
               ap_current_round = ar_current_round resp\<rparr>))"

fun collect_changed_addresses :: "idx_txn \<Rightarrow> string list \<Rightarrow> string list" where
  "collect_changed_addresses (IdxTxn r sender note app_accounts inner_txns) out =
     (let out = out @ [sender];
          out = (case app_accounts of Some (Some accounts) \<Rightarrow> out @ accounts | _ \<Rightarrow> out)
      in case inner_txns of
           Some ts \<Rightarrow> fold (\<lambda>inner out. collect_changed_addresses inner out) ts out
         | None \<Rightarrow> out)"

definition fetch_changed_addresses_page ::
  "('e, 'a, 'j, 'z) node_scheme \<Rightarrow> client \<Rightarrow> u64 \<Rightarrow> u64 \<Rightarrow> string option \<Rightarrow>
     ('e world, changed_addresses_page) op" where
  "fetch_changed_addresses_page nd client app_id min_round tok =
     unless_unreachable ''search_for_transactions'' fail
       (call_indexer nd (nd_search_for_transactions nd client
          \<lparr>ts_next = tok, ts_note_prefix = None, ts_min_round = Some min_round, ts_address = None,
           ts_address_role = None, ts_app_id = Some app_id\<rparr>))
       (\<lambda>resp. ret \<lparr>cp_addresses = fold collect_changed_addresses (tr_transactions resp) [],
                    cp_next_token = next_token_of (tr_next_token resp),
                    cp_current_round = tr_current_round resp\<rparr>)"

definition lookup_opted_in_account ::
  "('e, 'a, 'j, 'z) node_scheme \<Rightarrow> client \<Rightarrow> u64 \<Rightarrow> string \<Rightarrow> ('e world, scanned_account option) op" where
  "lookup_opted_in_account nd client app_id address =
     try_op (lift (parse_address nd address)) (\<lambda>addr.
     attempt (call_indexer nd (nd_lookup_account_by_id nd client addr account_scan_excludes)) (\<lambda>r.
       (case r of
          Inl e \<Rightarrow>
            if (case e of Typed a \<Rightarrow> ae_status a = Some 404 | Msg _ \<Rightarrow> False) then ret None
            else if is_host_unreachable e
              then fail (Typed (algo_unreachable ''lookup_account_by_id'' (any_display e)))
            else fail e
        | Inr acct \<Rightarrow>
            try_op (to_value ''account'' (ai_json acct)) (\<lambda>v.
              ret (map_option (\<lambda>local_state. \<lparr>sa_address = ai_address acct, sa_local_state = local_state\<rparr>)
                     (decode_app_local_state (nd_json nd) (nd_b64 nd) v app_id))))))"

definition fetch_opted_in_accounts_cached ::
  "('e, 'a, 'j, 'z) node_scheme \<Rightarrow> u64 \<Rightarrow> query_mode \<Rightarrow> u64 option \<Rightarrow>
     (scanned_account \<Rightarrow> 't option) \<Rightarrow> ('t account_scan_cache mutex \<times> 'e world, unit) op" where
  "fetch_opted_in_accounts_cached nd app_id mode lifetime ingest =
     (if app_id = 0 then fail (Msg ''app_id must be > 0'')
      else
        try_op (beside (indexer_client nd)) (\<lambda>client.
        try_op (beside (now_unix_secs (nd_rt nd))) (\<lambda>now.
          fetch_opted_in_accounts_cached_with mode lifetime now ingest
            (fetch_account_page nd client app_id)
            (fetch_changed_addresses_page nd client app_id)
            (lookup_opted_in_account nd client app_id))))"

section \<open>What the searches return\<close>

lemma find_append:
  "find P (xs @ ys) = (case find P xs of Some x \<Rightarrow> Some x | None \<Rightarrow> find P ys)"
  by (induction xs) simp_all

lemma find_in_pages_delivers:
  assumes "delivers fetch np_next_token tok s ps (Inr ()) s'"
  shows "\<exists>s''. find_in_pages fetch hits tok s =
    Some (Inr (map_option confirmed_of (find (\<lambda>c. hits (snd c)) (concat (map np_candidates ps)))), s'')"
  using assms
proof (induction tok s ps "Inr () :: any_error + unit" s' rule: delivers.induct)
  case (last_page tok s p s')
  then show ?case
    by (subst find_in_pages.simps) (simp split: option.split)
next
  case (more tok s p s1 t ps s')
  then show ?case
    by (subst find_in_pages.simps)
       (cases "find (\<lambda>c. hits (snd c)) (np_candidates p)"; simp add: find_append)
qed

lemma fold_collect_page:
  "fold (collect_page hits) ps found =
     found @ map confirmed_of (filter (\<lambda>c. hits (snd c)) (concat (map np_candidates ps)))"
  by (induction ps arbitrary: found) (simp_all add: collect_page_def)

lemma find_eq_filter_hd: "find P xs = (case filter P xs of [] \<Rightarrow> None | x # _ \<Rightarrow> Some x)"
  by (induction xs) simp_all

lemma find_via_image:
  assumes "\<And>c. P c \<Longrightarrow> H c" and "\<And>c. Q (f c) = P c"
  shows "map_option f (find P xs) = find Q (map f (filter H xs))"
  using assms by (induction xs) auto

lemma collect_matching_Some:
  assumes "collect_confirmed_notes_matching nd query sender hits w = Some (Inr found, w')"
  obtains client w1 ps where "indexer_client nd w = Some (Inr client, w1)"
    and "delivers (confirmed_notes_page nd client (b64_encode (nd_b64 nd) query) sender) np_next_token None w1 ps (Inr ()) w'"
    and "found = map confirmed_of (filter (\<lambda>c. hits (snd c)) (concat (map np_candidates ps)))"
proof -
  from assms obtain client w1 where c: "indexer_client nd w = Some (Inr client, w1)"
    and l: "(case page_loop (confirmed_notes_page nd client (b64_encode (nd_b64 nd) query) sender)
              np_next_token (collect_page hits) [] None w1 of
         None \<Rightarrow> None
       | Some (Inl e, found, w) \<Rightarrow> Some (Inl e, w)
       | Some (Inr _, found, w) \<Rightarrow> Some (Inr found, w)) = Some (Inr found, w')"
    unfolding collect_confirmed_notes_matching_def try_op_Inr_iff by blast
  from l have l: "page_loop (confirmed_notes_page nd client (b64_encode (nd_b64 nd) query) sender)
      np_next_token (collect_page hits) [] None w1 = Some (Inr (), found, w')"
    by (simp split: option.splits sum.splits prod.splits)
  from l obtain ps where
    d: "delivers (confirmed_notes_page nd client (b64_encode (nd_b64 nd) query) sender) np_next_token None w1 ps (Inr ()) w'"
    and f: "found = fold (collect_page hits) ps []" unfolding page_loop_iff by blast
  show ?thesis using that [OF c d] f by (simp add: fold_collect_page)
qed

lemma find_matching_of_collect:
  assumes "collect_confirmed_notes_matching nd query sender all_hits w = Some (Inr found, w')"
    and "\<And>n. hits n \<Longrightarrow> all_hits n"
  shows "\<exists>w''. find_confirmed_note_matching nd query sender hits w =
    Some (Inr (find (\<lambda>t. case ct_note t of Some n \<Rightarrow> hits n | None \<Rightarrow> False) found), w'')"
proof -
  from collect_matching_Some [OF assms(1)] obtain client w1 ps
    where c: "indexer_client nd w = Some (Inr client, w1)"
      and d: "delivers (confirmed_notes_page nd client (b64_encode (nd_b64 nd) query) sender) np_next_token None w1 ps (Inr ()) w'"
      and f: "found = map confirmed_of (filter (\<lambda>c. all_hits (snd c)) (concat (map np_candidates ps)))" .
  from find_in_pages_delivers [OF d, of hits]
  show ?thesis
    using find_via_image [of "\<lambda>c. hits (snd c)" "\<lambda>c. all_hits (snd c)"
        "\<lambda>t. case ct_note t of Some n \<Rightarrow> hits n | None \<Rightarrow> False" confirmed_of "concat (map np_candidates ps)"] assms(2)
    by (auto simp: find_confirmed_note_matching_def c f confirmed_of_def)
qed

text \<open>
  the single lookups agree with the listing: when the listing of a prefix succeeds, the exact
  lookup finds the first listed transaction whose note is exactly the prefix, and the prefix lookup
  the first listed transaction, whatever pages the indexer cut its answer into.\<close>

theorem note_lookup_agrees:
  assumes "find_transactions_by_note_prefix nd prefix w = Some (Inr found, w')"
  shows "(\<exists>w''. find_transaction_by_note nd prefix w =
           Some (Inr (find (\<lambda>t. ct_note t = Some prefix) found), w'')) \<and>
    (\<exists>w''. find_transaction_by_note_prefix nd prefix w =
           Some (Inr (case found of [] \<Rightarrow> None | t # _ \<Rightarrow> Some t), w''))"
proof -
  from assms have p: "prefix \<noteq> []"
    and c: "collect_confirmed_notes_matching nd prefix None (\<lambda>n. starts_with n prefix) w = Some (Inr found, w')"
    by (auto simp: find_transactions_by_note_prefix_def split: if_splits)
  from collect_matching_Some [OF c] obtain ps :: "notes_page list"
    where f: "found = map confirmed_of (filter (\<lambda>c. starts_with (snd c) prefix) (concat (map np_candidates ps)))" .
  have all: "\<forall>t \<in> set found. \<exists>n. ct_note t = Some n \<and> starts_with n prefix"
    unfolding f by (auto simp: confirmed_of_def)
  then have hd: "find (\<lambda>t. case ct_note t of Some n \<Rightarrow> starts_with n prefix | None \<Rightarrow> False) found =
      (case found of [] \<Rightarrow> None | t # _ \<Rightarrow> Some t)"
    by (cases found) auto
  have exact: "(\<lambda>t. case ct_note t of Some n \<Rightarrow> n = prefix | None \<Rightarrow> False) = (\<lambda>t. ct_note t = Some prefix)"
    by (auto split: option.splits)
  from find_matching_of_collect [OF c, of "\<lambda>n. n = prefix"] find_matching_of_collect [OF c, of "\<lambda>n. starts_with n prefix"]
  show ?thesis using p
    by (simp add: find_transaction_by_note_def find_transaction_by_note_prefix_def hd exact)
       (simp add: starts_with_iff)
qed


definition two_notes_node :: "(nat, string, json) node" where
  "two_notes_node = refusing_node\<lparr>nd_search_for_transactions := (\<lambda>_ q. answers
     (if ts_next q = None
      then \<lparr>tr_transactions = [IdxTxn (Some 4) ''A'' (Some [1, 2]) None None], tr_next_token = Some ''n'',
            tr_current_round = 9\<rparr>
      else \<lparr>tr_transactions = [IdxTxn (Some 5) ''B'' (Some [1]) None None, IdxTxn None ''C'' (Some [1]) None None],
            tr_next_token = Some [], tr_current_round = 9\<rparr>))\<rparr>"

lemma two_notes_client:
  "indexer_client two_notes_node (ops, e) = Some (Inr (indexer_at (ops_config ops)), ops, e)"
  by (rule client_ok) (simp add: two_notes_node_def)

lemma two_notes_listing:
  "find_transactions_by_note_prefix two_notes_node [1] (plain_client, 0) =
     Some (Inr [\<lparr>ct_confirmed_round = 4, ct_note = Some [1, 2]\<rparr>, \<lparr>ct_confirmed_round = 5, ct_note = Some [1]\<rparr>],
       counted 2 plain_client, 2)"
proof -
  let ?f = "confirmed_notes_page two_notes_node (indexer_at (ops_config plain_client))
              (b64_encode (nd_b64 two_notes_node) [1]) None"
  let ?p = "\<lparr>np_candidates = [(4, [1, 2])], np_next_token = Some ''n''\<rparr>"
  let ?q = "\<lparr>np_candidates = [(5, [1])], np_next_token = None\<rparr>"
  have 1: "?f None (plain_client, 0) = Some (Inr ?p, counted 1 plain_client, 1)"
    and 2: "?f (Some ''n'') (counted 1 plain_client, 1) = Some (Inr ?q, counted 2 plain_client, 2)"
    by (simp_all add: confirmed_notes_page_def two_notes_node_def unless_unreachable_def indexer_call_def
        note_candidate_def positive_round_def next_token_of_def List.map_filter_def)
  have "delivers ?f np_next_token None (plain_client, 0) [?p, ?q] (Inr ()) (counted 2 plain_client, 2)"
    by (rule two_pages [where fetch = ?f and p = ?p and q = ?q, OF 1 _ 2]) simp_all
  from page_loop_of_delivers [OF this, of "collect_page (\<lambda>n. starts_with n [1])" "[]"]
  show ?thesis
    by (simp add: find_transactions_by_note_prefix_def collect_confirmed_notes_matching_def
        two_notes_client collect_page_def confirmed_of_def starts_with_def)
qed

theorem note_lookup_agrees_witness:
  "(\<exists>w''. find_transaction_by_note two_notes_node [1] (plain_client, 0) =
      Some (Inr (Some \<lparr>ct_confirmed_round = 5, ct_note = Some [1]\<rparr>), w'')) \<and>
   (\<exists>w''. find_transaction_by_note_prefix two_notes_node [1] (plain_client, 0) =
      Some (Inr (Some \<lparr>ct_confirmed_round = 4, ct_note = Some [1, 2]\<rparr>), w''))"
  using note_lookup_agrees [OF two_notes_listing] by simp

section \<open>The accounts a transaction touches\<close>

inductive touches :: "idx_txn \<Rightarrow> string \<Rightarrow> bool" where
  sender: "touches t (it_sender t)"
| reference: "it_app_accounts t = Some (Some as) \<Longrightarrow> a \<in> set as \<Longrightarrow> touches t a"
| inner: "it_inner t = Some ts \<Longrightarrow> u \<in> set ts \<Longrightarrow> touches u a \<Longrightarrow> touches t a"

inductive_simps touches_IdxTxn: "touches (IdxTxn r s n as ts) a"

lemma fold_changed_set:
  assumes "\<And>t out. t \<in> set ts \<Longrightarrow> set (collect_changed_addresses t out) = set out \<union> {a. touches t a}"
  shows "set (fold collect_changed_addresses ts out) = set out \<union> {a. \<exists>t \<in> set ts. touches t a}"
  using assms by (induction ts arbitrary: out) auto

text \<open>
  the change discovery misses no account: the addresses collected from a transaction are exactly
  its sender, the accounts its application call references, and, at any depth, those of its inner
  transactions.\<close>

theorem changed_addresses_complete:
  "set (collect_changed_addresses t out) = set out \<union> {a. touches t a}"
proof (induction t out rule: collect_changed_addresses.induct)
  case (1 r sender nt app_accounts inner_txns out)
  let ?out = "case app_accounts of Some (Some accounts) \<Rightarrow> (out @ [sender]) @ accounts | _ \<Rightarrow> out @ [sender]"
  have o: "set ?out = set out \<union> {sender} \<union> {a. \<exists>as. app_accounts = Some (Some as) \<and> a \<in> set as}"
    by (auto split: option.splits)
  show ?case
  proof (cases inner_txns)
    case None
    with o show ?thesis by (auto simp: touches_IdxTxn Let_def)
  next
    case (Some ts)
    have "set (fold collect_changed_addresses ts ?out) = set ?out \<union> {a. \<exists>t \<in> set ts. touches t a}"
      using 1 Some by (intro fold_changed_set) (auto simp: Let_def)
    with o Some show ?thesis by (auto simp: touches_IdxTxn Let_def)
  qed
qed

end
