(* ===== verification/Accounting.thy ===== *)
theory Accounting
  imports Searches
begin

text \<open>
  What the operations of the client owe its limits: an operation is \<open>accounted\<close> when the requests it
  sends are requests it counted. This is a relation between the world before and after, and such
  relations are closed under the combinators: a reflexive, transitive relation that every call of an
  endpoint keeps is kept by every read and search (\<open>node_keeps\<close>), which the collection \<open>keeps_intros\<close>
  reads off the shape of the operations. \<open>block_seed\<close> is the exception.
\<close>

named_theorems keeps_intros \<open>operations that keep what the calls of the endpoints keep\<close>

section \<open>What every operation keeps\<close>

definition node_keeps :: "('e, 'a, 'j, 'z) node_scheme \<Rightarrow> ('e world \<Rightarrow> 'e world \<Rightarrow> bool) \<Rightarrow> bool" where
  "node_keeps nd R \<longleftrightarrow> reflp R \<and> transp R \<and>
     (\<forall>c a. keeps R (call_node nd (nd_account nd c a))) \<and>
     (\<forall>c i. keeps R (call_node nd (nd_app nd c i))) \<and>
     (\<forall>c i. keeps R (call_node nd (nd_asset nd c i))) \<and>
     (\<forall>c. keeps R (call_node nd (nd_status nd c))) \<and>
     (\<forall>c r. keeps R (call_node nd (nd_status_after_block nd c r))) \<and>
     (\<forall>c t. keeps R (call_node nd (nd_pending_transaction nd c t))) \<and>
     (\<forall>c. keeps R (call_node nd (nd_suggested_params nd c))) \<and>
     (\<forall>c b. keeps R (call_node nd (nd_send_raw nd c b))) \<and>
     (\<forall>c q. keeps R (call_indexer nd (nd_search_for_transactions nd c q))) \<and>
     (\<forall>c t x i. keeps R (call_indexer nd (nd_search_for_accounts nd c t x i))) \<and>
     (\<forall>c a x. keeps R (call_indexer nd (nd_lookup_account_by_id nd c a x)))"

lemma node_keepsD [keeps_intros]:
  assumes "node_keeps nd R"
  shows "reflp R" and "transp R"
    and "keeps R (call_node nd (nd_account nd c a))" and "keeps R (call_node nd (nd_app nd c i))"
    and "keeps R (call_node nd (nd_asset nd c i))" and "keeps R (call_node nd (nd_status nd c))"
    and "keeps R (call_node nd (nd_status_after_block nd c r))"
    and "keeps R (call_node nd (nd_pending_transaction nd c t))"
    and "keeps R (call_node nd (nd_suggested_params nd c))" and "keeps R (call_node nd (nd_send_raw nd c b))"
    and "keeps R (call_indexer nd (nd_search_for_transactions nd c q))"
    and "keeps R (call_indexer nd (nd_search_for_accounts nd c tk x i))"
    and "keeps R (call_indexer nd (nd_lookup_account_by_id nd c a x))"
  using assms by (simp_all add: node_keeps_def del: split_paired_All)

lemmas [keeps_intros] = keeps_ret keeps_fail keeps_lift keeps_try keeps_attempt

lemma keeps_mapped_err [keeps_intros]: "reflp R \<Longrightarrow> transp R \<Longrightarrow> keeps R m \<Longrightarrow> keeps R (map_err g m)"
  unfolding map_err_def by (rule keeps_attempt keeps_lift | assumption)+

lemma keeps_prefix_err [keeps_intros]: "reflp R \<Longrightarrow> transp R \<Longrightarrow> keeps R m \<Longrightarrow> keeps R (prefix_err t m)"
  unfolding prefix_err_def by (rule keeps_mapped_err)

lemma keeps_to_value [keeps_intros]: "reflp R \<Longrightarrow> keeps R (to_value what r)"
  unfolding to_value_def by (rule keeps_lift)

lemma keeps_branch [keeps_intros]:
  "(b \<Longrightarrow> keeps R m) \<Longrightarrow> (\<not> b \<Longrightarrow> keeps R m') \<Longrightarrow> keeps R (if b then m else m')"
  by simp

lemma keeps_option [keeps_intros]:
  "(x = None \<Longrightarrow> keeps R m) \<Longrightarrow> (\<And>v. x = Some v \<Longrightarrow> keeps R (f v)) \<Longrightarrow>
     keeps R (case x of None \<Rightarrow> m | Some v \<Rightarrow> f v)"
  by (cases x) auto

lemma keeps_sum [keeps_intros]:
  "(\<And>v. keeps R (g v)) \<Longrightarrow> (\<And>v. keeps R (f v)) \<Longrightarrow> keeps R (case x of Inl v \<Rightarrow> g v | Inr v \<Rightarrow> f v)"
  by (cases x) auto

lemma keeps_error [keeps_intros]:
  "(\<And>v. keeps R (g v)) \<Longrightarrow> (\<And>v. keeps R (f v)) \<Longrightarrow> keeps R (case x of Typed v \<Rightarrow> g v | Msg v \<Rightarrow> f v)"
  by (cases x) auto

lemma keeps_prod [keeps_intros]: "(\<And>x y. keeps R (f x y)) \<Longrightarrow> keeps R (case p of (x, y) \<Rightarrow> f x y)"
  by (cases p) simp

lemma keeps_unless [keeps_intros]:
  "reflp R \<Longrightarrow> transp R \<Longrightarrow> (\<And>e. keeps R (g e)) \<Longrightarrow> keeps R m \<Longrightarrow> (\<And>x. keeps R (f x)) \<Longrightarrow>
     keeps R (unless_unreachable name g m f)"
  unfolding unless_unreachable_def by (rule keeps_attempt keeps_sum keeps_branch keeps_fail | assumption)+

lemma keeps_collect_ops [keeps_intros]:
  "reflp R \<Longrightarrow> transp R \<Longrightarrow> (\<And>x. keeps R (f x)) \<Longrightarrow> keeps R (collect_ops xs f)"
  by (induction xs) (auto intro!: keeps_try keeps_ret)

lemma keeps_still: "reflp R \<Longrightarrow> (\<And>w r w'. m w = Some (r, w') \<Longrightarrow> w' = w) \<Longrightarrow> keeps R m"
  unfolding keeps_def by (metis reflpD)

lemma keeps_clients [keeps_intros]:
  assumes "reflp R"
  shows "keeps R (algod_client nd)" and "keeps R (indexer_client nd)"
    and "keeps R (require_address nd)" and "keeps R address_str"
  using assms
  by (auto intro!: keeps_still simp: algod_client_def indexer_client_def require_address_def
      address_str_def Let_def split: prod.splits option.splits)

section \<open>Paged reads\<close>

lemma keeps_delivers:
  assumes "delivers fetch token tok s ps r s'" and "\<And>tok. keeps R (fetch tok)" and "transp R"
  shows "R s s'"
  using assms(1)
proof induction
  case (last_page tok s p s')
  then show ?case using assms(2) [of tok] by (auto simp: keeps_def)
next
  case (more tok s p s1 t ps r s')
  then have "R s s1" using assms(2) [of tok] by (auto simp: keeps_def)
  with more.IH show ?case by (rule transpD [OF assms(3), rotated])
next
  case (failed tok s e s')
  then show ?case using assms(2) [of tok] by (auto simp: keeps_def)
qed

lemma page_loop_keeps:
  assumes "page_loop fetch token step acc tok w = Some (r, acc', w')" and "transp R" and "\<And>tok. keeps R (fetch tok)"
  shows "R w w'"
proof -
  from assms(1) obtain ps where "delivers fetch token tok w ps r w'" unfolding page_loop_iff by blast
  from keeps_delivers [OF this assms(3,2)] show ?thesis .
qed

lemma keeps_page_loop [keeps_intros]:
  assumes "transp R" and "\<And>tok. keeps R (fetch tok)" and "\<And>r acc. keeps R (f r acc)"
  shows "keeps R (\<lambda>w. case page_loop fetch token step acc tok w of
           None \<Rightarrow> None | Some (r, acc, w) \<Rightarrow> f r acc w)"
  unfolding keeps_def
proof (intro allI impI)
  fix w q w'
  assume "(case page_loop fetch token step acc tok w of
           None \<Rightarrow> None | Some (r, acc, w) \<Rightarrow> f r acc w) = Some (q, w')"
  then obtain r acc' w1 where l: "page_loop fetch token step acc tok w = Some (r, acc', w1)"
    and f: "f r acc' w1 = Some (q, w')" by (auto split: option.splits)
  from page_loop_keeps [OF l assms(1,2)] have "R w w1" .
  moreover have "R w1 w'" using assms(3) f by (rule keepsD)
  ultimately show "R w w'" by (rule transpD [OF assms(1)])
qed

lemma keeps_find_in_pages [keeps_intros]:
  fixes fetch :: "string option \<Rightarrow> ('s, notes_page) op"
  assumes "reflp R" and "transp R" and "\<And>tok. keeps R (fetch tok)"
  shows "keeps R (find_in_pages fetch hits tok)"
  unfolding keeps_def
proof (intro allI impI)
  fix w r w'
  assume "find_in_pages fetch hits tok w = Some (r, w')"
  moreover have "(\<forall>tok. keeps R (fetch tok)) \<longrightarrow> R w (snd y)"
    if "find_in_pages fetch hits tok w = Some y"
    for fetch :: "string option \<Rightarrow> ('s, notes_page) op" and hits tok w y
  proof (rule find_in_pages.raw_induct [where P = "\<lambda>fetch hits tok w y.
      (\<forall>tok. keeps R (fetch tok)) \<longrightarrow> R w (snd y)", OF _ that], intro impI)
    fix loop :: "(string option \<Rightarrow> ('s, notes_page) op) \<Rightarrow> (bytes \<Rightarrow> bool) \<Rightarrow> string option \<Rightarrow>
      's \<Rightarrow> ((any_error + confirmed_txn option) \<times> 's) option"
    fix fetch :: "string option \<Rightarrow> ('s, notes_page) op" and hits tok w y
    assume ih: "\<And>fetch hits tok w y. loop fetch hits tok w = Some y \<Longrightarrow>
        (\<forall>tok. keeps R (fetch tok)) \<longrightarrow> R w (snd y)"
      and body: "(case fetch tok w of None \<Rightarrow> None
         | Some (Inl e, s) \<Rightarrow> Some (Inl e, s)
         | Some (Inr page, s) \<Rightarrow>
             (case find (\<lambda>c. hits (snd c)) (np_candidates page) of
                None \<Rightarrow> (case np_next_token page of None \<Rightarrow> Some (Inr None, s)
                         | Some t \<Rightarrow> loop fetch hits (Some t) s)
              | Some c \<Rightarrow> Some (Inr (Some (confirmed_of c)), s))) = Some y"
      and a: "\<forall>tok. keeps R (fetch tok)"
    from body obtain q w1 where f: "fetch tok w = Some (q, w1)" by (auto split: option.splits)
    with a have 1: "R w w1" by (blast intro: keepsD)
    from body f have "snd y = w1 \<or> (\<exists>t. loop fetch hits (Some t) w1 = Some y)"
      by (auto split: sum.splits option.splits)
    with ih a have "R w1 (snd y)" using assms(1) by (metis reflpD)
    with 1 show "R w (snd y)" by (rule transpD [OF assms(2)])
  qed
  ultimately show "R w w'" using assms(3) by fastforce
qed

section \<open>Reads and searches\<close>

lemmas read_defs = account_balance_def global_state_def app_global_bytes_def get_app_local_schema_def
  local_state_for_account_def is_account_opted_in_to_asset_def asset_holding_def account_funds_def
  microalgos_at_def node_round_def suggested_params_def submit_signed_def confirmed_transaction_def

lemmas search_defs = find_transaction_by_note_def find_transaction_by_note_and_sender_def
  find_transaction_by_note_prefix_def find_transaction_by_note_prefix_and_sender_def
  find_transactions_by_note_prefix_def find_transactions_by_note_prefix_and_sender_def

lemma keeps_notes_page [keeps_intros]:
  "node_keeps nd R \<Longrightarrow> keeps R (confirmed_notes_page nd c q sender tok)"
  unfolding confirmed_notes_page_def by (intro keeps_intros)

lemma keeps_collect_matching [keeps_intros]:
  assumes "node_keeps nd R"
  shows "keeps R (collect_confirmed_notes_matching nd query sender hits)"
proof -
  have eq: "collect_confirmed_notes_matching nd query sender hits = try_op (indexer_client nd) (\<lambda>client w.
      case page_loop (confirmed_notes_page nd client (b64_encode (nd_b64 nd) query) sender)
             np_next_token (collect_page hits) [] None w of
        None \<Rightarrow> None | Some (r, found, w) \<Rightarrow> lift (case r of Inl e \<Rightarrow> Inl e | Inr _ \<Rightarrow> Inr found) w)"
    unfolding collect_confirmed_notes_matching_def
    by (rule arg_cong [where f = "try_op (indexer_client nd)"]) (auto intro!: ext split: option.splits sum.splits)
  show ?thesis unfolding eq by (intro keeps_intros; (rule assms)?)
qed

lemma keeps_find_matching [keeps_intros]:
  "node_keeps nd R \<Longrightarrow> keeps R (find_confirmed_note_matching nd query sender hits)"
  unfolding find_confirmed_note_matching_def by (intro keeps_intros)

lemma keeps_scan_pages [keeps_intros]:
  assumes "node_keeps nd R"
  shows "keeps R (fetch_scan_page nd client flt start tok)"
    and "keeps R (fetch_account_page nd client app tok)"
    and "keeps R (fetch_changed_addresses_page nd client app rnd tok)"
    and "keeps R (lookup_opted_in_account nd client app addr)"
  unfolding fetch_scan_page_def fetch_account_page_def fetch_changed_addresses_page_def lookup_opted_in_account_def
  by (intro keeps_intros; (rule assms)?)+

section \<open>Counting\<close>

definition counts :: "'e runtime \<Rightarrow> ('e \<Rightarrow> nat) \<Rightarrow> 'e world \<Rightarrow> 'e world \<Rightarrow> bool" where
  "counts rt sent w w' \<longleftrightarrow>
     ops_timeout (fst w') = ops_timeout (fst w) \<and>
     (\<exists>k. ops_requests_made (fst w') = ops_requests_made (fst w) + of_nat k \<and>
          sent (snd w) \<le> sent (snd w') \<and> sent (snd w') \<le> sent (snd w) + k \<and>
          (ops_timeout (fst w) = None \<and> builds rt \<longrightarrow> sent (snd w') = sent (snd w) + k))"

definition accounted :: "'e runtime \<Rightarrow> ('e \<Rightarrow> nat) \<Rightarrow> ('e world, 'b) op \<Rightarrow> bool" where
  "accounted rt sent m = keeps (counts rt sent) m"

lemma counts_refl: "reflp (counts rt sent)"
  unfolding counts_def by (intro reflpI conjI exI [of _ 0]) simp_all

lemma counts_trans: "transp (counts rt sent)"
proof (rule transpI)
  fix a b c
  assume ab: "counts rt sent a b" and bc: "counts rt sent b c"
  from ab obtain k where k: "ops_timeout (fst b) = ops_timeout (fst a)"
    "ops_requests_made (fst b) = ops_requests_made (fst a) + of_nat k" "sent (snd a) \<le> sent (snd b)"
    "sent (snd b) \<le> sent (snd a) + k" "ops_timeout (fst a) = None \<and> builds rt \<longrightarrow> sent (snd b) = sent (snd a) + k"
    by (auto simp: counts_def)
  from bc obtain j where j: "ops_timeout (fst c) = ops_timeout (fst b)"
    "ops_requests_made (fst c) = ops_requests_made (fst b) + of_nat j" "sent (snd b) \<le> sent (snd c)"
    "sent (snd c) \<le> sent (snd b) + j" "ops_timeout (fst b) = None \<and> builds rt \<longrightarrow> sent (snd c) = sent (snd b) + j"
    by (auto simp: counts_def)
  from k j show "counts rt sent a c"
    unfolding counts_def by (intro conjI exI [of _ "k + j"]) auto
qed

lemma accounted_call:
  assumes "quiet rt sent" and "\<And>e. sent (snd (fut e)) = sent e + 1"
  shows "accounted rt sent (algod_call rt fut)" and "accounted rt sent (indexer_call rt fut)"
  using call_attempts_charged [OF assms]
  by (auto simp: accounted_def keeps_def counts_def algod_call_def indexer_call_def call_with_retry_def same_client_def) blast+

text \<open>The endpoints of a node, each of which sends one request.\<close>

definition node_sends :: "('e, 'a, 'j, 'z) node_scheme \<Rightarrow> ('e \<Rightarrow> nat) \<Rightarrow> bool" where
  "node_sends nd sent \<longleftrightarrow>
     quiet (nd_rt nd) sent \<and>
     (\<forall>c a e. sent (snd (nd_account nd c a e)) = sent e + 1) \<and>
     (\<forall>c a e. sent (snd (nd_app nd c a e)) = sent e + 1) \<and>
     (\<forall>c a e. sent (snd (nd_asset nd c a e)) = sent e + 1) \<and>
     (\<forall>c e. sent (snd (nd_status nd c e)) = sent e + 1) \<and>
     (\<forall>c r e. sent (snd (nd_status_after_block nd c r e)) = sent e + 1) \<and>
     (\<forall>c t e. sent (snd (nd_pending_transaction nd c t e)) = sent e + 1) \<and>
     (\<forall>c e. sent (snd (nd_suggested_params nd c e)) = sent e + 1) \<and>
     (\<forall>c b e. sent (snd (nd_send_raw nd c b e)) = sent e + 1) \<and>
     (\<forall>c q e. sent (snd (nd_search_for_transactions nd c q e)) = sent e + 1) \<and>
     (\<forall>c t x i e. sent (snd (nd_search_for_accounts nd c t x i e)) = sent e + 1) \<and>
     (\<forall>c a x e. sent (snd (nd_lookup_account_by_id nd c a x e)) = sent e + 1) \<and>
     (\<forall>u h t e. sent (snd (nd_http_get nd u h t e)) = sent e + 1)"

lemma node_counts:
  assumes "node_sends nd sent"
  shows "node_keeps nd (counts (nd_rt nd) sent)"
  using assms
  by (simp add: node_keeps_def node_sends_def counts_refl counts_trans accounted_call [unfolded accounted_def]
      del: split_paired_All)

text \<open>
  \<open>block_seed\<close> is the one read outside the client's limits: it leaves the client untouched, no token
  taken, no look at the daily budget and nothing counted, although it sends a request.\<close>

theorem block_seed_uncounted:
  assumes "node_sends nd sent" and "block_seed nd rnd (ops, e) = Some (r, ops', e')"
  shows "ops' = ops \<and> (ops_timeout ops = None \<and> builds (nd_rt nd) \<longrightarrow> sent e' = sent e + 1)"
proof -
  let ?cfg = "ops_config ops"
  let ?fut = "\<lambda>e. case nd_http_get nd (cc_client_api_url ?cfg @ '':'' @ show_u16 (cc_client_api_port ?cfg) @
      ''/v2/blocks/'' @ show_nat (unat rnd) @ ''?format=json'')
      (case cc_token_key ?cfg of Some k \<Rightarrow> k | None \<Rightarrow> ''X-Algo-API-Token'')
      (case cc_token ?cfg of Some t \<Rightarrow> t | None \<Rightarrow> []) e of (r, e) \<Rightarrow> (Inr (block_response r) :: node_error + _, e)"
  from assms(1) have q: "quiet (nd_rt nd) sent" and f: "\<And>e. sent (snd (?fut e)) = sent e + 1"
    by (simp_all add: node_sends_def split_beta)
  from assms(2) obtain r1 where "rt_block_on (nd_rt nd) ''algod call'' ?fut (ops, e) = Some (r1, ops', e')"
    unfolding block_seed_def Let_def prod.case
    by (elim try_op_Some_cases) (auto split: sum.splits if_splits prod.splits)
  from rt_block_on_sent [OF q f this] show ?thesis by auto
qed

section \<open>The cached scans\<close>

text \<open>The state of a scan holds the caller's cache beside the client; what it sends is judged on the client.\<close>

definition scan_accounted :: "'e runtime \<Rightarrow> ('e \<Rightarrow> nat) \<Rightarrow> ('m \<times> 'e world, 'b) op \<Rightarrow> bool" where
  "scan_accounted rt sent m = keeps (\<lambda>s s'. counts rt sent (snd s) (snd s')) m"

lemma scan_counts_order:
  "reflp (\<lambda>s s'. counts rt sent (snd s) (snd s'))" "transp (\<lambda>s s'. counts rt sent (snd s) (snd s'))"
  using counts_refl [of rt sent] counts_trans [of rt sent] by (auto simp: reflp_def transp_def)

lemma scan_accounted_try [keeps_intros]:
  "scan_accounted rt sent m \<Longrightarrow> (\<And>x. scan_accounted rt sent (f x)) \<Longrightarrow> scan_accounted rt sent (try_op m f)"
  unfolding scan_accounted_def by (rule keeps_try [OF scan_counts_order(2)])

lemma scan_accounted_base [keeps_intros]:
  "scan_accounted rt sent (fail e)" "scan_accounted rt sent (lift q)"
  by (simp_all only: scan_accounted_def keeps_fail keeps_lift scan_counts_order)

lemma scan_accounted_beside [keeps_intros]:
  "keeps (counts rt sent) m \<Longrightarrow> scan_accounted rt sent (beside m)"
  by (auto simp: scan_accounted_def keeps_def beside_def split: option.splits)

lemma scan_accounted_if [keeps_intros]:
  "scan_accounted rt sent m \<Longrightarrow> scan_accounted rt sent m' \<Longrightarrow> scan_accounted rt sent (if b then m else m')"
  by simp

lemma accounted_now [keeps_intros]:
  assumes "node_sends nd sent"
  shows "keeps (counts (nd_rt nd) sent) (now_unix_secs (nd_rt nd))"
  unfolding keeps_def
proof (intro allI impI)
  fix w r w'
  assume n: "now_unix_secs (nd_rt nd) w = Some (r, w')"
  have "sent (snd (rt_unix_secs (nd_rt nd) (snd w))) = sent (snd w)"
    using assms by (simp add: node_sends_def quiet_def)
  with n have "fst w' = fst w" "sent (snd w') = sent (snd w)"
    by (auto simp: now_unix_secs_def split: prod.splits)
  then show "counts (nd_rt nd) sent w w'" unfolding counts_def by (intro conjI exI [of _ 0]) simp_all
qed

lemma reread_counts:
  assumes "\<And>addr. keeps (counts rt sent) (lookup addr)"
  shows "reread_accounts lookup ingest addrs (entries, w) = Some (r, entries', w') \<Longrightarrow> counts rt sent w w'"
proof (induction addrs arbitrary: entries w)
  case Nil
  then show ?case using counts_refl by (auto dest: reflpD)
next
  case (Cons addr addrs)
  then obtain q w1 where q: "lookup addr w = Some (q, w1)" by (auto split: option.splits)
  have 1: "counts rt sent w w1" by (rule keepsD [OF assms q])
  have "w' = w1 \<or> (\<exists>es. reread_accounts lookup ingest addrs (es, w1) = Some (r, entries', w'))"
    using Cons.prems q by (auto split: sum.splits option.splits)
  with Cons.IH have "counts rt sent w1 w'" using counts_refl by (metis reflpD)
  with 1 show ?case by (rule transpD [OF counts_trans])
qed

lemma scan_accounted_txns [keeps_intros]:
  assumes "\<And>start tok. keeps (counts rt sent) (fetch start tok)"
  shows "scan_accounted rt sent (fetch_transactions_cached_with mode lifetime now ingest fetch)"
  unfolding scan_accounted_def keeps_def
proof (intro allI impI)
  fix s r s'
  assume run: "fetch_transactions_cached_with mode lifetime now ingest fetch s = Some (r, s')"
  then have "snd s' = snd s \<or> (\<exists>start acc q acc'.
      page_loop (fetch start) tp_next_token (txn_page_step ingest) acc None (snd s) = Some (q, acc', snd s'))"
    by (auto simp: fetch_transactions_cached_with_def split: prod.splits if_splits option.splits sum.splits)
  then show "counts rt sent (snd s) (snd s')"
  proof
    assume "snd s' = snd s"
    then show ?thesis using counts_refl by (auto dest: reflpD)
  next
    assume "\<exists>start acc q acc'.
      page_loop (fetch start) tp_next_token (txn_page_step ingest) acc None (snd s) = Some (q, acc', snd s')"
    then obtain start acc q acc' where
      "page_loop (fetch start) tp_next_token (txn_page_step ingest) acc None (snd s) = Some (q, acc', snd s')" by blast
    then show ?thesis by (rule page_loop_keeps) (rule counts_trans assms)+
  qed
qed

lemma scan_accounted_accounts [keeps_intros]:
  assumes "\<And>tok. keeps (counts rt sent) (full tok)" and "\<And>start tok. keeps (counts rt sent) (changed start tok)"
    and "\<And>addr. keeps (counts rt sent) (lookup addr)"
  shows "scan_accounted rt sent (fetch_opted_in_accounts_cached_with mode lifetime now ingest full changed lookup)"
  unfolding scan_accounted_def keeps_def
proof (intro allI impI)
  fix s r s'
  assume run: "fetch_opted_in_accounts_cached_with mode lifetime now ingest full changed lookup s = Some (r, s')"
  obtain mx w where s: "s = (mx, w)" by (cases s)
  obtain kind cache where k: "account_scan_kind mode lifetime now (mx_data mx) = (kind, cache)" by fastforce
  consider "snd s' = w"
    | (full) "kind = Some True" "\<not> mx_poisoned mx"
    | (changed) "kind = Some False" "\<not> mx_poisoned mx"
    using run s k by (auto simp: fetch_opted_in_accounts_cached_with_def split: if_splits option.splits bool.splits)
  then show "counts rt sent (snd s) (snd s')"
  proof cases
    case 1
    with s show ?thesis using counts_refl by (auto dest: reflpD)
  next
    case full
    with run s k obtain q acc w1 where
      l: "page_loop full ap_next_token (full_page_step ingest) (None, []) None w = Some (q, acc, w1)"
      by (auto simp: fetch_opted_in_accounts_cached_with_def split: option.splits)
    with run s k full have "snd s' = w1"
      by (auto simp: fetch_opted_in_accounts_cached_with_def split: sum.splits prod.splits)
    with page_loop_keeps [OF l counts_trans assms(1)] s show ?thesis by simp
  next
    case changed
    with run s k obtain q wm seen addrs w1 where
      l: "page_loop (changed (ac_last_round cache + 1)) cp_next_token changed_page_step
            (ac_last_round cache, {}, []) None w = Some (q, (wm, seen, addrs), w1)"
      by (auto simp: fetch_opted_in_accounts_cached_with_def split: option.splits)
    from page_loop_keeps [OF l counts_trans assms(2)] have 1: "counts rt sent w w1" .
    show ?thesis
    proof (cases q)
      case (Inl err)
      with run s k changed l have "snd s' = w1" by (auto simp: fetch_opted_in_accounts_cached_with_def)
      with 1 s show ?thesis by simp
    next
      case (Inr u)
      with run s k changed l obtain p es w2 where
        re: "reread_accounts lookup ingest addrs (ac_entries cache, w1) = Some (p, es, w2)"
        by (auto simp: fetch_opted_in_accounts_cached_with_def split: option.splits)
      with run s k changed l Inr have "snd s' = w2"
        by (auto simp: fetch_opted_in_accounts_cached_with_def split: sum.splits)
      moreover have "counts rt sent w1 w2" by (rule reread_counts [OF assms(3) re])
      ultimately show ?thesis using transpD [OF counts_trans 1] s by simp
    qed
  qed
qed

text \<open>
  C34: Every read, search and scan of the client but \<open>block_seed\<close>, and the submission of a signed
  transaction, counts the requests it sends: on a node whose endpoints send one request each, the
  shared counter grows by at least the number of requests that went out, and by exactly that number
  when no timeout is set, retries and pages included. \<open>block_seed\<close> sends its one request and leaves the
  client, its counter included, as it was.
\<close>

theorem reads_are_accounted:
  assumes "node_sends nd sent"
  shows "accounted (nd_rt nd) sent (account_balance nd) \<and>
    accounted (nd_rt nd) sent (global_state nd maybe_app) \<and>
    accounted (nd_rt nd) sent (app_global_bytes nd app key) \<and>
    accounted (nd_rt nd) sent (get_app_local_schema nd app) \<and>
    accounted (nd_rt nd) sent (local_state_for_account nd app addr) \<and>
    accounted (nd_rt nd) sent (is_account_opted_in_to_asset nd addr asset) \<and>
    accounted (nd_rt nd) sent (asset_holding nd addr asset) \<and>
    accounted (nd_rt nd) sent (account_funds nd addr) \<and>
    accounted (nd_rt nd) sent (microalgos_at nd addr) \<and>
    accounted (nd_rt nd) sent (node_round nd) \<and>
    accounted (nd_rt nd) sent (suggested_params nd) \<and>
    accounted (nd_rt nd) sent (submit_signed nd raw) \<and>
    accounted (nd_rt nd) sent (confirmed_transaction nd txid) \<and>
    accounted (nd_rt nd) sent (find_transaction_by_note nd query) \<and>
    accounted (nd_rt nd) sent (find_transaction_by_note_and_sender nd query sender) \<and>
    accounted (nd_rt nd) sent (find_transaction_by_note_prefix nd query) \<and>
    accounted (nd_rt nd) sent (find_transaction_by_note_prefix_and_sender nd query sender) \<and>
    accounted (nd_rt nd) sent (find_transactions_by_note_prefix nd query) \<and>
    accounted (nd_rt nd) sent (find_transactions_by_note_prefix_and_sender nd query sender) \<and>
    scan_accounted (nd_rt nd) sent (fetch_transactions_cached nd flt mode lifetime ingest_txn) \<and>
    scan_accounted (nd_rt nd) sent (fetch_opted_in_accounts_cached nd app mode lifetime ingest_account) \<and>
    (block_seed nd rnd (ops, e) = Some (r, ops', e') \<longrightarrow>
       ops' = ops \<and> (ops_timeout ops = None \<and> builds (nd_rt nd) \<longrightarrow> sent e' = sent e + 1))"
  unfolding read_defs search_defs fetch_transactions_cached_def fetch_opted_in_accounts_cached_def Let_def accounted_def
  by (intro conjI impI keeps_intros; (rule node_counts [OF assms] assms)?)
     (use block_seed_uncounted [OF assms] in blast)+

lemma refusing_node_sends: "node_sends refusing_node id"
  by (simp add: node_sends_def refusing_node_def refuse_def quiet_def still_runtime_def)

lemma two_notes_node_sends: "node_sends two_notes_node id"
  by (simp add: node_sends_def two_notes_node_def refusing_node_def refuse_def answers_def quiet_def still_runtime_def)

text \<open>A search of two pages, which sends two requests.\<close>

theorem reads_are_accounted_witness:
  "counts still_runtime id (plain_client, 0) (counted 2 plain_client, 2)"
proof -
  have "accounted (nd_rt two_notes_node) id (find_transactions_by_note_prefix two_notes_node [1])"
    using reads_are_accounted [OF two_notes_node_sends] by blast
  from keepsD [OF this [unfolded accounted_def] two_notes_listing] show ?thesis by (simp add: two_notes_node_def)
qed

definition seed_node :: "(nat, string, json) node" where
  "seed_node = refusing_node\<lparr>
     nd_http_get := (\<lambda>_ _ _ e. (Inr \<lparr>hr_status = 200, hr_status_text = ''200 OK'', hr_body = Inr ''{}''\<rparr>, e + 1)),
     nd_parse_block_seed := (\<lambda>_. Inr (bytes_str (replicate 32 7)))\<rparr>"

definition spent_client :: algo_ops where
  "spent_client = plain_client\<lparr>ops_daily_budget := Some spent_budget\<rparr>"

lemma seed_node_sends: "node_sends seed_node id"
  by (simp add: node_sends_def seed_node_def refusing_node_def refuse_def quiet_def still_runtime_def)

lemma spent_client_seed:
  "block_seed seed_node 5 (spent_client, 0) = Some (Inr (replicate 32 7), spent_client, 1)"
  by (simp add: block_seed_def seed_node_def spent_client_def plain_client_def rt_block_on_def still_runtime_def
      parse_block_header_seed_def block_response_def plain_engine_def Let_def)

theorem block_seed_uncounted_witness:
  "block_seed seed_node 5 (spent_client, 0) = Some (Inr (replicate 32 7), spent_client, 1) \<and>
   spent_client = spent_client \<and> id (1 :: nat) = id 0 + 1"
  using block_seed_uncounted [OF seed_node_sends spent_client_seed] spent_client_seed
  by (simp add: spent_client_def plain_client_def seed_node_def refusing_node_def builds_def still_runtime_def)

lemma call_rejected:
  "apply_rate_limit rt (call_operation kind) w = Some (Inl err, w') \<Longrightarrow>
     call_with_retry rt kind fut w = Some (Inl err, w')"
  unfolding call_with_retry_def call_attempts.simps [of rt kind fut MAX_RETRIES] Let_def by simp

text \<open>
  \<open>confirmed_transaction\<close> reports the client's own rejections as an absent transaction: when the
  gate refuses the request, for its rate limit or its daily budget, the answer is \<open>Ok(None)\<close>, the same
  as the node's answer for a transaction it does not know.\<close>

theorem own_rejection_reads_as_absent:
  assumes "apply_rate_limit (nd_rt nd) ''algod call'' (ops, e) = Some (Inl err, ops', e')"
    and "err = Typed (rate_limited ''algod call'' w) \<or> err = Typed (daily_budget_exceeded w offset)"
    and "nd_algod_new nd = (\<lambda>_ _. Inr ())" and "\<not> blank txid"
  shows "confirmed_transaction nd txid (ops, e) = Some (Inr None, ops', e')"
proof -
  have u: "\<not> is_host_unreachable err" and q: "\<exists>a. err = Typed a \<and> \<not> is_quota a"
    using assms(2) not_unreachable_rate_limited not_unreachable_daily_budget
      is_quota_rate_limited is_quota_daily_budget by auto
  have "algod_call (nd_rt nd) fut (ops, e) = Some (Inl err, ops', e')" for fut :: "('a, 'c pending_info) future"
    using call_rejected [of "nd_rt nd" Algod] assms(1) by (simp add: algod_call_def)
  with u q show ?thesis
    by (auto simp: confirmed_transaction_def client_ok(1) [OF assms(3)] assms(4) unless_unreachable_def)
qed

theorem own_rejection_reads_as_absent_witness:
  "confirmed_transaction refusing_node ''T'' (spent_client, 0) = Some (Inr None, spent_client, 0)"
proof (rule own_rejection_reads_as_absent)
  show "apply_rate_limit (nd_rt refusing_node) ''algod call'' (spent_client, 0) =
      Some (Inl (Typed (daily_budget_exceeded (from_secs 76400) 3600)), spent_client, 0)"
    using spent_client_rejected by (simp add: spent_client_def)
  show "Typed (daily_budget_exceeded (from_secs 76400) 3600) = Typed (rate_limited ''algod call'' (from_secs 76400)) \<or>
      Typed (daily_budget_exceeded (from_secs 76400) 3600) = Typed (daily_budget_exceeded (from_secs 76400) 3600)"
    by simp
qed (simp_all add: blank_def utf8_bytes_def trim_start.simps)

end
