(* ===== verification/Keys.thy ===== *)
theory Keys
  imports Accounting
begin

text \<open>
  Keys, addresses and signatures of \<open>algo_ops/src/ops.rs\<close>. The cryptography (SHA-2, ed25519, base32,
  hexadecimal, the Algorand mnemonic of \<open>algonaut\<close>) is third-party code: a record of functions with
  the laws the code relies on as named predicates. The random source and the UUIDs are functions of
  the environment.
\<close>

record crypto =
  cr_sha512_256 :: "bytes \<Rightarrow> bytes"
  cr_sha256 :: "bytes \<Rightarrow> bytes"
  cr_hexlower :: "bytes \<Rightarrow> string"
  cr_b32_encode :: "bytes \<Rightarrow> string"
  cr_b32_decode :: "string \<Rightarrow> string + bytes"
  cr_public_key :: "bytes \<Rightarrow> bytes"
  cr_sign :: "bytes \<Rightarrow> bytes \<Rightarrow> bytes"
  cr_key_ok :: "bytes \<Rightarrow> string + unit"
  cr_verify :: "bytes \<Rightarrow> bytes \<Rightarrow> bytes \<Rightarrow> bool"
  cr_mnemonic_to_key :: "string \<Rightarrow> string + bytes"
  cr_mnemonic_from_key :: "bytes \<Rightarrow> string + string"

section \<open>Addresses\<close>

definition address_to_byte_key :: "crypto \<Rightarrow> string \<Rightarrow> any_error + bytes" where
  "address_to_byte_key cr address =
     rbind (rmap_err (\<lambda>e. Msg (''Invalid base32 address: '' @ e)) (cr_b32_decode cr address)) (\<lambda>decoded.
       if length decoded < 32 then Inl (Msg ''Decoded address is shorter than 32 bytes'')
       else Inr (take 32 decoded))"

definition byte_key_to_address :: "crypto \<Rightarrow> bytes \<Rightarrow> any_error + string" where
  "byte_key_to_address cr pk =
     (let hash = cr_sha512_256 cr pk;
          checksum = drop (length hash - 4) hash
      in Inr (cr_b32_encode cr (pk @ checksum)))"

definition contract_address :: "crypto \<Rightarrow> u64 \<Rightarrow> any_error + string" where
  "contract_address cr app_id =
     byte_key_to_address cr (cr_sha512_256 cr (utf8_bytes ''appID'' @ to_be_bytes 8 app_id))"

definition arc4_selector :: "crypto \<Rightarrow> string \<Rightarrow> bytes" where
  "arc4_selector cr sig = take 4 (cr_sha512_256 cr (utf8_bytes sig))"

section \<open>Secret keys\<close>

text \<open>\<open>try_into\<close> a 32-byte array.\<close>

definition array32 :: "string \<Rightarrow> bytes \<Rightarrow> any_error + bytes" where
  "array32 msg bs = (if length bs = 32 then Inr bs else Inl (Msg msg))"

definition seed_from_passphrase :: "crypto \<Rightarrow> base64_engine \<Rightarrow> string \<Rightarrow> any_error + bytes" where
  "seed_from_passphrase cr b64 passphrase =
     (case (if passphrase \<noteq> [] then rok (cr_mnemonic_to_key cr passphrase) else None) of
        Some key \<Rightarrow> array32 ''invalid passphrase: derived seed is not 32 bytes'' key
      | None \<Rightarrow>
          (case strip_prefix ''b64:'' passphrase of
             Some rest \<Rightarrow>
               rbind (rmap_err (\<lambda>e. Msg (''invalid passphrase: bad base64 secret ('' @ e @ '')'')) (b64_decode b64 rest))
                 (array32 ''invalid passphrase: secret is not 32 bytes'')
           | None \<Rightarrow> Inl (Msg ''invalid passphrase: expected a 25-word Algorand mnemonic'')))"

definition address_from_passphrase :: "crypto \<Rightarrow> base64_engine \<Rightarrow> string \<Rightarrow> any_error + string" where
  "address_from_passphrase cr b64 passphrase =
     rbind (seed_from_passphrase cr b64 passphrase) (\<lambda>sk. byte_key_to_address cr (cr_public_key cr sk))"

text \<open>
  \<open>generate_keypair\<close> and \<open>create_address\<close> take 32 random bytes. The first panics (\<open>None\<close>) when the
  mnemonic encoder fails.
\<close>

definition generate_keypair :: "crypto \<Rightarrow> bytes \<Rightarrow> (string \<times> string) option" where
  "generate_keypair cr sk =
     (case byte_key_to_address cr (cr_public_key cr sk) of
        Inl _ \<Rightarrow> None
      | Inr addr \<Rightarrow>
          (case cr_mnemonic_from_key cr sk of
             Inl _ \<Rightarrow> None
           | Inr passphrase \<Rightarrow> Some (addr, passphrase)))"

definition create_address :: "crypto \<Rightarrow> base64_engine \<Rightarrow> bytes \<Rightarrow> algo_ops \<Rightarrow> (any_error + string) \<times> algo_ops" where
  "create_address cr b64 sk ops =
     (case byte_key_to_address cr (cr_public_key cr sk) of
        Inl e \<Rightarrow> (Inl e, ops)
      | Inr addr \<Rightarrow>
          (Inr addr, ops\<lparr>ops_address := Some addr, ops_passphrase := Some (''b64:'' @ b64_encode b64 sk)\<rparr>))"

definition new_ops ::
  "crypto \<Rightarrow> base64_engine \<Rightarrow> nat \<Rightarrow> u64 \<Rightarrow> string option \<Rightarrow> string option \<Rightarrow> algo_chain_config option \<Rightarrow> algo_ops" where
  "new_ops cr b64 now unix_now passphrase address config =
     (let config = (case config of Some c \<Rightarrow> c | None \<Rightarrow> default_chain_config);
          ops = \<lparr>ops_passphrase = passphrase, ops_address = address, ops_config = config,
                 ops_rate_limiter = map_option (\<lambda>rl. limiter_new rl now) (cc_rate_limit config),
                 ops_requests_made = 0,
                 ops_daily_budget = map_option (\<lambda>db. budget_new db unix_now 0) (cc_daily_budget config),
                 ops_timeout = None, ops_app_creators = (\<lambda>_. None)\<rparr>
      in case (ops_address ops, passphrase) of
           (None, Some pass) \<Rightarrow>
             (case address_from_passphrase cr b64 pass of
                Inr addr \<Rightarrow> ops\<lparr>ops_address := Some addr\<rparr>
              | Inl _ \<Rightarrow> ops)
         | _ \<Rightarrow> ops)"

definition public_key_bytes :: "crypto \<Rightarrow> algo_ops \<Rightarrow> any_error + bytes" where
  "public_key_bytes cr ops =
     (case ops_address ops of
        None \<Rightarrow> Inl (Msg ''This operation needs an address'')
      | Some addr \<Rightarrow> address_to_byte_key cr addr)"

definition private_key_bytes :: "crypto \<Rightarrow> base64_engine \<Rightarrow> algo_ops \<Rightarrow> any_error + bytes" where
  "private_key_bytes cr b64 ops =
     (case ops_passphrase ops of
        None \<Rightarrow> Inl (Msg ''This operation needs account access'')
      | Some pass \<Rightarrow> seed_from_passphrase cr b64 pass)"

section \<open>Signatures\<close>

definition signing_key :: "crypto \<Rightarrow> base64_engine \<Rightarrow> algo_ops \<Rightarrow> any_error + bytes" where
  "signing_key cr b64 ops =
     rbind (private_key_bytes cr b64 ops) (array32 ''Secret key must be 32 bytes'')"

definition sign_text :: "crypto \<Rightarrow> base64_engine \<Rightarrow> algo_ops \<Rightarrow> string \<Rightarrow> any_error + string" where
  "sign_text cr b64 ops text =
     rbind (signing_key cr b64 ops) (\<lambda>sk. Inr (b64_encode b64 (cr_sign cr sk (utf8_bytes text))))"

definition sign_bytes :: "crypto \<Rightarrow> base64_engine \<Rightarrow> algo_ops \<Rightarrow> bytes \<Rightarrow> any_error + bytes" where
  "sign_bytes cr b64 ops message = rbind (signing_key cr b64 ops) (\<lambda>sk. Inr (cr_sign cr sk message))"

definition nl :: string where "nl = [CHR 0x0A]"

definition notify_body :: "string \<Rightarrow> string \<Rightarrow> string \<Rightarrow> any_error + string" where
  "notify_body route token env =
     (if route = ''register'' then Inr (token @ nl @ env)
      else if route = ''alert'' then Inr []
      else Inl (Msg (''unknown notify route: '' @ route)))"

definition show_int :: "int \<Rightarrow> string" where
  "show_int i = (if i < 0 then CHR ''-'' # show_nat (nat (- i)) else show_nat (nat i))"

definition notify_message :: "string \<Rightarrow> string \<Rightarrow> string \<Rightarrow> string \<Rightarrow> string \<Rightarrow> u64 \<Rightarrow> string" where
  "notify_message route iss audience body_hash nonce expiry =
     ''bingle-notify:v1'' @ nl @ route @ nl @ iss @ nl @ audience @ nl @ body_hash @ nl @ nonce @ nl @
     show_int (sint expiry)"

definition sign_notify_envelope ::
  "crypto \<Rightarrow> base64_engine \<Rightarrow> algo_ops \<Rightarrow> string \<Rightarrow> string \<Rightarrow> string \<Rightarrow> string \<Rightarrow> string \<Rightarrow> string \<Rightarrow> u64 \<Rightarrow>
     any_error + string" where
  "sign_notify_envelope cr b64 ops route iss audience token env nonce expiry =
     rbind (notify_body route token env) (\<lambda>body.
       let body_hash = cr_hexlower cr (cr_sha256 cr (utf8_bytes body));
           msg = notify_message route iss audience body_hash nonce expiry
       in rbind (signing_key cr b64 ops) (\<lambda>sk.
            Inr (b64_encode b64 (cr_sign cr sk (utf8_bytes (''MX'' @ msg))))))"

definition verify_text :: "crypto \<Rightarrow> base64_engine \<Rightarrow> algo_ops \<Rightarrow> string \<Rightarrow> string \<Rightarrow> any_error + bool" where
  "verify_text cr b64 ops text sig_b64 =
     (case b64_decode b64 sig_b64 of
        Inl _ \<Rightarrow> Inr False
      | Inr sig \<Rightarrow>
          if length sig \<noteq> 64 then Inr False
          else
            rbind (public_key_bytes cr ops) (\<lambda>pk.
            rbind (rmap_err (\<lambda>e. Msg (''invalid verifying key from address: '' @ e)) (cr_key_ok cr pk)) (\<lambda>_.
              Inr (cr_verify cr pk (utf8_bytes text) sig))))"

section \<open>Laws of the cryptography\<close>

definition crypto_lawful :: "crypto \<Rightarrow> bool" where
  "crypto_lawful cr \<longleftrightarrow>
     (\<forall>bs. cr_b32_decode cr (cr_b32_encode cr bs) = Inr bs) \<and>
     (\<forall>bs. length (cr_sha512_256 cr bs) = 32) \<and>
     (\<forall>sk. length sk = 32 \<longrightarrow> length (cr_public_key cr sk) = 32 \<and> cr_key_ok cr (cr_public_key cr sk) = Inr ()) \<and>
     (\<forall>sk m. length sk = 32 \<longrightarrow> length (cr_sign cr sk m) = 64 \<and>
        cr_verify cr (cr_public_key cr sk) m (cr_sign cr sk m))"

lemma crypto_lawfulD [simp]:
  assumes "crypto_lawful cr"
  shows "cr_b32_decode cr (cr_b32_encode cr bs) = Inr bs"
    and "length (cr_sha512_256 cr bs) = 32"
    and "length sk = 32 \<Longrightarrow> length (cr_public_key cr sk) = 32"
    and "length sk = 32 \<Longrightarrow> cr_key_ok cr (cr_public_key cr sk) = Inr ()"
    and "length sk = 32 \<Longrightarrow> length (cr_sign cr sk m) = 64"
    and "length sk = 32 \<Longrightarrow> cr_verify cr (cr_public_key cr sk) m (cr_sign cr sk m)"
  using assms by (simp_all add: crypto_lawful_def)

text \<open>A concrete instance for evaluation: signatures that repeat the key, checksums of zeros.\<close>

definition toy_crypto :: crypto where
  "toy_crypto = \<lparr>cr_sha512_256 = (\<lambda>bs. replicate 32 0), cr_sha256 = (\<lambda>bs. replicate 32 0), cr_hexlower = hex_lower,
     cr_b32_encode = bytes_str, cr_b32_decode = (\<lambda>s. Inr (utf8_bytes s)), cr_public_key = (\<lambda>sk. sk),
     cr_sign = (\<lambda>sk m. sk @ sk), cr_key_ok = (\<lambda>_. Inr ()), cr_verify = (\<lambda>pk m sig. sig = pk @ pk),
     cr_mnemonic_to_key = (\<lambda>_. Inl ''bad mnemonic''), cr_mnemonic_from_key = (\<lambda>_. Inr ''words'')\<rparr>"

lemma toy_crypto_lawful: "crypto_lawful toy_crypto"
  by (simp add: crypto_lawful_def toy_crypto_def)

section \<open>Properties\<close>

lemma seed_length: "seed_from_passphrase cr b64 p = Inr sk \<Longrightarrow> length sk = 32"
  by (auto simp: seed_from_passphrase_def array32_def rbind_eq_Inr split: option.splits if_splits)

lemma signing_key_eq: "signing_key cr b64 ops = private_key_bytes cr b64 ops"
  by (auto simp: signing_key_def private_key_bytes_def array32_def rbind_def dest: seed_length
      split: option.splits sum.splits)

lemma address_key_of_encoding:
  "crypto_lawful cr \<Longrightarrow> length pk = 32 \<Longrightarrow> address_to_byte_key cr (cr_b32_encode cr (pk @ sfx)) = Inr pk"
  by (simp add: address_to_byte_key_def)

text \<open>
  C38: every address the program makes reads back as its key: a 32-byte public key survives
  \<open>byte_key_to_address\<close> and \<open>address_to_byte_key\<close>; the checksum plays no part in the reading, any other
  suffix gives the same key.\<close>

theorem address_roundtrip:
  assumes "crypto_lawful cr" and "length pk = 32"
  shows "(\<exists>addr. byte_key_to_address cr pk = Inr addr \<and> address_to_byte_key cr addr = Inr pk) \<and>
    address_to_byte_key cr (cr_b32_encode cr (pk @ sfx)) = Inr pk"
  using assms by (simp add: byte_key_to_address_def address_key_of_encoding Let_def)

theorem address_roundtrip_witness:
  "(\<exists>addr. byte_key_to_address toy_crypto (replicate 32 5) = Inr addr \<and>
      address_to_byte_key toy_crypto addr = Inr (replicate 32 5)) \<and>
    address_to_byte_key toy_crypto (cr_b32_encode toy_crypto (replicate 32 5 @ [1, 2, 3])) = Inr (replicate 32 5)"
  by (rule address_roundtrip [OF toy_crypto_lawful]) simp

lemma derived_address:
  assumes "seed_from_passphrase cr b64 pass = Inr sk"
  shows "ops_address (new_ops cr b64 now unix (Some pass) None config) =
    Some (cr_b32_encode cr (cr_public_key cr sk @ drop (length (cr_sha512_256 cr (cr_public_key cr sk)) - 4)
      (cr_sha512_256 cr (cr_public_key cr sk))))"
  using assms by (simp add: new_ops_def Let_def address_from_passphrase_def byte_key_to_address_def)

lemma new_ops_passphrase: "ops_passphrase (new_ops cr b64 now unix pass addr config) = pass"
  by (auto simp: new_ops_def Let_def split: option.splits sum.splits)

text \<open>
  C37: a client built from a usable passphrase alone verifies its own signatures: its address is the
  one of its key, every text it signs verifies with it, and nothing verifies by a signature that is
  not 64 bytes of base64.\<close>

theorem sign_verify_roundtrip:
  assumes "crypto_lawful cr" and "b64_lawful b64" and "seed_from_passphrase cr b64 pass = Inr sk"
    and ops_def: "ops = new_ops cr b64 now unix (Some pass) None config"
  shows "(\<exists>sig. sign_text cr b64 ops text = Inr sig \<and> verify_text cr b64 ops text sig = Inr True) \<and>
    ((\<forall>bs. b64_decode b64 junk = Inr bs \<longrightarrow> length bs \<noteq> 64) \<longrightarrow> verify_text cr b64 ops text junk = Inr False)"
proof -
  have l: "length sk = 32" by (rule seed_length [OF assms(3)])
  have key: "signing_key cr b64 ops = Inr sk"
    using assms(3) by (simp add: signing_key_eq private_key_bytes_def ops_def new_ops_passphrase)
  have pk: "public_key_bytes cr ops = Inr (cr_public_key cr sk)"
    using assms(1) l
    by (simp add: public_key_bytes_def ops_def derived_address [OF assms(3)] address_key_of_encoding)
  have "verify_text cr b64 ops text (b64_encode b64 (cr_sign cr sk (utf8_bytes text))) = Inr True"
    using assms(1,2) l pk by (simp add: verify_text_def)
  then show ?thesis by (auto simp: sign_text_def key verify_text_def split: sum.split)
qed

lemma toy_seed: "seed_from_passphrase toy_crypto plain_engine (''b64:'' @ bytes_str (replicate 32 9)) = Inr (replicate 32 9)"
  by (simp add: seed_from_passphrase_def toy_crypto_def plain_engine_def array32_def)

theorem sign_verify_roundtrip_witness:
  "(\<exists>sig. sign_text toy_crypto plain_engine (new_ops toy_crypto plain_engine 0 0
        (Some (''b64:'' @ bytes_str (replicate 32 9))) None None) ''hi'' = Inr sig \<and>
      verify_text toy_crypto plain_engine (new_ops toy_crypto plain_engine 0 0
        (Some (''b64:'' @ bytes_str (replicate 32 9))) None None) ''hi'' sig = Inr True) \<and>
   verify_text toy_crypto plain_engine (new_ops toy_crypto plain_engine 0 0
      (Some (''b64:'' @ bytes_str (replicate 32 9))) None None) ''hi'' ''x'' = Inr False"
proof -
  have short: "\<forall>bs. b64_decode plain_engine ''x'' = Inr bs \<longrightarrow> length bs \<noteq> 64"
    by (simp add: plain_engine_def)
  show ?thesis
    using sign_verify_roundtrip [OF toy_crypto_lawful plain_engine_lawful toy_seed refl, of 0 0 None "''hi''" "''x''"]
      short by blast
qed

text \<open>A created address is usable at once, when the mnemonic parser refuses the stored secret.\<close>

lemma create_address_usable:
  assumes "crypto_lawful cr" and "b64_lawful b64" and "length sk = 32"
    and "\<exists>e. cr_mnemonic_to_key cr (''b64:'' @ b64_encode b64 sk) = Inl e"
  shows "\<exists>addr ops'. create_address cr b64 sk ops = (Inr addr, ops') \<and>
    private_key_bytes cr b64 ops' = Inr sk \<and> public_key_bytes cr ops' = Inr (cr_public_key cr sk)"
  using assms
  by (auto simp: create_address_def byte_key_to_address_def Let_def private_key_bytes_def public_key_bytes_def
      seed_from_passphrase_def array32_def address_key_of_encoding)

section \<open>The notify message\<close>

lemma split_line:
  "CHR 0x0A \<notin> set a \<Longrightarrow> CHR 0x0A \<notin> set a' \<Longrightarrow> a @ nl @ b = a' @ nl @ b' \<longleftrightarrow> a = a' \<and> b = b'"
proof (induction a arbitrary: a')
  case Nil
  then show ?case by (cases a') (auto simp: nl_def)
next
  case (Cons c a)
  then show ?case by (cases a') (auto simp: nl_def)
qed

lemma show_int_inj: "show_int i = show_int j \<longleftrightarrow> i = j"
proof -
  have minus: "CHR ''-'' \<notin> set (show_nat n)" for n
    using set_show_nat [of n] by (auto simp: digit_chars_def)
  have no: "CHR ''-'' # xs \<noteq> show_nat n" for xs n
    using minus [of n] by (metis list.set_intros(1))
  show ?thesis using no no [symmetric] by (auto simp: show_int_def show_nat_inj)
qed

text \<open>
  the signed notify message determines its fields when none of them contains a line break; the
  code does not check that, and with a line break two different issuers and audiences give the
  same message, so the same signature.\<close>

theorem notify_message_fields:
  "(\<forall>f \<in> {route, iss, audience, body_hash, nonce, route', iss', audience', body_hash', nonce'}.
      CHR 0x0A \<notin> set f) \<longrightarrow>
   (notify_message route iss audience body_hash nonce expiry =
      notify_message route' iss' audience' body_hash' nonce' expiry' \<longleftrightarrow>
    route = route' \<and> iss = iss' \<and> audience = audience' \<and> body_hash = body_hash' \<and> nonce = nonce' \<and>
    expiry = expiry') \<and>
   notify_message r (i @ nl @ a) b h n x = notify_message r i (a @ nl @ b) h n x"
  by (auto simp: notify_message_def split_line show_int_inj intro: signed_word_eqI)

theorem notify_message_fields_witness:
  "notify_message ''alert'' ''A'' ''B'' ''h'' ''n'' 5 \<noteq> notify_message ''alert'' ''A'' ''C'' ''h'' ''n'' 5 \<and>
   notify_message ''alert'' (''A'' @ nl @ ''B'') ''C'' ''h'' ''n'' 5 = notify_message ''alert'' ''A'' (''B'' @ nl @ ''C'') ''h'' ''n'' 5"
  using notify_message_fields [of "''alert''" "''A''" "''B''" "''h''" "''n''" "''alert''" "''A''" "''C''" "''h''" "''n''" 5 5
      "''alert''" "''A''" "''B''" "''C''" "''h''" "''n''" 5] by simp

end
