(* ===== verification/Wordlist.thy ===== *)
theory Wordlist
  imports Main
begin

text \<open>
  The word list of \<open>blockchain_account_vault/src/wordlist.txt\<close>, in the file's order, one block
  per 256 words, and the facts the mnemonic codec needs of it: 2048 distinct non-empty words of
  lower case letters.
\<close>

definition words_0 :: "string list" where
  "words_0 = [''abandon'', ''ability'', ''able'', ''about'', ''above'', ''absent'', ''absorb'',
    ''abstract'', ''absurd'', ''abuse'', ''access'', ''accident'', ''account'',
    ''accuse'', ''achieve'', ''acid'', ''acoustic'', ''acquire'', ''across'', ''act'',
    ''action'', ''actor'', ''actress'', ''actual'', ''adapt'', ''add'', ''addict'',
    ''address'', ''adjust'', ''admit'', ''adult'', ''advance'', ''advice'', ''aerobic'',
    ''affair'', ''afford'', ''afraid'', ''again'', ''age'', ''agent'', ''agree'',
    ''ahead'', ''aim'', ''air'', ''airport'', ''aisle'', ''alarm'', ''album'',
    ''alcohol'', ''alert'', ''alien'', ''all'', ''alley'', ''allow'', ''almost'',
    ''alone'', ''alpha'', ''already'', ''also'', ''alter'', ''always'', ''amateur'',
    ''amazing'', ''among'', ''amount'', ''amused'', ''analyst'', ''anchor'', ''ancient'',
    ''anger'', ''angle'', ''angry'', ''animal'', ''ankle'', ''announce'', ''annual'',
    ''another'', ''answer'', ''antenna'', ''antique'', ''anxiety'', ''any'', ''apart'',
    ''apology'', ''appear'', ''apple'', ''approve'', ''april'', ''arch'', ''arctic'',
    ''area'', ''arena'', ''argue'', ''arm'', ''armed'', ''armor'', ''army'', ''around'',
    ''arrange'', ''arrest'', ''arrive'', ''arrow'', ''art'', ''artefact'', ''artist'',
    ''artwork'', ''ask'', ''aspect'', ''assault'', ''asset'', ''assist'', ''assume'',
    ''asthma'', ''athlete'', ''atom'', ''attack'', ''attend'', ''attitude'', ''attract'',
    ''auction'', ''audit'', ''august'', ''aunt'', ''author'', ''auto'', ''autumn'',
    ''average'', ''avocado'', ''avoid'', ''awake'', ''aware'', ''away'', ''awesome'',
    ''awful'', ''awkward'', ''axis'', ''baby'', ''bachelor'', ''bacon'', ''badge'',
    ''bag'', ''balance'', ''balcony'', ''ball'', ''bamboo'', ''banana'', ''banner'',
    ''bar'', ''barely'', ''bargain'', ''barrel'', ''base'', ''basic'', ''basket'',
    ''battle'', ''beach'', ''bean'', ''beauty'', ''because'', ''become'', ''beef'',
    ''before'', ''begin'', ''behave'', ''behind'', ''believe'', ''below'', ''belt'',
    ''bench'', ''benefit'', ''best'', ''betray'', ''better'', ''between'', ''beyond'',
    ''bicycle'', ''bid'', ''bike'', ''bind'', ''biology'', ''bird'', ''birth'',
    ''bitter'', ''black'', ''blade'', ''blame'', ''blanket'', ''blast'', ''bleak'',
    ''bless'', ''blind'', ''blood'', ''blossom'', ''blouse'', ''blue'', ''blur'',
    ''blush'', ''board'', ''boat'', ''body'', ''boil'', ''bomb'', ''bone'', ''bonus'',
    ''book'', ''boost'', ''border'', ''boring'', ''borrow'', ''boss'', ''bottom'',
    ''bounce'', ''box'', ''boy'', ''bracket'', ''brain'', ''brand'', ''brass'',
    ''brave'', ''bread'', ''breeze'', ''brick'', ''bridge'', ''brief'', ''bright'',
    ''bring'', ''brisk'', ''broccoli'', ''broken'', ''bronze'', ''broom'', ''brother'',
    ''brown'', ''brush'', ''bubble'', ''buddy'', ''budget'', ''buffalo'', ''build'',
    ''bulb'', ''bulk'', ''bullet'', ''bundle'', ''bunker'', ''burden'', ''burger'',
    ''burst'', ''bus'', ''business'', ''busy'', ''butter'', ''buyer'', ''buzz'',
    ''cabbage'', ''cabin'', ''cable'']"

definition words_1 :: "string list" where
  "words_1 = [''cactus'', ''cage'', ''cake'', ''call'', ''calm'', ''camera'', ''camp'', ''can'',
    ''canal'', ''cancel'', ''candy'', ''cannon'', ''canoe'', ''canvas'', ''canyon'',
    ''capable'', ''capital'', ''captain'', ''car'', ''carbon'', ''card'', ''cargo'',
    ''carpet'', ''carry'', ''cart'', ''case'', ''cash'', ''casino'', ''castle'',
    ''casual'', ''cat'', ''catalog'', ''catch'', ''category'', ''cattle'', ''caught'',
    ''cause'', ''caution'', ''cave'', ''ceiling'', ''celery'', ''cement'', ''census'',
    ''century'', ''cereal'', ''certain'', ''chair'', ''chalk'', ''champion'', ''change'',
    ''chaos'', ''chapter'', ''charge'', ''chase'', ''chat'', ''cheap'', ''check'',
    ''cheese'', ''chef'', ''cherry'', ''chest'', ''chicken'', ''chief'', ''child'',
    ''chimney'', ''choice'', ''choose'', ''chronic'', ''chuckle'', ''chunk'', ''churn'',
    ''cigar'', ''cinnamon'', ''circle'', ''citizen'', ''city'', ''civil'', ''claim'',
    ''clap'', ''clarify'', ''claw'', ''clay'', ''clean'', ''clerk'', ''clever'',
    ''click'', ''client'', ''cliff'', ''climb'', ''clinic'', ''clip'', ''clock'',
    ''clog'', ''close'', ''cloth'', ''cloud'', ''clown'', ''club'', ''clump'',
    ''cluster'', ''clutch'', ''coach'', ''coast'', ''coconut'', ''code'', ''coffee'',
    ''coil'', ''coin'', ''collect'', ''color'', ''column'', ''combine'', ''come'',
    ''comfort'', ''comic'', ''common'', ''company'', ''concert'', ''conduct'',
    ''confirm'', ''congress'', ''connect'', ''consider'', ''control'', ''convince'',
    ''cook'', ''cool'', ''copper'', ''copy'', ''coral'', ''core'', ''corn'', ''correct'',
    ''cost'', ''cotton'', ''couch'', ''country'', ''couple'', ''course'', ''cousin'',
    ''cover'', ''coyote'', ''crack'', ''cradle'', ''craft'', ''cram'', ''crane'',
    ''crash'', ''crater'', ''crawl'', ''crazy'', ''cream'', ''credit'', ''creek'',
    ''crew'', ''cricket'', ''crime'', ''crisp'', ''critic'', ''crop'', ''cross'',
    ''crouch'', ''crowd'', ''crucial'', ''cruel'', ''cruise'', ''crumble'', ''crunch'',
    ''crush'', ''cry'', ''crystal'', ''cube'', ''culture'', ''cup'', ''cupboard'',
    ''curious'', ''current'', ''curtain'', ''curve'', ''cushion'', ''custom'', ''cute'',
    ''cycle'', ''dad'', ''damage'', ''damp'', ''dance'', ''danger'', ''daring'',
    ''dash'', ''daughter'', ''dawn'', ''day'', ''deal'', ''debate'', ''debris'',
    ''decade'', ''december'', ''decide'', ''decline'', ''decorate'', ''decrease'',
    ''deer'', ''defense'', ''define'', ''defy'', ''degree'', ''delay'', ''deliver'',
    ''demand'', ''demise'', ''denial'', ''dentist'', ''deny'', ''depart'', ''depend'',
    ''deposit'', ''depth'', ''deputy'', ''derive'', ''describe'', ''desert'', ''design'',
    ''desk'', ''despair'', ''destroy'', ''detail'', ''detect'', ''develop'', ''device'',
    ''devote'', ''diagram'', ''dial'', ''diamond'', ''diary'', ''dice'', ''diesel'',
    ''diet'', ''differ'', ''digital'', ''dignity'', ''dilemma'', ''dinner'',
    ''dinosaur'', ''direct'', ''dirt'', ''disagree'', ''discover'', ''disease'',
    ''dish'', ''dismiss'', ''disorder'', ''display'', ''distance'', ''divert'', ''divide'']"

definition words_2 :: "string list" where
  "words_2 = [''divorce'', ''dizzy'', ''doctor'', ''document'', ''dog'', ''doll'', ''dolphin'',
    ''domain'', ''donate'', ''donkey'', ''donor'', ''door'', ''dose'', ''double'',
    ''dove'', ''draft'', ''dragon'', ''drama'', ''drastic'', ''draw'', ''dream'',
    ''dress'', ''drift'', ''drill'', ''drink'', ''drip'', ''drive'', ''drop'', ''drum'',
    ''dry'', ''duck'', ''dumb'', ''dune'', ''during'', ''dust'', ''dutch'', ''duty'',
    ''dwarf'', ''dynamic'', ''eager'', ''eagle'', ''early'', ''earn'', ''earth'',
    ''easily'', ''east'', ''easy'', ''echo'', ''ecology'', ''economy'', ''edge'',
    ''edit'', ''educate'', ''effort'', ''egg'', ''eight'', ''either'', ''elbow'',
    ''elder'', ''electric'', ''elegant'', ''element'', ''elephant'', ''elevator'',
    ''elite'', ''else'', ''embark'', ''embody'', ''embrace'', ''emerge'', ''emotion'',
    ''employ'', ''empower'', ''empty'', ''enable'', ''enact'', ''end'', ''endless'',
    ''endorse'', ''enemy'', ''energy'', ''enforce'', ''engage'', ''engine'', ''enhance'',
    ''enjoy'', ''enlist'', ''enough'', ''enrich'', ''enroll'', ''ensure'', ''enter'',
    ''entire'', ''entry'', ''envelope'', ''episode'', ''equal'', ''equip'', ''era'',
    ''erase'', ''erode'', ''erosion'', ''error'', ''erupt'', ''escape'', ''essay'',
    ''essence'', ''estate'', ''eternal'', ''ethics'', ''evidence'', ''evil'', ''evoke'',
    ''evolve'', ''exact'', ''example'', ''excess'', ''exchange'', ''excite'',
    ''exclude'', ''excuse'', ''execute'', ''exercise'', ''exhaust'', ''exhibit'',
    ''exile'', ''exist'', ''exit'', ''exotic'', ''expand'', ''expect'', ''expire'',
    ''explain'', ''expose'', ''express'', ''extend'', ''extra'', ''eye'', ''eyebrow'',
    ''fabric'', ''face'', ''faculty'', ''fade'', ''faint'', ''faith'', ''fall'',
    ''false'', ''fame'', ''family'', ''famous'', ''fan'', ''fancy'', ''fantasy'',
    ''farm'', ''fashion'', ''fat'', ''fatal'', ''father'', ''fatigue'', ''fault'',
    ''favorite'', ''feature'', ''february'', ''federal'', ''fee'', ''feed'', ''feel'',
    ''female'', ''fence'', ''festival'', ''fetch'', ''fever'', ''few'', ''fiber'',
    ''fiction'', ''field'', ''figure'', ''file'', ''film'', ''filter'', ''final'',
    ''find'', ''fine'', ''finger'', ''finish'', ''fire'', ''firm'', ''first'',
    ''fiscal'', ''fish'', ''fit'', ''fitness'', ''fix'', ''flag'', ''flame'', ''flash'',
    ''flat'', ''flavor'', ''flee'', ''flight'', ''flip'', ''float'', ''flock'',
    ''floor'', ''flower'', ''fluid'', ''flush'', ''fly'', ''foam'', ''focus'', ''fog'',
    ''foil'', ''fold'', ''follow'', ''food'', ''foot'', ''force'', ''forest'',
    ''forget'', ''fork'', ''fortune'', ''forum'', ''forward'', ''fossil'', ''foster'',
    ''found'', ''fox'', ''fragile'', ''frame'', ''frequent'', ''fresh'', ''friend'',
    ''fringe'', ''frog'', ''front'', ''frost'', ''frown'', ''frozen'', ''fruit'',
    ''fuel'', ''fun'', ''funny'', ''furnace'', ''fury'', ''future'', ''gadget'',
    ''gain'', ''galaxy'', ''gallery'', ''game'', ''gap'', ''garage'', ''garbage'',
    ''garden'', ''garlic'', ''garment'']"

definition words_3 :: "string list" where
  "words_3 = [''gas'', ''gasp'', ''gate'', ''gather'', ''gauge'', ''gaze'', ''general'', ''genius'',
    ''genre'', ''gentle'', ''genuine'', ''gesture'', ''ghost'', ''giant'', ''gift'',
    ''giggle'', ''ginger'', ''giraffe'', ''girl'', ''give'', ''glad'', ''glance'',
    ''glare'', ''glass'', ''glide'', ''glimpse'', ''globe'', ''gloom'', ''glory'',
    ''glove'', ''glow'', ''glue'', ''goat'', ''goddess'', ''gold'', ''good'', ''goose'',
    ''gorilla'', ''gospel'', ''gossip'', ''govern'', ''gown'', ''grab'', ''grace'',
    ''grain'', ''grant'', ''grape'', ''grass'', ''gravity'', ''great'', ''green'',
    ''grid'', ''grief'', ''grit'', ''grocery'', ''group'', ''grow'', ''grunt'',
    ''guard'', ''guess'', ''guide'', ''guilt'', ''guitar'', ''gun'', ''gym'', ''habit'',
    ''hair'', ''half'', ''hammer'', ''hamster'', ''hand'', ''happy'', ''harbor'',
    ''hard'', ''harsh'', ''harvest'', ''hat'', ''have'', ''hawk'', ''hazard'', ''head'',
    ''health'', ''heart'', ''heavy'', ''hedgehog'', ''height'', ''hello'', ''helmet'',
    ''help'', ''hen'', ''hero'', ''hidden'', ''high'', ''hill'', ''hint'', ''hip'',
    ''hire'', ''history'', ''hobby'', ''hockey'', ''hold'', ''hole'', ''holiday'',
    ''hollow'', ''home'', ''honey'', ''hood'', ''hope'', ''horn'', ''horror'', ''horse'',
    ''hospital'', ''host'', ''hotel'', ''hour'', ''hover'', ''hub'', ''huge'', ''human'',
    ''humble'', ''humor'', ''hundred'', ''hungry'', ''hunt'', ''hurdle'', ''hurry'',
    ''hurt'', ''husband'', ''hybrid'', ''ice'', ''icon'', ''idea'', ''identify'',
    ''idle'', ''ignore'', ''ill'', ''illegal'', ''illness'', ''image'', ''imitate'',
    ''immense'', ''immune'', ''impact'', ''impose'', ''improve'', ''impulse'', ''inch'',
    ''include'', ''income'', ''increase'', ''index'', ''indicate'', ''indoor'',
    ''industry'', ''infant'', ''inflict'', ''inform'', ''inhale'', ''inherit'',
    ''initial'', ''inject'', ''injury'', ''inmate'', ''inner'', ''innocent'', ''input'',
    ''inquiry'', ''insane'', ''insect'', ''inside'', ''inspire'', ''install'',
    ''intact'', ''interest'', ''into'', ''invest'', ''invite'', ''involve'', ''iron'',
    ''island'', ''isolate'', ''issue'', ''item'', ''ivory'', ''jacket'', ''jaguar'',
    ''jar'', ''jazz'', ''jealous'', ''jeans'', ''jelly'', ''jewel'', ''job'', ''join'',
    ''joke'', ''journey'', ''joy'', ''judge'', ''juice'', ''jump'', ''jungle'',
    ''junior'', ''junk'', ''just'', ''kangaroo'', ''keen'', ''keep'', ''ketchup'',
    ''key'', ''kick'', ''kid'', ''kidney'', ''kind'', ''kingdom'', ''kiss'', ''kit'',
    ''kitchen'', ''kite'', ''kitten'', ''kiwi'', ''knee'', ''knife'', ''knock'',
    ''know'', ''lab'', ''label'', ''labor'', ''ladder'', ''lady'', ''lake'', ''lamp'',
    ''language'', ''laptop'', ''large'', ''later'', ''latin'', ''laugh'', ''laundry'',
    ''lava'', ''law'', ''lawn'', ''lawsuit'', ''layer'', ''lazy'', ''leader'', ''leaf'',
    ''learn'', ''leave'', ''lecture'', ''left'', ''leg'', ''legal'', ''legend'',
    ''leisure'', ''lemon'', ''lend'']"

definition words_4 :: "string list" where
  "words_4 = [''length'', ''lens'', ''leopard'', ''lesson'', ''letter'', ''level'', ''liar'',
    ''liberty'', ''library'', ''license'', ''life'', ''lift'', ''light'', ''like'',
    ''limb'', ''limit'', ''link'', ''lion'', ''liquid'', ''list'', ''little'', ''live'',
    ''lizard'', ''load'', ''loan'', ''lobster'', ''local'', ''lock'', ''logic'',
    ''lonely'', ''long'', ''loop'', ''lottery'', ''loud'', ''lounge'', ''love'',
    ''loyal'', ''lucky'', ''luggage'', ''lumber'', ''lunar'', ''lunch'', ''luxury'',
    ''lyrics'', ''machine'', ''mad'', ''magic'', ''magnet'', ''maid'', ''mail'',
    ''main'', ''major'', ''make'', ''mammal'', ''man'', ''manage'', ''mandate'',
    ''mango'', ''mansion'', ''manual'', ''maple'', ''marble'', ''march'', ''margin'',
    ''marine'', ''market'', ''marriage'', ''mask'', ''mass'', ''master'', ''match'',
    ''material'', ''math'', ''matrix'', ''matter'', ''maximum'', ''maze'', ''meadow'',
    ''mean'', ''measure'', ''meat'', ''mechanic'', ''medal'', ''media'', ''melody'',
    ''melt'', ''member'', ''memory'', ''mention'', ''menu'', ''mercy'', ''merge'',
    ''merit'', ''merry'', ''mesh'', ''message'', ''metal'', ''method'', ''middle'',
    ''midnight'', ''milk'', ''million'', ''mimic'', ''mind'', ''minimum'', ''minor'',
    ''minute'', ''miracle'', ''mirror'', ''misery'', ''miss'', ''mistake'', ''mix'',
    ''mixed'', ''mixture'', ''mobile'', ''model'', ''modify'', ''mom'', ''moment'',
    ''monitor'', ''monkey'', ''monster'', ''month'', ''moon'', ''moral'', ''more'',
    ''morning'', ''mosquito'', ''mother'', ''motion'', ''motor'', ''mountain'',
    ''mouse'', ''move'', ''movie'', ''much'', ''muffin'', ''mule'', ''multiply'',
    ''muscle'', ''museum'', ''mushroom'', ''music'', ''must'', ''mutual'', ''myself'',
    ''mystery'', ''myth'', ''naive'', ''name'', ''napkin'', ''narrow'', ''nasty'',
    ''nation'', ''nature'', ''near'', ''neck'', ''need'', ''negative'', ''neglect'',
    ''neither'', ''nephew'', ''nerve'', ''nest'', ''net'', ''network'', ''neutral'',
    ''never'', ''news'', ''next'', ''nice'', ''night'', ''noble'', ''noise'',
    ''nominee'', ''noodle'', ''normal'', ''north'', ''nose'', ''notable'', ''note'',
    ''nothing'', ''notice'', ''novel'', ''now'', ''nuclear'', ''number'', ''nurse'',
    ''nut'', ''oak'', ''obey'', ''object'', ''oblige'', ''obscure'', ''observe'',
    ''obtain'', ''obvious'', ''occur'', ''ocean'', ''october'', ''odor'', ''off'',
    ''offer'', ''office'', ''often'', ''oil'', ''okay'', ''old'', ''olive'', ''olympic'',
    ''omit'', ''once'', ''one'', ''onion'', ''online'', ''only'', ''open'', ''opera'',
    ''opinion'', ''oppose'', ''option'', ''orange'', ''orbit'', ''orchard'', ''order'',
    ''ordinary'', ''organ'', ''orient'', ''original'', ''orphan'', ''ostrich'',
    ''other'', ''outdoor'', ''outer'', ''output'', ''outside'', ''oval'', ''oven'',
    ''over'', ''own'', ''owner'', ''oxygen'', ''oyster'', ''ozone'', ''pact'',
    ''paddle'', ''page'', ''pair'', ''palace'', ''palm'', ''panda'', ''panel'',
    ''panic'', ''panther'', ''paper'']"

definition words_5 :: "string list" where
  "words_5 = [''parade'', ''parent'', ''park'', ''parrot'', ''party'', ''pass'', ''patch'', ''path'',
    ''patient'', ''patrol'', ''pattern'', ''pause'', ''pave'', ''payment'', ''peace'',
    ''peanut'', ''pear'', ''peasant'', ''pelican'', ''pen'', ''penalty'', ''pencil'',
    ''people'', ''pepper'', ''perfect'', ''permit'', ''person'', ''pet'', ''phone'',
    ''photo'', ''phrase'', ''physical'', ''piano'', ''picnic'', ''picture'', ''piece'',
    ''pig'', ''pigeon'', ''pill'', ''pilot'', ''pink'', ''pioneer'', ''pipe'',
    ''pistol'', ''pitch'', ''pizza'', ''place'', ''planet'', ''plastic'', ''plate'',
    ''play'', ''please'', ''pledge'', ''pluck'', ''plug'', ''plunge'', ''poem'',
    ''poet'', ''point'', ''polar'', ''pole'', ''police'', ''pond'', ''pony'', ''pool'',
    ''popular'', ''portion'', ''position'', ''possible'', ''post'', ''potato'',
    ''pottery'', ''poverty'', ''powder'', ''power'', ''practice'', ''praise'',
    ''predict'', ''prefer'', ''prepare'', ''present'', ''pretty'', ''prevent'',
    ''price'', ''pride'', ''primary'', ''print'', ''priority'', ''prison'', ''private'',
    ''prize'', ''problem'', ''process'', ''produce'', ''profit'', ''program'',
    ''project'', ''promote'', ''proof'', ''property'', ''prosper'', ''protect'',
    ''proud'', ''provide'', ''public'', ''pudding'', ''pull'', ''pulp'', ''pulse'',
    ''pumpkin'', ''punch'', ''pupil'', ''puppy'', ''purchase'', ''purity'', ''purpose'',
    ''purse'', ''push'', ''put'', ''puzzle'', ''pyramid'', ''quality'', ''quantum'',
    ''quarter'', ''question'', ''quick'', ''quit'', ''quiz'', ''quote'', ''rabbit'',
    ''raccoon'', ''race'', ''rack'', ''radar'', ''radio'', ''rail'', ''rain'', ''raise'',
    ''rally'', ''ramp'', ''ranch'', ''random'', ''range'', ''rapid'', ''rare'', ''rate'',
    ''rather'', ''raven'', ''raw'', ''razor'', ''ready'', ''real'', ''reason'',
    ''rebel'', ''rebuild'', ''recall'', ''receive'', ''recipe'', ''record'', ''recycle'',
    ''reduce'', ''reflect'', ''reform'', ''refuse'', ''region'', ''regret'', ''regular'',
    ''reject'', ''relax'', ''release'', ''relief'', ''rely'', ''remain'', ''remember'',
    ''remind'', ''remove'', ''render'', ''renew'', ''rent'', ''reopen'', ''repair'',
    ''repeat'', ''replace'', ''report'', ''require'', ''rescue'', ''resemble'',
    ''resist'', ''resource'', ''response'', ''result'', ''retire'', ''retreat'',
    ''return'', ''reunion'', ''reveal'', ''review'', ''reward'', ''rhythm'', ''rib'',
    ''ribbon'', ''rice'', ''rich'', ''ride'', ''ridge'', ''rifle'', ''right'', ''rigid'',
    ''ring'', ''riot'', ''ripple'', ''risk'', ''ritual'', ''rival'', ''river'', ''road'',
    ''roast'', ''robot'', ''robust'', ''rocket'', ''romance'', ''roof'', ''rookie'',
    ''room'', ''rose'', ''rotate'', ''rough'', ''round'', ''route'', ''royal'',
    ''rubber'', ''rude'', ''rug'', ''rule'', ''run'', ''runway'', ''rural'', ''sad'',
    ''saddle'', ''sadness'', ''safe'', ''sail'', ''salad'', ''salmon'', ''salon'',
    ''salt'', ''salute'', ''same'', ''sample'', ''sand'', ''satisfy'', ''satoshi'',
    ''sauce'', ''sausage'', ''save'', ''say'']"

definition words_6 :: "string list" where
  "words_6 = [''scale'', ''scan'', ''scare'', ''scatter'', ''scene'', ''scheme'', ''school'',
    ''science'', ''scissors'', ''scorpion'', ''scout'', ''scrap'', ''screen'',
    ''script'', ''scrub'', ''sea'', ''search'', ''season'', ''seat'', ''second'',
    ''secret'', ''section'', ''security'', ''seed'', ''seek'', ''segment'', ''select'',
    ''sell'', ''seminar'', ''senior'', ''sense'', ''sentence'', ''series'', ''service'',
    ''session'', ''settle'', ''setup'', ''seven'', ''shadow'', ''shaft'', ''shallow'',
    ''share'', ''shed'', ''shell'', ''sheriff'', ''shield'', ''shift'', ''shine'',
    ''ship'', ''shiver'', ''shock'', ''shoe'', ''shoot'', ''shop'', ''short'',
    ''shoulder'', ''shove'', ''shrimp'', ''shrug'', ''shuffle'', ''shy'', ''sibling'',
    ''sick'', ''side'', ''siege'', ''sight'', ''sign'', ''silent'', ''silk'', ''silly'',
    ''silver'', ''similar'', ''simple'', ''since'', ''sing'', ''siren'', ''sister'',
    ''situate'', ''six'', ''size'', ''skate'', ''sketch'', ''ski'', ''skill'', ''skin'',
    ''skirt'', ''skull'', ''slab'', ''slam'', ''sleep'', ''slender'', ''slice'',
    ''slide'', ''slight'', ''slim'', ''slogan'', ''slot'', ''slow'', ''slush'',
    ''small'', ''smart'', ''smile'', ''smoke'', ''smooth'', ''snack'', ''snake'',
    ''snap'', ''sniff'', ''snow'', ''soap'', ''soccer'', ''social'', ''sock'', ''soda'',
    ''soft'', ''solar'', ''soldier'', ''solid'', ''solution'', ''solve'', ''someone'',
    ''song'', ''soon'', ''sorry'', ''sort'', ''soul'', ''sound'', ''soup'', ''source'',
    ''south'', ''space'', ''spare'', ''spatial'', ''spawn'', ''speak'', ''special'',
    ''speed'', ''spell'', ''spend'', ''sphere'', ''spice'', ''spider'', ''spike'',
    ''spin'', ''spirit'', ''split'', ''spoil'', ''sponsor'', ''spoon'', ''sport'',
    ''spot'', ''spray'', ''spread'', ''spring'', ''spy'', ''square'', ''squeeze'',
    ''squirrel'', ''stable'', ''stadium'', ''staff'', ''stage'', ''stairs'', ''stamp'',
    ''stand'', ''start'', ''state'', ''stay'', ''steak'', ''steel'', ''stem'', ''step'',
    ''stereo'', ''stick'', ''still'', ''sting'', ''stock'', ''stomach'', ''stone'',
    ''stool'', ''story'', ''stove'', ''strategy'', ''street'', ''strike'', ''strong'',
    ''struggle'', ''student'', ''stuff'', ''stumble'', ''style'', ''subject'',
    ''submit'', ''subway'', ''success'', ''such'', ''sudden'', ''suffer'', ''sugar'',
    ''suggest'', ''suit'', ''summer'', ''sun'', ''sunny'', ''sunset'', ''super'',
    ''supply'', ''supreme'', ''sure'', ''surface'', ''surge'', ''surprise'',
    ''surround'', ''survey'', ''suspect'', ''sustain'', ''swallow'', ''swamp'', ''swap'',
    ''swarm'', ''swear'', ''sweet'', ''swift'', ''swim'', ''swing'', ''switch'',
    ''sword'', ''symbol'', ''symptom'', ''syrup'', ''system'', ''table'', ''tackle'',
    ''tag'', ''tail'', ''talent'', ''talk'', ''tank'', ''tape'', ''target'', ''task'',
    ''taste'', ''tattoo'', ''taxi'', ''teach'', ''team'', ''tell'', ''ten'', ''tenant'',
    ''tennis'', ''tent'', ''term'', ''test'', ''text'', ''thank'', ''that'']"

definition words_7 :: "string list" where
  "words_7 = [''theme'', ''then'', ''theory'', ''there'', ''they'', ''thing'', ''this'', ''thought'',
    ''three'', ''thrive'', ''throw'', ''thumb'', ''thunder'', ''ticket'', ''tide'',
    ''tiger'', ''tilt'', ''timber'', ''time'', ''tiny'', ''tip'', ''tired'', ''tissue'',
    ''title'', ''toast'', ''tobacco'', ''today'', ''toddler'', ''toe'', ''together'',
    ''toilet'', ''token'', ''tomato'', ''tomorrow'', ''tone'', ''tongue'', ''tonight'',
    ''tool'', ''tooth'', ''top'', ''topic'', ''topple'', ''torch'', ''tornado'',
    ''tortoise'', ''toss'', ''total'', ''tourist'', ''toward'', ''tower'', ''town'',
    ''toy'', ''track'', ''trade'', ''traffic'', ''tragic'', ''train'', ''transfer'',
    ''trap'', ''trash'', ''travel'', ''tray'', ''treat'', ''tree'', ''trend'', ''trial'',
    ''tribe'', ''trick'', ''trigger'', ''trim'', ''trip'', ''trophy'', ''trouble'',
    ''truck'', ''true'', ''truly'', ''trumpet'', ''trust'', ''truth'', ''try'', ''tube'',
    ''tuition'', ''tumble'', ''tuna'', ''tunnel'', ''turkey'', ''turn'', ''turtle'',
    ''twelve'', ''twenty'', ''twice'', ''twin'', ''twist'', ''two'', ''type'',
    ''typical'', ''ugly'', ''umbrella'', ''unable'', ''unaware'', ''uncle'', ''uncover'',
    ''under'', ''undo'', ''unfair'', ''unfold'', ''unhappy'', ''uniform'', ''unique'',
    ''unit'', ''universe'', ''unknown'', ''unlock'', ''until'', ''unusual'', ''unveil'',
    ''update'', ''upgrade'', ''uphold'', ''upon'', ''upper'', ''upset'', ''urban'',
    ''urge'', ''usage'', ''use'', ''used'', ''useful'', ''useless'', ''usual'',
    ''utility'', ''vacant'', ''vacuum'', ''vague'', ''valid'', ''valley'', ''valve'',
    ''van'', ''vanish'', ''vapor'', ''various'', ''vast'', ''vault'', ''vehicle'',
    ''velvet'', ''vendor'', ''venture'', ''venue'', ''verb'', ''verify'', ''version'',
    ''very'', ''vessel'', ''veteran'', ''viable'', ''vibrant'', ''vicious'', ''victory'',
    ''video'', ''view'', ''village'', ''vintage'', ''violin'', ''virtual'', ''virus'',
    ''visa'', ''visit'', ''visual'', ''vital'', ''vivid'', ''vocal'', ''voice'',
    ''void'', ''volcano'', ''volume'', ''vote'', ''voyage'', ''wage'', ''wagon'',
    ''wait'', ''walk'', ''wall'', ''walnut'', ''want'', ''warfare'', ''warm'',
    ''warrior'', ''wash'', ''wasp'', ''waste'', ''water'', ''wave'', ''way'', ''wealth'',
    ''weapon'', ''wear'', ''weasel'', ''weather'', ''web'', ''wedding'', ''weekend'',
    ''weird'', ''welcome'', ''west'', ''wet'', ''whale'', ''what'', ''wheat'', ''wheel'',
    ''when'', ''where'', ''whip'', ''whisper'', ''wide'', ''width'', ''wife'', ''wild'',
    ''will'', ''win'', ''window'', ''wine'', ''wing'', ''wink'', ''winner'', ''winter'',
    ''wire'', ''wisdom'', ''wise'', ''wish'', ''witness'', ''wolf'', ''woman'',
    ''wonder'', ''wood'', ''wool'', ''word'', ''work'', ''world'', ''worry'', ''worth'',
    ''wrap'', ''wreck'', ''wrestle'', ''wrist'', ''write'', ''wrong'', ''yard'',
    ''year'', ''yellow'', ''you'', ''young'', ''youth'', ''zebra'', ''zero'', ''zone'',
    ''zoo'']"

definition BIP39_WORDS :: "string list" where
  "BIP39_WORDS = words_0 @ words_1 @ words_2 @ words_3 @ words_4 @ words_5 @ words_6 @ words_7"

text \<open>The contents of the file: every word followed by a line feed.\<close>

definition WORDLIST :: string where
  "WORDLIST = concat (map (\<lambda>w. w @ [CHR 0x0A]) BIP39_WORDS)"

section \<open>The words are distinct, non-empty and free of white space\<close>

text \<open>The list is in strictly increasing order, which is checked word by word.\<close>

fun strictly_before :: "nat list \<Rightarrow> nat list \<Rightarrow> bool" where
  "strictly_before xs [] = False"
| "strictly_before [] (y # ys) = True"
| "strictly_before (x # xs) (y # ys) = (x < y \<or> (x = y \<and> strictly_before xs ys))"

abbreviation word_before :: "string \<Rightarrow> string \<Rightarrow> bool" where
  "word_before v w \<equiv> strictly_before (map of_char v) (map of_char w)"

fun increasing :: "string list \<Rightarrow> bool" where
  "increasing (v # w # ws) = (word_before v w \<and> increasing (w # ws))"
| "increasing ws = True"

fun plain_word :: "string \<Rightarrow> bool" where
  "plain_word [] = True"
| "plain_word (c # cs) = (of_char c > (96 :: nat) \<and> of_char c < (123 :: nat) \<and> plain_word cs)"

fun plain_words :: "string list \<Rightarrow> bool" where
  "plain_words [] = True"
| "plain_words (w # ws) = (w \<noteq> [] \<and> plain_word w \<and> plain_words ws)"

lemma strictly_before_trans:
  "strictly_before xs ys \<Longrightarrow> strictly_before ys zs \<Longrightarrow> strictly_before xs zs"
proof (induction xs ys arbitrary: zs rule: strictly_before.induct)
  case (2 y ys)
  then show ?case by (cases zs) auto
next
  case (3 x xs y ys)
  then show ?case by (cases zs) auto
qed simp

lemma strictly_before_irrefl: "\<not> strictly_before xs xs"
  by (induction xs) auto

lemma increasing_sorted_wrt: "increasing ws \<longleftrightarrow> sorted_wrt word_before ws"
proof (induction ws rule: increasing.induct)
  case (1 v w ws)
  then show ?case using strictly_before_trans by auto
qed simp_all

lemma increasing_distinct: "increasing ws \<Longrightarrow> distinct ws"
  unfolding increasing_sorted_wrt
  by (induction ws) (auto simp: strictly_before_irrefl)

text \<open>A block together with the word that follows it.\<close>

definition increasing_upto :: "string list \<Rightarrow> string \<Rightarrow> bool" where
  "increasing_upto xs y = increasing (xs @ [y])"

lemma increasing_blocks:
  assumes "increasing_upto xs y" and "increasing ys" and "ys \<noteq> []" and "hd ys = y"
  shows "increasing (xs @ ys)"
  using assms unfolding increasing_upto_def
proof (induction xs)
  case Nil
  then show ?case by simp
next
  case (Cons v vs)
  then show ?case by (cases vs; cases ys) simp_all
qed

lemma plain_words_iff: "plain_words ws \<longleftrightarrow> (\<forall>w \<in> set ws. w \<noteq> [] \<and> plain_word w)"
  by (induction ws) auto

lemma plain_word_iff: "plain_word w \<longleftrightarrow> (\<forall>c \<in> set w. of_char c > (96 :: nat) \<and> of_char c < (123 :: nat))"
  by (induction w) auto

lemma words_0_increasing: "increasing_upto words_0 ''cactus''"
  by (simp add: increasing_upto_def words_0_def)

lemma words_0_facts: "plain_words words_0 \<and> length words_0 = 256 \<and> hd words_0 = ''abandon''"
  by (simp add: words_0_def)

lemma words_1_increasing: "increasing_upto words_1 ''divorce''"
  by (simp add: increasing_upto_def words_1_def)

lemma words_1_facts: "plain_words words_1 \<and> length words_1 = 256 \<and> hd words_1 = ''cactus''"
  by (simp add: words_1_def)

lemma words_2_increasing: "increasing_upto words_2 ''gas''"
  by (simp add: increasing_upto_def words_2_def)

lemma words_2_facts: "plain_words words_2 \<and> length words_2 = 256 \<and> hd words_2 = ''divorce''"
  by (simp add: words_2_def)

lemma words_3_increasing: "increasing_upto words_3 ''length''"
  by (simp add: increasing_upto_def words_3_def)

lemma words_3_facts: "plain_words words_3 \<and> length words_3 = 256 \<and> hd words_3 = ''gas''"
  by (simp add: words_3_def)

lemma words_4_increasing: "increasing_upto words_4 ''parade''"
  by (simp add: increasing_upto_def words_4_def)

lemma words_4_facts: "plain_words words_4 \<and> length words_4 = 256 \<and> hd words_4 = ''length''"
  by (simp add: words_4_def)

lemma words_5_increasing: "increasing_upto words_5 ''scale''"
  by (simp add: increasing_upto_def words_5_def)

lemma words_5_facts: "plain_words words_5 \<and> length words_5 = 256 \<and> hd words_5 = ''parade''"
  by (simp add: words_5_def)

lemma words_6_increasing: "increasing_upto words_6 ''theme''"
  by (simp add: increasing_upto_def words_6_def)

lemma words_6_facts: "plain_words words_6 \<and> length words_6 = 256 \<and> hd words_6 = ''scale''"
  by (simp add: words_6_def)

lemma words_7_increasing: "increasing words_7"
  by (simp add: words_7_def)

lemma words_7_facts: "plain_words words_7 \<and> length words_7 = 256 \<and> hd words_7 = ''theme''"
  by (simp add: words_7_def)

lemma BIP39_WORDS_increasing: "increasing BIP39_WORDS"
proof -
  have ne: "words_0 \<noteq> []" "words_1 \<noteq> []" "words_2 \<noteq> []" "words_3 \<noteq> []"
    "words_4 \<noteq> []" "words_5 \<noteq> []" "words_6 \<noteq> []" "words_7 \<noteq> []"
    using words_0_facts words_1_facts words_2_facts words_3_facts words_4_facts words_5_facts
    words_6_facts words_7_facts by auto
  then show ?thesis
    unfolding BIP39_WORDS_def
    by (intro increasing_blocks [OF words_0_increasing] increasing_blocks [OF words_1_increasing]
          increasing_blocks [OF words_2_increasing] increasing_blocks [OF words_3_increasing]
          increasing_blocks [OF words_4_increasing] increasing_blocks [OF words_5_increasing]
          increasing_blocks [OF words_6_increasing] words_7_increasing)
       (simp_all add: words_1_facts words_2_facts words_3_facts words_4_facts
         words_5_facts words_6_facts words_7_facts)
qed

lemma BIP39_WORDS_distinct: "distinct BIP39_WORDS"
  by (rule increasing_distinct) (rule BIP39_WORDS_increasing)

lemma length_BIP39_WORDS: "length BIP39_WORDS = 2048"
  using words_0_facts words_1_facts words_2_facts words_3_facts words_4_facts words_5_facts
    words_6_facts words_7_facts by (simp add: BIP39_WORDS_def)

lemma BIP39_WORDS_plain: "w \<in> set BIP39_WORDS \<Longrightarrow> w \<noteq> [] \<and> (\<forall>c \<in> set w. of_char c > (96 :: nat) \<and> of_char c < (123 :: nat))"
  using words_0_facts words_1_facts words_2_facts words_3_facts words_4_facts words_5_facts
    words_6_facts words_7_facts
  by (auto simp: BIP39_WORDS_def plain_words_iff plain_word_iff)

end
