(* ===== verification/Mnemonic.thy ===== *)
theory Mnemonic
  imports Prelude Wordlist
begin

text \<open>
  The generalised Algorand mnemonic of \<open>blockchain_account_vault/src/mnemonic.rs\<close>: bytes packed
  little-endian into 11-bit groups, each an index into a 2048-word list, followed by one checksum
  word. The bit buffer is a \<open>u32\<close> as in the code. The \<open>sha2\<close> crate's SHA-512/256 is the parameter
  \<open>sha\<close>; what the code relies on is that its digest has 32 bytes. An index out of range, where
  the code would panic, is \<open>None\<close>, and is proved not to occur.
\<close>

section \<open>Text helpers of the standard library\<close>

text \<open>\<open>split_whitespace\<close>: the maximal runs of non-white characters; \<open>acc\<close> is the run so far.\<close>

function split_ws :: "string \<Rightarrow> string \<Rightarrow> string list" where
  "split_ws acc [] = (if acc = [] then [] else [acc])"
| "split_ws acc (c # cs) =
     (let n = leading_space (utf8_bytes (c # cs))
      in if n = 0 then split_ws (acc @ [c]) cs
         else if acc = [] then split_ws [] (drop n (c # cs))
         else acc # split_ws [] (drop n (c # cs)))"
  by pat_completeness auto
termination by (relation "measure (\<lambda>(acc, s). length s)") auto

declare split_ws.simps [simp del]

definition split_whitespace :: "string \<Rightarrow> string list" where
  "split_whitespace s = split_ws [] s"

text \<open>\<open>str::lines\<close>: split at line feeds, a final line feed ending the last line.\<close>

fun split_lines :: "string \<Rightarrow> string \<Rightarrow> string list" where
  "split_lines acc [] = (if acc = [] then [] else [acc])"
| "split_lines acc (c # cs) =
     (if c = CHR 0x0A then acc # split_lines [] cs else split_lines (acc @ [c]) cs)"

definition str_lines :: "string \<Rightarrow> string list" where
  "str_lines s = split_lines [] s"

fun join :: "string \<Rightarrow> string list \<Rightarrow> string" where
  "join sep [] = []"
| "join sep [w] = w"
| "join sep (w # ws) = w @ sep @ join sep ws"

section \<open>The packing\<close>

abbreviation BITS_PER_WORD :: nat where "BITS_PER_WORD \<equiv> 11"

fun to_u11_loop :: "bytes \<Rightarrow> u32 \<Rightarrow> nat \<Rightarrow> u32 list" where
  "to_u11_loop [] buf bit_count = (if bit_count \<noteq> 0 then [buf AND 0x7ff] else [])"
| "to_u11_loop (b # bs) buf bit_count =
     (let buf = buf OR push_bit bit_count (ucast b);
          bit_count = bit_count + 8
      in if bit_count \<ge> BITS_PER_WORD
         then (buf AND 0x7ff) # to_u11_loop bs (drop_bit BITS_PER_WORD buf) (bit_count - BITS_PER_WORD)
         else to_u11_loop bs buf bit_count)"

definition to_u11 :: "bytes \<Rightarrow> u32 list" where
  "to_u11 bs = to_u11_loop bs 0 0"

text \<open>The inner \<open>while bit_count >= 8\<close> loop of \<open>to_bytes\<close>: the bytes it pushes and its final state.\<close>

fun drain_bytes :: "u32 \<Rightarrow> nat \<Rightarrow> bytes \<times> u32 \<times> nat" where
  "drain_bytes buf bit_count =
     (if bit_count \<ge> 8
      then (let (out, buf', n') = drain_bytes (drop_bit 8 buf) (bit_count - 8)
            in (ucast (buf AND 0xff) # out, buf', n'))
      else ([], buf, bit_count))"

declare drain_bytes.simps [simp del]

fun to_bytes_loop :: "u32 list \<Rightarrow> u32 \<Rightarrow> nat \<Rightarrow> bytes" where
  "to_bytes_loop [] buf bit_count = (if bit_count \<noteq> 0 then [ucast (buf AND 0xff)] else [])"
| "to_bytes_loop (n # nums) buf bit_count =
     (let buf = buf OR push_bit bit_count n;
          (out, buf', count') = drain_bytes buf (bit_count + BITS_PER_WORD)
      in out @ to_bytes_loop nums buf' count')"

definition nums_to_bytes :: "u32 list \<Rightarrow> bytes" where
  "nums_to_bytes nums = to_bytes_loop nums 0 0"

section \<open>Words and checksum\<close>

definition wordlist :: "string list" where
  "wordlist = filter (\<lambda>l. l \<noteq> []) (map trim_str (str_lines WORDLIST))"

definition word_at :: "string list \<Rightarrow> u32 \<Rightarrow> string option" where
  "word_at words i = (if unat i < length words then Some (words ! unat i) else None)"

fun words_at :: "string list \<Rightarrow> u32 list \<Rightarrow> string list option" where
  "words_at words [] = Some []"
| "words_at words (i # is) =
     Option.bind (word_at words i) (\<lambda>w. Option.bind (words_at words is) (\<lambda>ws. Some (w # ws)))"

definition checksum_word :: "(bytes \<Rightarrow> bytes) \<Rightarrow> bytes \<Rightarrow> string list \<Rightarrow> string option" where
  "checksum_word sha data words =
     (let digest = sha data
      in if length digest < 2 then None
         else (case to_u11 (take 2 digest) of [] \<Rightarrow> None | i # _ \<Rightarrow> word_at words i))"

definition bytes_to_mnemonic :: "(bytes \<Rightarrow> bytes) \<Rightarrow> bytes \<Rightarrow> string option" where
  "bytes_to_mnemonic sha bs =
     (let words = wordlist
      in Option.bind (words_at words (to_u11 bs)) (\<lambda>out.
           Option.bind (checksum_word sha bs words) (\<lambda>check.
             Some (join '' '' (out @ [check])))))"

datatype mnemonic_error =
    EmptyMnemonic
  | WordNotInList string
  | DecodesTooShort nat nat
  | ChecksumMismatch
  | MnemonicPanic

fun position :: "'a \<Rightarrow> 'a list \<Rightarrow> nat option" where
  "position x [] = None"
| "position x (y # ys) = (if y = x then Some 0 else map_option Suc (position x ys))"

definition mnemonic_to_bytes ::
  "(bytes \<Rightarrow> bytes) \<Rightarrow> string \<Rightarrow> nat \<Rightarrow> mnemonic_error + bytes" where
  "mnemonic_to_bytes sha mnemonic expected_len =
     (let words = wordlist;
          parts = split_whitespace mnemonic
      in if parts = [] then Inl EmptyMnemonic
         else let check = last parts; parts = butlast parts
         in rbind (collect_results (\<lambda>w. map_sum id of_nat (ok_or (WordNotInList w) (position w words))) parts)
              (\<lambda>nums.
                let bs = nums_to_bytes nums
                in if length bs < expected_len then Inl (DecodesTooShort (length bs) expected_len)
                   else let bs = take expected_len bs
                   in case checksum_word sha bs words of
                        None \<Rightarrow> Inl MnemonicPanic
                      | Some c \<Rightarrow> if check \<noteq> c then Inl ChecksumMismatch else Inr bs))"

section \<open>Both packings are the same number in two bases\<close>

fun le_val :: "nat \<Rightarrow> nat list \<Rightarrow> nat" where
  "le_val B [] = 0"
| "le_val B (x # xs) = x + B * le_val B xs"

lemma le_val_append: "le_val B (xs @ ys) = le_val B xs + B ^ length xs * le_val B ys"
  by (induction xs) (simp_all add: algebra_simps)

lemma le_val_take:
  assumes "\<forall>x \<in> set xs. x < B" "\<forall>y \<in> set ys. y < B"
    and "le_val B xs = le_val B ys" "length ys \<le> length xs"
  shows "take (length ys) xs = ys"
  using assms
proof (induction ys arbitrary: xs)
  case Nil
  then show ?case by simp
next
  case (Cons y ys)
  then obtain x xs' where xs: "xs = x # xs'" by (cases xs) auto
  with Cons.prems have b: "x < B" "y < B" and e: "x + B * le_val B xs' = y + B * le_val B ys"
    by simp_all
  have "x = (x + B * le_val B xs') mod B" using b by simp
  also have "\<dots> = y" using b e by simp
  finally have xy: "x = y" .
  with e b have "le_val B xs' = le_val B ys" by simp
  with Cons xs have "take (length ys) xs' = ys" by simp
  with xs xy show ?case by simp
qed

lemma nat_or_push_bit:
  assumes "a < 2 ^ n"
  shows "(a OR push_bit n b :: nat) = a + 2 ^ n * b"
proof -
  have "\<not> bit a i" if "n \<le> i" for i
    using assms that by (metis bit_take_bit_iff not_le take_bit_nat_eq_self)
  then have "a AND push_bit n b = 0"
    by (auto simp: bit_eq_iff bit_simps)
  then have "a + push_bit n b = a OR push_bit n b"
    by (rule disjunctive_add_eq_or)
  then show ?thesis by (simp add: push_bit_eq_mult mult.commute)
qed

lemma unat_or_push:
  fixes buf x :: u32
  assumes "unat buf < 2 ^ n" "unat x < 2 ^ k" "n + k \<le> 32"
  shows "unat (buf OR push_bit n x) = unat buf + 2 ^ n * unat x"
proof -
  have "2 ^ n * unat x < 2 ^ n * 2 ^ k" using assms(2) by simp
  also have "\<dots> = 2 ^ (n + k)" by (simp add: power_add)
  also have "\<dots> \<le> (2::nat) ^ 32" using assms(3) by (rule power_increasing) simp
  finally have "take_bit 32 (push_bit n (unat x)) = push_bit n (unat x)"
    by (simp add: take_bit_nat_eq_self push_bit_eq_mult mult.commute)
  then have "unat (push_bit n x) = push_bit n (unat x)"
    by (subst unsigned_push_bit_eq) simp
  then show ?thesis
    by (simp only: unsigned_or_eq) (rule nat_or_push_bit [OF assms(1)])
qed
lemma unat_and_mask: "unat ((buf :: u32) AND mask k) = unat buf mod 2 ^ k"
proof -
  have "unat (take_bit k buf) = take_bit k (unat buf)" by (rule unsigned_take_bit_eq)
  then show ?thesis by (simp only: take_bit_eq_mask [symmetric]) (simp only: take_bit_eq_mod)
qed

lemma mask_7ff: "(0x7ff :: u32) = mask 11" and mask_ff: "(0xff :: u32) = mask 8"
  by (simp_all add: mask_eq_exp_minus_1)

lemma unat_drop_bit_div: "unat (drop_bit k (buf :: u32)) = unat buf div 2 ^ k"
  by (subst unat_drop_bit_eq) (simp add: drop_bit_eq_div)

lemma unat_ucast_u8_u32: "unat (ucast (b :: u8) :: u32) = unat b"
  by (subst unsigned_ucast_eq) (simp add: take_bit_nat_eq_self order.strict_trans [OF unat_u8_lt])

lemma unat_or_byte:
  fixes buf :: u32
  assumes "unat buf < 2 ^ n" "n \<le> 10"
  shows "unat (buf OR push_bit n (ucast (b :: u8))) = unat buf + 2 ^ n * unat b"
    and "unat (buf OR push_bit n (ucast (b :: u8))) < 2 ^ (n + 8)"
proof -
  have v: "unat (buf OR push_bit n (ucast b)) = unat buf + 2 ^ n * unat b"
    using unat_or_push [of buf n "ucast b" 8] assms by (simp add: unat_ucast_u8_u32)
  then show "unat (buf OR push_bit n (ucast b)) = unat buf + 2 ^ n * unat b" .
  have "unat buf + 2 ^ n * unat b < 2 ^ n * (unat b + 1)" using assms by simp
  also have "\<dots> \<le> 2 ^ n * 256" using unat_u8_lt [of b] by (intro mult_le_mono) linarith+
  also have "\<dots> = 2 ^ (n + 8)" by (simp add: power_add)
  finally show "unat (buf OR push_bit n (ucast b)) < 2 ^ (n + 8)" using v by simp
qed

lemma to_u11_loop_value:
  assumes "unat buf < 2 ^ n" "n \<le> 10"
  shows "le_val 2048 (map unat (to_u11_loop bs buf n)) = unat buf + 2 ^ n * le_val 256 (map unat bs)
    \<and> (\<forall>x \<in> set (to_u11_loop bs buf n). unat x < 2048)
    \<and> length (to_u11_loop bs buf n) = (n + 8 * length bs + 10) div 11"
  using assms
proof (induction bs buf n rule: to_u11_loop.induct)
  case (1 buf n)
  have "(2::nat) ^ n \<le> 2 ^ 10" using 1 by (intro power_increasing) simp_all
  with 1 have "unat buf < 2048" by simp
  moreover have "n = 0 \<Longrightarrow> unat buf = 0" using 1 by simp
  moreover have "(n + 10) div 11 = (if n = 0 then 0 else 1)" using 1(2) by auto
  ultimately show ?case by (auto simp: mask_7ff unat_and_mask)
next
  case (2 b bs buf n)
  define buf' where "buf' = buf OR push_bit n (ucast b :: u32)"
  have v: "unat buf' = unat buf + 2 ^ n * unat b" and lt: "unat buf' < 2 ^ (n + 8)"
    unfolding buf'_def using unat_or_byte [OF "2.prems"] by auto
  show ?case
  proof (cases "11 \<le> n + 8")
    case True
    define k where "k = n - 3"
    with True have n: "n = k + 3" by simp
    have d: "unat (drop_bit 11 buf') = unat buf' div 2048" by (simp add: unat_drop_bit_div)
    have "unat buf' < 2048 * 2 ^ k" using lt n by (simp add: power_add)
    then have dk: "unat (drop_bit 11 buf') < 2 ^ k" by (simp add: d less_mult_imp_div_less mult.commute)
    have "11 \<le> n + 8" "n + 8 - 11 = k" "k \<le> 10" using n "2.prems"(2) by simp_all
    note ih = "2.IH"(1) [OF buf'_def refl this(1), unfolded this(2), OF dk this(3)]
    have step: "to_u11_loop (b # bs) buf n = (buf' AND 0x7ff) # to_u11_loop bs (drop_bit 11 buf') k"
      using n by (simp add: buf'_def Let_def)
    have "unat buf' mod 2048 + 2048 * (unat buf' div 2048) = unat buf'" by simp
    moreover have "(2::nat) ^ n * 256 = 2048 * 2 ^ k" by (simp add: n power_add)
    moreover have "(k + 8 * length bs + 10) div 11 + 1 = (n + 8 * length (b # bs) + 10) div 11"
      using n by simp
    ultimately show ?thesis
      using ih v unfolding step
      by (simp add: mask_7ff unat_and_mask d distrib_left mult.assoc [symmetric])
  next
    case False
    then have "\<not> 11 \<le> n + 8" "n + 8 \<le> 10" by simp_all
    then have IH: "le_val 2048 (map unat (to_u11_loop bs buf' (n + 8))) = unat buf' + 2 ^ (n + 8) * le_val 256 (map unat bs)"
      "\<forall>x \<in> set (to_u11_loop bs buf' (n+8)). unat x < 2048"
      "length (to_u11_loop bs buf' (n+8)) = (n + 8 + 8 * length bs + 10) div 11"
      using "2.IH"(2) [OF buf'_def refl _ lt] by auto
    have "to_u11_loop (b # bs) buf n = to_u11_loop bs buf' (n + 8)"
      using False by (simp add: buf'_def Let_def)
    with IH v show ?thesis by (simp add: power_add algebra_simps)
  qed
qed

lemma drain_bytes_value:
  assumes "unat buf < 2 ^ n" and "drain_bytes buf n = (out, buf', n')"
  shows "unat buf = le_val 256 (map unat out) + 256 ^ length out * unat buf'
    \<and> n = 8 * length out + n' \<and> n' < 8 \<and> unat buf' < 2 ^ n'"
  using assms
proof (induction buf n arbitrary: out buf' n' rule: drain_bytes.induct)
  case (1 buf n)
  show ?case
  proof (cases "8 \<le> n")
    case False
    with 1 show ?thesis by (simp add: drain_bytes.simps [of buf n])
  next
    case True
    obtain out1 b1 n1 where r: "drain_bytes (drop_bit 8 buf) (n - 8) = (out1, b1, n1)"
      by (cases "drain_bytes (drop_bit 8 buf) (n - 8)") auto
    with True "1.prems"(2) have o: "out = ucast (buf AND 0xff) # out1" "buf' = b1" "n' = n1"
      by (simp_all add: drain_bytes.simps [of buf n])
    have d: "unat (drop_bit 8 buf) = unat buf div 256" by (simp add: unat_drop_bit_div)
    have "(2::nat) ^ n = 256 * 2 ^ (n - 8)"
      using True power_add [of "2::nat" 8 "n - 8"] by simp
    with "1.prems"(1) have "unat (drop_bit 8 buf) < 2 ^ (n - 8)"
      by (simp add: d less_mult_imp_div_less mult.commute)
    note ih = "1.IH" [OF True this r]
    have m: "unat (ucast (buf AND 0xff) :: u8) = unat buf mod 256"
      by (simp add: unat_ucast_u8 mask_ff unat_and_mask)
    have "unat buf = unat buf mod 256 + 256 * (unat buf div 256)" by simp
    also have "unat buf div 256 = le_val 256 (map unat out1) + 256 ^ length out1 * unat b1"
      using ih by (simp add: d)
    finally have "unat buf = le_val 256 (map unat out) + 256 ^ length out * unat b1"
      by (simp add: o(1) m distrib_left mult.assoc)
    moreover have "n = 8 * length out + n1"
    proof -
      have "n - 8 = 8 * length out1 + n1" using ih by blast
      with True have "n = 8 + 8 * length out1 + n1" by linarith
      with o(1) show ?thesis by simp
    qed
    ultimately show ?thesis using ih o by simp
  qed
qed

lemma to_bytes_loop_value:
  assumes "unat buf < 2 ^ n" "n < 8" "\<forall>x \<in> set nums. unat x < 2048"
  shows "le_val 256 (map unat (to_bytes_loop nums buf n)) = unat buf + 2 ^ n * le_val 2048 (map unat nums)
    \<and> length (to_bytes_loop nums buf n) = (n + 11 * length nums + 7) div 8"
  using assms
proof (induction nums arbitrary: buf n)
  case Nil
  have "(2::nat) ^ n \<le> 2 ^ 8" using Nil by (intro power_increasing) simp_all
  with Nil have "unat buf < 256" by simp
  moreover have "n = 0 \<Longrightarrow> unat buf = 0" using Nil by simp
  moreover have "(n + 7) div 8 = (if n = 0 then 0 else 1)" using Nil(2) by auto
  ultimately show ?case by (auto simp: mask_ff unat_and_mask unat_ucast_u8)
next
  case (Cons x nums)
  define b0 where "b0 = buf OR push_bit n x"
  obtain out b1 n1 where r: "drain_bytes b0 (n + 11) = (out, b1, n1)"
    by (cases "drain_bytes b0 (n + 11)") auto
  have x: "unat x < 2 ^ 11" using Cons.prems(3) by simp
  have v: "unat b0 = unat buf + 2 ^ n * unat x"
    unfolding b0_def using unat_or_push [of buf n x 11] Cons.prems x by simp
  have "unat buf + 2 ^ n * unat x < 2 ^ n * (unat x + 1)" using Cons.prems(1) by simp
  also have "\<dots> \<le> 2 ^ n * 2 ^ 11" using x by (intro mult_le_mono) linarith+
  finally have "unat b0 < 2 ^ (n + 11)" using v by (simp add: power_add)
  from drain_bytes_value [OF this r]
  have d: "unat b0 = le_val 256 (map unat out) + 256 ^ length out * unat b1"
    "n + 11 = 8 * length out + n1" "n1 < 8" "unat b1 < 2 ^ n1" by auto
  have ih: "le_val 256 (map unat (to_bytes_loop nums b1 n1)) = unat b1 + 2 ^ n1 * le_val 2048 (map unat nums)"
    "length (to_bytes_loop nums b1 n1) = (n1 + 11 * length nums + 7) div 8"
    using Cons.IH [OF d(4,3)] Cons.prems(3) by auto
  have step: "to_bytes_loop (x # nums) buf n = out @ to_bytes_loop nums b1 n1"
    using r by (simp add: b0_def Let_def)
  have p: "(256::nat) ^ length out * 2 ^ n1 = 2 ^ n * 2048"
  proof -
    have "(256::nat) ^ length out * 2 ^ n1 = 2 ^ (8 * length out + n1)"
      by (simp only: power_add power_mult) simp
    also have "\<dots> = 2 ^ (n + 11)" by (simp only: d(2))
    also have "\<dots> = 2 ^ n * 2048" by (simp add: power_add)
    finally show ?thesis .
  qed
  have "le_val 256 (map unat (to_bytes_loop (x # nums) buf n)) =
      le_val 256 (map unat out) + 256 ^ length out * (unat b1 + 2 ^ n1 * le_val 2048 (map unat nums))"
    by (simp only: step map_append le_val_append length_map ih)
  also have "\<dots> = unat b0 + (256 ^ length out * 2 ^ n1) * le_val 2048 (map unat nums)"
    by (simp add: d(1) distrib_left mult.assoc)
  also have "\<dots> = unat buf + 2 ^ n * le_val 2048 (map unat (x # nums))"
    by (simp only: p) (simp add: v distrib_left mult.assoc)
  finally have val: "le_val 256 (map unat (to_bytes_loop (x # nums) buf n)) =
      unat buf + 2 ^ n * le_val 2048 (map unat (x # nums))" .
  have "length out + (n1 + 11 * length nums + 7) div 8 = (8 * length out + n1 + 11 * length nums + 7) div 8"
    by simp
  also have "\<dots> = (n + 11 * length (x # nums) + 7) div 8"
    using d(2) by (simp add: algebra_simps)
  finally have len: "length (to_bytes_loop (x # nums) buf n) = (n + 11 * length (x # nums) + 7) div 8"
    by (simp only: step length_append ih)
  from val len show ?case by (rule conjI)
qed

lemma nums_to_bytes_to_u11:
  "take (length bs) (nums_to_bytes (to_u11 bs)) = bs \<and> length bs \<le> length (nums_to_bytes (to_u11 bs))"
proof -
  have u: "le_val 2048 (map unat (to_u11 bs)) = le_val 256 (map unat bs)"
    "\<forall>x \<in> set (to_u11 bs). unat x < 2048" "length (to_u11 bs) = (8 * length bs + 10) div 11"
    using to_u11_loop_value [of 0 0 bs] by (simp_all add: to_u11_def)
  then have t: "le_val 256 (map unat (nums_to_bytes (to_u11 bs))) = le_val 256 (map unat bs)"
    "length (nums_to_bytes (to_u11 bs)) = (11 * length (to_u11 bs) + 7) div 8"
    using to_bytes_loop_value [of 0 0 "to_u11 bs"] by (simp_all add: nums_to_bytes_def)
  have "length bs \<le> (11 * ((8 * length bs + 10) div 11) + 7) div 8" by simp
  then have l: "length bs \<le> length (nums_to_bytes (to_u11 bs))" by (simp add: t u)
  have "take (length (map unat bs)) (map unat (nums_to_bytes (to_u11 bs))) = map unat bs"
    by (rule le_val_take [where B = 256]) (use t l in auto)
  then have "map unat (take (length bs) (nums_to_bytes (to_u11 bs))) = map unat bs"
    by (simp add: take_map)
  moreover have "inj (unat :: u8 \<Rightarrow> nat)" by (rule injI) (rule unsigned_word_eqI)
  ultimately have "take (length bs) (nums_to_bytes (to_u11 bs)) = bs"
    by (simp add: inj_map_eq_map)
  with l show ?thesis by simp
qed

lemma position_Some: "position x xs = Some i \<Longrightarrow> i < length xs \<and> xs ! i = x"
  by (induction xs arbitrary: i) (auto split: if_splits)

lemma position_nth: "distinct xs \<Longrightarrow> i < length xs \<Longrightarrow> position (xs ! i) xs = Some i"
proof (induction xs arbitrary: i)
  case Nil
  then show ?case by simp
next
  case (Cons x xs)
  then show ?case by (cases i) (auto simp: in_set_conv_nth)
qed

text \<open>Words without white space survive joining by a blank and splitting.\<close>

definition plain_char :: "char \<Rightarrow> bool" where
  "plain_char c \<longleftrightarrow> printable (of_nat (of_char c))"

lemma utf8_bytes_Cons: "utf8_bytes (c # s) = of_nat (of_char c) # utf8_bytes s"
  by (simp add: utf8_bytes_def)

lemma split_ws_word:
  "\<forall>c \<in> set w. plain_char c \<Longrightarrow> split_ws acc (w @ s) = split_ws (acc @ w) s"
proof (induction w arbitrary: acc)
  case (Cons c w)
  then have "leading_space (utf8_bytes (c # w @ s)) = 0"
    by (simp add: utf8_bytes_Cons plain_char_def leading_space_printable)
  with Cons show ?case by (simp add: split_ws.simps Let_def)
qed simp

lemma leading_space_blank: "leading_space (0x20 # bs) = 1"
  by (cases bs rule: list.exhaust; cases "tl bs") auto

lemma split_ws_blank: "split_ws acc ('' '' @ s) = (if acc = [] then split_ws [] s else acc # split_ws [] s)"
  by (simp add: split_ws.simps Let_def utf8_bytes_Cons leading_space_blank)

lemma split_ws_join:
  assumes "\<forall>w \<in> set ws. w \<noteq> [] \<and> (\<forall>c \<in> set w. plain_char c)"
  shows "split_ws [] (join '' '' ws) = ws"
  using assms
proof (induction "'' ''" ws rule: join.induct)
  case 1
  then show ?case by (simp add: split_ws.simps)
next
  case (2 w)
  then show ?case using split_ws_word [of w "[]" "[]"] by (simp add: split_ws.simps)
next
  case (3 w v ws)
  then show ?case by (simp add: split_ws_word split_ws_blank del: append_Cons)
qed

lemma words_at_Some:
  "words_at words is = Some ws \<longleftrightarrow>
     (\<forall>i \<in> set is. unat i < length words) \<and> ws = map (\<lambda>i. words ! unat i) is"
proof (induction "is" arbitrary: ws)
  case Nil
  then show ?case by auto
next
  case (Cons i "is")
  then show ?case
    by (cases "words_at words is") (auto simp: word_at_def)
qed

text \<open>The parsed word list is the file's words, in order.\<close>

definition wordlist_ok :: "string list \<Rightarrow> bool" where
  "wordlist_ok words \<longleftrightarrow>
     length words = 2048 \<and> distinct words \<and> (\<forall>w \<in> set words. w \<noteq> [] \<and> (\<forall>c \<in> set w. plain_char c))"

lemma lower_plain: "96 < (of_char c :: nat) \<Longrightarrow> of_char c < (123 :: nat) \<Longrightarrow> plain_char c"
  by (simp add: plain_char_def printable_def word_less_nat_alt unat_of_nat)

lemma BIP39_WORDS_ok: "wordlist_ok BIP39_WORDS"
  using BIP39_WORDS_plain lower_plain
  by (fastforce simp: wordlist_ok_def length_BIP39_WORDS BIP39_WORDS_distinct)

lemma split_lines_word:
  "\<forall>c \<in> set w. plain_char c \<Longrightarrow> split_lines acc (w @ s) = split_lines (acc @ w) s"
  by (induction w arbitrary: acc) (auto simp: plain_char_def printable_def)

lemma wordlist_eq: "wordlist = BIP39_WORDS"
proof -
  have l: "split_lines [] (concat (map (\<lambda>w. w @ [CHR 0x0A]) ws)) = ws"
    if "\<forall>w \<in> set ws. \<forall>c \<in> set w. plain_char c" for ws
    using that by (induction ws) (simp_all add: split_lines_word)
  have p: "\<forall>w \<in> set BIP39_WORDS. w \<noteq> [] \<and> (\<forall>c \<in> set w. plain_char c)"
    using BIP39_WORDS_ok by (simp add: wordlist_ok_def)
  then have "map trim_str BIP39_WORDS = BIP39_WORDS"
    by (intro map_idI trim_printable(1)) (auto simp: plain_char_def)
  with p show ?thesis
    by (simp add: wordlist_def str_lines_def WORDLIST_def l)
qed

lemma wordlist_ok: "wordlist_ok wordlist"
  by (simp add: wordlist_eq BIP39_WORDS_ok)

lemma to_u11_bounded: "i \<in> set (to_u11 bs) \<Longrightarrow> unat i < 2048"
  using to_u11_loop_value [of 0 0 bs] by (simp add: to_u11_def)

lemma length_to_u11: "length (to_u11 bs) = (8 * length bs + 10) div 11"
  using to_u11_loop_value [of 0 0 bs] by (simp add: to_u11_def)

lemma checksum_word_total:
  assumes "wordlist_ok words" and "length (sha data) = 32"
  obtains c where "checksum_word sha data words = Some c" and "c \<in> set words"
proof -
  have "length (to_u11 (take 2 (sha data))) = 2"
    using assms(2) by (simp add: length_to_u11)
  then obtain i j where u: "to_u11 (take 2 (sha data)) = [i, j]"
    by (auto simp: numeral_eq_Suc length_Suc_conv)
  then have "unat i < 2048" using to_u11_bounded [of i "take 2 (sha data)"] by simp
  with assms u that show thesis
    by (auto simp: checksum_word_def word_at_def wordlist_ok_def)
qed

lemma to_u11_words_total:
  assumes "wordlist_ok words"
  shows "words_at words (to_u11 bs) = Some (map (\<lambda>i. words ! unat i) (to_u11 bs))"
  using assms to_u11_bounded [of _ bs] by (simp add: words_at_Some wordlist_ok_def)

lemma decode_words:
  assumes "wordlist_ok words"
  shows "collect_results (\<lambda>w. map_sum id of_nat (ok_or (WordNotInList w) (position w words)))
           (map (\<lambda>i. words ! unat i) (to_u11 bs)) = Inr (to_u11 bs)"
proof -
  have "collect_results (\<lambda>w. map_sum id of_nat (ok_or (WordNotInList w) (position w words)))
      (map (\<lambda>i. words ! unat i) (to_u11 bs)) =
    Inr (map (\<lambda>w. of_nat (the (position w words))) (map (\<lambda>i. words ! unat i) (to_u11 bs)))"
    using assms to_u11_bounded [of _ bs]
    by (intro collect_results_total) (auto simp: wordlist_ok_def position_nth)
  also have "map (\<lambda>w. of_nat (the (position w words))) (map (\<lambda>i. words ! unat i) (to_u11 bs)) = to_u11 bs"
    using assms to_u11_bounded [of _ bs]
    by (auto simp: wordlist_ok_def position_nth intro!: map_idI)
  finally show ?thesis .
qed

lemma mnemonic_roundtrip_aux:
  assumes d: "length (sha bs) = 32"
  obtains phrase where "bytes_to_mnemonic sha bs = Some phrase"
    and "mnemonic_to_bytes sha phrase (length bs) = Inr bs"
    and "length (split_whitespace phrase) = (8 * length bs + 10) div 11 + 1"
proof -
  note w = wordlist_ok
  obtain c where c: "checksum_word sha bs wordlist = Some c" "c \<in> set wordlist"
    using checksum_word_total [where sha = sha and data = bs, OF w d] by blast
  define ws where "ws = map (\<lambda>i. wordlist ! unat i) (to_u11 bs)"
  have "\<forall>v \<in> set (ws @ [c]). v \<in> set wordlist"
    using w c to_u11_bounded [of _ bs] by (auto simp: ws_def wordlist_ok_def)
  then have s: "split_whitespace (join '' '' (ws @ [c])) = ws @ [c]"
    using w unfolding split_whitespace_def by (intro split_ws_join) (auto simp: wordlist_ok_def)
  have e: "bytes_to_mnemonic sha bs = Some (join '' '' (ws @ [c]))"
    using to_u11_words_total [OF w, of bs] c by (simp add: bytes_to_mnemonic_def ws_def)
  have "mnemonic_to_bytes sha (join '' '' (ws @ [c])) (length bs) = Inr bs"
    using nums_to_bytes_to_u11 [of bs] c decode_words [OF w, of bs, folded ws_def]
    by (simp add: mnemonic_to_bytes_def s Let_def)
  moreover have "length (split_whitespace (join '' '' (ws @ [c]))) = (8 * length bs + 10) div 11 + 1"
    by (simp only: s) (simp add: ws_def length_to_u11)
  ultimately show thesis using e that by blast
qed
lemma mnemonic_length: "mnemonic_to_bytes sha m n = Inr bs \<Longrightarrow> length bs = n"
  by (auto simp: mnemonic_to_bytes_def Let_def rbind_eq_Inr split: if_splits option.splits)

section \<open>Properties\<close>

text \<open>
  C22: Every byte string, of any length, has a mnemonic, which decodes back to it: encoding never
  fails, the phrase has one word per 11 bits of data plus a checksum word, and decoding it with the
  original length returns the original bytes.
\<close>

theorem mnemonic_roundtrip:
  assumes "length (sha bs) = 32"
  shows "\<exists>phrase. bytes_to_mnemonic sha bs = Some phrase \<and>
    length (split_whitespace phrase) = (8 * length bs + 10) div 11 + 1 \<and>
    mnemonic_to_bytes sha phrase (length bs) = Inr bs"
  using mnemonic_roundtrip_aux [where sha = sha, OF assms] by metis

theorem mnemonic_roundtrip_witness:
  "\<exists>phrase. bytes_to_mnemonic (\<lambda>_. replicate 32 0) [1, 2, 255] = Some phrase \<and>
    length (split_whitespace phrase) = (8 * length [1, 2, 255 :: u8] + 10) div 11 + 1 \<and>
    mnemonic_to_bytes (\<lambda>_. replicate 32 0) phrase (length [1, 2, 255 :: u8]) = Inr [1, 2, 255]"
  by (rule mnemonic_roundtrip) simp

lemma mnemonic_to_bytes_sound_aux:
  assumes "length (sha (take n (nums_to_bytes nums))) = 32"
  shows "checksum_word sha (take n (nums_to_bytes nums)) wordlist \<noteq> None"
  using checksum_word_total [where sha = sha, OF wordlist_ok assms] by (metis option.distinct(1))

text \<open>
  Decoding a mnemonic never panics and accepts a phrase only when its last word is the checksum
  of exactly \<open>expected_len\<close> decoded bytes and every other word is in the list.
\<close>

theorem mnemonic_to_bytes_sound:
  assumes "\<forall>d. length (sha d) = 32"
  shows "mnemonic_to_bytes sha m n \<noteq> Inl MnemonicPanic \<and>
    (mnemonic_to_bytes sha m n = Inr bs \<longrightarrow>
       length bs = n \<and> set (butlast (split_whitespace m)) \<subseteq> set wordlist \<and>
       split_whitespace m \<noteq> [] \<and>
       checksum_word sha bs wordlist = Some (last (split_whitespace m)))"
proof (cases "split_whitespace m = []")
  case True
  then show ?thesis by (simp add: mnemonic_to_bytes_def)
next
  case False
  let ?f = "\<lambda>w. map_sum id of_nat (ok_or (WordNotInList w) (position w wordlist)) :: mnemonic_error + u32"
  let ?ps = "butlast (split_whitespace m)"
  have np: "collect_results ?f ps \<noteq> Inl MnemonicPanic" for ps
    by (induction ps) (auto simp: rbind_eq_Inl ok_or_def split: option.splits)
  show ?thesis
  proof (cases "collect_results ?f ?ps")
    case (Inl e)
    with False np [of ?ps] show ?thesis by (auto simp: mnemonic_to_bytes_def Let_def)
  next
    case (Inr nums)
    then have "list_all2 (\<lambda>w k. ?f w = Inr k) ?ps nums" by (simp add: collect_results_eq_Inr)
    moreover have "w \<in> set wordlist" if "?f w = Inr k" for w k
      using that position_Some [of w wordlist] by (cases "position w wordlist") auto
    ultimately have "set ?ps \<subseteq> set wordlist" by (auto simp: list_all2_conv_all_nth in_set_conv_nth)
    with False Inr assms mnemonic_to_bytes_sound_aux [of sha n nums] show ?thesis
      by (auto simp: mnemonic_to_bytes_def Let_def split: option.splits)
  qed
qed

theorem mnemonic_to_bytes_sound_witness:
  "mnemonic_to_bytes (\<lambda>_. replicate 32 0) ''zoo'' 0 \<noteq> Inl MnemonicPanic"
  using mnemonic_to_bytes_sound [of "\<lambda>_. replicate 32 0" "''zoo''" 0 "[]"] by simp

end
