(* ===== verification/Backup.thy ===== *)
theory Backup
  imports Vault Mnemonic Complex_Main
begin

text \<open>
  Backup pages: what a page carries (\<open>backup_page\<close> of \<open>blockchain_account_vault/src/vault.rs\<close>) and how it
  is laid out (\<open>pdf.rs\<close>). The layout is the list of the texts a page shows with their size, their
  height in millimetres and their font; \<open>Sheet\<close> adds the QR code. A panic of the mnemonic encoder is \<open>None\<close>, and is proved not to occur.
\<close>

section \<open>Key file fields\<close>

definition json_text :: "'j sealing \<Rightarrow> 'j \<Rightarrow> string \<Rightarrow> string option" where
  "json_text k v f = Option.bind (js_get (se_json k) f v) (js_str (se_json k))"

definition account_fields :: "'j sealing \<Rightarrow> bytes \<Rightarrow> (string \<times> string) option" where
  "account_fields k bs =
     Option.bind (rok (js_from_slice (se_json k) bs)) (\<lambda>v.
     Option.bind (json_text k v ''address'') (\<lambda>address.
     Option.bind (json_text k v ''passphrase'') (\<lambda>passphrase. Some (address, passphrase))))"

definition json_field :: "'j sealing \<Rightarrow> bytes \<Rightarrow> string \<Rightarrow> string + string" where
  "json_field k bs field =
     rbind (rmap_err (\<lambda>_. ''the key file is not JSON'') (js_from_slice (se_json k) bs)) (\<lambda>v.
       ok_or (''the key file has no string field '' @ [CHR 0x27] @ field @ [CHR 0x27]) (json_text k v field))"

section \<open>The page\<close>

record backup_page =
  bp_name :: string
  bp_address :: "string option"
  bp_encrypted :: bool
  bp_secret_len :: nat
  bp_qr_payload :: string
  bp_mnemonic :: string

abbreviation MAX_PRINTABLE_SECRET_LEN :: nat where "MAX_PRINTABLE_SECRET_LEN \<equiv> 96"
abbreviation ACCOUNT_KEY_LEN :: nat where "ACCOUNT_KEY_LEN \<equiv> 32"

definition quoted :: "string \<Rightarrow> string" where
  "quoted s = [CHR 0x27] @ s @ [CHR 0x27]"

fun mnemonic_error_text :: "mnemonic_error \<Rightarrow> string" where
  "mnemonic_error_text EmptyMnemonic = ''empty mnemonic''"
| "mnemonic_error_text (WordNotInList w) = ''word not in list: '' @ w"
| "mnemonic_error_text (DecodesTooShort n m) = ''mnemonic decodes to '' @ show_nat n @ '' bytes, expected '' @ show_nat m"
| "mnemonic_error_text ChecksumMismatch = ''mnemonic checksum mismatch''"
| "mnemonic_error_text MnemonicPanic = ''panic''"

text \<open>The secret a page carries, before it is encrypted, and the account's address.\<close>

definition page_secret ::
  "'j sealing \<Rightarrow> (bytes \<Rightarrow> bytes) \<Rightarrow> string \<Rightarrow> bytes \<Rightarrow> string + string option \<times> bytes" where
  "page_secret k sha name bs =
     (case account_fields k bs of
        Some (address, passphrase) \<Rightarrow>
          rbind (rmap_err (\<lambda>e. ''invalid passphrase for '' @ quoted name @ '': '' @ mnemonic_error_text e)
                   (mnemonic_to_bytes sha (trim_str passphrase) ACCOUNT_KEY_LEN))
            (\<lambda>key. Inr (Some address, key))
      | None \<Rightarrow>
          if length bs > MAX_PRINTABLE_SECRET_LEN
          then Inl (quoted name @ '' is '' @ show_nat (length bs) @ '' bytes, and a backup page holds a secret of at most '' @
                    show_nat MAX_PRINTABLE_SECRET_LEN)
          else Inr (None, bs))"

definition make_backup_page ::
  "'j sealing \<Rightarrow> (bytes \<Rightarrow> bytes) \<Rightarrow> (nat \<Rightarrow> 's \<Rightarrow> bytes \<times> 's) \<Rightarrow> string \<Rightarrow> bytes \<Rightarrow> string option \<Rightarrow> ('s, backup_page) vop" where
  "make_backup_page k sha rng name bs password =
     try_op (lift (page_secret k sha name bs)) (\<lambda>(address, secret).
     try_op (case password of Some password \<Rightarrow> encrypt_secret k rng secret password | None \<Rightarrow> ret secret) (\<lambda>secret.
       case bytes_to_mnemonic sha secret of
         None \<Rightarrow> (\<lambda>_. None)
       | Some mnemonic \<Rightarrow>
           ret \<lparr>bp_name = name, bp_address = address, bp_encrypted = (password \<noteq> None),
                bp_secret_len = length secret, bp_qr_payload = b64_encode (se_b64 k) secret, bp_mnemonic = mnemonic\<rparr>))"

section \<open>The layout\<close>

datatype font = HelveticaBold | Helvetica | Courier

record placed_text =
  pt_text :: string
  pt_size :: rat
  pt_height :: rat
  pt_font :: font

abbreviation MNEMONIC_WORDS_PER_LINE :: nat where "MNEMONIC_WORDS_PER_LINE \<equiv> 6"
abbreviation MNEMONIC_LINES :: nat where "MNEMONIC_LINES \<equiv> 18"
abbreviation MAX_MNEMONIC_WORDS :: nat where "MAX_MNEMONIC_WORDS \<equiv> MNEMONIC_WORDS_PER_LINE * MNEMONIC_LINES"

text \<open>\<open>slice::chunks\<close>.\<close>

function chunks :: "nat \<Rightarrow> 'a list \<Rightarrow> 'a list list" where
  "chunks n xs = (if xs = [] \<or> n = 0 then [] else take n xs # chunks n (drop n xs))"
  by pat_completeness auto
termination by (relation "measure (\<lambda>(n, xs). length xs)") auto

declare chunks.simps [simp del]

text \<open>Each line 6.5 mm below the one above it; the subtraction is exact in single precision here.\<close>

fun place_lines :: "string list list \<Rightarrow> rat \<Rightarrow> placed_text list" where
  "place_lines [] y = []"
| "place_lines (chunk # cs) y =
     \<lparr>pt_text = join ''  '' chunk, pt_size = 11, pt_height = y, pt_font = Courier\<rparr> # place_lines cs (y - 65 / 10)"

definition page_texts :: "backup_page \<Rightarrow> placed_text list" where
  "page_texts page =
     (let name = bp_name page;
          ident = (case bp_address page of Some address \<Rightarrow> ''id: '' @ address | None \<Rightarrow> ''secret (not an account)'');
          subject = (if bp_address page \<noteq> None then ''private key'' else ''secret'');
          status = subject @ (if bp_encrypted page then '': ENCRYPTED (AES-256-GCM, Argon2id), '' else '': PLAINTEXT (not encrypted), '') @
            show_nat (bp_secret_len page) @ '' bytes''
      in [\<lparr>pt_text = name, pt_size = 20, pt_height = 273, pt_font = HelveticaBold\<rparr>,
          \<lparr>pt_text = ident, pt_size = 11, pt_height = 263, pt_font = Courier\<rparr>,
          \<lparr>pt_text = status, pt_size = 10, pt_height = 255, pt_font = Helvetica\<rparr>,
          \<lparr>pt_text = ''mnemonic:'', pt_size = 11, pt_height = 150, pt_font = HelveticaBold\<rparr>] @
         place_lines (chunks MNEMONIC_WORDS_PER_LINE (split_whitespace (bp_mnemonic page))) 142)"

definition page_layouts :: "backup_page list \<Rightarrow> string + placed_text list list" where
  "page_layouts pages =
     (if pages = [] then Inl ''no key files to print''
      else rbind (collect_results (\<lambda>page.
             let words = length (split_whitespace (bp_mnemonic page))
             in if words > MAX_MNEMONIC_WORDS
                then Inl (quoted (bp_name page) @ '' needs '' @ show_nat words @ '' mnemonic words, and a page holds '' @
                          show_nat MAX_MNEMONIC_WORDS)
                else Inr ()) pages)
           (\<lambda>_. Inr (map page_texts pages)))"

lemma place_lines_heights:
  "i < length cs \<Longrightarrow> pt_height (place_lines cs y ! i) = y - 65 / 10 * of_nat i"
proof (induction cs y arbitrary: i rule: place_lines.induct)
  case (2 chunk cs y)
  show ?case
  proof (cases i)
    case (Suc j)
    with 2 have "pt_height (place_lines cs (y - 65 / 10) ! j) = (y - 65 / 10) - 65 / 10 * of_nat j" by simp
    with Suc show ?thesis by (simp add: algebra_simps add_divide_distrib)
  qed simp
qed simp

lemma length_place_lines [simp]: "length (place_lines cs y) = length cs"
  by (induction cs y rule: place_lines.induct) simp_all

lemma length_chunks: "0 < n \<Longrightarrow> length (chunks n xs) = (length xs + n - 1) div n"
proof (induction n xs rule: chunks.induct)
  case (1 n xs)
  show ?case
  proof (cases "xs = []")
    case False
    with 1 have "length (chunks n xs) = Suc ((length xs - n + n - 1) div n)" by (simp add: chunks.simps)
    moreover have "Suc ((length xs - n + n - 1) div n) = (length xs + n - 1) div n"
    proof (cases "n \<le> length xs")
      case True
      then have "length xs + n - 1 = (length xs - n + n - 1) + n" using 1(2) by simp
      then show ?thesis using 1(2) by (metis div_add_self2 less_not_refl2 Suc_eq_plus1)
    next
      case small: False
      with False 1(2) show ?thesis by (cases xs) (simp_all add: div_if)
    qed
    ultimately show ?thesis by simp
  qed (use 1 in \<open>simp add: chunks.simps\<close>)
qed

section \<open>Properties\<close>

lemma made_page:
  assumes "\<forall>x. length (sha x) = 32" and "make_backup_page k sha rng name bs password s = Some (Inr page, s')"
  obtains address plain secret where "page_secret k sha name bs = Inr (address, plain)"
    and "(case password of Some pw \<Rightarrow> encrypt_secret k rng plain pw | None \<Rightarrow> ret plain) s = Some (Inr secret, s')"
    and "bytes_to_mnemonic sha secret = Some (bp_mnemonic page)"
    and "page = \<lparr>bp_name = name, bp_address = address, bp_encrypted = (password \<noteq> None),
      bp_secret_len = length secret, bp_qr_payload = b64_encode (se_b64 k) secret, bp_mnemonic = bp_mnemonic page\<rparr>"
proof -
  from assms(2) obtain ap s1 where ap: "lift (page_secret k sha name bs) s = Some (Inr ap, s1)"
    and rest: "(case ap of (address, secret) \<Rightarrow>
     try_op (case password of Some password \<Rightarrow> encrypt_secret k rng secret password | None \<Rightarrow> ret secret) (\<lambda>secret.
       case bytes_to_mnemonic sha secret of
         None \<Rightarrow> (\<lambda>_. None)
       | Some mnemonic \<Rightarrow>
           ret \<lparr>bp_name = name, bp_address = address, bp_encrypted = (password \<noteq> None),
                bp_secret_len = length secret, bp_qr_payload = b64_encode (se_b64 k) secret, bp_mnemonic = mnemonic\<rparr>)) s1 =
      Some (Inr page :: string + backup_page, s')"
    unfolding make_backup_page_def by (auto simp only: try_op_Inr_iff)
  obtain address plain where a: "ap = (address, plain)" by (cases ap)
  with rest obtain secret s2 where e: "(case password of Some pw \<Rightarrow> encrypt_secret k rng plain pw | None \<Rightarrow> ret plain) s1 = Some (Inr secret :: string + bytes, s2)"
    and m: "(case bytes_to_mnemonic sha secret of
         None \<Rightarrow> (\<lambda>_. None)
       | Some mnemonic \<Rightarrow>
           ret \<lparr>bp_name = name, bp_address = address, bp_encrypted = (password \<noteq> None),
                bp_secret_len = length secret, bp_qr_payload = b64_encode (se_b64 k) secret, bp_mnemonic = mnemonic\<rparr>) s2 =
      Some (Inr page :: string + backup_page, s')"
    by (auto simp: try_op_Inr_iff)
  from ap have s: "s1 = s" "page_secret k sha name bs = Inr (address, plain)" by (auto simp: a)
  show thesis
    using that [OF s(2)] e m s(1) by (cases "bytes_to_mnemonic sha secret") auto
qed

text \<open>What a page carries: a file's bytes, under a password or in the clear.\<close>

definition carries ::
  "'j sealing \<Rightarrow> (bytes \<Rightarrow> bytes) \<Rightarrow> backup_page \<Rightarrow> bytes \<Rightarrow> string option \<Rightarrow> bool" where
  "carries k sha page bs password \<longleftrightarrow> (\<exists>secret plain.
     mnemonic_to_bytes sha (bp_mnemonic page) (bp_secret_len page) = Inr secret \<and>
     b64_decode (se_b64 k) (bp_qr_payload page) = Inr secret \<and>
     (case password of Some pw \<Rightarrow> decrypt_secret k secret pw = Inr plain | None \<Rightarrow> secret = plain) \<and>
     (case account_fields k bs of
        Some (address, passphrase) \<Rightarrow> bp_address page = Some address \<and> length plain = 32 \<and>
          mnemonic_to_bytes sha (trim_str passphrase) 32 = Inr plain
      | None \<Rightarrow> bp_address page = None \<and> plain = bs))"

lemma made_page_carries:
  assumes "sealing_lawful k" and "draws rng" and "\<forall>x. length (sha x) = 32"
    and "make_backup_page k sha rng name bs password s = Some (Inr page, s')"
  shows "carries k sha page bs password"
proof -
  obtain address plain secret where p: "page_secret k sha name bs = Inr (address, plain)"
    and e: "(case password of Some pw \<Rightarrow> encrypt_secret k rng plain pw | None \<Rightarrow> ret plain) s = Some (Inr secret, s')"
    and m: "bytes_to_mnemonic sha secret = Some (bp_mnemonic page)"
    and page: "page = \<lparr>bp_name = name, bp_address = address, bp_encrypted = (password \<noteq> None),
      bp_secret_len = length secret, bp_qr_payload = b64_encode (se_b64 k) secret, bp_mnemonic = bp_mnemonic page\<rparr>"
    by (rule made_page [OF assms(3,4)])
  from page have f: "bp_address page = address" "bp_secret_len page = length secret"
    "bp_qr_payload page = b64_encode (se_b64 k) secret"
    by (metis backup_page.select_convs(2), metis backup_page.select_convs(4), metis backup_page.select_convs(5))
  have r: "mnemonic_to_bytes sha (bp_mnemonic page) (bp_secret_len page) = Inr secret"
    using mnemonic_roundtrip_aux [where sha = sha and bs = secret] assms(3) m f(2) by (metis option.inject)
  have b: "b64_decode (se_b64 k) (bp_qr_payload page) = Inr secret"
    using assms(1) f(3) by (simp add: sealing_lawful_def)
  have d: "case password of Some pw \<Rightarrow> decrypt_secret k secret pw = Inr plain | None \<Rightarrow> secret = plain"
    using e encrypt_secret_opens(1) [OF assms(1,2)] by (auto split: option.splits)
  have "length key = 32" if "mnemonic_to_bytes sha m 32 = Inr key" for m key
    using mnemonic_length [OF that] .
  with p f(1) r b d show ?thesis
    unfolding carries_def by (fastforce simp: page_secret_def rbind_eq_Inr split: option.splits prod.splits if_splits)
qed

text \<open>
  A printed page restores the key. From a page, the mnemonic together with the printed length and
  the QR payload each give back the page's secret; for a page under a password that secret is a
  binary secret which opens under it; and what it opens to is the file's bytes, or for an account the
  32-byte key its passphrase stands for.\<close>

theorem backup_page_restores:
  assumes "sealing_lawful k" and "draws rng" and "\<forall>x. length (sha x) = 32"
    and "make_backup_page k sha rng name bs password s = Some (Inr page, s')"
  shows "\<exists>secret plain. mnemonic_to_bytes sha (bp_mnemonic page) (bp_secret_len page) = Inr secret \<and>
    b64_decode (se_b64 k) (bp_qr_payload page) = Inr secret \<and>
    (case password of Some pw \<Rightarrow> decrypt_secret k secret pw = Inr plain | None \<Rightarrow> secret = plain) \<and>
    (case account_fields k bs of
       Some (address, passphrase) \<Rightarrow> bp_address page = Some address \<and> length plain = 32 \<and>
         mnemonic_to_bytes sha (trim_str passphrase) 32 = Inr plain
     | None \<Rightarrow> bp_address page = None \<and> plain = bs)"
  using made_page_carries [OF assms] by (simp only: carries_def)

text \<open>
  Every page that is made can be printed: its mnemonic has at most the 108 words the renderer
  accepts, and it has exactly 108 for a sealed secret of the greatest size; so rendering pages that
  were made always succeeds, and no line of the mnemonic lies below 31.5 mm, above the margin of 20.\<close>

theorem backup_page_fits:
  assumes "sealing_lawful k" and "draws rng" and "\<forall>x. length (sha x) = 32"
    and "make_backup_page k sha rng name bs password s = Some (Inr page, s')"
  shows "length (split_whitespace (bp_mnemonic page)) \<le> MAX_MNEMONIC_WORDS \<and>
    (account_fields k bs = None \<and> length bs = MAX_PRINTABLE_SECRET_LEN \<and> password \<noteq> None \<longrightarrow>
      length (split_whitespace (bp_mnemonic page)) = MAX_MNEMONIC_WORDS) \<and>
    page_layouts [page] = Inr [page_texts page] \<and>
    list_all (\<lambda>t. 315 / 10 \<le> pt_height t) (page_texts page)"
proof -
  obtain address plain secret where p: "page_secret k sha name bs = Inr (address, plain)"
    and e: "(case password of Some pw \<Rightarrow> encrypt_secret k rng plain pw | None \<Rightarrow> ret plain) s = Some (Inr secret, s')"
    and m: "bytes_to_mnemonic sha secret = Some (bp_mnemonic page)"
    by (rule made_page [OF assms(3,4)])
  have w: "length (split_whitespace (bp_mnemonic page)) = (8 * length secret + 10) div 11 + 1"
    using mnemonic_roundtrip_aux [where sha = sha and bs = secret] assms(3) m by (metis option.inject)
  have plain: "length plain \<le> 96" "account_fields k bs = None \<Longrightarrow> plain = bs"
    using p mnemonic_length [of sha _ 32] by (fastforce simp: page_secret_def rbind_eq_Inr split: option.splits prod.splits if_splits)+
  have secret: "length secret = (if password = None then 0 else 51) + length plain"
    using e encrypt_secret_opens(2) [OF assms(1,2)] by (auto split: option.splits)
  have "length secret \<le> 147" using secret plain(1) by (auto split: if_splits)
  then have "(8 * length secret + 10) div 11 \<le> (8 * 147 + 10) div 11" by (intro div_le_mono) simp
  then have fit: "length (split_whitespace (bp_mnemonic page)) \<le> MAX_MNEMONIC_WORDS"
    using w by simp
  have "length (chunks 6 (split_whitespace (bp_mnemonic page))) \<le> 18"
    using fit by (simp add: length_chunks)
  then have low: "list_all (\<lambda>t. 315 / 10 \<le> pt_height t) (place_lines (chunks 6 (split_whitespace (bp_mnemonic page))) 142)"
    by (auto simp: list_all_length place_lines_heights)
  show ?thesis
    using fit w secret plain(2) low by (auto simp: page_layouts_def Let_def page_texts_def)
qed

lemma toy_page:
  assumes "length bs \<le> 95"
  shows "\<exists>page. make_backup_page toy_sealing (\<lambda>_. replicate 32 0) toy_rng ''seed'' (2 # bs) (Some ''pw'') (0 :: nat) = Some (Inr page, 0)"
    and "account_fields toy_sealing (2 # bs) = None"
proof -
  show a: "account_fields toy_sealing (2 # bs) = None"
    by (simp add: account_fields_def toy_sealing_def flat_json_def)
  obtain secret where s: "encrypt_secret toy_sealing toy_rng (2 # bs) ''pw'' (0 :: nat) = Some (Inr secret, 0)"
    by (rule exE [OF toy_encrypts_secret])
  obtain m where "bytes_to_mnemonic (\<lambda>_. replicate 32 0) secret = Some m"
    by (rule mnemonic_roundtrip_aux [where sha = "\<lambda>_. replicate 32 0" and bs = secret]) simp_all
  with a s assms show "\<exists>page. make_backup_page toy_sealing (\<lambda>_. replicate 32 0) toy_rng ''seed'' (2 # bs) (Some ''pw'') (0 :: nat) =
      Some (Inr page, 0)"
    by (simp add: make_backup_page_def page_secret_def)
qed

theorem backup_page_restores_witness:
  "\<exists>(page :: backup_page) secret. mnemonic_to_bytes (\<lambda>_. replicate 32 0) (bp_mnemonic page) (bp_secret_len page) = Inr secret \<and>
     decrypt_secret toy_sealing secret ''pw'' = Inr [2, 7]"
proof -
  obtain page where p: "make_backup_page toy_sealing (\<lambda>_. replicate 32 0) toy_rng ''seed'' [2, 7] (Some ''pw'') (0 :: nat) = Some (Inr page, 0)"
    using toy_page(1) [of "[7]"] by auto
  have sha: "\<forall>x :: bytes. length (replicate 32 (0 :: u8)) = 32" by simp
  from backup_page_restores [OF toy_sealing_lawful toy_rng_draws sha p] toy_page(2) [of "[7]"]
  obtain secret where "mnemonic_to_bytes (\<lambda>_. replicate 32 0) (bp_mnemonic page) (bp_secret_len page) = Inr secret"
    and "decrypt_secret toy_sealing secret ''pw'' = Inr [2, 7]" by auto
  then show ?thesis by blast
qed

theorem backup_page_fits_witness:
  "\<exists>page. length (split_whitespace (bp_mnemonic page)) = 108 \<and> page_layouts [page] = Inr [page_texts page]"
proof -
  obtain page where p: "make_backup_page toy_sealing (\<lambda>_. replicate 32 0) toy_rng ''seed'' (2 # replicate 95 1) (Some ''pw'') (0 :: nat) =
      Some (Inr page, 0)" using toy_page(1) [of "replicate 95 1"] by auto
  have sha: "\<forall>x :: bytes. length (replicate 32 (0 :: u8)) = 32" by simp
  from backup_page_fits [OF toy_sealing_lawful toy_rng_draws sha p] toy_page(2) [of "replicate 95 1"] show ?thesis by auto
qed

end
