(* ===== verification/VaultAccount.thy ===== *)
theory VaultAccount
  imports Keys Backup
begin

text \<open>
  New accounts and vanity addresses, \<open>blockchain_account_vault/src/account.rs\<close>. The cryptography is the
  record of \<open>Keys\<close>. The search threads are a step relation: each step is one access to the shared state,
  \<open>done\<close> or the \<open>found\<close> slot under its lock, in any interleaving; the seeds drawn so far are recorded.
\<close>

section \<open>Accounts\<close>

record account =
  acct_address :: string
  acct_passphrase :: string

definition address_of :: "crypto \<Rightarrow> bytes \<Rightarrow> string" where
  "address_of cr pk =
     (let digest = cr_sha512_256 cr pk in cr_b32_encode cr (pk @ drop (length digest - 4) digest))"

text \<open>A panic of the mnemonic encoder is \<open>None\<close>.\<close>

definition account_from_seed :: "crypto \<Rightarrow> bytes \<Rightarrow> account option" where
  "account_from_seed cr seed =
     map_option (\<lambda>m. \<lparr>acct_address = address_of cr (cr_public_key cr seed), acct_passphrase = m\<rparr>)
       (bytes_to_mnemonic (cr_sha512_256 cr) seed)"

definition to_key_file_json :: "'j sealing \<Rightarrow> account \<Rightarrow> string + bytes" where
  "to_key_file_json k acct =
     (let js = se_json k
      in rbind (js_to_vec_pretty js (js_object js
           [(''address'', js_string js (acct_address acct)), (''passphrase'', js_string js (acct_passphrase acct))]))
         (\<lambda>bs. Inr (bs @ [10])))"

definition random_seed :: "(nat \<Rightarrow> 's \<Rightarrow> bytes \<times> 's) \<Rightarrow> ('s, bytes) vop" where
  "random_seed rng = draw rng 32"

definition generate_account :: "crypto \<Rightarrow> (nat \<Rightarrow> 's \<Rightarrow> bytes \<times> 's) \<Rightarrow> ('s, account option) vop" where
  "generate_account cr rng = try_op (random_seed rng) (\<lambda>seed. ret (account_from_seed cr seed))"

section \<open>Prefixes\<close>

abbreviation MAX_PREFIX_LEN :: nat where "MAX_PREFIX_LEN \<equiv> 8"

definition ascii_upper :: "char \<Rightarrow> char" where
  "ascii_upper c = (if 97 \<le> (of_char c :: nat) \<and> (of_char c :: nat) \<le> 122 then char_of (of_char c - 32 :: nat) else c)"

definition base32_char :: "char \<Rightarrow> bool" where
  "base32_char c \<longleftrightarrow> (65 \<le> (of_char c :: nat) \<and> (of_char c :: nat) \<le> 90) \<or> (50 \<le> (of_char c :: nat) \<and> (of_char c :: nat) \<le> 55)"

text \<open>The character a string begins with, the bytes of its UTF-8 form.\<close>

fun first_char :: "string \<Rightarrow> string" where
  "first_char [] = []"
| "first_char (c # cs) = c # takeWhile (\<lambda>d. 128 \<le> (of_char d :: nat) \<and> (of_char d :: nat) < 192) cs"

definition normalise_prefix :: "string \<Rightarrow> string + string" where
  "normalise_prefix p =
     (let p = map ascii_upper p
      in if p = [] then Inl ''the prefix must not be empty''
         else if length p > MAX_PREFIX_LEN then Inl (''the prefix is at most '' @ show_nat MAX_PREFIX_LEN @ '' characters'')
         else case dropWhile base32_char p of
           [] \<Rightarrow> Inr p
         | bad \<Rightarrow> Inl (quoted (first_char bad) @ '' can'' @ [CHR 0x27] @
                       ''t appear in an address: use A-Z and 2-7 (no 0, 1, 8 or 9)''))"

definition expected_tries :: "nat \<Rightarrow> u64" where
  "expected_tries n =
     (let n = (if n < 2 ^ 32 then n else 2 ^ 32 - 1) in if 5 * n < 64 then of_nat (32 ^ n) else - 1)"

section \<open>The search\<close>

text \<open>A searcher with its local count: at the loop's head, about to draw, holding the lock, or returned.\<close>

datatype searcher = Looking u64 | Trying u64 | Publishing u64 | Finished

record vanity =
  vs_done :: bool
  vs_found :: "bytes option"
  vs_tries :: u64
  vs_threads :: "searcher list"
  vs_drawn :: "bytes list"

definition leading_bytes :: "string \<Rightarrow> nat" where
  "leading_bytes p = (length p * 5 + 7) div 8"

definition seed_matches :: "crypto \<Rightarrow> string \<Rightarrow> bytes \<Rightarrow> bool" where
  "seed_matches cr p seed = starts_with (cr_b32_encode cr (take (leading_bytes p) (cr_public_key cr seed))) p"

definition vanity_start :: "nat \<Rightarrow> vanity" where
  "vanity_start threads =
     \<lparr>vs_done = False, vs_found = None, vs_tries = 0, vs_threads = replicate (max threads 1) (Looking 0), vs_drawn = []\<rparr>"

definition lock_free :: "vanity \<Rightarrow> bool" where
  "lock_free s \<longleftrightarrow> list_all (\<lambda>t. case t of Publishing _ \<Rightarrow> False | _ \<Rightarrow> True) (vs_threads s)"

definition at_thread :: "vanity \<Rightarrow> nat \<Rightarrow> searcher \<Rightarrow> bool" where
  "at_thread s i t \<longleftrightarrow> i < length (vs_threads s) \<and> vs_threads s ! i = t"

definition set_thread :: "nat \<Rightarrow> searcher \<Rightarrow> vanity \<Rightarrow> vanity" where
  "set_thread i t s = s\<lparr>vs_threads := (vs_threads s)[i := t]\<rparr>"

inductive vanity_step :: "crypto \<Rightarrow> string \<Rightarrow> vanity \<Rightarrow> vanity \<Rightarrow> bool" for cr p where
  stop: "at_thread s i (Looking n) \<Longrightarrow> vs_done s \<Longrightarrow>
    vanity_step cr p s ((set_thread i Finished s)\<lparr>vs_tries := vs_tries s + n\<rparr>)"
| look: "at_thread s i (Looking n) \<Longrightarrow> \<not> vs_done s \<Longrightarrow> vanity_step cr p s (set_thread i (Trying n) s)"
| miss: "at_thread s i (Trying n) \<Longrightarrow> length seed = 32 \<Longrightarrow> \<not> seed_matches cr p seed \<Longrightarrow>
    vanity_step cr p s ((set_thread i (Looking (n + 1)) s)\<lparr>vs_drawn := seed # vs_drawn s\<rparr>)"
| hit: "at_thread s i (Trying n) \<Longrightarrow> length seed = 32 \<Longrightarrow> seed_matches cr p seed \<Longrightarrow> lock_free s \<Longrightarrow>
    vanity_step cr p s ((set_thread i (Publishing (n + 1)) s)\<lparr>vs_drawn := seed # vs_drawn s,
      vs_found := (if vs_found s = None then Some seed else vs_found s)\<rparr>)"
| publish: "at_thread s i (Publishing n) \<Longrightarrow>
    vanity_step cr p s ((set_thread i (Looking n) s)\<lparr>vs_done := True\<rparr>)"

inductive_cases vanity_stepE: "vanity_step cr p s s'"

definition all_finished :: "vanity \<Rightarrow> bool" where
  "all_finished s \<longleftrightarrow> list_all (\<lambda>t. t = Finished) (vs_threads s)"

text \<open>What \<open>find_vanity_account\<close> answers once every thread has returned.\<close>

definition vanity_answer :: "crypto \<Rightarrow> vanity \<Rightarrow> string + account option \<times> u64" where
  "vanity_answer cr s =
     (case vs_found s of
        None \<Rightarrow> Inl ''the search stopped without a match''
      | Some seed \<Rightarrow> Inr (account_from_seed cr seed, vs_tries s))"

text \<open>The invariant of the search.\<close>

fun local_tries :: "searcher \<Rightarrow> u64" where
  "local_tries (Looking n) = n"
| "local_tries (Trying n) = n"
| "local_tries (Publishing n) = n"
| "local_tries Finished = 0"

definition vanity_ok :: "crypto \<Rightarrow> string \<Rightarrow> vanity \<Rightarrow> bool" where
  "vanity_ok cr p s \<longleftrightarrow>
     (\<forall>seed. vs_found s = Some seed \<longrightarrow> length seed = 32 \<and> seed_matches cr p seed \<and> seed \<in> set (vs_drawn s)) \<and>
     (vs_done s \<or> \<not> lock_free s \<longrightarrow> vs_found s \<noteq> None) \<and>
     (Finished \<in> set (vs_threads s) \<longrightarrow> vs_done s) \<and> vs_threads s \<noteq> [] \<and>
     vs_tries s + sum_list (map local_tries (vs_threads s)) = of_nat (length (vs_drawn s))"

lemma sum_list_set: "i < length xs \<Longrightarrow> sum_list (xs[i := (y :: 'a :: ab_group_add)]) = sum_list xs - xs ! i + y"
  by (induction xs arbitrary: i) (auto simp: nth_Cons split: nat.split)

lemma set_thread_tries:
  "at_thread s i t \<Longrightarrow> sum_list (map local_tries (vs_threads (set_thread i u s))) =
     sum_list (map local_tries (vs_threads s)) - local_tries t + local_tries u"
  by (simp add: at_thread_def set_thread_def map_update sum_list_set)

lemma set_thread_fields [simp]:
  "vs_done (set_thread i u s) = vs_done s" "vs_found (set_thread i u s) = vs_found s"
  "vs_tries (set_thread i u s) = vs_tries s" "vs_drawn (set_thread i u s) = vs_drawn s"
  "vs_threads (set_thread i u s) = (vs_threads s)[i := u]"
  by (simp_all add: set_thread_def)

lemma vanity_ok_start: "vanity_ok cr p (vanity_start threads)"
  by (auto simp: vanity_ok_def vanity_start_def lock_free_def list_all_iff sum_list_replicate)

lemma vanity_ok_step: "vanity_step cr p s s' \<Longrightarrow> vanity_ok cr p s \<Longrightarrow> vanity_ok cr p s'"
proof (induction rule: vanity_step.induct)
  case (stop s i n)
  have "set ((vs_threads s)[i := Finished]) \<subseteq> insert Finished (set (vs_threads s))" by (rule set_update_subset_insert)
  with stop show ?case
    using set_thread_tries [OF stop(1), of Finished]
    by (auto simp: vanity_ok_def lock_free_def list_all_iff)
next
  case (look s i n)
  have "set ((vs_threads s)[i := Trying n]) \<subseteq> insert (Trying n) (set (vs_threads s))" by (rule set_update_subset_insert)
  with look show ?case
    using set_thread_tries [OF look(1), of "Trying n"]
    by (auto simp: vanity_ok_def lock_free_def list_all_iff)
next
  case (miss s i n seed)
  have "set ((vs_threads s)[i := Looking (n + 1)]) \<subseteq> insert (Looking (n + 1)) (set (vs_threads s))"
    by (rule set_update_subset_insert)
  with miss show ?case
    using set_thread_tries [OF miss(1), of "Looking (n + 1)"]
    by (auto simp: vanity_ok_def lock_free_def list_all_iff)
next
  case (hit s i n seed)
  have "set ((vs_threads s)[i := Publishing (n + 1)]) \<subseteq> insert (Publishing (n + 1)) (set (vs_threads s))"
    by (rule set_update_subset_insert)
  with hit show ?case
    using set_thread_tries [OF hit(1), of "Publishing (n + 1)"]
    by (auto simp: vanity_ok_def)
next
  case (publish s i n)
  have "set ((vs_threads s)[i := Looking n]) \<subseteq> insert (Looking n) (set (vs_threads s))" by (rule set_update_subset_insert)
  moreover from publish(1) have "\<not> lock_free s"
    by (auto simp: at_thread_def lock_free_def list_all_length intro!: exI [of _ i])
  ultimately show ?case
    using publish set_thread_tries [OF publish(1), of "Looking n"]
    by (auto simp: vanity_ok_def)
qed

lemma vanity_ok_reached: "(vanity_step cr p)\<^sup>*\<^sup>* (vanity_start threads) s \<Longrightarrow> vanity_ok cr p s"
  by (induction rule: rtranclp_induct) (auto intro: vanity_ok_start vanity_ok_step)

lemma threads_kept: "vanity_step cr p s s' \<Longrightarrow> length (vs_threads s') = length (vs_threads s) \<and> (vs_done s \<longrightarrow> vs_done s')"
  by (erule vanity_stepE) auto

lemma threads_reached:
  "(vanity_step cr p)\<^sup>*\<^sup>* (vanity_start threads) s \<Longrightarrow> length (vs_threads s) = max threads 1"
  by (induction rule: rtranclp_induct) (auto simp: vanity_start_def threads_kept)

text \<open>The steps a thread has left once \<open>done\<close> is set.\<close>

fun steps_left :: "searcher \<Rightarrow> nat" where
  "steps_left (Trying _) = 3"
| "steps_left (Publishing _) = 2"
| "steps_left (Looking _) = 1"
| "steps_left Finished = 0"

lemma sum_list_set_nat: "i < length xs \<Longrightarrow> sum_list (xs[i := y]) + xs ! i = sum_list xs + (y :: nat)"
  by (induction xs arbitrary: i) (auto simp: nth_Cons split: nat.split)

lemma done_step_decreases:
  assumes "vanity_step cr p s s'" and "vs_done s"
  shows "sum_list (map steps_left (vs_threads s')) < sum_list (map steps_left (vs_threads s))"
proof -
  have d: "sum_list (map steps_left ((vs_threads s)[i := u])) < sum_list (map steps_left (vs_threads s))"
    if "at_thread s i t" and "steps_left u < steps_left t" for i t u
    using that sum_list_set_nat [of i "map steps_left (vs_threads s)" "steps_left u"]
    by (simp add: at_thread_def map_update)
  show ?thesis using assms by cases (auto intro: d)
qed

lemma done_runs_end:
  "(vanity_step cr p ^^ n) s s' \<Longrightarrow> vs_done s \<Longrightarrow>
     vs_done s' \<and> n + sum_list (map steps_left (vs_threads s')) \<le> sum_list (map steps_left (vs_threads s))"
proof (induction n arbitrary: s')
  case (Suc n)
  then obtain t where t: "(vanity_step cr p ^^ n) s t" and u: "vanity_step cr p t s'" by auto
  with Suc have ih: "vs_done t" "n + sum_list (map steps_left (vs_threads t)) \<le> sum_list (map steps_left (vs_threads s))"
    by auto
  show ?case using done_step_decreases [OF u ih(1)] threads_kept [OF u] ih by simp
qed simp

lemma steps_left_bound: "sum_list (map steps_left ts) \<le> 3 * length ts"
proof (induction ts)
  case (Cons t ts)
  then show ?case by (cases t) auto
qed simp

lemma search_progresses:
  assumes "\<not> all_finished s"
  shows "\<exists>s'. vanity_step cr p s s'"
proof (cases "lock_free s")
  case True
  from assms obtain i where i: "i < length (vs_threads s)" "vs_threads s ! i \<noteq> Finished"
    by (auto simp: all_finished_def list_all_length)
  then have at: "at_thread s i (vs_threads s ! i)" by (simp add: at_thread_def)
  show ?thesis
  proof (cases "vs_threads s ! i")
    case (Looking n)
    with at show ?thesis using stop look by (cases "vs_done s") metis+
  next
    case (Trying n)
    with at True show ?thesis
      using miss [of s i n "replicate 32 0"] hit [of s i n "replicate 32 0"] by (metis length_replicate)
  next
    case (Publishing n)
    with at show ?thesis using publish by metis
  qed (use i in simp)
next
  case False
  then obtain i where i: "i < length (vs_threads s)"
      "\<not> (case vs_threads s ! i of Publishing _ \<Rightarrow> False | _ \<Rightarrow> True)"
    by (auto simp: lock_free_def list_all_length)
  then obtain n where "at_thread s i (Publishing n)" by (cases "vs_threads s ! i") (auto simp: at_thread_def)
  then show ?thesis by (blast intro: publish)
qed

text \<open>Once \<open>done\<close> is set the threads can all return, and every thread that may still move brings that nearer.\<close>

lemma done_finishes: "vs_done s \<Longrightarrow> \<exists>s'. (vanity_step cr p)\<^sup>*\<^sup>* s s' \<and> all_finished s'"
proof (induction "sum_list (map steps_left (vs_threads s))" arbitrary: s rule: less_induct)
  case less
  show ?case
  proof (cases "all_finished s")
    case False
    then obtain t where t: "vanity_step cr p s t" using search_progresses by blast
    have "vs_done t" using threads_kept [OF t] less.prems by simp
    with less.hyps [OF done_step_decreases [OF t less.prems]]
    obtain s' where "(vanity_step cr p)\<^sup>*\<^sup>* t s'" "all_finished s'" by blast
    with t show ?thesis by (blast intro: converse_rtranclp_into_rtranclp)
  qed blast
qed

text \<open>A slot that is filled has its finder at the lock, or \<open>done\<close> is set.\<close>

definition hit_is_published :: "vanity \<Rightarrow> bool" where
  "hit_is_published s \<longleftrightarrow> vs_found s = None \<or> vs_done s \<or> (\<exists>i n. at_thread s i (Publishing n))"

lemma at_set_thread:
  "at_thread (set_thread j u s) i t \<longleftrightarrow> (if i = j then i < length (vs_threads s) \<and> t = u else at_thread s i t)"
  by (auto simp: at_thread_def)

lemma at_thread_fields [simp]:
  "at_thread (s\<lparr>vs_done := b\<rparr>) i t = at_thread s i t" "at_thread (s\<lparr>vs_tries := k\<rparr>) i t = at_thread s i t"
  "at_thread (s\<lparr>vs_drawn := ds\<rparr>) i t = at_thread s i t" "at_thread (s\<lparr>vs_found := f\<rparr>) i t = at_thread s i t"
  by (simp_all add: at_thread_def)

lemma at_thread_unique: "at_thread s i t \<Longrightarrow> at_thread s i u \<Longrightarrow> t = u"
  by (simp add: at_thread_def)

text \<open>Only the publisher's own step moves it, and that step sets \<open>done\<close>.\<close>

lemma publisher_step:
  assumes "vanity_step cr p s s'" and "at_thread s i (Publishing n)"
  shows "vs_done s' \<or> at_thread s' i (Publishing n)"
  using assms
  by cases (auto simp: at_set_thread dest: at_thread_unique)

lemma hit_is_published_step:
  assumes "vanity_step cr p s s'" and "hit_is_published s"
  shows "hit_is_published s'"
proof (cases "vs_done s \<or> (\<exists>i n. at_thread s i (Publishing n))")
  case True
  then show ?thesis
    using publisher_step [OF assms(1)] threads_kept [OF assms(1)] by (auto simp: hit_is_published_def)
next
  case False
  with assms show ?thesis
    by cases (auto simp: hit_is_published_def at_set_thread at_thread_def)
qed

lemma hit_is_published_reached:
  "(vanity_step cr p)\<^sup>*\<^sup>* (vanity_start threads) s \<Longrightarrow> hit_is_published s"
proof (induction rule: rtranclp_induct)
  case base
  show ?case by (simp add: hit_is_published_def vanity_start_def)
qed (rule hit_is_published_step)

lemma publisher_runs:
  "(vanity_step cr p ^^ n) s s' \<Longrightarrow> vs_done s \<or> (\<exists>i m. at_thread s i (Publishing m)) \<Longrightarrow>
     vs_done s' \<or> (\<exists>i m. at_thread s i (Publishing m) \<and> at_thread s' i (Publishing m))"
proof (induction n arbitrary: s')
  case (Suc n)
  then obtain t where t: "(vanity_step cr p ^^ n) s t" and u: "vanity_step cr p t s'" by auto
  from Suc.IH [OF t Suc.prems(2)] show ?case
    using publisher_step [OF u] threads_kept [OF u] by blast
qed simp

lemma hit_finishes:
  assumes "hit_is_published s" and "vs_found s \<noteq> None"
  shows "\<exists>s'. (vanity_step cr p)\<^sup>*\<^sup>* s s' \<and> all_finished s'"
proof (cases "vs_done s")
  case False
  with assms obtain i n where "at_thread s i (Publishing n)" by (auto simp: hit_is_published_def)
  from publish [OF this]
  have step: "vanity_step cr p s ((set_thread i (Looking n) s)\<lparr>vs_done := True\<rparr>)" (is "vanity_step cr p s ?t") .
  have "vs_done ?t" by simp
  from done_finishes [OF this] show ?thesis using step by (blast intro: converse_rtranclp_into_rtranclp)
qed (rule done_finishes)

text \<open>A search that can still find a seed can still finish.\<close>

lemma search_finishes:
  assumes "vanity_ok cr p s" and "hit_is_published s" and "length seed = 32" and "seed_matches cr p seed"
  shows "\<exists>s'. (vanity_step cr p)\<^sup>*\<^sup>* s s' \<and> all_finished s'"
proof (cases "vs_found s")
  case None
  with assms(1) have free: "\<not> vs_done s" "lock_free s" "Finished \<notin> set (vs_threads s)" "vs_threads s \<noteq> []"
    by (auto simp: vanity_ok_def)
  then obtain t ts where ts: "vs_threads s = t # ts" by (cases "vs_threads s") auto
  have go: "\<exists>s'. (vanity_step cr p)\<^sup>*\<^sup>* u s' \<and> all_finished s'"
    if "at_thread u 0 (Trying n)" "lock_free u" for u n
  proof -
    let ?v = "(set_thread 0 (Publishing (n + 1)) u)\<lparr>vs_drawn := seed # vs_drawn u,
      vs_found := (if vs_found u = None then Some seed else vs_found u)\<rparr>"
    have step: "vanity_step cr p u ?v" by (rule hit [OF that(1) assms(3,4) that(2)])
    have f: "vs_found ?v \<noteq> None" by simp
    have "at_thread ?v 0 (Publishing (n + 1))" using that(1) by (simp add: at_set_thread) (simp add: at_thread_def)
    then have "hit_is_published ?v" unfolding hit_is_published_def by blast
    from hit_finishes [OF this f] step show ?thesis by (blast intro: converse_rtranclp_into_rtranclp)
  qed
  show ?thesis
  proof (cases t)
    case (Looking n)
    then have "vanity_step cr p s (set_thread 0 (Trying n) s)"
      using ts free by (intro look) (simp_all add: at_thread_def)
    moreover have "lock_free (set_thread 0 (Trying n) s)" using free ts by (simp add: lock_free_def)
    moreover have "at_thread (set_thread 0 (Trying n) s) 0 (Trying n)" using ts by (simp add: at_set_thread)
    ultimately show ?thesis
      using go [of "set_thread 0 (Trying n) s" n] by (blast intro: converse_rtranclp_into_rtranclp)
  next
    case (Trying n)
    then show ?thesis using go [of s n] ts free by (simp add: at_thread_def)
  qed (use ts free in \<open>auto simp: lock_free_def\<close>)
next
  case (Some x)
  then show ?thesis using hit_finishes [OF assms(2)] by simp
qed

section \<open>What the base32 encoder is relied on for\<close>

text \<open>The first characters of an encoding depend on the bytes that hold their bits only.\<close>

definition b32_prefix_law :: "crypto \<Rightarrow> bool" where
  "b32_prefix_law cr \<longleftrightarrow>
     (\<forall>bs n l. n \<le> length bs \<and> 5 * l \<le> 8 * n \<longrightarrow>
        take l (cr_b32_encode cr (take n bs)) = take l (cr_b32_encode cr bs))"

text \<open>RFC 4648 without padding, for the witness.\<close>

definition byte_bits :: "u8 \<Rightarrow> bool list" where
  "byte_bits b = map (\<lambda>i. bit b (7 - i)) [0..<8]"

definition b32_digit :: "bool list \<Rightarrow> char" where
  "b32_digit bits = ''ABCDEFGHIJKLMNOPQRSTUVWXYZ234567'' ! (foldl (\<lambda>a b. 2 * a + of_bool b) 0 (take 5 (bits @ replicate 4 False)))"

fun b32_groups :: "nat \<Rightarrow> bool list \<Rightarrow> string" where
  "b32_groups 0 bits = []"
| "b32_groups (Suc n) bits = b32_digit bits # b32_groups n (drop 5 bits)"

definition b32_encode :: "bytes \<Rightarrow> string" where
  "b32_encode bs = b32_groups ((8 * length bs + 4) div 5) (concat (map byte_bits bs))"

lemma length_byte_bits [simp]: "length (concat (map byte_bits bs)) = 8 * length bs"
  by (induction bs) (simp_all add: byte_bits_def)

lemma take_byte_bits: "take (8 * n) (concat (map byte_bits bs)) = concat (map byte_bits (take n bs))"
proof (induction bs arbitrary: n)
  case (Cons b bs)
  then show ?case by (cases n) (simp_all add: byte_bits_def)
qed simp

lemma take_b32_groups:
  assumes "5 * l \<le> m" and "m \<le> length bits" and "l \<le> j" and "l \<le> k"
  shows "take l (b32_groups j (take m bits)) = take l (b32_groups k bits)"
  using assms
proof (induction l arbitrary: j k m bits)
  case (Suc l)
  then obtain j' k' where jk: "j = Suc j'" "k = Suc k'" by (metis Suc_le_D)
  from Suc.prems have "take 5 (take m bits @ replicate 4 False) = take 5 (bits @ replicate 4 False)" by simp
  then have "b32_digit (take m bits) = b32_digit bits" by (simp only: b32_digit_def)
  moreover have "take l (b32_groups j' (take (m - 5) (drop 5 bits))) = take l (b32_groups k' (drop 5 bits))"
    using Suc.prems jk by (intro Suc.IH) auto
  ultimately show ?case by (simp add: jk drop_take)
qed simp

lemma b32_encode_prefix:
  assumes "n \<le> length bs" and "5 * l \<le> 8 * n"
  shows "take l (b32_encode (take n bs)) = take l (b32_encode bs)"
proof -
  have "take l (b32_groups ((8 * n + 4) div 5) (take (8 * n) (concat (map byte_bits bs)))) =
      take l (b32_groups ((8 * length bs + 4) div 5) (concat (map byte_bits bs)))"
    using assms by (intro take_b32_groups) auto
  with assms show ?thesis by (simp add: b32_encode_def take_byte_bits)
qed

definition toy_keys :: crypto where
  "toy_keys = toy_crypto\<lparr>cr_b32_encode := b32_encode\<rparr>"

lemma toy_keys_prefix: "b32_prefix_law toy_keys"
  using b32_encode_prefix by (simp add: b32_prefix_law_def toy_keys_def)

section \<open>Properties\<close>

lemma normalised:
  assumes "normalise_prefix prefix = Inr p"
  shows "p = map ascii_upper prefix" and "p \<noteq> []" and "length p \<le> 8" and "list_all base32_char p"
  using assms
  by (auto simp: normalise_prefix_def Let_def dropWhile_eq_Nil_conv list_all_iff split: if_splits list.splits)

lemma account_of_seed:
  assumes "\<forall>x. length (cr_sha512_256 cr x) = 32" and "length seed = 32"
  obtains a where "account_from_seed cr seed = Some a" and "acct_address a = address_of cr (cr_public_key cr seed)"
    and "bytes_to_mnemonic (cr_sha512_256 cr) seed = Some (acct_passphrase a)"
    and "mnemonic_to_bytes (cr_sha512_256 cr) (acct_passphrase a) 32 = Inr seed"
proof -
  obtain phrase where ph: "bytes_to_mnemonic (cr_sha512_256 cr) seed = Some phrase"
      "mnemonic_to_bytes (cr_sha512_256 cr) phrase (length seed) = Inr seed"
    using mnemonic_roundtrip_aux [where sha = "cr_sha512_256 cr" and bs = seed] assms(1) by metis
  then show thesis
    by (intro that [of "\<lparr>acct_address = address_of cr (cr_public_key cr seed), acct_passphrase = phrase\<rparr>"])
      (simp_all add: account_from_seed_def assms(2) [symmetric])
qed

text \<open>
  C30: When every search thread has returned, whatever their interleaving, the vanity search answers an
  account: its address starts with the upper-cased prefix, its passphrase decodes to one of the
  seeds drawn, which is the key of the address, and the tries reported are all the keys drawn
  (modulo \<open>2 ^ 64\<close>).
\<close>

theorem vanity_search_finds:
  assumes "normalise_prefix prefix = Inr p"
    and "(vanity_step cr p)\<^sup>*\<^sup>* (vanity_start threads) s" and "all_finished s"
    and "b32_prefix_law cr" and "\<forall>x. length x = 32 \<longrightarrow> length (cr_public_key cr x) = 32" and "\<forall>x. length (cr_sha512_256 cr x) = 32"
  shows "\<exists>a seed. vanity_answer cr s = Inr (Some a, of_nat (length (vs_drawn s))) \<and>
    starts_with (acct_address a) (map ascii_upper prefix) \<and> seed \<in> set (vs_drawn s) \<and>
    acct_address a = address_of cr (cr_public_key cr seed) \<and>
    mnemonic_to_bytes (cr_sha512_256 cr) (acct_passphrase a) 32 = Inr seed"
proof -
  note n = normalised [OF assms(1)]
  have ok: "vanity_ok cr p s" by (rule vanity_ok_reached [OF assms(2)])
  have "Finished \<in> set (vs_threads s)"
    using ok assms(3) by (cases "vs_threads s") (auto simp: vanity_ok_def all_finished_def)
  with ok obtain seed where seed: "vs_found s = Some seed" "length seed = 32" "seed_matches cr p seed" "seed \<in> set (vs_drawn s)"
    by (auto simp: vanity_ok_def)
  have "sum_list (map local_tries (vs_threads s)) = sum_list (map (\<lambda>_. 0) (vs_threads s))"
    using assms(3) by (intro arg_cong [of _ _ sum_list] map_cong) (auto simp: all_finished_def list_all_iff)
  then have tries: "vs_tries s = of_nat (length (vs_drawn s))" using ok by (simp add: vanity_ok_def)
  obtain a where a: "account_from_seed cr seed = Some a" "acct_address a = address_of cr (cr_public_key cr seed)"
      "mnemonic_to_bytes (cr_sha512_256 cr) (acct_passphrase a) 32 = Inr seed"
    using account_of_seed [OF assms(6) seed(2)] by metis
  have len: "leading_bytes p \<le> 32" "5 * length p \<le> 8 * leading_bytes p" using n(3) by (auto simp: leading_bytes_def)
  have "starts_with (acct_address a) p"
  proof -
    define pk where "pk = cr_public_key cr seed"
    define bs where "bs = pk @ drop (length (cr_sha512_256 cr pk) - 4) (cr_sha512_256 cr pk)"
    have "take (length p) (cr_b32_encode cr (take (leading_bytes p) bs)) = take (length p) (cr_b32_encode cr bs)"
      using assms(5) seed(2) len
      by (intro assms(4) [unfolded b32_prefix_law_def, rule_format]) (simp add: bs_def pk_def)
    moreover have "take (leading_bytes p) bs = take (leading_bytes p) pk"
      using assms(5) seed(2) len by (simp add: bs_def pk_def)
    ultimately have "take (length p) (cr_b32_encode cr bs) = p"
      using seed(3) by (auto simp: seed_matches_def starts_with_iff pk_def)
    then have "cr_b32_encode cr bs = p @ drop (length p) (cr_b32_encode cr bs)" by (metis append_take_drop_id)
    then show ?thesis unfolding starts_with_iff a(2) by (auto simp: address_of_def Let_def bs_def pk_def)
  qed
  with n(1) a tries seed show ?thesis by (auto simp: vanity_answer_def)
qed

lemma toy_seed_matches: "seed_matches toy_keys ''A'' (replicate 32 0)"
  by code_simp

lemma toy_search:
  "(vanity_step toy_keys ''A'')\<^sup>*\<^sup>* (vanity_start 1)
     \<lparr>vs_done = True, vs_found = Some (replicate 32 0), vs_tries = 1, vs_threads = [Finished], vs_drawn = [replicate 32 0]\<rparr>"
proof -
  let ?S = "\<lambda>d f t. \<lparr>vs_done = d, vs_found = f, vs_tries = 0, vs_threads = [t], vs_drawn = (case f of None \<Rightarrow> [] | Some x \<Rightarrow> [x])\<rparr>"
  let ?seed = "replicate 32 0"
  have "vanity_step toy_keys ''A'' (vanity_start 1) (?S False None (Trying 0))"
    using look [of "vanity_start 1" 0 0] by (simp add: vanity_start_def at_thread_def set_thread_def)
  moreover have "vanity_step toy_keys ''A'' (?S False None (Trying 0)) (?S False (Some ?seed) (Publishing 1))"
    using hit [of "?S False None (Trying 0)" 0 0 ?seed] toy_seed_matches
    by (simp add: at_thread_def set_thread_def lock_free_def)
  moreover have "vanity_step toy_keys ''A'' (?S False (Some ?seed) (Publishing 1)) (?S True (Some ?seed) (Looking 1))"
    using publish [of "?S False (Some ?seed) (Publishing 1)" 0 1] by (simp add: at_thread_def set_thread_def)
  moreover have "vanity_step toy_keys ''A'' (?S True (Some ?seed) (Looking 1)) (?S True (Some ?seed) Finished\<lparr>vs_tries := 1\<rparr>)"
    using stop [of "?S True (Some ?seed) (Looking 1)" 0 1] by (simp add: at_thread_def set_thread_def)
  ultimately show ?thesis by (auto intro: converse_rtranclp_into_rtranclp)
qed

theorem vanity_search_finds_witness:
  "\<exists>a. vanity_answer toy_keys \<lparr>vs_done = True, vs_found = Some (replicate 32 0), vs_tries = 1,
       vs_threads = [Finished], vs_drawn = [replicate 32 0]\<rparr> = Inr (Some a, 1) \<and>
     starts_with (acct_address a) ''A''"
proof -
  have n: "normalise_prefix ''a'' = Inr ''A''" and u: "map ascii_upper ''a'' = ''A''" by code_simp+
  show ?thesis
    using vanity_search_finds [OF n toy_search _ toy_keys_prefix] u
    by (auto simp: all_finished_def toy_keys_def toy_crypto_def)
qed

text \<open>
  C31: The search ends. As long as some thread has not returned, some thread can take a step, so it never
  deadlocks on the lock of the found slot. While a matching seed exists, every state the search reaches
  can be run to its end. Once the found slot is filled, only a finder that takes no step at the lock
  can hold the search up: however the threads are interleaved, either \<open>done\<close> is set, or a thread that
  was publishing has not moved since; and once \<open>done\<close> is set, at most three more steps per thread
  follow before all have returned.
\<close>

theorem vanity_search_ends:
  assumes "(vanity_step cr p)\<^sup>*\<^sup>* (vanity_start threads) s"
  shows "(all_finished s \<or> (\<exists>s'. vanity_step cr p s s')) \<and>
    ((\<exists>seed. length seed = 32 \<and> seed_matches cr p seed) \<longrightarrow>
       (\<exists>s'. (vanity_step cr p)\<^sup>*\<^sup>* s s' \<and> all_finished s')) \<and>
    ((vanity_step cr p ^^ n) s s' \<and> vs_found s \<noteq> None \<longrightarrow>
       vs_done s' \<or> (\<exists>i m. at_thread s i (Publishing m) \<and> at_thread s' i (Publishing m))) \<and>
    ((vanity_step cr p ^^ n) s s' \<and> vs_done s \<longrightarrow> n \<le> 3 * max threads 1 \<and> vs_done s' \<and>
       length (vs_threads s') = max threads 1)"
proof -
  note ok = vanity_ok_reached [OF assms] and pub = hit_is_published_reached [OF assms]
  have "vs_done s' \<and> n \<le> 3 * max threads 1 \<and> length (vs_threads s') = max threads 1"
    if r: "(vanity_step cr p ^^ n) s s'" "vs_done s"
  proof -
    from assms r(1) have "(vanity_step cr p)\<^sup>*\<^sup>* (vanity_start threads) s'" by (metis relpowp_imp_rtranclp rtranclp_trans)
    then show ?thesis
      using done_runs_end [OF r] steps_left_bound [of "vs_threads s"] threads_reached [OF assms] threads_reached
      by fastforce
  qed
  moreover have "vs_done s' \<or> (\<exists>i m. at_thread s i (Publishing m) \<and> at_thread s' i (Publishing m))"
    if "(vanity_step cr p ^^ n) s s'" "vs_found s \<noteq> None"
    using publisher_runs [OF that(1)] pub that(2) by (auto simp: hit_is_published_def)
  ultimately show ?thesis using search_progresses search_finishes [OF ok pub] by blast
qed

text \<open>Two threads: one has hit and holds the lock, the other has a key to draw.\<close>

theorem vanity_search_ends_witness:
  "(\<exists>s'. (vanity_step toy_keys ''A'')\<^sup>*\<^sup>*
      \<lparr>vs_done = False, vs_found = Some (replicate 32 0), vs_tries = 0,
        vs_threads = [Publishing 1, Trying 0], vs_drawn = [replicate 32 0]\<rparr> s' \<and> all_finished s')"
proof -
  let ?S = "\<lambda>f t u. \<lparr>vs_done = False, vs_found = f, vs_tries = 0, vs_threads = [t, u],
      vs_drawn = (case f of None \<Rightarrow> [] | Some x \<Rightarrow> [x])\<rparr>"
  let ?seed = "replicate 32 0 :: bytes"
  have "vanity_step toy_keys ''A'' (vanity_start 2) (?S None (Trying 0) (Looking 0))"
    using look [of "vanity_start 2" 0 0]
    by (simp add: vanity_start_def at_thread_def set_thread_def numeral_2_eq_2)
  moreover have "vanity_step toy_keys ''A'' (?S None (Trying 0) (Looking 0)) (?S None (Trying 0) (Trying 0))"
    using look [of "?S None (Trying 0) (Looking 0)" 1 0] by (simp add: at_thread_def set_thread_def)
  moreover have "vanity_step toy_keys ''A'' (?S None (Trying 0) (Trying 0)) (?S (Some ?seed) (Publishing 1) (Trying 0))"
    using hit [of "?S None (Trying 0) (Trying 0)" 0 0 ?seed] toy_seed_matches
    by (simp add: at_thread_def set_thread_def lock_free_def)
  ultimately have r: "(vanity_step toy_keys ''A'')\<^sup>*\<^sup>* (vanity_start 2) (?S (Some ?seed) (Publishing 1) (Trying 0))"
    by (auto intro: converse_rtranclp_into_rtranclp)
  show ?thesis
    using vanity_search_ends [OF r, THEN conjunct2, THEN conjunct1] toy_seed_matches
    by (metis length_replicate option.simps(5))
qed

text \<open>The phrase has no white space at its ends.\<close>

lemma trim_plain_ends:
  assumes "s \<noteq> []" and "plain_char (hd s)" and "plain_char (last s)"
  shows "trim_str s = s"
proof -
  from assms(1) obtain b r where b: "utf8_bytes s = b # r" by (cases "utf8_bytes s") (auto simp: utf8_bytes_def)
  with assms have "printable b" by (cases s) (auto simp: utf8_bytes_def plain_char_def)
  with b have 1: "trim_start (utf8_bytes s) = utf8_bytes s" by (simp add: trim_start.simps leading_space_printable)
  from assms(1) obtain c t where c: "rev (utf8_bytes s) = c # t" by (cases "rev (utf8_bytes s)") (auto simp: utf8_bytes_def)
  with assms have "printable c"
    by (cases s rule: rev_cases) (auto simp: utf8_bytes_def plain_char_def)
  with c have "trim_rev (rev (utf8_bytes s)) = rev (utf8_bytes s)" by (simp add: trim_rev.simps ends_in_space_printable)
  with 1 show ?thesis by (simp add: trim_str_def)
qed

lemma join_ends:
  assumes "ws \<noteq> []" and "\<forall>w \<in> set ws. w \<noteq> []"
  shows "join sep ws \<noteq> [] \<and> hd (join sep ws) = hd (hd ws) \<and> last (join sep ws) = last (last ws)"
  using assms by (induction sep ws rule: join.induct) auto

lemma phrase_trimmed:
  assumes "bytes_to_mnemonic sha bs = Some phrase"
  shows "trim_str phrase = phrase"
proof -
  from assms obtain out check where ph: "phrase = join '' '' (out @ [check])"
      and o: "words_at wordlist (to_u11 bs) = Some out" and c: "checksum_word sha bs wordlist = Some check"
    by (auto simp: bytes_to_mnemonic_def bind_eq_Some_conv)
  have "words_at wordlist is = Some ws \<Longrightarrow> set ws \<subseteq> set wordlist" for "is" ws
    by (induction "is" arbitrary: ws) (auto simp: bind_eq_Some_conv word_at_def split: if_splits)
  moreover have "check \<in> set wordlist"
    using c by (auto simp: checksum_word_def Let_def word_at_def split: if_splits list.splits)
  ultimately have w: "set (out @ [check]) \<subseteq> set wordlist" using o by simp
  then have p: "\<forall>w \<in> set (out @ [check]). w \<noteq> [] \<and> plain_char (hd w) \<and> plain_char (last w)"
    using wordlist_ok unfolding wordlist_ok_def by (meson hd_in_set last_in_set subset_code(1))
  have e: "join '' '' (out @ [check]) \<noteq> [] \<and> hd (join '' '' (out @ [check])) = hd (hd (out @ [check])) \<and>
      last (join '' '' (out @ [check])) = last (last (out @ [check]))"
    using p by (intro join_ends) auto
  show ?thesis unfolding ph
    using e p by (intro trim_plain_ends) (auto simp: hd_append split: if_splits)
qed

text \<open>
  C32: The account file of a seed can be written for every seed, and restores it: its address and passphrase are
  read back, the address is the one the client derives from the public key, and a backup page of the
  file holds the seed itself.
\<close>

theorem account_file_restores:
  assumes "sealing_lawful k" and "json_skips_newline (se_json k)"
    and "\<forall>x. length (cr_sha512_256 cr x) = 32" and "length seed = 32"
  shows "\<exists>a bs. account_from_seed cr seed = Some a \<and> to_key_file_json k a = Inr bs \<and>
    account_fields k bs = Some (acct_address a, acct_passphrase a) \<and>
    json_field k bs ''address'' = Inr (acct_address a) \<and> json_field k bs ''passphrase'' = Inr (acct_passphrase a) \<and>
    byte_key_to_address cr (cr_public_key cr seed) = Inr (acct_address a) \<and>
    page_secret k (cr_sha512_256 cr) page_name bs = Inr (Some (acct_address a), seed)"
proof -
  obtain a where a: "account_from_seed cr seed = Some a" "acct_address a = address_of cr (cr_public_key cr seed)"
      "bytes_to_mnemonic (cr_sha512_256 cr) seed = Some (acct_passphrase a)"
      "mnemonic_to_bytes (cr_sha512_256 cr) (acct_passphrase a) 32 = Inr seed"
    by (rule account_of_seed [OF assms(3,4)])
  let ?js = "se_json k"
  let ?kvs = "[(''address'', js_string ?js (acct_address a)), (''passphrase'', js_string ?js (acct_passphrase a))]"
  have law: "json_lawful ?js" using assms(1) by (simp add: sealing_lawful_def)
  have flat: "js_flat ?js ?kvs" by (simp add: js_flat_def)
  obtain bs where bs: "js_to_vec_pretty ?js (js_object ?js ?kvs) = Inr bs" "js_from_slice ?js bs = Inr (js_object ?js ?kvs)"
    by (rule json_written [OF law flat])
  with flat assms(2) have read: "js_from_slice ?js (bs @ [10]) = Inr (js_object ?js ?kvs)"
    unfolding json_skips_newline_def by metis
  have f: "account_fields k (bs @ [10]) = Some (acct_address a, acct_passphrase a)"
    using read json_lawfulD [OF law] flat by (simp add: account_fields_def json_text_def)
  then have "page_secret k (cr_sha512_256 cr) page_name (bs @ [10]) = Inr (Some (acct_address a), seed)"
    using a phrase_trimmed [OF a(3)] by (simp add: page_secret_def)
  moreover have "json_field k (bs @ [10]) ''address'' = Inr (acct_address a)"
    "json_field k (bs @ [10]) ''passphrase'' = Inr (acct_passphrase a)"
    using read json_lawfulD [OF law] flat by (simp_all add: json_field_def json_text_def)
  moreover have "to_key_file_json k a = Inr (bs @ [10])" using bs by (simp add: to_key_file_json_def)
  moreover have "byte_key_to_address cr (cr_public_key cr seed) = Inr (acct_address a)"
    by (simp add: byte_key_to_address_def a(2) address_of_def Let_def)
  ultimately show ?thesis using a(1) f by blast
qed

theorem account_file_restores_witness:
  "\<exists>a bs. account_from_seed toy_keys (replicate 32 7) = Some a \<and> to_key_file_json toy_sealing a = Inr bs \<and>
     page_secret toy_sealing (cr_sha512_256 toy_keys) ''a'' bs = Inr (Some (acct_address a), replicate 32 7)"
  using account_file_restores [OF toy_sealing_lawful, of toy_keys "replicate 32 7" "''a''"] flat_json_skips_newline
  by (auto simp: toy_keys_def toy_crypto_def toy_sealing_def)

end
