(* ===== verification/Sheet.thy ===== *)
theory Sheet
  imports Backup Float64
begin

text \<open>
  The rest of \<open>pdf.rs\<close>: the sheets of a backup with their QR codes. The code is drawn as one filled square for
  each dark side; positions are in millimetres from the lower left corner, in single precision.
\<close>

section \<open>Single precision\<close>

definition round32 :: "rat \<Rightarrow> rat" where
  "round32 x = (if x = 0 then 0 else if x < 0 then - round_bits 24 (- x) else round_bits 24 x)"

definition f32_of_nat :: "nat \<Rightarrow> rat" where
  "f32_of_nat n = round32 (of_nat n)"

lemma round32_error: "\<bar>round32 x - x\<bar> \<le> \<bar>x\<bar> / 16777216"
  using round_bits_error [of x 24] round_bits_error [of "- x" 24]
  by (cases x "0 :: rat" rule: linorder_cases) (auto simp: round32_def abs_minus_commute)

lemma f32_of_nat_exact: "n \<le> 2 ^ 24 \<Longrightarrow> f32_of_nat n = of_nat n"
  using round_bits_nat [of n 24] by (cases "n = 0") (simp_all add: f32_of_nat_def round32_def)

section \<open>What is drawn\<close>

record square =
  sq_left :: rat
  sq_bottom :: rat
  sq_right :: rat
  sq_top :: rat

record sheet =
  sh_width :: rat
  sh_height :: rat
  sh_texts :: "placed_text list"
  sh_squares :: "square list"

text \<open>
  \<open>printpdf\<close> and \<open>qrcode\<close>: the built-in fonts, a QR code's width with its modules row by row (\<open>True\<close> is dark),
  and the bytes of a document.
\<close>

record pdf_lib =
  pl_font :: "font \<Rightarrow> string + unit"
  pl_qr :: "bytes \<Rightarrow> string + nat \<times> bool list"
  pl_save :: "sheet list \<Rightarrow> string + bytes"

abbreviation PAGE_W_MM :: rat where "PAGE_W_MM \<equiv> 210"
abbreviation PAGE_H_MM :: rat where "PAGE_H_MM \<equiv> 297"
abbreviation MARGIN_MM :: rat where "MARGIN_MM \<equiv> 20"
abbreviation QR_SIZE_MM :: rat where "QR_SIZE_MM \<equiv> 80"
abbreviation QR_TOP_MM :: rat where "QR_TOP_MM \<equiv> 248"

definition cell_square :: "rat \<Rightarrow> nat \<Rightarrow> nat \<Rightarrow> square" where
  "cell_square side row col =
     (let x0 = round32 (MARGIN_MM + round32 (f32_of_nat col * side));
          y1 = round32 (QR_TOP_MM - round32 (f32_of_nat row * side));
          y0 = round32 (y1 - side)
      in \<lparr>sq_left = x0, sq_bottom = y0, sq_right = round32 (x0 + side), sq_top = y1\<rparr>)"

text \<open>The loop over the modules; an index past the end of the colours panics (\<open>None\<close>).\<close>

fun draw_cells :: "nat \<Rightarrow> bool list \<Rightarrow> rat \<Rightarrow> (nat \<times> nat) list \<Rightarrow> square list option" where
  "draw_cells width colors side [] = Some []"
| "draw_cells width colors side ((row, col) # cells) =
     (if length colors \<le> row * width + col then None
      else if \<not> colors ! (row * width + col) then draw_cells width colors side cells
      else map_option (Cons (cell_square side row col)) (draw_cells width colors side cells))"

definition qr_cells :: "nat \<Rightarrow> (nat \<times> nat) list" where
  "qr_cells width = List.product [0..<width] [0..<width]"

definition draw_qr :: "pdf_lib \<Rightarrow> string \<Rightarrow> (string + square list) option" where
  "draw_qr lib payload =
     (case pl_qr lib (utf8_bytes payload) of
        Inl e \<Rightarrow> Some (Inl e)
      | Inr (width, colors) \<Rightarrow>
          let side = round32 (QR_SIZE_MM / f32_of_nat width)
          in map_option Inr (draw_cells width colors side (qr_cells width)))"

fun draw_pages :: "pdf_lib \<Rightarrow> backup_page list \<Rightarrow> (string + sheet list) option" where
  "draw_pages lib [] = Some (Inr [])"
| "draw_pages lib (page # pages) =
     (case draw_qr lib (bp_qr_payload page) of
        None \<Rightarrow> None
      | Some (Inl e) \<Rightarrow> Some (Inl e)
      | Some (Inr squares) \<Rightarrow>
          map_option (map_sum id (Cons \<lparr>sh_width = PAGE_W_MM, sh_height = PAGE_H_MM, sh_texts = page_texts page, sh_squares = squares\<rparr>))
            (draw_pages lib pages))"

definition render_backup_pdf :: "pdf_lib \<Rightarrow> backup_page list \<Rightarrow> (string + bytes) option" where
  "render_backup_pdf lib pages =
     (case rbind (page_layouts pages) (\<lambda>_. collect_results (pl_font lib) [HelveticaBold, Helvetica, Courier]) of
        Inl e \<Rightarrow> Some (Inl e)
      | Inr _ \<Rightarrow> map_option (\<lambda>r. rbind r (pl_save lib)) (draw_pages lib pages))"

section \<open>Where the modules are\<close>

definition near :: "rat \<Rightarrow> rat \<Rightarrow> bool" where
  "near x y \<longleftrightarrow> \<bar>x - y\<bar> \<le> 1 / 10000"

text \<open>The square of a module, a tenth of a micrometre off at most, in a grid of \<open>width\<close> by \<open>width\<close>.\<close>

definition drawn_at :: "nat \<Rightarrow> nat \<times> nat \<Rightarrow> square \<Rightarrow> bool" where
  "drawn_at width cell sq \<longleftrightarrow>
     (let d = QR_SIZE_MM / of_nat width; row = of_nat (fst cell); col = of_nat (snd cell)
      in near (sq_left sq) (MARGIN_MM + col * d) \<and> near (sq_right sq) (MARGIN_MM + (col + 1) * d) \<and>
         near (sq_top sq) (QR_TOP_MM - row * d) \<and> near (sq_bottom sq) (QR_TOP_MM - (row + 1) * d))"

lemma round32_near:
  assumes "\<bar>x - y\<bar> \<le> e" and "0 \<le> y" and "y \<le> b"
  shows "\<bar>round32 x - y\<bar> \<le> e + (b + e) / 16777216"
proof -
  have "\<bar>x\<bar> \<le> b + e" using assms by linarith
  then have "\<bar>x\<bar> / 16777216 \<le> (b + e) / 16777216" by (intro divide_right_mono) simp_all
  with round32_error [of x] have "\<bar>round32 x - x\<bar> \<le> (b + e) / 16777216" by (rule order_trans)
  with assms(1) show ?thesis by linarith
qed

lemma round32_close:
  assumes "\<bar>x - y\<bar> \<le> e" and "0 \<le> y" and "y \<le> 248" and "e \<le> 1 / 10000"
  shows "\<bar>round32 x - y\<bar> \<le> e + 2 / 100000"
proof -
  have small: "(248 + e) / 16777216 \<le> 2 / 100000" using assms(4) by (simp add: field_simps)
  show ?thesis by (rule order_trans [OF round32_near [OF assms(1-3)] add_left_mono [OF small]])
qed

lemma scaled_error:
  fixes side d c :: rat
  assumes "\<bar>side - d\<bar> \<le> e" and "0 \<le> c"
  shows "\<bar>c * side - c * d\<bar> \<le> c * e"
proof -
  have "c * side - c * d = c * (side - d)" by (simp only: right_diff_distrib)
  then have "\<bar>c * side - c * d\<bar> = c * \<bar>side - d\<bar>" using assms(2) by (simp only: abs_mult abs_of_nonneg)
  also have "\<dots> \<le> c * e" using assms by (intro mult_left_mono)
  finally show ?thesis .
qed

lemma offset_error:
  assumes "0 < width" and "n < width" and "width \<le> 177"
  defines "d \<equiv> QR_SIZE_MM / of_nat width"
  defines "side \<equiv> round32 (QR_SIZE_MM / f32_of_nat width)"
  shows "0 < d" and "d \<le> 80" and "\<bar>side - d\<bar> \<le> 1 / 100000" and "0 \<le> of_nat n * d" and "of_nat n * d + d \<le> 80"
    and "\<bar>round32 (f32_of_nat n * side) - of_nat n * d\<bar> \<le> 1 / 100000"
proof -
  have w: "f32_of_nat width = of_nat width" "f32_of_nat n = of_nat n"
    using assms by (simp_all add: f32_of_nat_exact)
  show d: "0 < d" "d \<le> 80" using assms(1) by (simp_all add: d_def field_simps)
  have "of_nat n + 1 \<le> (of_nat width :: rat)"
    using assms(2) by (simp flip: of_nat_Suc)
  then have "(of_nat n + 1) * d \<le> of_nat width * d" using d by (intro mult_right_mono) simp_all
  moreover have "of_nat width * d = 80" using assms(1) by (simp add: d_def)
  ultimately show nd: "of_nat n * d + d \<le> 80" by (simp only: distrib_right mult_1_left)
  show nn: "0 \<le> of_nat n * d" using d by simp
  have side: "\<bar>side - d\<bar> \<le> d / 16777216"
    using round32_near [of d d 0 d] d by (simp add: side_def w d_def)
  with d(2) show "\<bar>side - d\<bar> \<le> 1 / 100000" by linarith
  have "\<bar>of_nat n * side - of_nat n * d\<bar> \<le> of_nat n * d / 16777216"
    using scaled_error [OF side, of "of_nat n"] by simp
  with nd d(1) have "\<bar>of_nat n * side - of_nat n * d\<bar> \<le> 80 / 16777216" by linarith
  from round32_near [OF this nn, of 80] nd d(1)
  show "\<bar>round32 (f32_of_nat n * side) - of_nat n * d\<bar> \<le> 1 / 100000" by (simp add: w)
qed

lemma cell_square_drawn:
  assumes "0 < width" and "width \<le> 177" and "row < width" and "col < width"
  shows "drawn_at width (row, col) (cell_square (round32 (QR_SIZE_MM / f32_of_nat width)) row col)"
proof -
  define d :: rat where "d = QR_SIZE_MM / of_nat width"
  define side where "side = round32 (QR_SIZE_MM / f32_of_nat width)"
  note c = offset_error [OF assms(1,4,2), folded d_def side_def]
  note r = offset_error [OF assms(1,3,2), folded d_def side_def]
  define x0 where "x0 = round32 (MARGIN_MM + round32 (f32_of_nat col * side))"
  define y1 where "y1 = round32 (QR_TOP_MM - round32 (f32_of_nat row * side))"
  have "\<bar>(20 + round32 (f32_of_nat col * side)) - (20 + of_nat col * d)\<bar> \<le> 1 / 100000" using c(6) by simp
  from round32_close [OF this] c(1,4,5) have x0: "\<bar>x0 - (20 + of_nat col * d)\<bar> \<le> 3 / 100000"
    by (simp add: x0_def)
  then have "\<bar>(x0 + side) - (20 + of_nat col * d + d)\<bar> \<le> 4 / 100000" using c(3) by linarith
  from round32_close [OF this] c(1,4,5) have x1: "\<bar>round32 (x0 + side) - (20 + of_nat col * d + d)\<bar> \<le> 6 / 100000"
    by simp
  have "\<bar>(248 - round32 (f32_of_nat row * side)) - (248 - of_nat row * d)\<bar> \<le> 1 / 100000"
    using r(6) by (simp add: abs_minus_commute)
  from round32_close [OF this] r(1,4,5) have y1: "\<bar>y1 - (248 - of_nat row * d)\<bar> \<le> 3 / 100000"
    by (simp add: y1_def)
  then have "\<bar>(y1 - side) - (248 - of_nat row * d - d)\<bar> \<le> 4 / 100000" using r(3) by linarith
  from round32_close [OF this] r(1,4,5) have y0: "\<bar>round32 (y1 - side) - (248 - of_nat row * d - d)\<bar> \<le> 6 / 100000"
    by simp
  have sq: "cell_square side row col = \<lparr>sq_left = x0, sq_bottom = round32 (y1 - side), sq_right = round32 (x0 + side), sq_top = y1\<rparr>"
    by (simp add: cell_square_def Let_def x0_def y1_def)
  have "near x0 (20 + of_nat col * d)" "near (round32 (x0 + side)) (20 + (of_nat col * d + d))" "near y1 (248 - of_nat row * d)"
    "near (round32 (y1 - side)) (248 - (of_nat row * d + d))"
    using x0 x1 y1 y0 unfolding near_def by linarith+
  then show ?thesis
    by (simp add: drawn_at_def Let_def side_def [symmetric] sq d_def [symmetric] distrib_right)
qed

lemma drawn_cells:
  assumes "0 < width" and "width \<le> 177" and "length colors = width * width"
    and "\<forall>(row, col) \<in> set cells. row < width \<and> col < width"
  shows "\<exists>squares. draw_cells width colors (round32 (QR_SIZE_MM / f32_of_nat width)) cells = Some squares \<and>
    list_all2 (drawn_at width) (filter (\<lambda>(row, col). colors ! (row * width + col)) cells) squares"
  using assms(4)
proof (induction cells)
  case (Cons cell cells)
  obtain row col where cell: "cell = (row, col)" by (cases cell)
  with Cons.prems have rc: "row < width" "col < width" by auto
  then have "row * width + col < Suc row * width" by simp
  also have "\<dots> \<le> width * width" using rc by (intro mult_le_mono1) simp
  finally have i: "\<not> length colors \<le> row * width + col" using assms(3) by simp
  from Cons obtain squares where "draw_cells width colors (round32 (QR_SIZE_MM / f32_of_nat width)) cells = Some squares"
    "list_all2 (drawn_at width) (filter (\<lambda>(row, col). colors ! (row * width + col)) cells) squares" by auto
  with cell i cell_square_drawn [OF assms(1,2) rc] show ?case by simp
qed simp

section \<open>Properties\<close>

text \<open>What is relied on of the QR library for a page: its code has a width of at most 177, row by row.\<close>

definition qr_made :: "pdf_lib \<Rightarrow> backup_page \<Rightarrow> bool" where
  "qr_made lib page =
     (case pl_qr lib (utf8_bytes (bp_qr_payload page)) of
        Inl _ \<Rightarrow> False
      | Inr (width, colors) \<Rightarrow> 0 < width \<and> width \<le> 177 \<and> length colors = width * width)"

text \<open>A sheet of a page: the texts within the margins, the squares at the dark modules, in the order of the code.\<close>

definition sheet_of :: "pdf_lib \<Rightarrow> backup_page \<Rightarrow> sheet \<Rightarrow> bool" where
  "sheet_of lib page sh \<longleftrightarrow>
     sh_width sh = PAGE_W_MM \<and> sh_height sh = PAGE_H_MM \<and> sh_texts sh = page_texts page \<and>
     list_all (\<lambda>t. 315 / 10 \<le> pt_height t \<and> pt_height t \<le> 273) (sh_texts sh) \<and>
     (\<exists>width colors. pl_qr lib (utf8_bytes (bp_qr_payload page)) = Inr (width, colors) \<and>
        list_all2 (drawn_at width) (filter (\<lambda>(row, col). colors ! (row * width + col)) (qr_cells width)) (sh_squares sh))"

lemma qr_drawn:
  assumes "qr_made lib page"
  shows "\<exists>width colors squares. pl_qr lib (utf8_bytes (bp_qr_payload page)) = Inr (width, colors) \<and>
    draw_qr lib (bp_qr_payload page) = Some (Inr squares) \<and>
    list_all2 (drawn_at width) (filter (\<lambda>(row, col). colors ! (row * width + col)) (qr_cells width)) squares"
proof -
  from assms obtain width colors where q: "pl_qr lib (utf8_bytes (bp_qr_payload page)) = Inr (width, colors)"
    and w: "0 < width" "width \<le> 177" "length colors = width * width"
    by (auto simp: qr_made_def split: sum.splits)
  have "\<forall>(row, col) \<in> set (qr_cells width). row < width \<and> col < width" by (auto simp: qr_cells_def)
  from drawn_cells [OF w this] q show ?thesis by (auto simp: draw_qr_def Let_def)
qed

lemma pages_drawn:
  "list_all (\<lambda>page. qr_made lib page \<and> list_all (\<lambda>t. 315 / 10 \<le> pt_height t \<and> pt_height t \<le> 273) (page_texts page)) pages \<Longrightarrow>
     \<exists>sheets. draw_pages lib pages = Some (Inr sheets) \<and> list_all2 (sheet_of lib) pages sheets"
proof (induction pages)
  case (Cons page pages)
  then obtain sheets where r: "draw_pages lib pages = Some (Inr sheets)" "list_all2 (sheet_of lib) pages sheets" by auto
  from Cons.prems qr_drawn [of lib page] obtain width colors squares where
    q: "pl_qr lib (utf8_bytes (bp_qr_payload page)) = Inr (width, colors)" "draw_qr lib (bp_qr_payload page) = Some (Inr squares)"
    "list_all2 (drawn_at width) (filter (\<lambda>(row, col). colors ! (row * width + col)) (qr_cells width)) squares" by auto
  with Cons.prems have "sheet_of lib page \<lparr>sh_width = PAGE_W_MM, sh_height = PAGE_H_MM, sh_texts = page_texts page, sh_squares = squares\<rparr>"
    by (simp add: sheet_of_def)
  with r q show ?case by auto
qed simp

definition made_by :: "'j sealing \<Rightarrow> (bytes \<Rightarrow> bytes) \<Rightarrow> (nat \<Rightarrow> 's \<Rightarrow> bytes \<times> 's) \<Rightarrow> backup_page \<Rightarrow> bool" where
  "made_by k sha rng page \<longleftrightarrow>
     (\<exists>name bs password s s'. make_backup_page k sha rng name bs password s = Some (Inr page, s'))"

lemma texts_below: "list_all (\<lambda>t. pt_height t \<le> 273) (page_texts page)"
proof -
  have "list_all (\<lambda>t. pt_height t \<le> 273) (place_lines cs 142)" for cs
    by (auto simp: list_all_length place_lines_heights intro: order_trans [of _ 142])
  then show ?thesis by (simp add: page_texts_def Let_def)
qed

lemma layouts_of_fitting:
  "pages \<noteq> [] \<Longrightarrow> list_all (\<lambda>page. page_layouts [page] = Inr [page_texts page]) pages \<Longrightarrow>
     page_layouts pages = Inr (map page_texts pages)"
proof -
  assume ne: "pages \<noteq> []" and all: "list_all (\<lambda>page. page_layouts [page] = Inr [page_texts page]) pages"
  have "length (split_whitespace (bp_mnemonic page)) \<le> MAX_MNEMONIC_WORDS"
    if "page_layouts [page] = Inr [page_texts page]" for page
    using that by (auto simp: page_layouts_def Let_def split: if_splits)
  with all have "list_all (\<lambda>page. length (split_whitespace (bp_mnemonic page)) \<le> MAX_MNEMONIC_WORDS) pages"
    by (auto simp: list_all_iff)
  then have "\<exists>us. collect_results (\<lambda>page.
             let words = length (split_whitespace (bp_mnemonic page))
             in if words > MAX_MNEMONIC_WORDS
                then Inl (quoted (bp_name page) @ '' needs '' @ show_nat words @ '' mnemonic words, and a page holds '' @
                          show_nat MAX_MNEMONIC_WORDS)
                else Inr ()) pages = Inr us"
    by (induction pages) (auto simp: Let_def)
  with ne show ?thesis by (auto simp: page_layouts_def)
qed

lemma made_sheets:
  assumes "sealing_lawful k" and "draws rng" and "\<forall>x. length (sha x) = 32"
    and "pages \<noteq> []" and "list_all (made_by k sha rng) pages" and "list_all (qr_made lib) pages"
    and "list_all (\<lambda>f. pl_font lib f = Inr ()) [HelveticaBold, Helvetica, Courier]"
  shows "\<exists>sheets. render_backup_pdf lib pages = Some (pl_save lib sheets) \<and> list_all2 (sheet_of lib) pages sheets"
proof -
  have fits: "page_layouts [page] = Inr [page_texts page] \<and> list_all (\<lambda>t. 315 / 10 \<le> pt_height t) (page_texts page)"
    if "made_by k sha rng page" for page
    using that backup_page_fits [OF assms(1-3)] unfolding made_by_def by blast
  have "page_layouts pages = Inr (map page_texts pages)"
    using layouts_of_fitting [OF assms(4)] fits assms(5) by (simp add: list_all_iff)
  moreover have "list_all (\<lambda>page. qr_made lib page \<and> list_all (\<lambda>t. 315 / 10 \<le> pt_height t \<and> pt_height t \<le> 273) (page_texts page)) pages"
    using assms(5,6) fits texts_below unfolding list_all_iff by blast
  from pages_drawn [OF this] obtain sheets where "draw_pages lib pages = Some (Inr sheets)" "list_all2 (sheet_of lib) pages sheets"
    by blast
  ultimately show ?thesis using assms(7) by (auto simp: render_backup_pdf_def)
qed

text \<open>
  C33: Backups fit their sheets. Any pages the vault makes, at least one, are rendered to one sheet each, with no
  panic; then only the fonts and the writing of the file can fail. On a sheet of 210 by 297 mm every
  text lies between 31.5 and 273 mm, and the QR code is a square for each dark module, in the order of
  the code, each within a tenth of a micrometre of its cell of the 80 mm grid at the left margin,
  single precision notwithstanding.\<close>

theorem backup_sheets_fit:
  assumes "sealing_lawful k" and "draws rng" and "\<forall>x. length (sha x) = 32"
    and "pages \<noteq> []" and "list_all (made_by k sha rng) pages" and "list_all (qr_made lib) pages"
    and "list_all (\<lambda>f. pl_font lib f = Inr ()) [HelveticaBold, Helvetica, Courier]"
  shows "\<exists>sheets. render_backup_pdf lib pages = Some (pl_save lib sheets) \<and> list_all2 (sheet_of lib) pages sheets"
  by (rule made_sheets [OF assms])

definition toy_pdf :: pdf_lib where
  "toy_pdf = \<lparr>pl_font = (\<lambda>_. Inr ()), pl_qr = (\<lambda>_. Inr (2, [True, False, False, True])),
     pl_save = (\<lambda>sheets. Inr [of_nat (length sheets)])\<rparr>"

lemma toy_pdf_base: "qr_made toy_pdf page" "list_all (\<lambda>f. pl_font toy_pdf f = Inr ()) [HelveticaBold, Helvetica, Courier]"
  by (simp_all add: qr_made_def toy_pdf_def)

lemma backup_sheet_bytes:
  assumes "sealing_lawful k" and "draws rng" and "\<forall>x. length (sha x) = 32" and "list_all (made_by k sha rng) [page]"
  shows "render_backup_pdf toy_pdf [page] = Some (Inr [1])"
  using made_sheets [OF assms(1-3) _ assms(4), of toy_pdf] toy_pdf_base
  by (auto simp: list_all2_Cons1) (simp_all add: toy_pdf_def)

theorem backup_sheets_fit_witness:
  "\<exists>page sh. render_backup_pdf toy_pdf [page] = Some (Inr [1]) \<and> sheet_of toy_pdf page sh \<and>
     list_all2 (drawn_at 2) [(0, 0), (1, 1)] (sh_squares sh)"
proof -
  obtain page where p: "make_backup_page toy_sealing (\<lambda>_. replicate 32 0) toy_rng ''seed'' (2 # replicate 95 1) (Some ''pw'') (0 :: nat) =
      Some (Inr page, 0)" using toy_page(1) [of "replicate 95 1"] by auto
  have sha: "\<forall>x :: bytes. length (replicate 32 (0 :: u8)) = 32" by simp
  have "made_by toy_sealing (\<lambda>_. replicate 32 0) (toy_rng :: nat \<Rightarrow> nat \<Rightarrow> bytes \<times> nat) page"
    unfolding made_by_def by (intro exI, rule p)
  then have m: "list_all (made_by toy_sealing (\<lambda>_. replicate 32 0) (toy_rng :: nat \<Rightarrow> nat \<Rightarrow> bytes \<times> nat)) [page]" by simp
  from backup_sheets_fit [OF toy_sealing_lawful toy_rng_draws sha _ m, of toy_pdf] toy_pdf_base obtain sheets where
    s: "render_backup_pdf toy_pdf [page] = Some (pl_save toy_pdf sheets)" "list_all2 (sheet_of toy_pdf) [page] sheets" by auto
  then obtain sh where sh: "sheets = [sh]" "sheet_of toy_pdf page sh" by (auto simp: list_all2_Cons1)
  have "filter (\<lambda>(row, col). [True, False, False, True] ! (row * 2 + col)) (qr_cells 2) = [(0, 0), (1, 1)]"
    by (simp add: qr_cells_def upt_rec)
  with sh(2) have "list_all2 (drawn_at 2) [(0, 0), (1, 1)] (sh_squares sh)" by (simp add: sheet_of_def toy_pdf_def)
  moreover have "pl_save toy_pdf [sh] = Inr [1]" by (simp add: toy_pdf_def)
  with s(1) sh(1) have "render_backup_pdf toy_pdf [page] = Some (Inr [1])" by simp
  ultimately show ?thesis using sh(2) by blast
qed

end
