(* ===== verification/VaultCli.thy ===== *)
theory VaultCli
  imports VaultAccount Sheet
begin

text \<open>
  The vault's program, \<open>blockchain_account_vault/src/bin/blockchain-account-vault.rs\<close>: \<open>create\<close>, \<open>seal\<close>, \<open>open\<close>
  and \<open>print\<close>. The state is the disk with a console. The arguments are what \<open>clap\<close> parses; the
  outcome of the prefix search, whose threads \<open>VaultAccount\<close> models, is a parameter. An error is its outermost text, as in \<open>Vault\<close>.
\<close>

section \<open>The console\<close>

text \<open>The lines, or answers of the terminal, still to be read; what was written to the two outputs.\<close>

record console = disk +
  cn_inputs :: "(string + string) list"
  cn_out :: bytes
  cn_err :: "string list"

definition take_input :: "(console, string) vop" where
  "take_input c =
     (case cn_inputs c of
        [] \<Rightarrow> Some (Inr [], c)
      | x # xs \<Rightarrow> Some (x, c\<lparr>cn_inputs := xs\<rparr>))"

definition print_out :: "bytes \<Rightarrow> (console, unit) vop" where
  "print_out bs c = Some (Inr (), c\<lparr>cn_out := cn_out c @ bs\<rparr>)"

definition println :: "string \<Rightarrow> (console, unit) vop" where
  "println s = print_out (utf8_bytes s @ [10])"

definition eprintln :: "string \<Rightarrow> (console, unit) vop" where
  "eprintln s c = Some (Inr (), c\<lparr>cn_err := cn_err c @ [s]\<rparr>)"

text \<open>
  What the program asks of the system: whether standard input is a terminal, the directories, the
  number of cores when it is known, and the time a search took, as text.
\<close>

record cli_system =
  cy_terminal :: bool
  cy_is_dir :: "path \<Rightarrow> bool"
  cy_tree :: "path \<Rightarrow> dir_tree"
  cy_parallelism :: "nat option"
  cy_elapsed :: string

definition trim_line_end :: "string \<Rightarrow> string" where
  "trim_line_end s = rev (dropWhile (\<lambda>c. c \<in> {CHR 0x0D, CHR 0x0A}) (rev s))"

definition read_password :: "bool \<Rightarrow> (console, string) vop" where
  "read_password terminal =
     try_op (with_context (if terminal then ''failed to read the password''
                           else ''failed to read the password from standard input'') take_input) (\<lambda>line.
       let password = (if terminal then line else trim_line_end line)
       in if password = [] then fail ''the password must not be empty'' else ret password)"

definition read_new_password :: "bool \<Rightarrow> (console, string) vop" where
  "read_new_password terminal =
     try_op (read_password terminal) (\<lambda>password.
       if terminal then
         try_op (read_password terminal) (\<lambda>again.
           if again \<noteq> password then fail ''the passwords do not match'' else ret password)
       else ret password)"

abbreviation open_prompt :: "cli_system \<Rightarrow> (console, string) vop" where
  "open_prompt sys \<equiv> read_password (cy_terminal sys)"

text \<open>A directory whose files are under one password: those sealed already must open with it.\<close>

definition check_sealed :: "'j sealing \<Rightarrow> string \<Rightarrow> key_file list \<Rightarrow> (console, unit) vop" where
  "check_sealed k password fs =
     for_each fs (\<lambda>f. try_op (is_sealed f) (\<lambda>s. if s then check_opens k (Some password) (sealed_path f) else ret ()))"

definition check_reference :: "'j sealing \<Rightarrow> string \<Rightarrow> path option \<Rightarrow> (console, unit) vop" where
  "check_reference k password reference =
     (case reference of Some r \<Rightarrow> check_opens k (Some password) r | None \<Rightarrow> ret ())"

section \<open>create\<close>

record create_args =
  ca_file :: path
  ca_prefix :: "string option"
  ca_same_password_as :: "path option"
  ca_plain :: bool
  ca_threads :: "nat option"

text \<open>\<open>Path::parent\<close>: the text before the last component, without the separators and dots that end it.\<close>

fun trim_separators :: "string \<Rightarrow> string" where
  "trim_separators (c # d # cs) =
     (if c = CHR ''/'' then trim_separators (d # cs)
      else if c = CHR ''.'' \<and> d = CHR ''/'' then trim_separators (d # cs)
      else c # d # cs)"
| "trim_separators cs = cs"

definition path_parent :: "path \<Rightarrow> path option" where
  "path_parent p =
     (case rev (components p) of
        [] \<Rightarrow> None
      | RootDir # _ \<Rightarrow> None
      | _ \<Rightarrow> Some (rev (trim_separators (dropWhile (\<lambda>c. c \<noteq> CHR ''/'') (trim_separators (rev p))))))"

definition dir_of :: "path \<Rightarrow> path" where
  "dir_of p = (case path_parent p of Some parent \<Rightarrow> if parent \<noteq> [] then parent else ''.'' | None \<Rightarrow> ''.'')"

text \<open>\<open>search\<close> is what the threads answer for an accepted prefix; \<open>None\<close> for the account is a panic.\<close>

type_synonym prefix_search = "string \<Rightarrow> nat \<Rightarrow> string + account option \<times> u64"

definition find_vanity_account :: "prefix_search \<Rightarrow> string \<Rightarrow> nat \<Rightarrow> string + account option \<times> u64" where
  "find_vanity_account search p threads = rbind (normalise_prefix p) (\<lambda>p. search p threads)"

definition no_panic :: "account option \<Rightarrow> (console, account) vop" where
  "no_panic a = (case a of Some a \<Rightarrow> ret a | None \<Rightarrow> (\<lambda>_. None))"

definition create_account ::
  "cli_system \<Rightarrow> crypto \<Rightarrow> (nat \<Rightarrow> console \<Rightarrow> bytes \<times> console) \<Rightarrow> prefix_search \<Rightarrow> string option \<Rightarrow> nat option \<Rightarrow>
     (console, account) vop" where
  "create_account sys cr rng search p threads =
     (case p of
        None \<Rightarrow> try_op (generate_account cr rng) no_panic
      | Some p \<Rightarrow>
          let threads = (case threads of Some n \<Rightarrow> n | None \<Rightarrow> case cy_parallelism sys of Some n \<Rightarrow> n | None \<Rightarrow> 1)
          in try_op (eprintln (''searching for an address starting '' @ p @ '': about '' @ show_nat (unat (expected_tries (length p))) @
               '' tries on '' @ show_nat threads @ '' thread(s)'')) (\<lambda>_.
             try_op (lift (find_vanity_account search p threads)) (\<lambda>(acct, tries).
             try_op (no_panic acct) (\<lambda>acct.
             try_op (eprintln (''found after '' @ show_nat (unat tries) @ '' tries in '' @ cy_elapsed sys @ ''s'')) (\<lambda>_. ret acct)))))"

definition create_vault ::
  "cli_system \<Rightarrow> 'j sealing \<Rightarrow> create_args \<Rightarrow> path \<Rightarrow> (console, string option) vop" where
  "create_vault sys k args dir =
     (if ca_plain args then ret None
      else
        try_op (read_new_password (cy_terminal sys)) (\<lambda>password.
        try_op (check_reference k password (ca_same_password_as args)) (\<lambda>_.
        try_op (lift (discover dir False (cy_tree sys dir))) (\<lambda>found.
        try_op (check_sealed k password found) (\<lambda>_. ret (Some password))))))"

definition cli_create ::
  "cli_system \<Rightarrow> 'j sealing \<Rightarrow> crypto \<Rightarrow> (nat \<Rightarrow> console \<Rightarrow> bytes \<times> console) \<Rightarrow> prefix_search \<Rightarrow> create_args \<Rightarrow>
     (console, unit) vop" where
  "cli_create sys k cr rng search args =
     (let file = key_file_at (ca_file args); plain_path = kf_plain file; dir = dir_of plain_path in
      if path_extension plain_path \<noteq> Some ''json''
      then fail (''an account key file is named <NAME>.json, not '' @ debug_path plain_path)
      else
        try_op (key_file_exists file) (\<lambda>there.
        if there then fail (debug_path plain_path @ '' exists already (in plain or sealed form)'')
        else if \<not> cy_is_dir sys dir then fail (debug_path dir @ '' is not a directory'')
        else
          try_op (lift (transpose_opt normalise_prefix (ca_prefix args))) (\<lambda>p.
          try_op (create_vault sys k args dir) (\<lambda>vault.
          try_op (create_account sys cr rng search p (ca_threads args)) (\<lambda>acct.
          try_op (lift (to_key_file_json k acct)) (\<lambda>bs.
          try_op (case vault of
                    Some password \<Rightarrow> vault_seal_new k rng (Some password) file bs
                  | None \<Rightarrow> write_new_plain file bs) (\<lambda>written.
          try_op (eprintln (''created '' @ written)) (\<lambda>_. println (acct_address acct)))))))))"

section \<open>seal\<close>

record seal_args =
  sa_dir :: path
  sa_recursive :: bool
  sa_same_password_as :: "path option"

fun seal_all ::
  "'j sealing \<Rightarrow> (nat \<Rightarrow> console \<Rightarrow> bytes \<times> console) \<Rightarrow> string \<Rightarrow> key_file list \<Rightarrow> nat \<Rightarrow> (console, nat) vop" where
  "seal_all k rng password [] n = ret n"
| "seal_all k rng password (f # fs) n =
     try_op (vault_seal k rng (Some password) f) (\<lambda>done.
       if done
       then try_op (println (''sealed '' @ sealed_path f)) (\<lambda>_. seal_all k rng password fs (n + 1))
       else seal_all k rng password fs n)"

definition cli_seal ::
  "cli_system \<Rightarrow> 'j sealing \<Rightarrow> (nat \<Rightarrow> console \<Rightarrow> bytes \<times> console) \<Rightarrow> seal_args \<Rightarrow> (console, unit) vop" where
  "cli_seal sys k rng args =
     try_op (lift (discover (sa_dir args) (sa_recursive args) (cy_tree sys (sa_dir args)))) (\<lambda>fs.
     try_op (collect_ops fs is_sealed) (\<lambda>sealed.
       let unsealed = map fst (filter (\<lambda>(f, s). \<not> s) (zip fs sealed))
       in if unsealed = [] then println (''no unsealed key files in '' @ debug_path (sa_dir args))
          else
            try_op (read_new_password (cy_terminal sys)) (\<lambda>password.
            try_op (check_reference k password (sa_same_password_as args)) (\<lambda>_.
            try_op (check_sealed k password fs) (\<lambda>_.
            try_op (seal_all k rng password unsealed 0) (\<lambda>n.
              println (show_nat n @ '' key file(s) sealed; the plaintext is deleted'')))))))"

section \<open>open and print\<close>

record open_args =
  oa_file :: path
  oa_field :: "string option"

text \<open>An operation of a vault that starts without a password.\<close>

definition with_new_vault :: "(string option \<times> console, 'a) vop \<Rightarrow> (console, 'a) vop" where
  "with_new_vault m c = map_option (\<lambda>(r, _, c). (r, c)) (m (None, c))"

definition cli_open :: "cli_system \<Rightarrow> 'j sealing \<Rightarrow> open_args \<Rightarrow> (console, unit) vop" where
  "cli_open sys k args =
     (let file = key_file_at (oa_file args)
      in try_op (with_new_vault (vault_open k file (open_prompt sys))) (\<lambda>opened.
         case oa_field args of
           Some field \<Rightarrow> try_op (lift (json_field k (op_bytes opened) field)) println
         | None \<Rightarrow> print_out (op_bytes opened)))"

record print_args =
  pa_dir :: path
  pa_out :: path
  pa_recursive :: bool

definition print_page ::
  "cli_system \<Rightarrow> 'j sealing \<Rightarrow> crypto \<Rightarrow> (nat \<Rightarrow> console \<Rightarrow> bytes \<times> console) \<Rightarrow> path \<Rightarrow> key_file \<Rightarrow>
     (string option \<times> console, backup_page) vop" where
  "print_page sys k cr rng dir file =
     (let name = name_under dir file
      in try_op (vault_open k file (open_prompt sys)) (\<lambda>opened.
         try_op cached (\<lambda>password.
           on_rest (make_backup_page k (cr_sha512_256 cr) rng name (op_bytes opened)
             (if op_was_sealed opened then password else None)))))"

text \<open>\<open>std::fs::write\<close>: a file that opens is emptied first.\<close>

definition fs_write :: "path \<Rightarrow> bytes \<Rightarrow> ('p disk_scheme, unit) vop" where
  "fs_write p bs d =
     (case next_fault d of
        (Fails _, d) \<Rightarrow> Some (Inl ''open error'', d)
      | (_, d) \<Rightarrow> fs_write_all p bs (put p (Some []) d))"

text \<open>A computation without effects, whose \<open>None\<close> is a panic.\<close>

definition lift_panic :: "(string + 'a) option \<Rightarrow> (console, 'a) vop" where
  "lift_panic r c = map_option (\<lambda>r. (r, c)) r"

definition cli_print ::
  "cli_system \<Rightarrow> 'j sealing \<Rightarrow> crypto \<Rightarrow> (nat \<Rightarrow> console \<Rightarrow> bytes \<times> console) \<Rightarrow>
     pdf_lib \<Rightarrow> print_args \<Rightarrow> (console, unit) vop" where
  "cli_print sys k cr rng pdf args =
     try_op (lift (discover (pa_dir args) (pa_recursive args) (cy_tree sys (pa_dir args)))) (\<lambda>fs.
       if fs = [] then fail (''no key files (*.json, *.key) in '' @ debug_path (pa_dir args))
       else
         try_op (with_new_vault (collect_ops fs (print_page sys k cr rng (pa_dir args)))) (\<lambda>pages.
         try_op (lift_panic (render_backup_pdf pdf pages)) (\<lambda>bs.
         try_op (with_context (''failed to write '' @ debug_path (pa_out args)) (fs_write (pa_out args) bs)) (\<lambda>_.
           println (show_nat (length pages) @ '' page(s) written to '' @ pa_out args)))))"

datatype command = Create create_args | Seal seal_args | Open open_args | Print print_args

definition vault_main ::
  "cli_system \<Rightarrow> 'j sealing \<Rightarrow> crypto \<Rightarrow> (nat \<Rightarrow> console \<Rightarrow> bytes \<times> console) \<Rightarrow> prefix_search \<Rightarrow>
     pdf_lib \<Rightarrow> command \<Rightarrow> (console, unit) vop" where
  "vault_main sys k cr rng search pdf cmd =
     (case cmd of
        Create args \<Rightarrow> cli_create sys k cr rng search args
      | Seal args \<Rightarrow> cli_seal sys k rng args
      | Open args \<Rightarrow> cli_open sys k args
      | Print args \<Rightarrow> cli_print sys k cr rng pdf args)"

section \<open>No plain key file bears a sealed name\<close>

lemma split_on_none: "d \<notin> set w \<Longrightarrow> split_on d w = [w]"
  by (induction w) auto

lemma split_on_last:
  "d \<notin> set w \<Longrightarrow> \<exists>ws v. split_on d (t @ w) = ws @ [v @ w]"
proof (induction t)
  case Nil
  then have "split_on d ([] @ w) = [] @ [[] @ w]" by (simp add: split_on_none)
  then show ?case by blast
next
  case (Cons c t)
  then obtain ws v where "split_on d (t @ w) = ws @ [v @ w]" by blast
  then show ?case
    by (cases ws; cases "c = d") (auto intro: exI [of _ "[] # ws"] exI [of _ "[]"])
qed

lemma enc_extension: "path_extension (t @ ''.enc'') \<in> {None, Some ''enc''}"
proof -
  obtain ws v where w: "split_on CHR ''/'' (t @ ''.enc'') = ws @ [v @ ''.enc'']" using split_on_last [of "CHR ''/''" "''.enc''" t] by auto
  have n: "v @ ''.enc'' \<noteq> ''..''" "v @ ''.enc'' \<noteq> ''.''"
    using arg_cong [of "v @ ''.enc''" "''..''" length] arg_cong [of "v @ ''.enc''" "''.''" length] by auto
  have "\<exists>cs. components (t @ ''.enc'') = cs @ [Normal (v @ ''.enc'')]"
    using n by (auto simp: components_def w component_of_def Let_def)
  moreover have "snd (split_at_dot (v @ ''.enc'')) \<in> {None, Some ''enc''}"
    by (simp add: split_at_dot_def Let_def)
  ultimately show ?thesis by (auto simp: path_extension_def)
qed

text \<open>A name with a key file's extension does not end in \<open>.enc\<close>, nor does the path it is joined into.\<close>

lemma joined_name:
  assumes "path_extension s \<noteq> None" and "path_extension s \<noteq> Some ''enc''"
  shows "path_join dir s \<noteq> t @ ''.enc''"
proof
  assume j: "path_join dir s = t @ ''.enc''"
  have dot: "CHR ''.'' \<in> set s"
  proof (rule ccontr)
    assume "CHR ''.'' \<notin> set s"
    then have "CHR ''.'' \<notin> set w" if "w \<in> set (split_on CHR ''/'' s)" for w
      using that by (induction s arbitrary: w) (auto split: if_splits list.splits)
    then have "snd (split_at_dot w) = None" if "Normal w \<in> set (components s)" for w
      using that by (auto simp: components_def component_of_def Let_def split_at_dot_def split: if_splits)
    then have "path_extension s = None"
      by (auto simp: path_extension_def rev_eq_Cons_iff split: list.split component.split)
    with assms(1) show False by simp
  qed
  have "\<exists>u. path_join dir s = u @ s"
    by (auto simp: path_join_def intro: exI [of _ "dir @ ''/''"])
  then obtain u where u: "path_join dir s = u @ s" by blast
  from j u have "u @ s = t @ ''.enc''" by simp
  then obtain us where "u = t @ us \<and> us @ s = ''.enc'' \<or> u @ us = t \<and> s = us @ ''.enc''"
    by (auto simp: append_eq_append_conv2)
  moreover have "us = []" if "us @ s = ''.enc''"
    using that dot by (cases us) (auto simp: append_eq_Cons_conv)
  ultimately obtain v where "s = v @ ''.enc''" by auto
  with enc_extension [of v] assms show False by auto
qed

lemma joined_stripped: "s \<noteq> [] \<Longrightarrow> path_join dir (s @ w) = path_join dir s @ w"
  by (cases s) (auto simp: path_join_def starts_with_iff)

lemma key_file_name_plain:
  assumes "is_key_file_name name"
  shows "strip_suffix SEALED_SUFFIX (kf_plain (key_file_at (path_join dir name))) = None"
proof -
  obtain s where s: "s = (case strip_suffix SEALED_SUFFIX name of Some s \<Rightarrow> s | None \<Rightarrow> name)" by blast
  with assms have ext: "path_extension s \<noteq> None" "path_extension s \<noteq> Some ''enc''"
    by (auto simp: is_key_file_name_def Let_def split: option.splits)
  have nonempty: "s \<noteq> []" using ext(1) by (auto simp: path_extension_def components_def component_of_def starts_with_iff)
  have none: "strip_suffix SEALED_SUFFIX (path_join dir s) = None"
  proof (rule ccontr)
    assume "strip_suffix SEALED_SUFFIX (path_join dir s) \<noteq> None"
    then obtain t where "path_join dir s = t @ ''.enc''" by (auto simp: strip_suffix_Some SEALED_SUFFIX_def)
    with joined_name [OF ext] show False by blast
  qed
  have "kf_plain (key_file_at (path_join dir name)) = path_join dir s"
  proof (cases "strip_suffix SEALED_SUFFIX name")
    case None
    with s none show ?thesis by (simp add: key_file_at_def)
  next
    case (Some r)
    with s have "name = s @ SEALED_SUFFIX" by (simp add: strip_suffix_Some)
    with nonempty have "strip_suffix SEALED_SUFFIX (path_join dir name) = Some (path_join dir s)"
      by (simp add: strip_suffix_Some joined_stripped)
    then show ?thesis by (simp add: key_file_at_def)
  qed
  with none show ?thesis by simp
qed

lemma insert_found_subset: "set (insert_found f fs) \<subseteq> insert f (set fs)"
  by (auto simp: insert_found_def insort_insert_key_def set_insort_key)

lemma collect_plain_names:
  "collect_dir dir recursive t found = Inr fs \<Longrightarrow>
     \<forall>f \<in> set found. strip_suffix SEALED_SUFFIX (kf_plain f) = None \<Longrightarrow>
     \<forall>f \<in> set fs. strip_suffix SEALED_SUFFIX (kf_plain f) = None"
  "collect_entries dir recursive es found = Inr fs \<Longrightarrow>
     \<forall>f \<in> set found. strip_suffix SEALED_SUFFIX (kf_plain f) = None \<Longrightarrow>
     \<forall>f \<in> set fs. strip_suffix SEALED_SUFFIX (kf_plain f) = None"
proof (induction dir recursive t found and dir recursive es found arbitrary: fs and fs rule: collect_dir_collect_entries.induct)
  case (5 dir recursive name es found)
  have "\<forall>f \<in> set (if is_key_file_name name then insert_found (key_file_at (path_join dir name)) found else found).
      strip_suffix SEALED_SUFFIX (kf_plain f) = None"
    using "5.prems"(2) key_file_name_plain [of name dir] insert_found_subset [of "key_file_at (path_join dir name)" found] by auto
  with 5 show ?case by simp
next
  case (6 dir recursive name t es found)
  show ?case
  proof (cases recursive)
    case True
    with "6.prems" obtain mid where "collect_dir (path_join dir name) recursive t found = Inr mid"
      "collect_entries dir recursive es mid = Inr fs" by (auto simp: rbind_eq_Inr)
    with "6.IH"(1,2) "6.prems"(2) True show ?thesis by blast
  next
    case False
    with 6 show ?thesis by simp
  qed
qed simp_all

text \<open>The two paths of a key file found are no path of another one.\<close>

definition apart :: "key_file list \<Rightarrow> bool" where
  "apart fs \<longleftrightarrow> (\<forall>f \<in> set fs. \<forall>g \<in> set fs. kf_plain f \<noteq> sealed_path g) \<and>
     (\<forall>f \<in> set fs. \<forall>g \<in> set fs. kf_plain f = kf_plain g \<longrightarrow> f = g) \<and>
     (\<forall>f \<in> set fs. \<forall>g \<in> set fs. sealed_path f = sealed_path g \<longrightarrow> f = g)"

lemma apart_subset: "apart fs \<Longrightarrow> set gs \<subseteq> set fs \<Longrightarrow> apart gs"
  unfolding apart_def by blast

lemma discover_apart: "discover dir recursive t = Inr fs \<Longrightarrow> apart fs \<and> distinct fs"
proof -
  assume d: "discover dir recursive t = Inr fs"
  have "kf_plain f \<noteq> sealed_path g" if "f \<in> set fs" for f g
    using collect_plain_names(1) [OF d [unfolded discover_def]] that strip_suffix_Some [of SEALED_SUFFIX "kf_plain f"]
    by (auto simp: sealed_path_def)
  moreover have "kf_plain f = kf_plain g \<Longrightarrow> f = g" for f g by (cases f; cases g) simp
  moreover have "distinct fs"
    using collect_found(1) [OF d [unfolded discover_def]] distinct_map by (auto simp: in_order_def)
  ultimately show ?thesis by (auto simp: apart_def sealed_path_def)
qed

section \<open>What a run of seal leaves at every moment\<close>

definition tree_as :: "'j sealing \<Rightarrow> string \<Rightarrow> key_file list \<Rightarrow> files \<Rightarrow> files \<Rightarrow> bool" where
  "tree_as k pw fs before now \<longleftrightarrow>
     (\<forall>f \<in> set fs. contents k pw now f = contents k pw before f) \<and>
     (\<forall>q. (\<forall>f \<in> set fs. q \<noteq> kf_plain f \<and> q \<noteq> sealed_path f) \<longrightarrow> now q = before q)"

lemma contents_cong:
  "now (kf_plain f) = before (kf_plain f) \<Longrightarrow> now (sealed_path f) = before (sealed_path f) \<Longrightarrow>
     contents k pw now f = contents k pw before f"
  by (cases "before (kf_plain f)") (simp_all add: contents_def)

lemma seal_keeps_tree:
  assumes "rng_lawful rng" and "apart fs" and "f \<in> set fs"
  shows "keeps (through (tree_as k pw fs before)) (vault_seal k rng (Some pw) f)"
proof (unfold keeps_def, intro allI impI)
  fix d r d'
  assume run: "vault_seal k rng (Some pw) f d = Some (r, d')"
  let ?D = "\<lambda>fs. contents k pw fs f = contents k pw (d_files d) f \<and> (\<forall>q. q \<noteq> kf_plain f \<and> q \<noteq> sealed_path f \<longrightarrow> fs q = d_files d q)"
  show "through (tree_as k pw fs before) d d'"
  proof (unfold through_def, intro impI)
    assume b: "tree_as k pw fs before (d_files d)"
    obtain steps where steps: "seen d' = steps @ seen d" "\<forall>x \<in> set steps. ?D x"
      using conjunct1 [OF seal_through [OF assms(1) run]] unfolding through_def by auto
    have "tree_as k pw fs before x" if "?D x" for x
    proof -
      have "contents k pw x g = contents k pw before g" if g: "g \<in> set fs" for g
      proof (cases "g = f")
        case True
        with \<open>?D x\<close> b g show ?thesis by (simp add: tree_as_def)
      next
        case False
        with assms(2,3) g have "kf_plain g \<noteq> kf_plain f" "kf_plain g \<noteq> sealed_path f" "sealed_path g \<noteq> kf_plain f" "sealed_path g \<noteq> sealed_path f"
          unfolding apart_def by metis+
        with \<open>?D x\<close> have "contents k pw x g = contents k pw (d_files d) g" by (intro contents_cong) auto
        with b g show ?thesis by (simp add: tree_as_def)
      qed
      moreover have "x q = before q" if "\<forall>g \<in> set fs. q \<noteq> kf_plain g \<and> q \<noteq> sealed_path g" for q
        using that \<open>?D x\<close> b assms(3) by (simp add: tree_as_def)
      ultimately show ?thesis by (simp add: tree_as_def)
    qed
    with steps show "\<exists>run. seen d' = run @ seen d \<and> (\<forall>x \<in> set run. tree_as k pw fs before x)" by blast
  qed
qed

text \<open>Reading the console and looking at files changes nothing on the disk.\<close>

lemma keeps_console:
  "keeps (through C) take_input" "keeps (through C) (print_out bs)" "keeps (through C) (eprintln s)" "keeps (through C) (println s)"
  by (auto simp: keeps_def take_input_def print_out_def eprintln_def println_def split: list.splits intro!: through_same)

lemma keeps_for_each: "(\<And>x. keeps (through C) (f x)) \<Longrightarrow> keeps (through C) (for_each xs f)"
  by (induction xs) (auto intro: keeps_through)

lemma keeps_collect: "(\<And>x. keeps (through C) (f x)) \<Longrightarrow> keeps (through C) (collect_ops xs f)"
  by (induction xs) (auto intro!: keeps_through)

lemma keeps_looking:
  "keeps (through C) (read_password terminal)" "keeps (through C) (read_new_password terminal)"
  "keeps (through C) (is_sealed f)" "keeps (through C) (key_file_exists f)" "keeps (through C) (check_opens k pw p)"
proof -
  show r: "keeps (through C) (read_password terminal)"
    unfolding read_password_def Let_def by (intro keeps_through keeps_if keeps_map_err keeps_console)
  show "keeps (through C) (read_new_password terminal)"
    unfolding read_new_password_def by (intro keeps_through keeps_if r)
  show "keeps (through C) (is_sealed f)" "keeps (through C) (key_file_exists f)" "keeps (through C) (check_opens k pw p)"
    unfolding is_sealed_def key_file_exists_def check_opens_def by (intro keeps_through keeps_if keeps_map_err keeps_read)+
qed

lemma keeps_checks:
  "keeps (through C) (check_sealed k pw fs)" "keeps (through C) (check_reference k pw reference)"
  unfolding check_sealed_def check_reference_def
  by (intro keeps_for_each keeps_through keeps_if keeps_looking) (auto split: option.split intro: keeps_through keeps_looking)

lemma keeps_seal_all:
  assumes "rng_lawful rng" and "apart fs" and "set gs \<subseteq> set fs"
  shows "keeps (through (tree_as k pw fs before)) (seal_all k rng pw gs n)"
  using assms(3)
proof (induction gs arbitrary: n)
  case Nil
  show ?case unfolding seal_all.simps by (intro keeps_through)
next
  case (Cons g gs)
  then show ?case
    unfolding seal_all.simps
    by (intro keeps_through keeps_if keeps_console seal_keeps_tree assms(1,2) Cons.IH) auto
qed

lemma tree_as_refl: "tree_as k pw fs before before"
  by (simp add: tree_as_def)

lemma throughI: "through (\<lambda>x. x = d_files d) d d' \<Longrightarrow> C (d_files d) \<Longrightarrow> through C d d'"
  by (auto simp: through_def)

end
