(* ===== verification/VaultRuns.thy ===== *)
theory VaultRuns
  imports VaultCli
begin

text \<open>
  What the runs of the vault's program promise: sealing a tree loses no key at any moment and leaves it
  under one password, creating an account overwrites nothing and shows no plaintext, and printing
  encrypts what was sealed. The witnesses run the program on small disks.
\<close>

section \<open>A disk that works keeps working\<close>

definition calm :: "'p disk_scheme \<Rightarrow> 'q disk_scheme \<Rightarrow> bool" where
  "calm d d' \<longleftrightarrow> (d_faults d = [] \<longrightarrow> d_faults d' = [])"

lemma calm_refl: "reflp calm" and calm_trans: "transp calm"
  by (auto simp: calm_def reflp_def transp_def)

lemma calm_next: "next_fault d = (x, d1) \<Longrightarrow> calm d d1"
  by (auto simp: calm_def next_fault_def split: list.splits)

lemma calm_fs:
  "keeps calm (fs_exists p)" "keeps calm (fs_read p)" "keeps calm (fs_sync_all p)" "keeps calm (fs_create_new p)"
  "keeps calm (fs_write_all p bs)" "keeps calm (fs_remove_file p)"
  by (auto simp: keeps_def fs_defs split: prod.splits fault.splits if_splits dest!: calm_next) (simp_all add: calm_def)

lemmas keeps_calm = keeps_try [OF calm_trans] keeps_attempt [OF calm_trans] keeps_lift [OF calm_refl]
  keeps_ret [OF calm_refl] keeps_fail [OF calm_refl]

lemma calm_map_err: "keeps calm m \<Longrightarrow> keeps calm (map_err g m)"
  unfolding map_err_def by (intro keeps_calm)

definition rng_calm :: "(nat \<Rightarrow> 'p disk_scheme \<Rightarrow> bytes \<times> 'p disk_scheme) \<Rightarrow> bool" where
  "rng_calm rng \<longleftrightarrow> rng_lawful rng \<and> (\<forall>n d. d_faults (snd (rng n d)) = d_faults d)"

lemma calm_draw:
  assumes "rng_calm rng"
  shows "keeps calm (draw rng n)"
proof (unfold keeps_def, intro allI impI)
  fix s r s'
  assume "draw rng n s = Some (r, s')"
  then have "s' = snd (rng n s)" by (auto simp: draw_def split: prod.splits)
  with assms show "calm s s'" by (simp add: rng_calm_def calm_def)
qed

lemma calm_seal: "rng_calm rng \<Longrightarrow> keeps calm (vault_seal k rng pw f)"
  unfolding vault_seal_def seal_beside_def envelope_for_def encrypt_bytes_def write_checked_def write_private_def Let_def
  by (intro keeps_calm keeps_if calm_map_err calm_fs calm_draw)

lemma reliable_is_sealed:
  "d_faults d = [] \<Longrightarrow> is_sealed f d = Some (Inr (d_files d (kf_plain f) = None \<and> d_files d (sealed_path f) \<noteq> None), d)"
  by (simp add: is_sealed_def reliable_disk)

lemma reliable_collect_sealed:
  "d_faults d = [] \<Longrightarrow> collect_ops fs is_sealed d =
     Some (Inr (map (\<lambda>f. d_files d (kf_plain f) = None \<and> d_files d (sealed_path f) \<noteq> None) fs), d)"
  by (induction fs) (simp_all add: reliable_is_sealed)

lemma reliable_check_opens:
  "d_faults d = [] \<Longrightarrow> check_opens k (Some pw) p d = Some (Inr u, d') \<Longrightarrow>
     d' = d \<and> (\<exists>env bs. d_files d p = Some env \<and> decrypt_bytes k env pw = Inr bs)"
  by (cases "d_files d p")
    (auto simp: check_opens_def required_password_def fs_read_def map_err_def try_op_def rbind_eq_Inr split: sum.splits)

lemma reliable_check_sealed:
  "d_faults d = [] \<Longrightarrow> check_sealed k pw fs d = Some (Inr u, d') \<Longrightarrow>
     d' = d \<and> (\<forall>f \<in> set fs. d_files d (kf_plain f) = None \<and> d_files d (sealed_path f) \<noteq> None \<longrightarrow>
       (\<exists>env bs. d_files d (sealed_path f) = Some env \<and> decrypt_bytes k env pw = Inr bs))"
proof (induction fs)
  case (Cons f fs)
  let ?s = "d_files d (kf_plain f) = None \<and> d_files d (sealed_path f) \<noteq> None"
  from Cons.prems(2) obtain d1 where 1: "(if ?s then check_opens k (Some pw) (sealed_path f) else ret ()) d = Some (Inr (), d1)"
      "check_sealed k pw fs d1 = Some (Inr u, d')"
    unfolding check_sealed_def for_each.simps
    by (elim try_op_Some_cases) (auto simp: reliable_is_sealed [OF Cons.prems(1)] split: if_splits)
  have "d1 = d" "?s \<Longrightarrow> \<exists>env bs. d_files d (sealed_path f) = Some env \<and> decrypt_bytes k env pw = Inr bs"
    using 1(1) reliable_check_opens [OF Cons.prems(1), of k pw "sealed_path f" "()" d1] by (auto split: if_splits)
  with Cons 1(2) show ?case by auto
qed (simp add: check_sealed_def)

lemma reliable_seal_all:
  assumes "rng_calm rng" and "apart fs" and "set gs \<subseteq> set fs" and "distinct gs" and "d_faults c = []"
    and "\<forall>g \<in> set gs. \<not> (d_files c (kf_plain g) = None \<and> d_files c (sealed_path g) \<noteq> None)" and "seal_all k rng pw gs n c = Some (Inr m, c')"
  shows "(\<forall>g \<in> set gs. d_files c' (kf_plain g) = None \<and> contents k pw (d_files c) g \<noteq> None) \<and> m = n + length gs"
  using assms(3-7)
proof (induction gs arbitrary: n c)
  case (Cons g gs)
  have rng: "rng_lawful rng" using assms(1) by (simp add: rng_calm_def)
  from Cons.prems(5) obtain dn c1 where s: "vault_seal k rng (Some pw) g c = Some (Inr dn, c1)"
    and rest: "(if dn then try_op (println (''sealed '' @ sealed_path g)) (\<lambda>_. seal_all k rng pw gs (n + 1)) else seal_all k rng pw gs n) c1 =
      Some (Inr m, c')"
    by (auto elim: try_op_Some_cases)
  have dn
    using s Cons.prems(3,4)
    by (auto simp: vault_seal_def Let_def required_password_def reliable_disk elim!: try_op_Some_cases split: if_splits)
  note t = seal_through [OF rng s]
  have calm1: "d_faults c1 = []" using keepsD [OF calm_seal [OF assms(1)] s] Cons.prems(3) by (simp add: calm_def)
  obtain c2 where c2: "println (''sealed '' @ sealed_path g) c1 = Some (Inr (), c2)" "d_files c2 = d_files c1" "d_faults c2 = d_faults c1"
    by (simp add: println_def print_out_def)
  with rest \<open>dn\<close> have run: "seal_all k rng pw gs (n + 1) c2 = Some (Inr m, c')" by simp
  have others: "d_files c1 q = d_files c q" if "q \<noteq> kf_plain g" "q \<noteq> sealed_path g" for q
    using through_last [OF conjunct1 [OF t]] that by simp
  have sep: "kf_plain h \<noteq> kf_plain g \<and> kf_plain h \<noteq> sealed_path g \<and> sealed_path h \<noteq> kf_plain g \<and> sealed_path h \<noteq> sealed_path g"
    if "h \<in> set gs" for h
  proof -
    have "h \<noteq> g" "h \<in> set fs" "g \<in> set fs" using that Cons.prems(1,2) by auto
    with assms(2) show ?thesis unfolding apart_def by metis
  qed
  have "\<forall>h \<in> set gs. \<not> (d_files c2 (kf_plain h) = None \<and> d_files c2 (sealed_path h) \<noteq> None)"
    using Cons.prems(4) others sep c2 by simp
  with Cons.IH [OF _ _ _ _ run] Cons.prems(1,2) calm1 c2 have
    ih: "\<forall>h \<in> set gs. d_files c' (kf_plain h) = None \<and> contents k pw (d_files c2) h \<noteq> None" "m = n + 1 + length gs" by auto
  have same: "contents k pw (d_files c2) h = contents k pw (d_files c) h" if "h \<in> set gs" for h
    using others sep [OF that] c2 by (intro contents_cong) auto
  have "apart gs" using assms(2) Cons.prems(1) by (auto intro: apart_subset)
  from keepsD [OF keeps_seal_all [OF rng this order_refl, where before = "d_files c2"] run]
  have "tree_as k pw gs (d_files c2) (d_files c')" by (rule through_last) (rule tree_as_refl)
  moreover have "\<forall>h \<in> set gs. kf_plain g \<noteq> kf_plain h \<and> kf_plain g \<noteq> sealed_path h" using sep by fastforce
  ultimately have "d_files c' (kf_plain g) = d_files c2 (kf_plain g)" by (simp add: tree_as_def)
  with ih same t \<open>dn\<close> c2 show ?case by simp
qed simp

text \<open>The password that is typed depends only on the inputs, which looking at files leaves alone.\<close>

definition typed_password :: "bool \<Rightarrow> console \<Rightarrow> string option" where
  "typed_password terminal c = Option.bind (read_new_password terminal c) (\<lambda>(r, _). rok r)"

definition next_password :: "bool \<Rightarrow> (string + string) list \<Rightarrow> string + string" where
  "next_password terminal inputs =
     (case inputs of
        [] \<Rightarrow> Inl ''the password must not be empty''
      | Inl e # _ \<Rightarrow>
          Inl (if terminal then ''failed to read the password'' else ''failed to read the password from standard input'')
      | Inr line # _ \<Rightarrow>
          if (if terminal then line else trim_line_end line) = [] then Inl ''the password must not be empty''
          else Inr (if terminal then line else trim_line_end line))"

lemma read_password_eq: "read_password terminal c = Some (next_password terminal (cn_inputs c), c\<lparr>cn_inputs := tl (cn_inputs c)\<rparr>)"
proof (cases "cn_inputs c")
  case Nil
  then have "c\<lparr>cn_inputs := []\<rparr> = c" by (cases c) simp
  with Nil show ?thesis
    by (simp add: read_password_def take_input_def map_err_def try_op_def next_password_def Let_def trim_line_end_def)
next
  case (Cons x xs)
  then show ?thesis
    by (cases x) (simp_all add: read_password_def take_input_def map_err_def try_op_def next_password_def Let_def)
qed

lemma typed_password_eq:
  "typed_password terminal c =
     Option.bind (rok (next_password terminal (cn_inputs c))) (\<lambda>pw.
       if terminal \<and> next_password terminal (tl (cn_inputs c)) \<noteq> Inr pw then None else Some pw)"
  by (cases "next_password terminal (cn_inputs c)"; cases "next_password terminal (tl (cn_inputs c))")
    (auto simp: typed_password_def read_new_password_def read_password_eq try_op_def)

lemma typed_password_cong: "cn_inputs c1 = cn_inputs c \<Longrightarrow> typed_password terminal c1 = typed_password terminal c"
  by (simp add: typed_password_eq)

lemma keeps_inputs: "keeps (\<lambda>a b. cn_inputs b = cn_inputs a) (collect_ops fs is_sealed :: (console, bool list) vop)"
proof (induction fs)
  case (Cons f fs)
  have t: "transp (\<lambda>a b. cn_inputs b = cn_inputs (a :: console))" "reflp (\<lambda>a b. cn_inputs b = cn_inputs (a :: console))"
    by (auto simp: transp_def reflp_def)
  have e: "keeps (\<lambda>a b. cn_inputs b = cn_inputs a) (fs_exists p :: (console, bool) vop)" for p
    by (auto simp: keeps_def fs_exists_def next_fault_def split: prod.splits fault.splits list.splits)
  have "keeps (\<lambda>a b. cn_inputs b = cn_inputs a) (is_sealed f :: (console, bool) vop)"
    unfolding is_sealed_def by (intro keeps_try [OF t(1)] keeps_if keeps_ret [OF t(2)] e)
  with Cons show ?case
    unfolding collect_ops.simps by (intro keeps_try [OF t(1)] keeps_ret [OF t(2)])
qed (auto simp: keeps_def)

text \<open>A run of \<open>seal\<close> reads its password before it touches the disk.\<close>

lemma cli_seal_through:
  assumes "rng_lawful rng" and "cli_seal sys k rng args c = Some (r, c')"
    and "discover (sa_dir args) (sa_recursive args) (cy_tree sys (sa_dir args)) = Inr fs"
  shows "through (\<lambda>x. x = d_files c) c c' \<or>
    (\<exists>pw. typed_password (cy_terminal sys) c = Some pw \<and> through (tree_as k pw fs (d_files c)) c c')"
proof -
  let ?S = "\<lambda>x. x = d_files c"
  have ap: "apart fs" using discover_apart [OF assms(3)] by simp
  have same: "through (tree_as k pw fs (d_files c)) c c1" if "through ?S c c1" for pw c1
    by (rule throughI [OF that]) (rule tree_as_refl)
  let ?ask = "\<lambda>unsealed. try_op (read_new_password (cy_terminal sys)) (\<lambda>password.
      try_op (check_reference k password (sa_same_password_as args)) (\<lambda>_.
      try_op (check_sealed k password fs) (\<lambda>_.
      try_op (seal_all k rng password unsealed 0) (\<lambda>n.
        println (show_nat n @ '' key file(s) sealed; the plaintext is deleted'')))))"
  from assms(2,3) have run: "try_op (collect_ops fs is_sealed) (\<lambda>sealed.
      let unsealed = map fst (filter (\<lambda>(f, s). \<not> s) (zip fs sealed))
      in if unsealed = [] then println (''no unsealed key files in '' @ debug_path (sa_dir args)) else ?ask unsealed) c = Some (r, c')"
    by (simp add: cli_seal_def)
  have keeps_collected: "keeps (through ?S) (collect_ops fs is_sealed)" by (intro keeps_collect keeps_looking)
  from run show ?thesis
  proof (cases rule: try_op_Some_cases)
    case (err e)
    with keeps_collected have "through ?S c c'" by (blast dest: keepsD)
    then show ?thesis by blast
  next
    case (ok sealed c1)
    note collected = ok(1)
    note c1 = keepsD [OF keeps_collected ok(1)]
    define unsealed where "unsealed = map fst (filter (\<lambda>(f, s). \<not> s) (zip fs sealed))"
    have sub: "set unsealed \<subseteq> set fs" by (auto simp: unsealed_def dest: set_zip_leftD)
    show ?thesis
    proof (cases "unsealed = []")
      case True
      with ok(2) have "println (''no unsealed key files in '' @ debug_path (sa_dir args)) c1 = Some (r, c')"
        by (simp add: unsealed_def [symmetric] Let_def)
      from transpD [OF through_trans c1 keepsD [OF keeps_console(4) this]] show ?thesis by blast
    next
      case False
      with ok(2) have "?ask unsealed c1 = Some (r, c')" by (simp add: unsealed_def [symmetric] Let_def)
      then show ?thesis
      proof (cases rule: try_op_Some_cases)
        case (err e)
        from transpD [OF through_trans c1 keepsD [OF keeps_looking(2) err(1)]] show ?thesis by blast
      next
        case (ok pw c2)
        from transpD [OF through_trans c1 keepsD [OF keeps_looking(2) ok(1)]] same
        have 2: "through (tree_as k pw fs (d_files c)) c c2" by blast
        have rest: "keeps (through (tree_as k pw fs (d_files c))) (try_op (check_reference k pw (sa_same_password_as args)) (\<lambda>_.
            try_op (check_sealed k pw fs) (\<lambda>_.
            try_op (seal_all k rng pw unsealed 0) (\<lambda>n.
              println (show_nat n @ '' key file(s) sealed; the plaintext is deleted'')))))"
          by (intro keeps_through keeps_checks keeps_console keeps_seal_all assms(1) ap sub)
        have "typed_password (cy_terminal sys) c1 = Some pw" using ok(1) by (simp add: typed_password_def)
        then have "typed_password (cy_terminal sys) c = Some pw"
          using typed_password_cong [OF keepsD [OF keeps_inputs collected]] by simp
        with transpD [OF through_trans 2 keepsD [OF rest ok(2)]] show ?thesis by blast
      qed
    qed
  qed
qed

section \<open>Properties\<close>

text \<open>
  C5: Sealing a tree never loses a key. For every run of \<open>seal\<close> on a directory, whatever fails on the way
  and wherever it is cut off, at every moment every key file found has the contents it had, under
  the password that was typed, and no other file is touched; when no password was typed, nothing
  changes at all.
\<close>

theorem seal_tree_never_loses:
  assumes "rng_lawful rng" and "cli_seal sys k rng args c = Some (r, c')"
  shows "\<exists>run. seen c' = run @ seen c \<and>
    (case discover (sa_dir args) (sa_recursive args) (cy_tree sys (sa_dir args)) of
       Inl e \<Rightarrow> r = Inl e \<and> run = []
     | Inr found \<Rightarrow>
         (case typed_password (cy_terminal sys) c of
            None \<Rightarrow> list_all (\<lambda>now. now = d_files c) run
          | Some pw \<Rightarrow> list_all (\<lambda>now.
              list_all (\<lambda>f. contents k pw now f = contents k pw (d_files c) f) found \<and>
              (\<forall>q. list_all (\<lambda>f. q \<noteq> kf_plain f \<and> q \<noteq> sealed_path f) found \<longrightarrow> now q = d_files c q)) run))"
proof (cases "discover (sa_dir args) (sa_recursive args) (cy_tree sys (sa_dir args))")
  case (Inl e)
  with assms(2) have "c' = c \<and> r = Inl e" by (simp add: cli_seal_def)
  with Inl show ?thesis by (auto intro!: exI [of _ "[]"])
next
  case (Inr fs)
  from cli_seal_through [OF assms Inr] consider "through (\<lambda>x. x = d_files c) c c'"
    | pw where "typed_password (cy_terminal sys) c = Some pw" "through (tree_as k pw fs (d_files c)) c c'" by blast
  then show ?thesis
  proof cases
    case 1
    then obtain run where "seen c' = run @ seen c" "\<forall>now \<in> set run. now = d_files c" by (auto simp: through_def)
    then show ?thesis by (intro exI [of _ run]) (auto simp: Inr list_all_iff split: option.split)
  next
    case 2
    with tree_as_refl [of k pw fs "d_files c"] obtain run where
      "seen c' = run @ seen c" "\<forall>now \<in> set run. tree_as k pw fs (d_files c) now" unfolding through_def by blast
    with 2(1) show ?thesis by (intro exI [of _ run]) (auto simp: Inr list_all_iff tree_as_def)
  qed
qed

lemma read_password_files:
  "read_new_password terminal c = Some (r, c1) \<Longrightarrow> d_files c1 = d_files c \<and> d_faults c1 = d_faults c"
  by (auto simp: read_new_password_def read_password_eq try_op_def split: sum.splits if_splits)

text \<open>What \<open>seal\<close> does on a disk that works; a key file is unsealed unless only its sealed form is there.\<close>

definition unsealed_in :: "files \<Rightarrow> key_file list \<Rightarrow> key_file list" where
  "unsealed_in fs found = filter (\<lambda>f. \<not> (fs (kf_plain f) = None \<and> fs (sealed_path f) \<noteq> None)) found"

lemma cli_seal_reliable:
  assumes "d_faults c = []" and "discover (sa_dir args) (sa_recursive args) (cy_tree sys (sa_dir args)) = Inr found"
  shows "cli_seal sys k rng args c =
    (if unsealed_in (d_files c) found = [] then println (''no unsealed key files in '' @ debug_path (sa_dir args)) c
     else try_op (read_new_password (cy_terminal sys)) (\<lambda>password.
       try_op (check_reference k password (sa_same_password_as args)) (\<lambda>_.
       try_op (check_sealed k password found) (\<lambda>_.
       try_op (seal_all k rng password (unsealed_in (d_files c) found) 0) (\<lambda>n.
         println (show_nat n @ '' key file(s) sealed; the plaintext is deleted''))))) c)"
proof -
  have z: "map fst (filter (\<lambda>(f, s). \<not> s)
      (zip found (map (\<lambda>f. d_files c (kf_plain f) = None \<and> d_files c (sealed_path f) \<noteq> None) found))) = unsealed_in (d_files c) found"
    unfolding unsealed_in_def by (induction found) auto
  have l: "try_op (lift (Inr found)) g c = g found c" for g :: "key_file list \<Rightarrow> (console, unit) vop" by simp
  have r: "try_op (collect_ops found is_sealed) g c =
      g (map (\<lambda>f. d_files c (kf_plain f) = None \<and> d_files c (sealed_path f) \<noteq> None) found) c" for g :: "bool list \<Rightarrow> (console, unit) vop"
    by (simp add: reliable_collect_sealed [OF assms(1)])
  show ?thesis unfolding cli_seal_def assms(2) l r Let_def z by (rule if_distribR)
qed

lemma reliable_check_reference:
  "d_faults d = [] \<Longrightarrow> check_reference k pw reference d = Some (Inr u, d') \<Longrightarrow>
     d' = d \<and> (\<forall>p. reference = Some p \<longrightarrow> (\<exists>env bs. d_files d p = Some env \<and> decrypt_bytes k env pw = Inr bs))"
  by (cases reference) (auto simp: check_reference_def dest: reliable_check_opens)

text \<open>
  C10: One tree, one password. When \<open>seal\<close> succeeds on a disk that works, then either every key file found
  was sealed already and nothing has changed, or afterwards every key file found is there only in
  sealed form and opens, under the one password that was typed, to exactly the bytes it held: those
  sealed before too; and so does the reference file, if one was named. All the files that were in the
  clear are counted.
\<close>

theorem seal_one_password:
  assumes "rng_calm rng" and "d_faults c = []" and "cli_seal sys k rng args c = Some (Inr (), c')"
    and "discover (sa_dir args) (sa_recursive args) (cy_tree sys (sa_dir args)) = Inr found"
  shows "(d_files c' = d_files c \<and> unsealed_in (d_files c) found = []) \<or>
    (\<exists>pw. typed_password (cy_terminal sys) c = Some pw \<and>
      list_all (\<lambda>f. d_files c' (kf_plain f) = None \<and>
        (\<exists>env bs. d_files c' (sealed_path f) = Some env \<and> decrypt_bytes k env pw = Inr bs \<and>
           contents k pw (d_files c) f = Some bs)) found \<and>
      (case sa_same_password_as args of None \<Rightarrow> True
       | Some p \<Rightarrow> \<exists>env bs. d_files c p = Some env \<and> decrypt_bytes k env pw = Inr bs) \<and>
      (\<exists>before. cn_out c' = before @ utf8_bytes (show_nat (length (unsealed_in (d_files c) found)) @
          '' key file(s) sealed; the plaintext is deleted'') @ [10]))"
proof -
  let ?open = "unsealed_in (d_files c) found"
  have rng: "rng_lawful rng" using assms(1) by (simp add: rng_calm_def)
  have ap: "apart found" "distinct found" using discover_apart [OF assms(4)] by auto
  show ?thesis
  proof (cases "?open = []")
    case True
    with assms(3) show ?thesis by (auto simp: cli_seal_reliable [OF assms(2,4)] println_def print_out_def)
  next
    case False
    with assms(3) obtain pw c1 c2 c3 n c4 where pw: "read_new_password (cy_terminal sys) c = Some (Inr pw, c1)"
      and ref: "check_reference k pw (sa_same_password_as args) c1 = Some (Inr (), c2)"
      and chk: "check_sealed k pw found c2 = Some (Inr (), c3)"
      and all: "seal_all k rng pw ?open 0 c3 = Some (Inr n, c4)"
      and out: "println (show_nat n @ '' key file(s) sealed; the plaintext is deleted'') c4 = Some (Inr (), c')"
      by (auto simp: cli_seal_reliable [OF assms(2,4)] elim!: try_op_Some_cases)
    have 1: "d_files c1 = d_files c" "d_faults c1 = []" using read_password_files [OF pw] assms(2) by auto
    have 2: "c2 = c1" and reference: "\<forall>p. sa_same_password_as args = Some p \<longrightarrow>
        (\<exists>env bs. d_files c p = Some env \<and> decrypt_bytes k env pw = Inr bs)"
      using reliable_check_reference [OF 1(2) ref] 1 by auto
    have 3: "c3 = c1" and closed: "\<And>f. f \<in> set found \<Longrightarrow> f \<notin> set ?open \<Longrightarrow>
        \<exists>env bs. d_files c (sealed_path f) = Some env \<and> decrypt_bytes k env pw = Inr bs"
      using reliable_check_sealed [OF _ chk] 1 2 by (auto simp: unsealed_in_def)
    have 4: "d_files c' = d_files c4" "cn_out c' = cn_out c4 @ utf8_bytes (show_nat n @ '' key file(s) sealed; the plaintext is deleted'') @ [10]"
      using out by (auto simp: println_def print_out_def)
    have sub: "set ?open \<subseteq> set found" by (auto simp: unsealed_in_def)
    have kept: "tree_as k pw ?open (d_files c) (d_files c')"
      using through_last [OF keepsD [OF keeps_seal_all [OF rng apart_subset [OF ap(1) sub] order_refl] all]] tree_as_refl 1 3 4
      by metis
    have "(\<forall>f \<in> set ?open. d_files c4 (kf_plain f) = None \<and> contents k pw (d_files c3) f \<noteq> None) \<and> n = 0 + length ?open"
    proof (rule reliable_seal_all [OF assms(1) ap(1) sub _ _ _ all])
      show "distinct ?open" using ap(2) by (simp add: unsealed_in_def)
      show "d_faults c3 = []" using 1 3 by simp
      show "\<forall>g \<in> set ?open. \<not> (d_files c3 (kf_plain g) = None \<and> d_files c3 (sealed_path g) \<noteq> None)"
        using 1 3 by (auto simp: unsealed_in_def)
    qed
    with 1 3 4 have sealed: "d_files c' (kf_plain f) = None \<and> contents k pw (d_files c) f \<noteq> None" if "f \<in> set ?open" for f
      using that by simp
    from \<open>_ \<and> n = 0 + length ?open\<close> have count: "n = length ?open" by simp
    have "d_files c' (kf_plain f) = None \<and> (\<exists>env bs. d_files c' (sealed_path f) = Some env \<and> decrypt_bytes k env pw = Inr bs \<and>
        contents k pw (d_files c) f = Some bs)" if f: "f \<in> set found" for f
    proof (cases "f \<in> set ?open")
      case True
      with kept have "contents k pw (d_files c') f = contents k pw (d_files c) f" by (simp add: tree_as_def)
      with sealed [OF True] show ?thesis by (auto simp: contents_def bind_eq_Some_conv)
    next
      case False
      have "kf_plain f \<noteq> kf_plain g \<and> kf_plain f \<noteq> sealed_path g \<and> sealed_path f \<noteq> kf_plain g \<and> sealed_path f \<noteq> sealed_path g"
        if "g \<in> set ?open" for g
        using that sub f False ap(1) unfolding apart_def by (metis subsetD)
      then have "d_files c' (kf_plain f) = d_files c (kf_plain f)" "d_files c' (sealed_path f) = d_files c (sealed_path f)"
        using kept by (auto simp: tree_as_def)
      moreover have "d_files c (kf_plain f) = None" using False f by (auto simp: unsealed_in_def)
      ultimately show ?thesis using closed [OF f False] by (auto simp: contents_def)
    qed
    moreover have "typed_password (cy_terminal sys) c = Some pw" using pw by (simp add: typed_password_def)
    ultimately show ?thesis
      using reference 4 count by (intro disjI2 exI [of _ pw]) (auto simp: list_all_iff split: option.split)
  qed
qed

section \<open>Creating an account\<close>

lemma keeps_panic: "keeps R (\<lambda>_. None)"
  by (simp add: keeps_def)

lemma keeps_create_account:
  assumes "rng_lawful rng"
  shows "keeps (through C) (create_account sys cr rng search p threads)"
proof -
  have "keeps (through C) (no_panic a)" for a
    unfolding no_panic_def by (cases a) (auto intro: keeps_through keeps_panic)
  moreover have "keeps (through C) (generate_account cr rng)"
    unfolding generate_account_def random_seed_def by (intro keeps_through keeps_draw assms)
  ultimately show ?thesis
    unfolding create_account_def Let_def
    by (cases p) (auto intro!: keeps_through keeps_console split: prod.split)
qed

lemma keeps_create_vault: "keeps (through C) (create_vault sys k args dir)"
  unfolding create_vault_def by (intro keeps_if keeps_through keeps_looking keeps_checks)

lemma keeps_try_value:
  assumes "transp R" and "keeps R m" and "\<And>s x s'. m s = Some (Inr x, s') \<Longrightarrow> P x" and "\<And>x. P x \<Longrightarrow> keeps R (f x)"
  shows "keeps R (try_op m f)"
proof (unfold keeps_def, intro allI impI)
  fix s r s'
  assume "try_op m f s = Some (r, s')"
  then show "R s s'"
  proof (cases rule: try_op_Some_cases)
    case (err e)
    with assms(2) show ?thesis by (auto simp: keeps_def)
  next
    case (ok x s1)
    with assms(2) assms(4) [OF assms(3) [OF ok(1)]] have "R s s1" and "R s1 s'" by (auto simp: keeps_def)
    with assms(1) show ?thesis by (rule transpD)
  qed
qed

lemma create_vault_password: "create_vault sys k args dir c = Some (Inr v, c') \<Longrightarrow> (v = None) = ca_plain args"
  unfolding create_vault_def by (auto elim!: try_op_Some_cases split: if_splits)

text \<open>What is on disk stays as it is, and a sealed account's plaintext never reaches it.\<close>

definition untouched :: "create_args \<Rightarrow> files \<Rightarrow> files \<Rightarrow> bool" where
  "untouched args before now \<longleftrightarrow>
     (\<forall>q. before q \<noteq> None \<or> \<not> ca_plain args \<and> q \<noteq> sealed_path (key_file_at (ca_file args)) \<longrightarrow> now q = before q)"

lemma keeps_create:
  assumes "rng_lawful rng"
  shows "keeps (through (untouched args before)) (cli_create sys k cr rng search args)"
proof -
  let ?file = "key_file_at (ca_file args)"
  have w: "keeps (through (untouched args before))
      (case v of Some password \<Rightarrow> vault_seal_new k rng (Some password) ?file bs | None \<Rightarrow> write_new_plain ?file bs)"
    if "(v = None) = ca_plain args" for v bs
  proof (cases v)
    case None
    with that have "untouched args before = (\<lambda>now. \<forall>q. before q \<noteq> None \<longrightarrow> now q = before q)"
      by (simp add: untouched_def fun_eq_iff)
    with None keeps_new_plain [of before ?file bs] show ?thesis by simp
  next
    case (Some pw)
    with that have "untouched args before = (\<lambda>now. \<forall>q. (before q \<noteq> None \<or> q \<noteq> sealed_path ?file) \<longrightarrow> now q = before q)"
      by (simp add: untouched_def fun_eq_iff)
    with Some keeps_seal_new [OF assms, of before ?file k pw bs] show ?thesis by simp
  qed
  show ?thesis
    unfolding cli_create_def Let_def
    by (intro keeps_if keeps_through keeps_looking keeps_create_account keeps_console w assms
      keeps_try_value [OF through_trans keeps_create_vault create_vault_password])
qed

lemma keeps_inputs_exists: "keeps (\<lambda>a b. cn_inputs b = cn_inputs a) (key_file_exists f :: (console, bool) vop)"
proof -
  have t: "transp (\<lambda>a b. cn_inputs b = cn_inputs (a :: console))" "reflp (\<lambda>a b. cn_inputs b = cn_inputs (a :: console))"
    by (auto simp: transp_def reflp_def)
  have "keeps (\<lambda>a b. cn_inputs b = cn_inputs a) (fs_exists p :: (console, bool) vop)" for p
    by (auto simp: keeps_def fs_exists_def next_fault_def split: prod.splits fault.splits list.splits)
  then show ?thesis unfolding key_file_exists_def by (intro keeps_try [OF t(1)] keeps_if keeps_ret [OF t(2)])
qed

lemma sealed_account:
  assumes "rng_lawful rng" and "cli_create sys k cr rng search args c = Some (Inr (), c')" and "\<not> ca_plain args"
  obtains pw acct bs before env c1 c2 where "typed_password (cy_terminal sys) c = Some pw" and "to_key_file_json k acct = Inr bs"
    and "cn_out c' = before @ utf8_bytes (acct_address acct) @ [10]"
    and "d_files c (sealed_path (key_file_at (ca_file args))) = None"
    and "d_files c' (sealed_path (key_file_at (ca_file args))) = Some env" and "decrypt_bytes k env pw = Inr bs"
    and "d_faults c = [] \<longrightarrow> c1 = c" and "create_vault sys k args (dir_of (kf_plain (key_file_at (ca_file args)))) c1 = Some (Inr (Some pw), c2)"
proof -
  let ?file = "key_file_at (ca_file args)" and ?dir = "dir_of (kf_plain (key_file_at (ca_file args)))"
  let ?E = "\<lambda>now. now = d_files c"
  from assms(2) obtain c1 p v c2 acct c3 bs written c4 c5 where
    ex: "key_file_exists ?file c = Some (Inr False, c1)" and
    vault: "create_vault sys k args ?dir c1 = Some (Inr v, c2)" and
    acct: "create_account sys cr rng search p (ca_threads args) c2 = Some (Inr acct, c3)" and
    json: "to_key_file_json k acct = Inr bs" and
    written: "(case v of Some pw \<Rightarrow> vault_seal_new k rng (Some pw) ?file bs | None \<Rightarrow> write_new_plain ?file bs) c3 = Some (Inr written, c4)" and
    said: "eprintln (''created '' @ written) c4 = Some (Inr (), c5)" and out: "println (acct_address acct) c5 = Some (Inr (), c')"
    unfolding cli_create_def Let_def by (auto elim!: try_op_Some_cases split: if_splits)
  from create_vault_password [OF vault] assms(3) obtain pw where v: "v = Some pw" by auto
  have E: "through ?E c c1" "through ?E c1 c2" "through ?E c2 c3"
    using keepsD [OF keeps_looking(4) ex] keepsD [OF keeps_create_vault vault] keepsD [OF keeps_create_account [OF assms(1)] acct] by auto
  from transpD [OF through_trans transpD [OF through_trans E(1,2)] E(3)] have "through ?E c c3" .
  from through_last [OF this] have c3: "d_files c3 = d_files c" by simp
  from written v have w: "vault_seal_new k rng (Some pw) ?file bs c3 = Some (Inr written, c4)" by simp
  note s = seal_new_written [OF assms(1) w]
  have c': "d_files c' = d_files c4" "cn_out c' = cn_out c5 @ utf8_bytes (acct_address acct) @ [10]"
    using said out by (auto simp: eprintln_def println_def print_out_def)
  have "typed_password (cy_terminal sys) c1 = Some pw"
    using vault v assms(3) by (auto simp: create_vault_def typed_password_def elim!: try_op_Some_cases split: if_splits)
  then have typed: "typed_password (cy_terminal sys) c = Some pw"
    using typed_password_cong [OF keepsD [OF keeps_inputs_exists ex]] by simp
  have "d_faults c = [] \<longrightarrow> c1 = c"
    using ex by (auto simp: key_file_exists_def reliable_disk try_op_def split: if_splits)
  moreover from s c3 c' obtain env where "d_files c (sealed_path ?file) = None" "d_files c' (sealed_path ?file) = Some env"
      "decrypt_bytes k env pw = Inr bs" by auto
  ultimately show thesis using that typed json c'(2) vault v by blast
qed

lemma create_vault_checked:
  assumes "d_faults c = []" and "create_vault sys k args dir c = Some (Inr (Some pw), c2)"
  shows "(\<forall>found. discover dir False (cy_tree sys dir) = Inr found \<longrightarrow>
      list_all (\<lambda>f. d_files c (kf_plain f) = None \<and> d_files c (sealed_path f) \<noteq> None \<longrightarrow>
        (\<exists>env bs. d_files c (sealed_path f) = Some env \<and> decrypt_bytes k env pw = Inr bs)) found) \<and>
    (case ca_same_password_as args of None \<Rightarrow> True
     | Some p \<Rightarrow> \<exists>env bs. d_files c p = Some env \<and> decrypt_bytes k env pw = Inr bs)"
proof -
  from assms(2) obtain c1 c1' found where pw: "read_new_password (cy_terminal sys) c = Some (Inr pw, c1)"
    and ref: "check_reference k pw (ca_same_password_as args) c1 = Some (Inr (), c1')"
    and found: "discover dir False (cy_tree sys dir) = Inr found"
    and chk: "check_sealed k pw found c1' = Some (Inr (), c2)"
    unfolding create_vault_def by (auto elim!: try_op_Some_cases split: if_splits)
  have 1: "d_files c1 = d_files c" "d_faults c1 = []" using read_password_files [OF pw] assms(1) by auto
  from reliable_check_reference [OF 1(2) ref] have "c1' = c1" and
    "\<forall>p. ca_same_password_as args = Some p \<longrightarrow> (\<exists>env bs. d_files c p = Some env \<and> decrypt_bytes k env pw = Inr bs)" using 1 by auto
  moreover from \<open>c1' = c1\<close> reliable_check_sealed [OF _ chk] 1 have
    "\<forall>f \<in> set found. d_files c (kf_plain f) = None \<and> d_files c (sealed_path f) \<noteq> None \<longrightarrow>
       (\<exists>env bs. d_files c (sealed_path f) = Some env \<and> decrypt_bytes k env pw = Inr bs)" by simp
  ultimately show ?thesis using found by (auto simp: list_all_iff split: option.split)
qed

text \<open>
  C17: Creating an account overwrites nothing and never shows its plaintext. For every run of \<open>create\<close>,
  whatever fails, at every moment every file that was there has its bytes, and unless \<open>--plain\<close> is
  given no path but the new sealed one has changed. When it succeeds with a password, the file is
  new and opens under the password typed to the JSON of an account whose address is the line
  printed; and on a disk that works, every key file sealed in its directory opens under that
  password too, and so does the reference file.
\<close>

theorem created_account:
  assumes "rng_calm rng" and "cli_create sys k cr rng search args c = Some (r, c')"
  shows "(\<exists>run. seen c' = run @ seen c \<and> list_all (untouched args (d_files c)) run) \<and>
    (r = Inr () \<and> \<not> ca_plain args \<longrightarrow>
      (\<exists>pw acct bs env before. typed_password (cy_terminal sys) c = Some pw \<and> to_key_file_json k acct = Inr bs \<and>
         cn_out c' = before @ utf8_bytes (acct_address acct) @ [10] \<and>
         d_files c (sealed_path (key_file_at (ca_file args))) = None \<and>
         d_files c' (sealed_path (key_file_at (ca_file args))) = Some env \<and> decrypt_bytes k env pw = Inr bs \<and>
         (d_faults c = [] \<longrightarrow>
           (\<forall>found. discover (dir_of (kf_plain (key_file_at (ca_file args)))) False
               (cy_tree sys (dir_of (kf_plain (key_file_at (ca_file args))))) = Inr found \<longrightarrow>
             list_all (\<lambda>f. d_files c (kf_plain f) = None \<and> d_files c (sealed_path f) \<noteq> None \<longrightarrow>
               (\<exists>env bs. d_files c (sealed_path f) = Some env \<and> decrypt_bytes k env pw = Inr bs)) found) \<and>
           (case ca_same_password_as args of None \<Rightarrow> True
            | Some p \<Rightarrow> \<exists>env bs. d_files c p = Some env \<and> decrypt_bytes k env pw = Inr bs))))"
proof -
  have rng: "rng_lawful rng" using assms(1) by (simp add: rng_calm_def)
  have "untouched args (d_files c) (d_files c)" by (simp add: untouched_def)
  with keepsD [OF keeps_create [OF rng, where before = "d_files c"] assms(2)]
  have run: "\<exists>run. seen c' = run @ seen c \<and> list_all (untouched args (d_files c)) run"
    by (auto simp: through_def list_all_iff)
  show ?thesis
  proof (intro conjI impI run)
    assume "r = Inr () \<and> \<not> ca_plain args"
    with assms(2) have "cli_create sys k cr rng search args c = Some (Inr (), c')" "\<not> ca_plain args" by auto
    from sealed_account [OF rng this] obtain pw acct bs before env c1 c2 where
      a: "typed_password (cy_terminal sys) c = Some pw" "to_key_file_json k acct = Inr bs"
        "cn_out c' = before @ utf8_bytes (acct_address acct) @ [10]"
        "d_files c (sealed_path (key_file_at (ca_file args))) = None"
        "d_files c' (sealed_path (key_file_at (ca_file args))) = Some env" "decrypt_bytes k env pw = Inr bs"
      and c1: "d_faults c = [] \<longrightarrow> c1 = c"
      and v: "create_vault sys k args (dir_of (kf_plain (key_file_at (ca_file args)))) c1 = Some (Inr (Some pw), c2)" .
    note checked = create_vault_checked [of c sys k args "dir_of (kf_plain (key_file_at (ca_file args)))" pw c2]
    show "\<exists>pw acct bs env before. typed_password (cy_terminal sys) c = Some pw \<and> to_key_file_json k acct = Inr bs \<and>
         cn_out c' = before @ utf8_bytes (acct_address acct) @ [10] \<and>
         d_files c (sealed_path (key_file_at (ca_file args))) = None \<and>
         d_files c' (sealed_path (key_file_at (ca_file args))) = Some env \<and> decrypt_bytes k env pw = Inr bs \<and>
         (d_faults c = [] \<longrightarrow>
           (\<forall>found. discover (dir_of (kf_plain (key_file_at (ca_file args)))) False
               (cy_tree sys (dir_of (kf_plain (key_file_at (ca_file args))))) = Inr found \<longrightarrow>
             list_all (\<lambda>f. d_files c (kf_plain f) = None \<and> d_files c (sealed_path f) \<noteq> None \<longrightarrow>
               (\<exists>env bs. d_files c (sealed_path f) = Some env \<and> decrypt_bytes k env pw = Inr bs)) found) \<and>
           (case ca_same_password_as args of None \<Rightarrow> True
            | Some p \<Rightarrow> \<exists>env bs. d_files c p = Some env \<and> decrypt_bytes k env pw = Inr bs))"
      by (intro exI [of _ pw] exI [of _ acct] exI [of _ bs] exI [of _ env] exI [of _ before] conjI impI a)
        (use checked c1 v in blast)+
  qed
qed

section \<open>Printing a tree\<close>

text \<open>The page of a key file: what it carries is under a password exactly when the file was.\<close>

definition page_of ::
  "'j sealing \<Rightarrow> (bytes \<Rightarrow> bytes) \<Rightarrow> path \<Rightarrow> files \<Rightarrow> key_file \<Rightarrow> backup_page \<Rightarrow> bool" where
  "page_of k sha dir fs f page \<longleftrightarrow> bp_name page = name_under dir f \<and>
     (\<exists>bs. (\<not> bp_encrypted page \<and> fs (kf_plain f) = Some bs \<and> \<not> is_encrypted_envelope k bs \<and> carries k sha page bs None) \<or>
       (\<exists>pw env. bp_encrypted page \<and> decrypt_bytes k env pw = Inr bs \<and> carries k sha page bs (Some pw) \<and>
          (fs (kf_plain f) = Some env \<and> is_encrypted_envelope k env \<or>
           fs (kf_plain f) = None \<and> fs (sealed_path f) = Some env)))"

lemma vault_decrypt_console:
  assumes "vault_decrypt k p env (read_password t) (cache, c) = Some (Inr op, cache', c1)"
  shows "d_files c1 = d_files c \<and> d_faults c1 = d_faults c \<and> op_was_sealed op \<and>
    (\<exists>pw. cache' = Some pw \<and> decrypt_bytes k env pw = Inr (op_bytes op))"
proof -
  have "d_files c1 = d_files c \<and> d_faults c1 = d_faults c"
    using assms
    by (auto simp: vault_decrypt_def try_op_def read_password_eq split: option.splits sum.splits)
  moreover obtain pw where "cache' = Some pw" "map_option (\<lambda>bs. \<lparr>op_bytes = bs, op_was_sealed = True\<rparr>) (rok (decrypt_bytes k env pw)) = Some op"
    using vault_cache.cached_opens(2) [where k = k and f = "(p, env)" and prompt = "read_password t" and cache = cache and s = c
        and cache' = cache' and s' = c1 and r = "Inr op" and x = op] assms by auto
  ultimately show ?thesis by (auto split: sum.splits)
qed

lemma vault_open_console:
  assumes "d_faults c = []" and "vault_open k f (read_password t) (cache, c) = Some (Inr op, cache', c1)"
  shows "d_files c1 = d_files c \<and> d_faults c1 = [] \<and>
    (if op_was_sealed op
     then \<exists>pw env. cache' = Some pw \<and> decrypt_bytes k env pw = Inr (op_bytes op) \<and>
       (d_files c (kf_plain f) = Some env \<and> is_encrypted_envelope k env \<or> d_files c (kf_plain f) = None \<and> d_files c (sealed_path f) = Some env)
     else d_files c (kf_plain f) = Some (op_bytes op) \<and> \<not> is_encrypted_envelope k (op_bytes op))"
proof (cases "d_files c (kf_plain f)")
  case None
  with assms obtain env where "d_files c (sealed_path f) = Some env"
    by (cases "d_files c (sealed_path f)") (auto simp: vault_open_def Let_def reliable_disk try_op_def)
  note env = this
  with assms(2) vault_open_sealed [OF assms(1) None env, of k "read_password t" cache]
  have "vault_decrypt k (sealed_path f) env (read_password t) (cache, c) = Some (Inr op, cache', c1)" by simp
  from vault_decrypt_console [OF this] None env assms(1) show ?thesis by auto
next
  case (Some x)
  then have "vault_open k f (read_password t) (cache, c) =
      (if is_encrypted_envelope k x then vault_decrypt k (kf_plain f) x (read_password t)
       else ret \<lparr>op_bytes = x, op_was_sealed = False\<rparr>) (cache, c)"
    by (simp add: vault_open_def Let_def reliable_disk [OF assms(1)] try_op_def)
  with assms Some show ?thesis by (auto split: if_splits dest!: vault_decrypt_console)
qed

lemma made_page_console:
  assumes "rng_calm rng" and "make_backup_page k sha rng name bs password c = Some (r, c1)"
  shows "d_files c1 = d_files c" and "calm c c1"
proof -
  have rng: "rng_lawful rng" using assms(1) by (simp add: rng_calm_def)
  let ?E = "\<lambda>now. now = d_files c"
  have m: "keeps R (case x of (address, secret) \<Rightarrow>
      try_op (case password of Some password \<Rightarrow> encrypt_secret k rng secret password | None \<Rightarrow> ret secret) (\<lambda>secret.
       case bytes_to_mnemonic sha secret of
         None \<Rightarrow> (\<lambda>_. None)
       | Some mnemonic \<Rightarrow>
           ret \<lparr>bp_name = name, bp_address = address, bp_encrypted = (password \<noteq> None),
                bp_secret_len = length secret, bp_qr_payload = b64_encode (se_b64 k) secret, bp_mnemonic = mnemonic\<rparr>))"
    if "transp R" "reflp R" "\<And>n. keeps R (draw rng n)" for R and x :: "string option \<times> bytes"
    using that
    by (cases x; cases password)
      (auto simp: encrypt_secret_def intro!: keeps_try [OF that(1)] keeps_lift [OF that(2)] keeps_ret [OF that(2)] keeps_panic
        simp del: op_base split: option.split)
  have "keeps (through ?E) (make_backup_page k sha rng name bs password)"
    unfolding make_backup_page_def by (intro keeps_through m through_trans through_refl keeps_draw rng)
  from through_last [OF keepsD [OF this assms(2)]] show "d_files c1 = d_files c" by simp
  have "keeps calm (make_backup_page k sha rng name bs password)"
    unfolding make_backup_page_def by (intro keeps_calm m calm_trans calm_refl calm_draw assms(1))
  from keepsD [OF this assms(2)] show "calm c c1" .
qed

lemma printed_page:
  assumes "sealing_lawful k" and "rng_calm rng" and "\<forall>x. length (cr_sha512_256 cr x) = 32" and "d_faults c = []"
    and "print_page sys k cr rng dir f (cache, c) = Some (Inr page, cache', c')"
  shows "d_files c' = d_files c \<and> d_faults c' = [] \<and> page_of k (cr_sha512_256 cr) dir (d_files c) f page"
proof -
  from assms(5) obtain op c1 where o: "vault_open k f (open_prompt sys) (cache, c) = Some (Inr op, cache', c1)"
    and m: "make_backup_page k (cr_sha512_256 cr) rng (name_under dir f) (op_bytes op) (if op_was_sealed op then cache' else None) c1 = Some (Inr page, c')"
    by (auto simp: print_page_def Let_def try_op_Inr_iff)
  note v = vault_open_console [OF assms(4) o]
  have draws: "draws rng" using assms(2) by (simp add: rng_calm_def rng_lawful_def)
  note carried = made_page_carries [OF assms(1) draws assms(3) m]
  have named: "bp_name page = name_under dir f" "bp_encrypted page = ((if op_was_sealed op then cache' else None) \<noteq> None)"
  proof -
    obtain address plain secret where page: "page = \<lparr>bp_name = name_under dir f, bp_address = address,
        bp_encrypted = ((if op_was_sealed op then cache' else None) \<noteq> None), bp_secret_len = length secret,
        bp_qr_payload = b64_encode (se_b64 k) secret, bp_mnemonic = bp_mnemonic page\<rparr>"
      by (rule made_page [OF assms(3) m])
    show "bp_name page = name_under dir f" using arg_cong [OF page, of bp_name] by simp
    show "bp_encrypted page = ((if op_was_sealed op then cache' else None) \<noteq> None)" using arg_cong [OF page, of bp_encrypted] by simp
  qed
  have "page_of k (cr_sha512_256 cr) dir (d_files c) f page"
    using v carried named by (cases "op_was_sealed op") (auto simp: page_of_def)
  with v made_page_console [OF assms(2) m] show ?thesis by (simp add: calm_def)
qed

lemma printed_pages:
  assumes "sealing_lawful k" and "rng_calm rng" and "\<forall>x. length (cr_sha512_256 cr x) = 32" and "d_faults c = []"
    and "collect_ops fs (print_page sys k cr rng dir) (cache, c) = Some (Inr pages, cache', c')"
  shows "d_files c' = d_files c \<and> d_faults c' = [] \<and> list_all2 (page_of k (cr_sha512_256 cr) dir (d_files c)) fs pages"
  using assms(4,5)
proof (induction fs arbitrary: cache c pages)
  case (Cons f fs)
  from Cons.prems(2) obtain page cache1 c1 ps where p: "print_page sys k cr rng dir f (cache, c) = Some (Inr page, cache1, c1)"
    and ps: "collect_ops fs (print_page sys k cr rng dir) (cache1, c1) = Some (Inr ps, cache', c')" "pages = page # ps"
    by (auto simp: try_op_Inr_iff)
  from printed_page [OF assms(1-3) Cons.prems(1) p] Cons.IH [OF _ ps(1)] ps(2) show ?case by simp
qed simp

text \<open>
  C18: What was sealed is printed sealed. When \<open>print\<close> succeeds on a disk that works, it has changed the
  output file only, which holds the drawing of one page for each key file found, in order. A page
  bears the name of its file; it is encrypted exactly when the file was sealed, under a password that
  opened that file; and its mnemonic and its QR payload each give the key back, through that password
  when there is one.
\<close>

theorem printed_tree:
  assumes "sealing_lawful k" and "rng_calm rng" and "\<forall>x. length (cr_sha512_256 cr x) = 32" and "d_faults c = []"
    and "cli_print sys k cr rng pdf args c = Some (Inr (), c')"
  shows "\<exists>found pages bs. discover (pa_dir args) (pa_recursive args) (cy_tree sys (pa_dir args)) = Inr found \<and>
    list_all2 (page_of k (cr_sha512_256 cr) (pa_dir args) (d_files c)) found pages \<and>
    render_backup_pdf pdf pages = Some (Inr bs) \<and> d_files c' = (d_files c)(pa_out args \<mapsto> bs)"
proof -
  from assms(5) obtain found pages c1 bs c2 where
    f: "discover (pa_dir args) (pa_recursive args) (cy_tree sys (pa_dir args)) = Inr found" and
    p: "with_new_vault (collect_ops found (print_page sys k cr rng (pa_dir args))) c = Some (Inr pages, c1)" and
    b: "render_backup_pdf pdf pages = Some (Inr bs)" and
    w: "with_context (''failed to write '' @ debug_path (pa_out args)) (fs_write (pa_out args) bs) c1 = Some (Inr (), c2)" and
    o: "println (show_nat (length pages) @ '' page(s) written to '' @ pa_out args) c2 = Some (Inr (), c')"
    unfolding cli_print_def by (auto simp: lift_panic_def elim!: try_op_Some_cases split: if_splits)
  from p obtain cache' where "collect_ops found (print_page sys k cr rng (pa_dir args)) (None, c) = Some (Inr pages, cache', c1)"
    by (auto simp: with_new_vault_def)
  note pages = printed_pages [OF assms(1-4) this]
  have "d_files c2 = (d_files c1)(pa_out args \<mapsto> bs)"
    using with_context_value [OF w] pages by (auto simp: fs_write_def fs_write_all_def)
  moreover have "d_files c' = d_files c2" using o by (auto simp: println_def print_out_def)
  ultimately show ?thesis using f b pages by auto
qed

section \<open>Witnesses\<close>

definition key_sys :: cli_system where
  "key_sys = \<lparr>cy_terminal = False, cy_is_dir = (\<lambda>_. True), cy_tree = (\<lambda>_. Listing [FileEntry ''a.key'']), cy_parallelism = None,
     cy_elapsed = ''0.0''\<rparr>"

definition key_console :: console where
  "key_console = \<lparr>d_files = [''k/a.key'' \<mapsto> [1, 2]], d_past = [], d_faults = [], cn_inputs = [Inr ''pw''], cn_out = [], cn_err = []\<rparr>"

definition seal_k :: seal_args where
  "seal_k = \<lparr>sa_dir = ''k'', sa_recursive = False, sa_same_password_as = None\<rparr>"

lemma found_k: "discover (sa_dir seal_k) (sa_recursive seal_k) (cy_tree key_sys (sa_dir seal_k)) = Inr [KeyFile ''k/a.key'']"
proof -
  have "is_key_file_name ''a.key''" "key_file_at (path_join ''k'' ''a.key'') = KeyFile ''k/a.key''" by code_simp+
  then show ?thesis by (simp add: discover_def seal_k_def key_sys_def insert_found_def insort_insert_key_def)
qed

lemma toy_rng_calm: "rng_calm toy_rng"
  by (simp add: rng_calm_def toy_rng_lawful) (simp add: toy_rng_def)

lemma key_typed: "typed_password (cy_terminal key_sys) key_console = Some ''pw''"
  by (simp add: typed_password_eq next_password_def key_sys_def key_console_def trim_line_end_def)

lemma seal_runs: "\<exists>c'. cli_seal key_sys toy_sealing toy_rng seal_k key_console = Some (Inr (), c')"
proof -
  have r: "d_faults key_console = []" by (simp add: key_console_def)
  have u: "unsealed_in (d_files key_console) [KeyFile ''k/a.key''] = [KeyFile ''k/a.key'']"
    by (simp add: unsealed_in_def key_console_def)
  let ?c = "key_console\<lparr>cn_inputs := []\<rparr>"
  have p: "read_new_password (cy_terminal key_sys) key_console = Some (Inr ''pw'', ?c)"
    by (simp add: read_new_password_def read_password_eq next_password_def key_sys_def key_console_def trim_line_end_def)
  from toy_envelope_for [of "''k/a.key''"] obtain env where "\<And>d :: console. envelope_for toy_sealing toy_rng ''pw'' ''k/a.key'' [1, 2] d = Some (Inr env, d)"
    by blast
  then have "\<exists>c1. d_files c1 ''k/a.key'' \<noteq> None \<and> d_faults c1 = [] \<and>
      seal_beside toy_sealing toy_rng ''pw'' (KeyFile ''k/a.key'') ?c = Some (Inr (), c1)"
    by (simp add: Let_def sealed_path_def SEALED_SUFFIX_def key_console_def
        seal_beside_def write_checked_def write_private_def map_err_def attempt_def fs_defs next_fault_def put_def try_op_def)
  then have "\<exists>c1. vault_seal toy_sealing toy_rng (Some ''pw'') (KeyFile ''k/a.key'') ?c = Some (Inr True, c1)"
    by (auto simp: vault_seal_def Let_def required_password_def key_console_def map_err_def attempt_def fs_exists_def fs_remove_file_def
        try_op_def)
  then obtain c1 where s: "vault_seal toy_sealing toy_rng (Some ''pw'') (KeyFile ''k/a.key'') ?c = Some (Inr True, c1)" by blast
  have k: "check_sealed toy_sealing ''pw'' [KeyFile ''k/a.key''] ?c = Some (Inr (), ?c)"
    by (simp add: check_sealed_def reliable_is_sealed key_console_def try_op_def)
  show ?thesis
    by (simp add: cli_seal_reliable [OF r found_k] u p check_reference_def k s try_op_def println_def print_out_def)
      (simp add: seal_k_def k s try_op_def println_def print_out_def)
qed

lemma key_contents: "contents toy_sealing ''pw'' (d_files key_console) (KeyFile ''k/a.key'') = Some [1, 2]"
  by (simp add: contents_def not_an_envelope key_console_def)

theorem seal_tree_never_loses_witness:
  "\<exists>(c' :: console) run. seen c' = run @ seen key_console \<and>
     list_all (\<lambda>now. contents toy_sealing ''pw'' now (KeyFile ''k/a.key'') = Some [1, 2]) run"
proof -
  obtain c' where c: "cli_seal key_sys toy_sealing toy_rng seal_k key_console = Some (Inr (), c')" using seal_runs by blast
  show ?thesis
    using seal_tree_never_loses [OF toy_rng_lawful c] unfolding found_k key_typed
    by (auto simp: key_contents list_all_iff)
qed

theorem seal_one_password_witness:
  "\<exists>c' env. d_files (c' :: console) ''k/a.key'' = None \<and> d_files c' ''k/a.key.enc'' = Some env \<and>
     decrypt_bytes toy_sealing env ''pw'' = Inr [1, 2]"
proof -
  obtain c' where c: "cli_seal key_sys toy_sealing toy_rng seal_k key_console = Some (Inr (), c')" using seal_runs by blast
  have r: "d_faults key_console = []" by (simp add: key_console_def)
  have u: "unsealed_in (d_files key_console) [KeyFile ''k/a.key''] = [KeyFile ''k/a.key'']"
    by (simp add: unsealed_in_def key_console_def)
  show ?thesis
    using seal_one_password [OF toy_rng_calm r c found_k] unfolding u key_typed
    by (auto simp: key_contents sealed_path_def SEALED_SUFFIX_def)
qed

definition create_b :: create_args where
  "create_b = \<lparr>ca_file = ''k/b.json'', ca_prefix = None, ca_same_password_as = None, ca_plain = False, ca_threads = None\<rparr>"

definition empty_sys :: cli_system where
  "empty_sys = key_sys\<lparr>cy_tree := (\<lambda>_. Listing [])\<rparr>"

definition empty_console :: console where
  "empty_console = key_console\<lparr>d_files := (\<lambda>_. None)\<rparr>"

lemma create_runs:
  "\<exists>c'. cli_create empty_sys toy_sealing toy_keys toy_rng (\<lambda>_ _. Inl ''no search'') create_b empty_console = Some (Inr (), c')"
proof -
  have n: "key_file_at ''k/b.json'' = KeyFile ''k/b.json''" "path_extension ''k/b.json'' = Some ''json''" by code_simp+
  let ?c = "empty_console\<lparr>cn_inputs := []\<rparr>"
  have f: "key_file_exists (KeyFile ''k/b.json'') d = Some (Inr False, d)" if "d_faults d = []" "d_files d = (\<lambda>_. None)" for d :: console
    using that by (simp add: key_file_exists_def reliable_disk try_op_def)
  have v: "create_vault empty_sys toy_sealing create_b dir empty_console = Some (Inr (Some ''pw''), ?c)" for dir
    by (simp add: create_vault_def read_new_password_def read_password_eq next_password_def empty_sys_def key_sys_def empty_console_def
        key_console_def trim_line_end_def create_b_def check_reference_def discover_def check_sealed_def)
  obtain a where a: "account_from_seed toy_keys (replicate 32 7) = Some a"
    using account_of_seed [of toy_keys "replicate 32 7"] by (auto simp: toy_keys_def toy_crypto_def)
  then have g: "create_account empty_sys toy_keys toy_rng search None None c = Some (Inr a, c)" for search c
    by (simp add: create_account_def generate_account_def random_seed_def draw_def toy_rng_def no_panic_def)
  obtain bs where bs: "to_key_file_json toy_sealing a = Inr bs"
    by (simp add: to_key_file_json_def toy_sealing_def flat_json_def)
  obtain env where e: "encrypt_bytes toy_sealing toy_rng bs ''pw'' ?c = Some (Inr env, ?c)" by (rule exE [OF toy_encrypts])
  note o = encrypt_bytes_opens(2) [OF toy_sealing_lawful toy_rng_draws e]
  have "\<exists>c1. vault_seal_new toy_sealing toy_rng (Some ''pw'') (KeyFile ''k/b.json'') bs ?c = Some (Inr (sealed_path (KeyFile ''k/b.json'')), c1)"
    using e o
    by (simp add: vault_seal_new_def required_password_def refuse_existing_def f empty_console_def key_console_def
        write_checked_def write_private_def map_err_def attempt_def fs_defs next_fault_def put_def try_op_def)
  then obtain c1 where s: "vault_seal_new toy_sealing toy_rng (Some ''pw'') (KeyFile ''k/b.json'') bs ?c =
      Some (Inr (sealed_path (KeyFile ''k/b.json'')), c1)" by blast
  have e0: "key_file_exists (KeyFile ''k/b.json'') empty_console = Some (Inr False, empty_console)"
    by (rule f) (simp_all add: empty_console_def key_console_def)
  have a: "ca_file create_b = ''k/b.json''" "ca_prefix create_b = None" "ca_threads create_b = None" by (simp_all add: create_b_def)
  have d: "cy_is_dir empty_sys dir" for dir by (simp add: empty_sys_def key_sys_def)
  show ?thesis
    by (simp add: cli_create_def Let_def a n d e0 v g bs s try_op_def transpose_opt_def eprintln_def println_def print_out_def)
qed

theorem created_account_witness:
  "\<exists>(c' :: console) acct bs env. to_key_file_json toy_sealing acct = Inr bs \<and> cn_out c' \<noteq> [] \<and>
     d_files c' ''k/b.json.enc'' = Some env \<and> decrypt_bytes toy_sealing env ''pw'' = Inr bs"
proof -
  obtain c' where c: "cli_create empty_sys toy_sealing toy_keys toy_rng (\<lambda>_ _. Inl ''no search'') create_b empty_console = Some (Inr (), c')"
    using create_runs by blast
  have p: "sealed_path (key_file_at (ca_file create_b)) = ''k/b.json.enc''" by code_simp
  have t: "typed_password (cy_terminal empty_sys) empty_console = Some ''pw''"
    by (simp add: typed_password_eq next_password_def empty_sys_def key_sys_def empty_console_def key_console_def trim_line_end_def)
  have "\<not> ca_plain create_b" by (simp add: create_b_def)
  with mp [OF conjunct2 [OF created_account [OF toy_rng_calm c]]] obtain pw acct bs env before where
    w: "Some ''pw'' = Some pw" "to_key_file_json toy_sealing acct = Inr bs" "cn_out c' = before @ utf8_bytes (acct_address acct) @ [10]"
      "d_files c' ''k/b.json.enc'' = Some env" "decrypt_bytes toy_sealing env pw = Inr bs"
    unfolding p t by blast
  show ?thesis
    by (rule exI [of _ c'], rule exI [of _ acct], rule exI [of _ bs], rule exI [of _ env]) (use w in simp)
qed

definition print_k :: print_args where
  "print_k = \<lparr>pa_dir = ''k'', pa_out = ''out.pdf'', pa_recursive = False\<rparr>"

lemma toy_sha: "\<forall>x. length (cr_sha512_256 toy_keys x) = 32"
  by (simp add: toy_keys_def toy_crypto_def)

lemma print_runs:
  "\<exists>c'. cli_print key_sys toy_sealing toy_keys toy_rng toy_pdf print_k
     (key_console\<lparr>d_files := [''k/a.key'' \<mapsto> [2, 7]]\<rparr>) = Some (Inr (), c')"
proof -
  let ?c = "key_console\<lparr>d_files := [''k/a.key'' \<mapsto> [2, 7]]\<rparr>"
  have f: "discover (pa_dir print_k) (pa_recursive print_k) (cy_tree key_sys (pa_dir print_k)) = Inr [KeyFile ''k/a.key'']"
    using found_k by (simp add: print_k_def seal_k_def)
  have n: "\<not> is_encrypted_envelope toy_sealing [2, 7]"
    by (simp add: is_encrypted_envelope_def toy_sealing_def flat_json_def)
  have o: "vault_open toy_sealing (KeyFile ''k/a.key'') prompt (None, ?c) = Some (Inr \<lparr>op_bytes = [2, 7], op_was_sealed = False\<rparr>, None, ?c)" for prompt
    by (simp add: vault_open_def Let_def fs_exists_def fs_read_def key_console_def n map_err_def attempt_def try_op_def)
  obtain m where m: "bytes_to_mnemonic (cr_sha512_256 toy_keys) [2, 7] = Some m"
    by (rule mnemonic_roundtrip_aux [where sha = "cr_sha512_256 toy_keys" and bs = "[2, 7]"]) (simp_all add: toy_sha)
  have a: "account_fields toy_sealing [2, 7] = None" using toy_page(2) [of "[7]"] by simp
  have "\<exists>page. make_backup_page toy_sealing (cr_sha512_256 toy_keys) toy_rng name [2, 7] None ?c = Some (Inr page, ?c)" for name
    by (simp add: make_backup_page_def page_secret_def a m try_op_def)
  then obtain page where p: "make_backup_page toy_sealing (cr_sha512_256 toy_keys) toy_rng (name_under ''k'' (KeyFile ''k/a.key'')) [2, 7] None ?c =
      Some (Inr page, ?c)" by blast
  have pages: "with_new_vault (collect_ops [KeyFile ''k/a.key''] (print_page key_sys toy_sealing toy_keys toy_rng ''k'')) ?c = Some (Inr [page], ?c)"
    by (simp add: with_new_vault_def print_page_def o p try_op_def Let_def)
  have "list_all (made_by toy_sealing (cr_sha512_256 toy_keys) (toy_rng :: nat \<Rightarrow> console \<Rightarrow> bytes \<times> console)) [page]"
    using p by (simp, unfold made_by_def) blast
  from backup_sheet_bytes [OF toy_sealing_lawful toy_rng_draws toy_sha this]
  have r: "render_backup_pdf toy_pdf [page] = Some (Inr [1])" .
  have w: "with_context msg (fs_write ''out.pdf'' [1]) ?c = Some (Inr (), put ''out.pdf'' (Some [1]) (put ''out.pdf'' (Some []) ?c))" for msg
    by (simp add: fs_write_def fs_write_all_def map_err_def attempt_def key_console_def put_def)
  show ?thesis
    unfolding cli_print_def f
    by (simp add: print_k_def pages r w lift_panic_def try_op_def println_def print_out_def del: collect_ops.simps)
qed

theorem printed_tree_witness:
  "\<exists>page. page_of toy_sealing (cr_sha512_256 toy_keys) ''k'' [''k/a.key'' \<mapsto> [2, 7]] (KeyFile ''k/a.key'') page \<and> \<not> bp_encrypted page"
proof -
  let ?c = "key_console\<lparr>d_files := [''k/a.key'' \<mapsto> [2, 7]]\<rparr>"
  obtain c' where c: "cli_print key_sys toy_sealing toy_keys toy_rng toy_pdf print_k ?c = Some (Inr (), c')"
    using print_runs by blast
  have f: "discover (pa_dir print_k) (pa_recursive print_k) (cy_tree key_sys (pa_dir print_k)) = Inr [KeyFile ''k/a.key'']"
    using found_k by (simp add: print_k_def seal_k_def)
  have r: "d_faults ?c = []" by (simp add: key_console_def)
  have n: "\<not> is_encrypted_envelope toy_sealing [2, 7]"
    by (simp add: is_encrypted_envelope_def toy_sealing_def flat_json_def)
  from printed_tree [OF toy_sealing_lawful toy_rng_calm toy_sha r c] obtain page where
    "page_of toy_sealing (cr_sha512_256 toy_keys) (pa_dir print_k) (d_files ?c) (KeyFile ''k/a.key'') page"
    unfolding f by (auto simp: list_all2_Cons1)
  then have p: "page_of toy_sealing (cr_sha512_256 toy_keys) ''k'' [''k/a.key'' \<mapsto> [2, 7]] (KeyFile ''k/a.key'') page"
    by (simp add: print_k_def)
  moreover have "\<not> bp_encrypted page" using p n by (auto simp: page_of_def)
  ultimately show ?thesis by blast
qed

section \<open>The key files a tree holds\<close>

lemma discovered_normal_form:
  assumes "discover dir recursive t = Inr fs" and "f \<in> set fs"
  shows "key_file_at (kf_plain f) = f \<and> key_file_at (sealed_path f) = f"
proof -
  have "strip_suffix SEALED_SUFFIX (kf_plain f) = None"
    using collect_plain_names(1) [OF assms(1) [unfolded discover_def]] assms(2) by simp
  moreover have "strip_suffix SEALED_SUFFIX (sealed_path f) = Some (kf_plain f)"
    by (simp add: strip_suffix_Some sealed_path_def)
  ultimately show ?thesis by (cases f) (simp add: key_file_at_def)
qed

text \<open>
  C40: The key files found are well-formed handles. Each is the handle that either of its two names, the plain
  and the sealed one, leads to; no file is found twice, under whatever spelling of its path, and the
  list is in the order of the paths; and no path of one key file is a path of another, nor the plain
  name of one the sealed name of any, so that sealing one can never touch another.\<close>

theorem key_files_well_formed:
  assumes "discover dir recursive t = Inr fs"
  shows "list_all (\<lambda>f. key_file_at (kf_plain f) = f \<and> key_file_at (sealed_path f) = f) fs \<and>
    sorted (map kf_components fs) \<and> distinct (map kf_components fs) \<and> apart fs"
  using discovered_normal_form [OF assms] discover_apart [OF assms] collect_found(1) [OF assms [unfolded discover_def]]
  by (simp add: in_order_def list_all_iff)

theorem key_files_well_formed_witness:
  "key_file_at ''k/a.key'' = KeyFile ''k/a.key'' \<and> key_file_at ''k/a.key.enc'' = KeyFile ''k/a.key'' \<and> apart [KeyFile ''k/a.key'']"
  using key_files_well_formed [OF found_k] by (simp add: sealed_path_def SEALED_SUFFIX_def)

end
