(* ===== verification/Arc4.thy ===== *)
theory Arc4
  imports Keys
begin

text \<open>
  Application arguments and programs of \<open>algo_ops/src/ops.rs\<close>: the encoding of an argument, the
  argument types of an ABI method signature, the ARC-4 framing of dynamic arguments, the page count
  and fee estimates of a program, and the state schema of an ARC-56 specification. Signatures are
  scanned byte by byte: the delimiters are ASCII, so the scan over characters finds the same places.
\<close>

datatype app_arg = ABytes bytes | AUtf8 string | AUint u64

fun arg_bytes :: "app_arg \<Rightarrow> bytes" where
  "arg_bytes (ABytes b) = b"
| "arg_bytes (AUtf8 s) = utf8_bytes s"
| "arg_bytes (AUint v) = to_be_bytes 8 v"

section \<open>Method signatures\<close>

text \<open>
  The first loop: from the opening parenthesis to the one that closes it. \<open>inner\<close> is the text since
  the depth was last raised to 1.
\<close>

fun arg_list_text :: "int \<Rightarrow> string \<Rightarrow> string \<Rightarrow> string option" where
  "arg_list_text depth inner [] = None"
| "arg_list_text depth inner (c # cs) =
     (if c = CHR ''('' then
        (if depth + 1 = 1 then arg_list_text (depth + 1) [] cs
         else arg_list_text (depth + 1) (inner @ [c]) cs)
      else if c = CHR '')'' then
        (if depth - 1 = 0 then Some inner else arg_list_text (depth - 1) (inner @ [c]) cs)
      else arg_list_text depth (inner @ [c]) cs)"

text \<open>The second loop: the segments between the commas at depth 0.\<close>

fun split_args :: "int \<Rightarrow> string \<Rightarrow> string \<Rightarrow> string list" where
  "split_args d seg [] = [trim_str seg]"
| "split_args d seg (c # cs) =
     (if c = CHR ''('' \<or> c = CHR ''['' then split_args (d + 1) (seg @ [c]) cs
      else if c = CHR '')'' \<or> c = CHR '']'' then split_args (d - 1) (seg @ [c]) cs
      else if c = CHR '','' \<and> d = 0 then trim_str seg # split_args d [] cs
      else split_args d (seg @ [c]) cs)"

definition abi_arg_types :: "string \<Rightarrow> string list option" where
  "abi_arg_types sig =
     (case arg_list_text 0 [] (dropWhile (\<lambda>c. c \<noteq> CHR ''('') sig) of
        None \<Rightarrow> None
      | Some inner \<Rightarrow> if blank inner then Some [] else Some (split_args 0 [] inner))"

section \<open>ARC-4 framing\<close>

definition is_dynamic :: "string list option \<Rightarrow> nat \<Rightarrow> bool" where
  "is_dynamic types i =
     (case types of
        Some ts \<Rightarrow> i < length ts \<and> (ts ! i = ''byte[]'' \<or> ts ! i = ''string'')
      | None \<Rightarrow> False)"

definition frame_arg :: "string list option \<Rightarrow> nat \<Rightarrow> app_arg \<Rightarrow> any_error + app_arg" where
  "frame_arg types i arg =
     (if is_dynamic types i then
        (let raw = arg_bytes arg
         in if length raw \<le> 65535 then Inr (ABytes (to_be_bytes 2 (of_nat (length raw) :: u16) @ raw))
            else Inl (Msg (''ARC-4 byte[]/string argument '' @ show_nat i @ '' is '' @ show_nat (length raw) @
                           '' bytes, over the u16 length limit'')))
      else Inr arg)"

definition arc4_frame_args :: "string option \<Rightarrow> app_arg list \<Rightarrow> any_error + app_arg list" where
  "arc4_frame_args method args =
     (let types = Option.bind method abi_arg_types
      in collect_results (\<lambda>(i, arg). frame_arg types i arg) (List.enumerate 0 args))"

section \<open>Program pages, fees and schema\<close>

definition required_extra_pages :: "u64 \<Rightarrow> u32" where
  "required_extra_pages program_size = ucast (saturating_sub program_size 1 div 2048)"

definition MAX_EXTRA_PROGRAM_PAGES :: u32 where
  "MAX_EXTRA_PROGRAM_PAGES = 3"

definition extra_pages_for :: "u64 \<Rightarrow> u32 \<Rightarrow> u32" where
  "extra_pages_for program_size reserve_extra_pages =
     min (max (required_extra_pages program_size) reserve_extra_pages) MAX_EXTRA_PROGRAM_PAGES"

text \<open>\<open>mul\<close> is \<open>MicroAlgos\<close>'s multiplication by a number.\<close>

definition estimate_fee_for_programs :: "(u64 \<Rightarrow> u64 \<Rightarrow> u64) \<Rightarrow> node_params \<Rightarrow> u64 list \<Rightarrow> u64" where
  "estimate_fee_for_programs mul params sizes =
     (let total_size = foldl (+) 0 sizes;
          sized = mul (sp_fee params) total_size
      in if sized > sp_min_fee params then sized else sp_min_fee params)"

definition estimate_fee_for_signed_size :: "(u64 \<Rightarrow> u64 \<Rightarrow> u64) \<Rightarrow> node_params \<Rightarrow> u64 \<Rightarrow> u64" where
  "estimate_fee_for_signed_size mul params est_size =
     (let sized = mul (sp_fee params) est_size
      in if sized > sp_min_fee params then sized else sp_min_fee params)"

record state_schema =
  number_ints :: u64
  number_byteslices :: u64

definition read_schema :: "'j json_api \<Rightarrow> 'j \<Rightarrow> string \<Rightarrow> string \<Rightarrow> any_error + u64" where
  "read_schema js schema sec field =
     ok_or (Msg (''ARC-56 app spec missing state/schema/'' @ sec @ ''/'' @ field))
       (get_then js (\<lambda>v. get_then js (js_u64 js) field v) sec schema)"

definition state_schema_from_arc56 ::
  "'j json_api \<Rightarrow> (string \<Rightarrow> string + 'j) \<Rightarrow> string \<Rightarrow> any_error + (state_schema \<times> state_schema)" where
  "state_schema_from_arc56 js parse arc56_json =
     rbind (rmap_err (\<lambda>e. Msg (''failed to parse ARC-56 app spec json: '' @ e)) (parse arc56_json)) (\<lambda>spec.
     rbind (ok_or (Msg ''ARC-56 app spec missing state/schema'')
              (get_then js (js_get js ''schema'') ''state'' spec)) (\<lambda>schema.
     rbind (read_schema js schema ''global'' ''ints'') (\<lambda>gi.
     rbind (read_schema js schema ''global'' ''bytes'') (\<lambda>gb.
     rbind (read_schema js schema ''local'' ''ints'') (\<lambda>li.
     rbind (read_schema js schema ''local'' ''bytes'') (\<lambda>lb.
       Inr (\<lparr>number_ints = gi, number_byteslices = gb\<rparr>, \<lparr>number_ints = li, number_byteslices = lb\<rparr>)))))))"

section \<open>Signatures read back\<close>

definition paren :: "char \<Rightarrow> int" where
  "paren c = (if c = CHR ''('' then 1 else if c = CHR '')'' then - 1 else 0)"

definition bracket :: "char \<Rightarrow> int" where
  "bracket c = (if c = CHR ''('' \<or> c = CHR ''['' then 1 else if c = CHR '')'' \<or> c = CHR '']'' then - 1 else 0)"

text \<open>Balanced text: the depth never falls below where it began and returns there.\<close>

fun balanced :: "(char \<Rightarrow> int) \<Rightarrow> int \<Rightarrow> string \<Rightarrow> bool" where
  "balanced w d [] = (d = 0)"
| "balanced w d (c # cs) = (0 \<le> d + w c \<and> balanced w (d + w c) cs)"

fun no_top_comma :: "int \<Rightarrow> string \<Rightarrow> bool" where
  "no_top_comma d [] = True"
| "no_top_comma d (c # cs) = ((c = CHR '','' \<longrightarrow> d \<noteq> 0) \<and> no_top_comma (d + bracket c) cs)"

definition abi_type :: "string \<Rightarrow> bool" where
  "abi_type t \<longleftrightarrow> t \<noteq> [] \<and> balanced paren 0 t \<and> balanced bracket 0 t \<and> no_top_comma 0 t \<and>
     (\<forall>c \<in> set t. 0x20 < (of_char c :: nat) \<and> (of_char c :: nat) < 0x7F)"

lemma arg_list_balanced:
  "balanced paren d t \<Longrightarrow> 0 \<le> d \<Longrightarrow>
     arg_list_text (d + 1) inner (t @ rest) = arg_list_text 1 (inner @ t) rest"
proof (induction paren d t arbitrary: inner rule: balanced.induct)
  case (1 d)
  then show ?case by simp
next
  case (2 d c cs)
  then show ?case by (auto simp: paren_def add.commute add.left_commute split: if_splits)
qed

lemma balanced_append: "balanced w d s \<Longrightarrow> balanced w 0 t \<Longrightarrow> balanced w d (s @ t)"
  by (induction w d s rule: balanced.induct) auto

lemma split_args_type:
  "balanced bracket d t \<Longrightarrow> no_top_comma d t \<Longrightarrow> split_args d seg (t @ rest) = split_args 0 (seg @ t) rest"
proof (induction bracket d t arbitrary: seg rule: balanced.induct)
  case (1 d)
  then show ?case by simp
next
  case (2 d c cs)
  then show ?case by (auto simp: bracket_def split: if_splits)
qed

fun join_args :: "string list \<Rightarrow> string" where
  "join_args [] = []"
| "join_args [t] = t"
| "join_args (t # ts) = t @ CHR '','' # join_args ts"

lemma balanced_join: "\<forall>t \<in> set ts. abi_type t \<Longrightarrow> balanced paren 0 (join_args ts)"
  by (induction ts rule: join_args.induct)
     (auto simp: abi_type_def paren_def intro!: balanced_append)

lemma abi_type_printable: "abi_type t \<Longrightarrow> c \<in> set t \<Longrightarrow> printable (of_nat (of_char c))"
  by (auto simp: abi_type_def printable_def word_less_nat_alt unat_of_nat)

lemma split_args_join:
  "ts \<noteq> [] \<Longrightarrow> \<forall>t \<in> set ts. abi_type t \<Longrightarrow> split_args 0 [] (join_args ts) = ts"
proof (induction ts rule: join_args.induct)
  case (2 t)
  then have "split_args 0 [] (t @ []) = split_args 0 ([] @ t) []"
    by (intro split_args_type) (simp_all add: abi_type_def)
  with 2 show ?case using trim_printable(1) [of t] abi_type_printable [of t] by simp
next
  case (3 t u ts)
  then have "split_args 0 [] (t @ CHR '','' # join_args (u # ts)) =
      split_args 0 ([] @ t) (CHR '','' # join_args (u # ts))"
    by (intro split_args_type) (simp_all add: abi_type_def)
  with 3 show ?case using trim_printable(1) [of t] abi_type_printable [of t] by simp
qed simp

text \<open>
  the argument types of a well-formed method signature are read back: for a name without a
  parenthesis and balanced argument types, nested tuples and arrays included, the parser returns
  exactly the types, whatever follows the argument list.\<close>

theorem abi_arg_types_roundtrip:
  assumes "CHR ''('' \<notin> set name" and "\<forall>t \<in> set ts. abi_type t"
  shows "abi_arg_types (name @ CHR ''('' # join_args ts @ CHR '')'' # result) = Some ts"
proof -
  have "dropWhile (\<lambda>c. c \<noteq> CHR ''('') (name @ CHR ''('' # join_args ts @ CHR '')'' # result) =
      CHR ''('' # join_args ts @ CHR '')'' # result"
    using assms(1) by (subst dropWhile_append2) auto
  moreover have "arg_list_text 1 [] (join_args ts @ CHR '')'' # result) = Some (join_args ts)"
    using arg_list_balanced [OF balanced_join [OF assms(2)], of "[]" "CHR '')'' # result"] by simp
  ultimately have a: "abi_arg_types (name @ CHR ''('' # join_args ts @ CHR '')'' # result) =
      (if blank (join_args ts) then Some [] else Some (split_args 0 [] (join_args ts)))"
    by (simp add: abi_arg_types_def)
  show ?thesis
  proof (cases ts)
    case Nil
    with a show ?thesis by simp
  next
    case (Cons t us)
    then have "abi_type t" using assms(2) by simp
    then have "\<not> blank (t @ u)" for u
      using trim_printable(2) [of t u] abi_type_printable [of t] by (auto simp: abi_type_def)
    moreover obtain u where "join_args ts = t @ u" using Cons by (cases us) auto
    ultimately show ?thesis using a split_args_join [OF _ assms(2)] Cons by simp
  qed
qed

theorem abi_arg_types_roundtrip_witness:
  "abi_arg_types ''foo((uint64,byte[]),address)void'' = Some [''(uint64,byte[])'', ''address'']"
proof -
  have "abi_arg_types (''foo'' @ CHR ''('' # join_args [''(uint64,byte[])'', ''address''] @ CHR '')'' # ''void'') =
      Some [''(uint64,byte[])'', ''address'']"
    by (rule abi_arg_types_roundtrip) (simp_all add: abi_type_def paren_def bracket_def)
  then show ?thesis by simp
qed

section \<open>Framing\<close>

text \<open>The arguments a framed call may carry, and the payload a contract reads back.\<close>

definition unframe :: "bytes \<Rightarrow> bytes option" where
  "unframe bs = (case bs of
     a # b # raw \<Rightarrow> if be_nat [a, b] = length raw then Some raw else None
   | _ \<Rightarrow> None)"

lemma unframe_framed:
  "length raw \<le> 65535 \<Longrightarrow> unframe (to_be_bytes 2 (of_nat (length raw) :: u16) @ raw) = Some raw"
proof -
  assume "length raw \<le> 65535"
  then have "be_nat (to_be_bytes 2 (of_nat (length raw) :: u16)) = length raw"
    by (simp add: be_nat_to_be_bytes unat_of_nat)
  moreover have "\<exists>a b. to_be_bytes 2 (of_nat (length raw) :: u16) = [a, b]"
    using length_to_be_bytes [of 2 "of_nat (length raw) :: u16"] by (auto simp: numeral_2_eq_2 length_Suc_conv)
  ultimately show ?thesis by (auto simp: unframe_def)
qed

lemma collect_enumerate:
  "collect_results (\<lambda>(i, x). f i x) (List.enumerate n xs) = Inr ys \<longleftrightarrow>
     length ys = length xs \<and> (\<forall>i < length xs. f (n + i) (xs ! i) = Inr (ys ! i))"
  by (auto simp: collect_results_eq_Inr list_all2_conv_all_nth nth_enumerate_eq)

lemma collect_enumerate_ok:
  "(\<exists>ys. collect_results (\<lambda>(i, x). f i x) (List.enumerate n xs) = Inr ys) \<longleftrightarrow>
     (\<forall>i < length xs. \<exists>y. f (n + i) (xs ! i) = Inr y)" (is "?l \<longleftrightarrow> ?r")
proof
  assume ?l
  then show ?r by (auto simp: collect_enumerate)
next
  assume ?r
  then have "collect_results (\<lambda>(i, x). f i x) (List.enumerate n xs) =
      Inr (map (\<lambda>p. projr (f (fst p) (snd p))) (List.enumerate n xs))"
  proof (intro collect_results_total)
    fix p
    assume "p \<in> set (List.enumerate n xs)"
    then obtain j where "j < length xs" "p = (n + j, xs ! j)"
      by (auto simp: in_set_conv_nth nth_enumerate_eq)
    with \<open>?r\<close> show "(case p of (i, x) \<Rightarrow> f i x) = Inr (projr (f (fst p) (snd p)))" by fastforce
  qed
  then show ?l by blast
qed

text \<open>
  ARC-4 framing of a call's arguments: it fails exactly when a dynamic argument is longer than
  65535 bytes; otherwise each dynamic argument carries a length prefix from which its payload is
  read back, and every other argument is unchanged.\<close>

theorem arc4_framing:
  "((\<exists>framed. arc4_frame_args method args = Inr framed) \<longleftrightarrow>
      (\<forall>i < length args. is_dynamic (Option.bind method abi_arg_types) i \<longrightarrow> length (arg_bytes (args ! i)) \<le> 65535)) \<and>
   (\<forall>framed. arc4_frame_args method args = Inr framed \<longrightarrow>
      length framed = length args \<and>
      (\<forall>i < length args.
         if is_dynamic (Option.bind method abi_arg_types) i
         then unframe (arg_bytes (framed ! i)) = Some (arg_bytes (args ! i))
         else framed ! i = args ! i))"
proof (intro conjI allI impI)
  let ?ts = "Option.bind method abi_arg_types"
  have ok: "(\<exists>y. frame_arg ?ts i a = Inr y) \<longleftrightarrow> (is_dynamic ?ts i \<longrightarrow> length (arg_bytes a) \<le> 65535)" for i a
    by (simp add: frame_arg_def Let_def)
  show "(\<exists>framed. arc4_frame_args method args = Inr framed) \<longleftrightarrow>
      (\<forall>i < length args. is_dynamic ?ts i \<longrightarrow> length (arg_bytes (args ! i)) \<le> 65535)"
    using collect_enumerate_ok [of "frame_arg ?ts" 0 args] ok by (simp add: arc4_frame_args_def)
  fix framed
  assume "arc4_frame_args method args = Inr framed"
  from collect_enumerate [of "frame_arg ?ts" 0 args framed] this
  have l: "length framed = length args" and f: "\<And>i. i < length args \<Longrightarrow> frame_arg ?ts i (args ! i) = Inr (framed ! i)"
    by (simp_all add: arc4_frame_args_def)
  show "length framed = length args" by (rule l)
  fix i
  assume "i < length args"
  from f [OF this] show "if is_dynamic ?ts i then unframe (arg_bytes (framed ! i)) = Some (arg_bytes (args ! i))
      else framed ! i = args ! i"
    by (auto simp: frame_arg_def Let_def split: if_splits) (metis arg_bytes.simps(1) unframe_framed)
qed

text \<open>
  the pages requested for a program of at most four pages are enough for it, at least the
  reservation when that is possible, never above the protocol's limit of three, and no more than
  the larger of the two needs.\<close>

theorem extra_pages_sufficient:
  assumes "prog \<le> 8192"
  shows "unat prog \<le> 2048 * (1 + unat (extra_pages_for prog reserve)) \<and>
    extra_pages_for prog reserve \<le> 3 \<and> (reserve \<le> 3 \<longrightarrow> reserve \<le> extra_pages_for prog reserve) \<and>
    (extra_pages_for prog reserve \<le> reserve \<or> 2048 * unat (extra_pages_for prog reserve) < unat prog)"
proof -
  define n where "n = unat prog"
  have n: "n \<le> 8192" using assms by (simp add: n_def word_le_nat_alt)
  have "unat (saturating_sub prog 1) = n - 1"
    by (auto simp: saturating_sub_def n_def unat_sub_if' word_le_nat_alt)
  then have r: "unat (required_extra_pages prog) = (n - 1) div 2048"
    using n by (simp add: required_extra_pages_def unsigned_ucast_eq unat_div take_bit_nat_eq_self)
  have e: "unat (extra_pages_for prog reserve) = min (max ((n - 1) div 2048) (unat reserve)) 3"
    by (auto simp: extra_pages_for_def MAX_EXTRA_PROGRAM_PAGES_def min_def max_def word_le_nat_alt r)
  show ?thesis using n by (auto simp: word_le_nat_alt e n_def [symmetric])
qed

theorem extra_pages_sufficient_witness:
  "unat (5000 :: u64) \<le> 2048 * (1 + unat (extra_pages_for 5000 1)) \<and> extra_pages_for 5000 1 \<le> 3 \<and>
    1 \<le> extra_pages_for 5000 1 \<and>
    (extra_pages_for 5000 1 \<le> 1 \<or> 2048 * unat (extra_pages_for 5000 1) < unat (5000 :: u64))"
  using extra_pages_sufficient [of 5000 1] by simp

theorem arc4_framing_witness:
  "\<exists>framed. arc4_frame_args (Some ''f(byte[])void'') [AUtf8 ''hi''] = Inr framed \<and>
     length framed = length [AUtf8 ''hi'']"
  using arc4_framing [of "Some ''f(byte[])void''" "[AUtf8 ''hi'']"] by (auto simp: utf8_bytes_def)

end
