(* ===== verification/TxOps.thy ===== *)
theory TxOps
  imports Arc4
begin

text \<open>
  The writing operations of \<open>AlgoOps\<close> (\<open>algo_ops/src/ops.rs\<close>): payments, assets and confirmation. A
  transaction is first what the code asks of an \<open>algonaut\<close> builder, a \<open>tx_request\<close>; building, signing and
  encoding it are fields of the node record, over abstract types of unsigned and signed
  transactions (\<open>'x\<close>, \<open>'y\<close>). The steps every operation repeats (build with a fresh note, check the
  secret's length, sign, encode, send, wait) are definitions shared by all of them.
\<close>

datatype 'a tx_request =
    TxPay (tx_sender: 'a) (tx_to: 'a) (tx_micro: u64)
  | TxTransferAsset (tx_sender: 'a) (tx_asset: u64) (tx_amount: u64) (tx_to: 'a)
  | TxCreateAsset (tx_sender: 'a) (tx_total: u64) (tx_manager: 'a) (tx_reserve: 'a) (tx_clawback: 'a)
      (tx_freeze: "'a option")
  | TxUpdateAsset (tx_sender: 'a) (tx_asset: u64) (tx_manager: 'a) (tx_reserve: 'a) (tx_clawback: 'a)
  | TxCreateApplication (tx_sender: 'a) (tx_approval: bytes) (tx_clear: bytes) (tx_global: state_schema)
      (tx_local: state_schema) (tx_extra_pages: "u32 option") (tx_foreign_assets: "u64 list option")
      (tx_app_args: "bytes list option")
  | TxUpdateApplication (tx_sender: 'a) (tx_app: u64) (tx_approval: bytes) (tx_clear: bytes)
      (tx_foreign_assets: "u64 list option")
  | TxOptInApplication (tx_sender: 'a) (tx_app: u64)
  | TxClearApplication (tx_sender: 'a) (tx_app: u64)
  | TxCloseApplication (tx_sender: 'a) (tx_app: u64)
  | TxDeleteApplication (tx_sender: 'a) (tx_app: u64)
  | TxCallApplication (tx_sender: 'a) (tx_app: u64) (tx_accounts: "'a list") (tx_call_args: "bytes list")
      (tx_foreign_assets: "u64 list option") (tx_foreign_apps: "u64 list option")

record ('e, 'a, 'j, 'x, 'y) tx_node = "('e, 'a, 'j) node" +
  tn_crypto :: crypto
  tn_uuid :: "'e \<Rightarrow> bytes \<times> 'e"
  tn_parse_json :: "string \<Rightarrow> string + 'j"
  tn_micro_mul :: "u64 \<Rightarrow> u64 \<Rightarrow> u64"
  tn_show_address :: "'a \<Rightarrow> string"
  tn_bytes_to_sign :: "bytes \<Rightarrow> bytes"
  tn_build :: "'a tx_request \<Rightarrow> bytes \<Rightarrow> u64 option \<Rightarrow> node_params \<Rightarrow> string + 'x"
  tn_estimate_size :: "'x \<Rightarrow> string + u64"
  tn_sign :: "bytes \<Rightarrow> 'x \<Rightarrow> string + 'y"
  tn_to_msg_pack :: "'y \<Rightarrow> string + bytes"
  tn_group :: "'x list \<Rightarrow> string + 'x list"
  tn_send_transactions :: "client \<Rightarrow> 'y list \<Rightarrow> ('e, string) future"
  tn_teal_compile :: "client \<Rightarrow> bytes \<Rightarrow> ('e, bytes) future"

section \<open>The shared steps\<close>

definition secret_key :: "('e, 'a, 'j, 'x, 'y, 'z) tx_node_scheme \<Rightarrow> ('e world, bytes) op" where
  "secret_key nd w = lift (private_key_bytes (tn_crypto nd) (nd_b64 nd) (fst w)) w"

definition fetch_params :: "('e, 'a, 'j, 'z) node_scheme \<Rightarrow> client \<Rightarrow> ('e world, node_params) op" where
  "fetch_params nd client =
     prefix_err ''failed to fetch suggested params'' (call_node nd (nd_suggested_params nd client))"

definition unique_note :: "('e, 'a, 'j, 'x, 'y, 'z) tx_node_scheme \<Rightarrow> ('e world, bytes) op" where
  "unique_note nd w = (case tn_uuid nd (snd w) of (nt, e) \<Rightarrow> Some (Inr nt, fst w, e))"

definition build_tx ::
  "('e, 'a, 'j, 'x, 'y, 'z) tx_node_scheme \<Rightarrow> string \<Rightarrow> 'a tx_request \<Rightarrow> u64 option \<Rightarrow> node_params \<Rightarrow>
     ('e world, 'x) op" where
  "build_tx nd what req fee params =
     try_op (unique_note nd) (\<lambda>nt.
       lift (rmap_err (msg_err (''failed to build '' @ what)) (tn_build nd req nt fee params)))"

definition sign_and_send ::
  "('e, 'a, 'j, 'x, 'y, 'z) tx_node_scheme \<Rightarrow> client \<Rightarrow> bytes \<Rightarrow> string \<Rightarrow> 'x \<Rightarrow> ('e world, string) op" where
  "sign_and_send nd client sk what tx =
     try_op (lift (array32 ''Secret key must be 32 bytes'' sk)) (\<lambda>seed.
     try_op (lift (rmap_err (msg_err (''failed to sign '' @ what)) (tn_sign nd seed tx))) (\<lambda>signed_tx.
     try_op (lift (rmap_err (msg_err ''failed to encode signed transaction'') (tn_to_msg_pack nd signed_tx))) (\<lambda>raw.
       prefix_err ''send_raw failed'' (call_node nd (nd_send_raw nd client raw)))))"

section \<open>Confirmation\<close>

lemma unat_next_round: "current < end_round \<Longrightarrow> unat (current + 1 :: u64) = Suc (unat current)"
  using unsigned_less [of end_round, where 'a = nat]
  by (simp add: word_less_nat_alt unat_plus_if' split: if_splits)

lemma next_round_closer: "current < end_round \<Longrightarrow> unat end_round - unat (current + 1 :: u64) < unat end_round - unat current"
  by (simp add: unat_next_round word_less_nat_alt)

function wait_rounds ::
  "('e, 'a, 'j, 'z) node_scheme \<Rightarrow> client \<Rightarrow> string \<Rightarrow> u64 \<Rightarrow> u64 \<Rightarrow> u64 \<Rightarrow> ('e world, unit) op" where
  "wait_rounds nd client tx_id timeout_rounds current end_round =
     (if \<not> current < end_round
      then fail (Msg (''Transaction not confirmed after '' @ show_nat (unat timeout_rounds) @ '' rounds''))
      else
        attempt (call_node nd (nd_pending_transaction nd client tx_id)) (\<lambda>r.
          let go_on =
            try_op (prefix_err ''status_after_block failed'' (call_node nd (nd_status_after_block nd client current)))
              (\<lambda>_. wait_rounds nd client tx_id timeout_rounds (current + 1) end_round)
          in case r of
               Inr p \<Rightarrow>
                 if (case pi_confirmed_round p of Some cr \<Rightarrow> 0 < cr | None \<Rightarrow> False) then ret ()
                 else if pi_pool_error p \<noteq> []
                 then fail (Msg (''Transaction rejected with pool error: '' @ pi_pool_error p))
                 else go_on
             | Inl e \<Rightarrow>
                 if is_host_unreachable (Msg (any_display e))
                 then fail (Typed (algo_unreachable ''pending_transaction'' (any_display e)))
                 else go_on))"
  by pat_completeness auto

termination
  by (relation "measure (\<lambda>(nd, client, tx_id, t, current, end_round). unat end_round - unat current)")
     (auto simp: next_round_closer)

declare wait_rounds.simps [simp del]

definition wait_for_confirmation ::
  "('e, 'a, 'j, 'z) node_scheme \<Rightarrow> string \<Rightarrow> u64 \<Rightarrow> ('e world, unit) op" where
  "wait_for_confirmation nd tx_id timeout_rounds =
     (if timeout_rounds = 0 then fail (Msg ''timeout_rounds must be > 0'')
      else
        try_op (algod_client nd) (\<lambda>client.
        try_op (prefix_err ''failed to get node status'' (call_node nd (nd_status nd client))) (\<lambda>last_round.
          let start_round = last_round + 1
          in wait_rounds nd client tx_id timeout_rounds start_round (start_round + timeout_rounds))))"

definition submit_and_wait ::
  "('e, 'a, 'j, 'x, 'y, 'z) tx_node_scheme \<Rightarrow> client \<Rightarrow> bytes \<Rightarrow> string \<Rightarrow> 'x \<Rightarrow> ('e world, string) op" where
  "submit_and_wait nd client sk what tx =
     try_op (sign_and_send nd client sk what tx) (\<lambda>tx_id.
     try_op (wait_for_confirmation nd tx_id 10) (\<lambda>_. ret tx_id))"

section \<open>Payments\<close>

text \<open>A double as the code can be given one; \<open>Fin\<close> carries its exact value.\<close>

datatype f64 = NaN | Inf bool | Fin rat

fun f64_nonpos :: "f64 \<Rightarrow> bool" where
  "f64_nonpos NaN = False"
| "f64_nonpos (Inf negative) = negative"
| "f64_nonpos (Fin r) = (r \<le> 0)"

text \<open>A rounded value \<open>as u64\<close>: saturating, NaN to 0.\<close>

definition saturate_u64 :: "int \<Rightarrow> u64" where
  "saturate_u64 i = (if i \<le> 0 then 0 else if 2 ^ 64 \<le> i then - 1 else word_of_int i)"

text \<open>\<open>(amount_algos * 1_000_000.0).round() as u64\<close>; ties away from zero.\<close>

fun micro_of_algos :: "f64 \<Rightarrow> u64" where
  "micro_of_algos NaN = 0"
| "micro_of_algos (Inf negative) = (if negative then 0 else - 1)"
| "micro_of_algos (Fin r) =
     (let x = f64_mul r 1000000
      in saturate_u64 (if x < 0 then - \<lfloor>- x + 1 / 2\<rfloor> else \<lfloor>x + 1 / 2\<rfloor>))"

definition send_algo ::
  "('e, 'a, 'j, 'x, 'y, 'z) tx_node_scheme \<Rightarrow> string \<Rightarrow> f64 \<Rightarrow> ('e world, unit) op" where
  "send_algo nd to_address amount_algos =
     (if f64_nonpos amount_algos then fail (Msg ''amount must be positive'')
      else
        try_op (secret_key nd) (\<lambda>sk.
        try_op (require_address nd) (\<lambda>sender.
        try_op (lift (parse_address nd to_address)) (\<lambda>to.
        try_op (algod_client nd) (\<lambda>client.
        try_op (fetch_params nd client) (\<lambda>params.
        try_op (build_tx nd ''transaction'' (TxPay sender to (micro_of_algos amount_algos)) None params) (\<lambda>tx.
        try_op (submit_and_wait nd client sk ''transaction'' tx) (\<lambda>_. ret ()))))))))"

section \<open>Assets\<close>

text \<open>\<open>info.asset_index.or(Some(0)).filter(|id| *id != 0)\<close>.\<close>

definition created_asset ::
  "('e, 'a, 'j, 'z) node_scheme \<Rightarrow> client \<Rightarrow> string \<Rightarrow> ('e world, u64 option) op" where
  "created_asset nd client tx_id =
     try_op (prefix_err ''failed to fetch pending transaction info for asset id''
              (call_node nd (nd_pending_transaction nd client tx_id))) (\<lambda>info.
       ret (case pi_asset_index info of Some i \<Rightarrow> if i \<noteq> 0 then Some i else None | None \<Rightarrow> None))"

definition create_asset ::
  "('e, 'a, 'j, 'x, 'y, 'z) tx_node_scheme \<Rightarrow> string \<Rightarrow> u64 \<Rightarrow> ('e world, u64 option) op" where
  "create_asset nd name units_in_issue =
     (if blank name then fail (Msg ''asset name must not be empty'')
      else if units_in_issue = 0 then fail (Msg ''units_in_issue must be > 0'')
      else
        try_op (secret_key nd) (\<lambda>sk.
        try_op (require_address nd) (\<lambda>issuer.
        try_op (algod_client nd) (\<lambda>client.
        try_op (fetch_params nd client) (\<lambda>params.
        try_op (build_tx nd ''asset create transaction''
                 (TxCreateAsset issuer units_in_issue issuer issuer issuer None) None params) (\<lambda>tx.
        try_op (submit_and_wait nd client sk ''asset create transaction'' tx) (\<lambda>tx_id.
          created_asset nd client tx_id)))))))"

definition create_asset_configured ::
  "('e, 'a, 'j, 'x, 'y, 'z) tx_node_scheme \<Rightarrow> string \<Rightarrow> u64 \<Rightarrow> string \<Rightarrow> string \<Rightarrow> string \<Rightarrow> string \<Rightarrow>
     ('e world, u64 option) op" where
  "create_asset_configured nd name units_in_issue manager_addr reserve_addr clawback_addr freeze_addr =
     (if blank name then fail (Msg ''asset name must not be empty'')
      else if units_in_issue = 0 then fail (Msg ''units_in_issue must be > 0'')
      else
        try_op (secret_key nd) (\<lambda>sk.
        try_op (require_address nd) (\<lambda>issuer.
        try_op (lift (parse_address nd manager_addr)) (\<lambda>manager.
        try_op (lift (parse_address nd reserve_addr)) (\<lambda>reserve.
        try_op (lift (parse_address nd clawback_addr)) (\<lambda>clawback.
        try_op (lift (parse_address nd freeze_addr)) (\<lambda>freeze.
        try_op (algod_client nd) (\<lambda>client.
        try_op (fetch_params nd client) (\<lambda>params.
        try_op (build_tx nd ''asset create transaction''
                 (TxCreateAsset issuer units_in_issue manager reserve clawback (Some freeze)) None params) (\<lambda>tx.
        try_op (submit_and_wait nd client sk ''asset create transaction'' tx) (\<lambda>tx_id.
          created_asset nd client tx_id)))))))))))"

definition create_asset_with_reserve_app ::
  "('e, 'a, 'j, 'x, 'y, 'z) tx_node_scheme \<Rightarrow> string \<Rightarrow> u64 \<Rightarrow> u64 \<Rightarrow> ('e world, u64 option) op" where
  "create_asset_with_reserve_app nd name units_in_issue app_id =
     (if app_id = 0 then fail (Msg ''app_id must be > 0'')
      else
        try_op (lift (contract_address (tn_crypto nd) app_id)) (\<lambda>app_addr.
        try_op address_str (\<lambda>issuer_addr.
          create_asset_configured nd name units_in_issue issuer_addr app_addr app_addr issuer_addr)))"

definition fetch_asset :: "('e, 'a, 'j, 'z) node_scheme \<Rightarrow> client \<Rightarrow> u64 \<Rightarrow> string \<Rightarrow> ('e world, 'j) op" where
  "fetch_asset nd client asset_id what =
     try_op (prefix_err what (call_node nd (nd_asset nd client asset_id))) (to_value ''asset info'')"

definition set_asset_clawback_to_app ::
  "('e, 'a, 'j, 'x, 'y, 'z) tx_node_scheme \<Rightarrow> u64 \<Rightarrow> u64 \<Rightarrow> ('e world, unit) op" where
  "set_asset_clawback_to_app nd app_id asset_id =
     (if app_id = 0 then fail (Msg ''app_id must be > 0'')
      else if asset_id = 0 then fail (Msg ''asset_id must be > 0'')
      else
        try_op (algod_client nd) (\<lambda>client.
        try_op (require_address nd) (\<lambda>caller.
        try_op (fetch_asset nd client asset_id ''failed to fetch asset information'') (\<lambda>v_asset.
        try_op (lift (ok_or (Msg (''asset '' @ show_nat (unat asset_id) @ '' info did not contain manager field''))
                  (get_then (nd_json nd) (get_then (nd_json nd) (js_str (nd_json nd)) ''manager'') ''params'' v_asset)))
          (\<lambda>asset_manager_str.
        try_op (lift (parse_address nd asset_manager_str)) (\<lambda>asset_manager.
        if caller \<noteq> asset_manager
        then fail (Msg (''Only the asset manager ('' @ asset_manager_str @ '') can set asset clawback, but called by '' @
                        tn_show_address nd caller))
        else
          try_op (lift (contract_address (tn_crypto nd) app_id)) (\<lambda>app_addr_str.
          try_op (lift (parse_address nd app_addr_str)) (\<lambda>app_addr.
          try_op (fetch_params nd client) (\<lambda>params.
          try_op (build_tx nd ''asset config transaction''
                   (TxUpdateAsset caller asset_id caller app_addr app_addr) None params) (\<lambda>tx.
          try_op (secret_key nd) (\<lambda>sk.
          try_op (submit_and_wait nd client sk ''asset config transaction'' tx) (\<lambda>_. ret ()))))))))))))"

definition send_asset ::
  "('e, 'a, 'j, 'x, 'y, 'z) tx_node_scheme \<Rightarrow> u64 \<Rightarrow> u64 \<Rightarrow> string \<Rightarrow> ('e world, unit) op" where
  "send_asset nd asset_id amount to_address =
     (if asset_id = 0 then fail (Msg ''asset_id must be > 0'')
      else if amount = 0 then fail (Msg ''amount must be > 0'')
      else
        try_op (secret_key nd) (\<lambda>sk.
        try_op (require_address nd) (\<lambda>sender.
        try_op (lift (parse_address nd to_address)) (\<lambda>to.
        try_op (algod_client nd) (\<lambda>client.
        try_op (fetch_params nd client) (\<lambda>params.
        try_op (build_tx nd ''asset transfer transaction'' (TxTransferAsset sender asset_id amount to) None params) (\<lambda>tx.
        try_op (submit_and_wait nd client sk ''asset transfer transaction'' tx) (\<lambda>_. ret ()))))))))"

definition asset_creator :: "'j json_api \<Rightarrow> 'j \<Rightarrow> string option" where
  "asset_creator js v =
     (case get_then js (get_then js (js_str js) ''creator'') ''params'' v of
        Some s \<Rightarrow> Some s
      | None \<Rightarrow>
          (case get_then js (js_str js) ''creator'' v of
             Some s \<Rightarrow> Some s
           | None \<Rightarrow>
               get_then js (\<lambda>p. Option.bind (json_get js p ''creator-address'' ''creator_address'') (js_str js)) ''params'' v))"

definition change_asset_reserve_address ::
  "('e, 'a, 'j, 'x, 'y, 'z) tx_node_scheme \<Rightarrow> u64 \<Rightarrow> string \<Rightarrow> ('e world, unit) op" where
  "change_asset_reserve_address nd asset_id reserve_address =
     (if asset_id = 0 then fail (Msg ''asset_id must be > 0'')
      else
        try_op (lift (rmap_err (\<lambda>e. msg_err ''invalid reserve address'' (any_display e))
                 (parse_address nd reserve_address))) (\<lambda>new_reserve.
        try_op (secret_key nd) (\<lambda>sk.
        try_op (require_address nd) (\<lambda>signer_addr.
        try_op (algod_client nd) (\<lambda>client.
        try_op (fetch_asset nd client asset_id ''failed to fetch asset information'') (\<lambda>v.
        try_op (lift (ok_or (Msg ''asset info did not contain creator field'') (asset_creator (nd_json nd) v)))
          (\<lambda>creator_str.
        try_op address_str (\<lambda>own.
        try_op (lift (rmap_err (msg_err ''invalid caller address'') (nd_parse_address nd own))) (\<lambda>caller.
        if creator_str \<noteq> tn_show_address nd caller
        then fail (Msg ''caller must be the asset creator to change the reserve address'')
        else
          try_op (fetch_params nd client) (\<lambda>params.
          try_op (build_tx nd ''asset config transaction''
                   (TxUpdateAsset signer_addr asset_id signer_addr new_reserve new_reserve) None params) (\<lambda>tx.
          try_op (submit_and_wait nd client sk ''asset config transaction'' tx) (\<lambda>_.
          try_op (prefix_err ''failed to fetch creator account information''
                   (call_node nd (nd_account nd client signer_addr))) (\<lambda>acct_info.
          try_op (to_value ''creator account info'' (ai_json acct_info)) (\<lambda>va.
          let creator_amount = parse_holding_amount_from_account_value (nd_json nd) va asset_id
          in if creator_amount = 0 then ret ()
             else
               try_op (is_account_opted_in_to_asset nd reserve_address asset_id) (\<lambda>opted_in.
               if \<not> opted_in
               then fail (Msg (''new reserve address is not opted-in to asset '' @ show_nat (unat asset_id)))
               else send_asset nd asset_id creator_amount reserve_address)))))))))))))))"

definition opt_in_to_asset ::
  "('e, 'a, 'j, 'x, 'y, 'z) tx_node_scheme \<Rightarrow> u64 \<Rightarrow> ('e world, unit) op" where
  "opt_in_to_asset nd asset_id =
     (if asset_id = 0 then fail (Msg ''asset_id must be > 0'')
      else
        try_op (secret_key nd) (\<lambda>sk.
        try_op (require_address nd) (\<lambda>addr.
        try_op (algod_client nd) (\<lambda>client.
        try_op (fetch_params nd client) (\<lambda>params.
        try_op (build_tx nd ''asset opt-in transaction'' (TxTransferAsset addr asset_id 0 addr) None params) (\<lambda>tx.
        try_op (submit_and_wait nd client sk ''asset opt-in transaction'' tx) (\<lambda>_. ret ())))))))"

definition parse_creator_reserve_from_asset_info_value :: "'j json_api \<Rightarrow> 'j \<Rightarrow> (string \<times> string) option" where
  "parse_creator_reserve_from_asset_info_value js v =
     (let params = js_get js ''params'' v;
          str = (\<lambda>k p. get_then js (js_str js) k p)
      in Option.bind
           (case Option.bind params (str ''creator'') of Some s \<Rightarrow> Some s | None \<Rightarrow> str ''creator'' v) (\<lambda>creator.
         Option.bind
           (Option.bind params (\<lambda>p. case str ''reserve'' p of
              Some s \<Rightarrow> Some s
            | None \<Rightarrow> Option.bind (json_get js p ''reserve-address'' ''reserve_address'') (js_str js))) (\<lambda>reserve.
         Some (creator, reserve))))"

definition recover_reserve_balance ::
  "('e, 'a, 'j, 'x, 'y, 'z) tx_node_scheme \<Rightarrow> u64 \<Rightarrow> ('e world, unit) op" where
  "recover_reserve_balance nd asset_id =
     (if asset_id = 0 then fail (Msg ''asset_id must be > 0'')
      else
        try_op (algod_client nd) (\<lambda>client.
        try_op (fetch_asset nd client asset_id ''failed to fetch asset information'') (\<lambda>v.
        (case parse_creator_reserve_from_asset_info_value (nd_json nd) v of
           None \<Rightarrow> fail (Msg ''asset information did not contain creator/reserve fields'')
         | Some (creator_str, reserve_str) \<Rightarrow>
             try_op address_str (\<lambda>caller_addr.
             if caller_addr \<noteq> reserve_str
             then fail (Msg ''caller must be the current reserve address to recover the reserve balance'')
             else
               try_op (is_account_opted_in_to_asset nd creator_str asset_id) (\<lambda>opted_in.
               if \<not> opted_in
               then fail (Msg (''creator address is not opted-in to asset '' @ show_nat (unat asset_id)))
               else
                 try_op (lift (parse_address nd reserve_str)) (\<lambda>reserve_addr.
                 try_op (prefix_err ''failed to fetch reserve account information''
                          (call_node nd (nd_account nd client reserve_addr))) (\<lambda>acct_info.
                 try_op (to_value ''reserve account info'' (ai_json acct_info)) (\<lambda>va.
                 let amount = parse_holding_amount_from_account_value (nd_json nd) va asset_id
                 in if amount = 0 then ret () else send_asset nd asset_id amount creator_str)))))))))"

definition asset_clawback_of :: "'j json_api \<Rightarrow> 'j \<Rightarrow> string option" where
  "asset_clawback_of js v =
     (case get_then js (\<lambda>p. Option.bind
              (case js_get js ''clawback'' p of
                 Some x \<Rightarrow> Some x | None \<Rightarrow> json_get js p ''clawback-address'' ''clawback_address'') (js_str js)) ''params'' v of
        Some s \<Rightarrow> if s \<noteq> [] then Some s else None
      | None \<Rightarrow> None)"

definition asset_clawback ::
  "('e, 'a, 'j, 'x, 'y, 'z) tx_node_scheme \<Rightarrow> u64 \<Rightarrow> ('e world, string option) op" where
  "asset_clawback nd asset_id =
     (if asset_id = 0 then fail (Msg ''asset_id must be > 0'')
      else
        try_op (algod_client nd) (\<lambda>client.
        try_op (fetch_asset nd client asset_id (''failed to fetch asset '' @ show_nat (unat asset_id) @ '' info'')) (\<lambda>v.
          ret (asset_clawback_of (nd_json nd) v))))"

section \<open>A concrete node\<close>

text \<open>The refusing node with builders that always succeed; an unsigned or signed transaction is its request.\<close>

definition refusing_tx_node :: "(nat, string, json, string tx_request, string tx_request) tx_node" where
  "refusing_tx_node = node.extend refusing_node
     \<lparr>tn_crypto = toy_crypto, tn_uuid = (\<lambda>e. (replicate 16 0, e)), tn_parse_json = (\<lambda>_. Inl ''refused''),
      tn_micro_mul = (*), tn_show_address = id, tn_bytes_to_sign = id, tn_build = (\<lambda>req _ _ _. Inr req),
      tn_estimate_size = (\<lambda>_. Inr 100), tn_sign = (\<lambda>_ x. Inr x), tn_to_msg_pack = (\<lambda>_. Inr [1]),
      tn_group = Inr, tn_send_transactions = (\<lambda>_ _. refuse), tn_teal_compile = (\<lambda>_ _. refuse)\<rparr>"

text \<open>A node that accepts and confirms everything at round 7.\<close>

definition confirming_node :: "(nat, string, json, string tx_request, string tx_request) tx_node" where
  "confirming_node = refusing_tx_node
     \<lparr>nd_suggested_params := (\<lambda>_. answers \<lparr>sp_last_round = 6, sp_min_fee = 1000, sp_genesis_hash = [], sp_genesis_id = ''g'',
                                         sp_fee = 0\<rparr>),
      nd_send_raw := (\<lambda>_ _. answers ''T''), nd_status := (\<lambda>_. answers 6),
      nd_pending_transaction := (\<lambda>_ _. answers \<lparr>pi_confirmed_round = Some 7, pi_txn_json = None, pi_asset_index = None,
                                         pi_pool_error = [], pi_json = Inr (JObj [])\<rparr>)\<rparr>"

definition keyed_client :: algo_ops where
  "keyed_client = plain_client\<lparr>ops_passphrase := Some (''b64:'' @ bytes_str (replicate 32 9)), ops_address := Some ''A''\<rparr>"

end
