(* ===== verification/AppCalls.thy ===== *)
theory AppCalls
  imports TxOps
begin

text \<open>
  Application operations of \<open>AlgoOps\<close> (\<open>algo_ops/src/ops.rs\<close>): the creator cache, building and sending an
  application call, opting in and out, compiling, deploying and updating. Log output is left out;
  the creator cache is a field of the client (its lock is taken not to be poisoned).
\<close>

section \<open>The creator cache\<close>

definition parse_app_creator_from_app_info_value :: "'j json_api \<Rightarrow> 'j \<Rightarrow> string option" where
  "parse_app_creator_from_app_info_value js v =
     (case get_then js (get_then js (js_str js) ''creator'') ''params'' v of
        Some s \<Rightarrow> Some s
      | None \<Rightarrow> get_then js (js_str js) ''creator'' v)"

definition cached_app_creator :: "algo_ops \<Rightarrow> u64 \<Rightarrow> string option" where
  "cached_app_creator ops app_id = ops_app_creators ops app_id"

definition fetch_app_creator ::
  "('e, 'a, 'j, 'z) node_scheme \<Rightarrow> u64 \<Rightarrow> ('e world, string) op" where
  "fetch_app_creator nd app_id =
     try_op (algod_client nd) (\<lambda>client.
     try_op (prefix_err (''failed to fetch application '' @ show_nat (unat app_id) @ '' info'')
              (call_node nd (nd_app nd client app_id))) (\<lambda>app_info.
     try_op (to_value ''application info'' app_info) (\<lambda>v.
       lift (ok_or (Msg (''application '' @ show_nat (unat app_id) @ '' info did not contain a creator field''))
               (parse_app_creator_from_app_info_value (nd_json nd) v)))))"

definition remember_creator :: "u64 \<Rightarrow> string \<Rightarrow> ('e world, unit) op" where
  "remember_creator app_id creator w =
     (case w of (ops, e) \<Rightarrow>
        Some (Inr (), ops\<lparr>ops_app_creators := (ops_app_creators ops)(app_id := Some creator)\<rparr>, e))"

definition app_creator ::
  "('e, 'a, 'j, 'z) node_scheme \<Rightarrow> u64 \<Rightarrow> ('e world, string) op" where
  "app_creator nd app_id w =
     (if app_id = 0 then fail (Msg ''app_id must be > 0'') w
      else
        (case cached_app_creator (fst w) app_id of
           Some creator \<Rightarrow> ret creator w
         | None \<Rightarrow>
             try_op (fetch_app_creator nd app_id) (\<lambda>creator.
             try_op (remember_creator app_id creator) (\<lambda>_. ret creator)) w))"

section \<open>Application calls\<close>

definition call_args :: "crypto \<Rightarrow> string option \<Rightarrow> app_arg list \<Rightarrow> bytes list" where
  "call_args cr method args =
     (case method of Some sig \<Rightarrow> [arc4_selector cr sig] | None \<Rightarrow> []) @ map arg_bytes args"

definition build_call_app_tx_inner ::
  "('e, 'a, 'j, 'x, 'y, 'z) tx_node_scheme \<Rightarrow> u64 \<Rightarrow> u64 option \<Rightarrow> u64 list \<Rightarrow> 'a list \<Rightarrow> string option \<Rightarrow>
     app_arg list \<Rightarrow> ('e world, 'x) op" where
  "build_call_app_tx_inner nd app_id asset_id foreign_app_ids extra_accounts method args =
     (if app_id = 0 then fail (Msg ''app_id must be > 0'')
      else
        try_op (app_creator nd app_id) (\<lambda>creator_str.
        try_op (lift (parse_address nd creator_str)) (\<lambda>creator.
        try_op (require_address nd) (\<lambda>sender.
        try_op (algod_client nd) (\<lambda>client.
        try_op (fetch_params nd client) (\<lambda>params.
        let req = TxCallApplication sender app_id (extra_accounts @ [creator])
                    (call_args (tn_crypto nd) method args)
                    (map_option (\<lambda>aid. [aid]) asset_id)
                    (if foreign_app_ids \<noteq> [] then Some foreign_app_ids else None)
        in try_op (build_tx nd ''app call transaction for fee estimation'' req (Some 0) params) (\<lambda>tx_zero_fee.
           try_op (lift (rmap_err (msg_err ''failed to estimate signed tx size'') (tn_estimate_size nd tx_zero_fee)))
             (\<lambda>est_size.
           build_tx nd ''app call transaction'' req
             (Some (estimate_fee_for_signed_size (tn_micro_mul nd) params est_size)) params))))))))"

definition build_call_app_tx ::
  "('e, 'a, 'j, 'x, 'y, 'z) tx_node_scheme \<Rightarrow> u64 \<Rightarrow> u64 option \<Rightarrow> string option \<Rightarrow> app_arg list \<Rightarrow>
     ('e world, 'x) op" where
  "build_call_app_tx nd app_id asset_id method args =
     build_call_app_tx_inner nd app_id asset_id [] [] method args"

definition build_call_app_tx_with_foreign_apps ::
  "('e, 'a, 'j, 'x, 'y, 'z) tx_node_scheme \<Rightarrow> u64 \<Rightarrow> u64 option \<Rightarrow> u64 list \<Rightarrow> string option \<Rightarrow> app_arg list \<Rightarrow>
     ('e world, 'x) op" where
  "build_call_app_tx_with_foreign_apps nd app_id asset_id foreign_app_ids method args =
     build_call_app_tx_inner nd app_id asset_id foreign_app_ids [] method args"

definition decode_logs :: "'j json_api \<Rightarrow> base64_engine \<Rightarrow> 'j \<Rightarrow> bytes list" where
  "decode_logs js b64 v =
     List.map_filter (\<lambda>l. Option.bind (js_str js l) (\<lambda>s. rok (b64_decode b64 s)))
       (case get_then js (js_array js) ''logs'' v of Some xs \<Rightarrow> xs | None \<Rightarrow> [])"

definition sign_submit_and_fetch_logs ::
  "('e, 'a, 'j, 'x, 'y, 'z) tx_node_scheme \<Rightarrow> 'x \<Rightarrow> ('e world, string \<times> bytes list) op" where
  "sign_submit_and_fetch_logs nd tx =
     try_op (secret_key nd) (\<lambda>sk.
     try_op (algod_client nd) (\<lambda>client.
     try_op (submit_and_wait nd client sk ''app call transaction'' tx) (\<lambda>tx_id.
     try_op (prefix_err ''failed to fetch pending transaction info''
              (call_node nd (nd_pending_transaction nd client tx_id))) (\<lambda>p.
     try_op (to_value ''pending tx info'' (pi_json p)) (\<lambda>v.
       ret (tx_id, decode_logs (nd_json nd) (nd_b64 nd) v))))))"

definition call_app ::
  "('e, 'a, 'j, 'x, 'y, 'z) tx_node_scheme \<Rightarrow> u64 \<Rightarrow> u64 option \<Rightarrow> string option \<Rightarrow> app_arg list \<Rightarrow>
     ('e world, string \<times> bytes list) op" where
  "call_app nd app_id asset_id method args =
     (if app_id = 0 then fail (Msg ''app_id must be > 0'')
      else try_op (build_call_app_tx nd app_id asset_id method args) (sign_submit_and_fetch_logs nd))"

definition call_app_raw_args ::
  "('e, 'a, 'j, 'x, 'y, 'z) tx_node_scheme \<Rightarrow> u64 \<Rightarrow> u64 option \<Rightarrow> string option \<Rightarrow> app_arg list \<Rightarrow>
     ('e world, string \<times> bytes list) op" where
  "call_app_raw_args nd app_id asset_id method args = call_app nd app_id asset_id method args"

definition call_app_arc4_args ::
  "('e, 'a, 'j, 'x, 'y, 'z) tx_node_scheme \<Rightarrow> u64 \<Rightarrow> u64 option \<Rightarrow> string option \<Rightarrow> app_arg list \<Rightarrow>
     ('e world, string \<times> bytes list) op" where
  "call_app_arc4_args nd app_id asset_id method args =
     try_op (lift (arc4_frame_args method args)) (call_app nd app_id asset_id method)"

definition call_app_with_accounts ::
  "('e, 'a, 'j, 'x, 'y, 'z) tx_node_scheme \<Rightarrow> u64 \<Rightarrow> u64 option \<Rightarrow> string option \<Rightarrow> app_arg list \<Rightarrow> string list \<Rightarrow>
     ('e world, string \<times> bytes list) op" where
  "call_app_with_accounts nd app_id asset_id method args extra_accounts =
     (if app_id = 0 then fail (Msg ''app_id must be > 0'')
      else
        try_op (lift (collect_results (parse_address nd) extra_accounts)) (\<lambda>parsed.
        try_op (build_call_app_tx_inner nd app_id asset_id [] parsed method args)
          (sign_submit_and_fetch_logs nd)))"

definition call_app_with_foreign_app ::
  "('e, 'a, 'j, 'x, 'y, 'z) tx_node_scheme \<Rightarrow> u64 \<Rightarrow> u64 \<Rightarrow> u64 option \<Rightarrow> string option \<Rightarrow> app_arg list \<Rightarrow>
     ('e world, string \<times> bytes list) op" where
  "call_app_with_foreign_app nd app_id foreign_app_id asset_id method args =
     (if app_id = 0 then fail (Msg ''app_id must be > 0'')
      else if foreign_app_id = 0 then fail (Msg ''foreign_app_id must be > 0'')
      else
        try_op (build_call_app_tx_inner nd app_id asset_id [foreign_app_id] [] method args)
          (sign_submit_and_fetch_logs nd))"

section \<open>Opting in and out, deleting\<close>

text \<open>The lifecycle transactions carry the sender and the application only.\<close>

definition lifecycle ::
  "('e, 'a, 'j, 'x, 'y, 'z) tx_node_scheme \<Rightarrow> string \<Rightarrow> ('a \<Rightarrow> 'a tx_request) \<Rightarrow> ('e world, unit) op" where
  "lifecycle nd what req =
     try_op (require_address nd) (\<lambda>sender.
     try_op (secret_key nd) (\<lambda>sk.
     try_op (algod_client nd) (\<lambda>client.
     try_op (fetch_params nd client) (\<lambda>params.
     try_op (build_tx nd what (req sender) None params) (\<lambda>tx.
     try_op (submit_and_wait nd client sk what tx) (\<lambda>_. ret ()))))))"

definition opt_in_app :: "('e, 'a, 'j, 'x, 'y, 'z) tx_node_scheme \<Rightarrow> u64 \<Rightarrow> ('e world, unit) op" where
  "opt_in_app nd app_id =
     (if app_id = 0 then fail (Msg ''app_id must be > 0'')
      else
        try_op address_str (\<lambda>addr_str.
        try_op (local_state_for_account nd app_id addr_str) (\<lambda>entries.
          case entries of
            Some _ \<Rightarrow> ret ()
          | None \<Rightarrow> lifecycle nd ''app opt-in transaction'' (\<lambda>sender. TxOptInApplication sender app_id))))"

definition clear_state_app :: "('e, 'a, 'j, 'x, 'y, 'z) tx_node_scheme \<Rightarrow> u64 \<Rightarrow> ('e world, unit) op" where
  "clear_state_app nd app_id =
     (if app_id = 0 then fail (Msg ''app_id must be > 0'')
      else lifecycle nd ''app clear transaction'' (\<lambda>sender. TxClearApplication sender app_id))"

definition close_out_app :: "('e, 'a, 'j, 'x, 'y, 'z) tx_node_scheme \<Rightarrow> u64 \<Rightarrow> ('e world, unit) op" where
  "close_out_app nd app_id =
     (if app_id = 0 then fail (Msg ''app_id must be > 0'')
      else lifecycle nd ''app close-out transaction'' (\<lambda>sender. TxCloseApplication sender app_id))"

definition delete_app :: "('e, 'a, 'j, 'x, 'y, 'z) tx_node_scheme \<Rightarrow> u64 \<Rightarrow> ('e world, unit) op" where
  "delete_app nd app_id =
     (if app_id = 0 then fail (Msg ''app_id must be > 0'')
      else lifecycle nd ''app delete transaction'' (\<lambda>sender. TxDeleteApplication sender app_id))"

definition opt_in_app_to_asset ::
  "('e, 'a, 'j, 'x, 'y, 'z) tx_node_scheme \<Rightarrow> u64 \<Rightarrow> u64 \<Rightarrow> string \<Rightarrow> ('e world, string) op" where
  "opt_in_app_to_asset nd app_id asset_id opt_in_method_name =
     (if app_id = 0 then fail (Msg ''app_id must be > 0'')
      else if asset_id = 0 then fail (Msg ''asset_id must be > 0'')
      else
        try_op (lift (contract_address (tn_crypto nd) app_id)) (\<lambda>app_addr_str.
        try_op (is_account_opted_in_to_asset nd app_addr_str asset_id) (\<lambda>opted_in.
        if opted_in then ret []
        else try_op (call_app nd app_id (Some asset_id) (Some opt_in_method_name) [AUint asset_id])
               (\<lambda>(tx_id, _). ret tx_id))))"

section \<open>Compiling, deploying, updating\<close>

definition compile_teal ::
  "('e, 'a, 'j, 'x, 'y, 'z) tx_node_scheme \<Rightarrow> string \<Rightarrow> ('e world, bytes) op" where
  "compile_teal nd source =
     (if source = [] then fail (Msg ''source must not be empty'')
      else
        (case strip_prefix ''base64:'' source of
           Some rest \<Rightarrow> lift (rmap_err (\<lambda>e. Msg (''invalid base64 program: '' @ e)) (b64_decode (nd_b64 nd) rest))
         | None \<Rightarrow>
             try_op (algod_client nd) (\<lambda>client.
               call_node nd (tn_teal_compile nd client (utf8_bytes source)))))"

text \<open>\<open>{:.6}\<close> of a non-negative double.\<close>

definition show_fixed6 :: "rat \<Rightarrow> string" where
  "show_fixed6 r =
     (let n = nat (round_even (r * 1000000)); frac = show_nat (n mod 1000000)
      in show_nat (n div 1000000) @ ''.'' @ replicate (6 - length frac) CHR ''0'' @ frac)"

definition created_app :: "'j json_api \<Rightarrow> 'j \<Rightarrow> u64" where
  "created_app js v =
     (case get_then js (js_u64 js) ''application-index'' v of
        Some i \<Rightarrow> i
      | None \<Rightarrow> (case get_then js (js_u64 js) ''application_index'' v of Some i \<Rightarrow> i | None \<Rightarrow> 0))"

text \<open>What follows a successful creation: the funding of the app account, and the asset's opt-in.\<close>

definition set_up_app ::
  "('e, 'a, 'j, 'x, 'y, 'z) tx_node_scheme \<Rightarrow> u64 option \<Rightarrow> string \<Rightarrow> u64 \<Rightarrow> ('e world, unit) op" where
  "set_up_app nd asset_id opt_in_method_name app_id =
     (if app_id = 0 then ret ()
      else
        try_op (case contract_address (tn_crypto nd) app_id of
                  Inr app_addr \<Rightarrow> send_algo nd app_addr (Fin (round64 (321 / 100)))
                | Inl _ \<Rightarrow> ret ()) (\<lambda>_.
        (case asset_id of
           None \<Rightarrow> ret ()
         | Some aid \<Rightarrow>
             try_op (opt_in_app_to_asset nd app_id aid opt_in_method_name) (\<lambda>_.
               set_asset_clawback_to_app nd app_id aid))))"

definition insufficient_funds :: "rat \<Rightarrow> u64 \<Rightarrow> any_error" where
  "insufficient_funds balance est_fee =
     Msg (''Insufficient funds to create application: balance '' @ show_fixed6 balance @
          '' ALGO, estimated required fee '' @ show_fixed6 (f64_of_micro est_fee) @
          '' ALGO. Please fund the creator account and retry.'')"

definition balance_micro :: "rat \<Rightarrow> u64" where
  "balance_micro balance = saturate_u64 \<lfloor>f64_mul balance 1000000\<rfloor>"

definition program_size :: "('e, 'a, 'j, 'x, 'y, 'z) tx_node_scheme \<Rightarrow> bytes \<Rightarrow> bytes \<Rightarrow> u64" where
  "program_size nd approval clear =
     of_nat (length (tn_bytes_to_sign nd approval)) + of_nat (length (tn_bytes_to_sign nd clear))"

definition deploy_app_reserving ::
  "('e, 'a, 'j, 'x, 'y, 'z) tx_node_scheme \<Rightarrow> bytes \<Rightarrow> bytes \<Rightarrow> u64 option \<Rightarrow> string option \<Rightarrow> app_arg list \<Rightarrow>
     string \<Rightarrow> string \<Rightarrow> u32 \<Rightarrow> ('e world, u64 option) op" where
  "deploy_app_reserving nd approval_program clear_state_program asset_id method args opt_in_method_name
     arc56_json reserve_extra_pages =
     (if approval_program = [] then fail (Msg ''approval_program must not be empty'')
      else if clear_state_program = [] then fail (Msg ''clear_state_program must not be empty'')
      else
        try_op (secret_key nd) (\<lambda>sk.
        try_op (require_address nd) (\<lambda>sender.
        try_op (lift (state_schema_from_arc56 (nd_json nd) (tn_parse_json nd) arc56_json)) (\<lambda>(gs, ls).
        try_op (algod_client nd) (\<lambda>client.
        try_op (fetch_params nd client) (\<lambda>params.
        let est_prog_size = program_size nd approval_program clear_state_program;
            est_fee = estimate_fee_for_programs (tn_micro_mul nd) params [est_prog_size]
        in try_op (account_balance nd) (\<lambda>maybe_balance.
           (case maybe_balance of
              None \<Rightarrow> fail (Msg ''Unable to determine account balance from algod; the account may not be funded or node unreachable'')
            | Some balance \<Rightarrow>
                if balance_micro balance < est_fee then fail (insufficient_funds balance est_fee)
                else
                  (let app_args = call_args (tn_crypto nd) method args;
                       extra_pages = extra_pages_for est_prog_size reserve_extra_pages;
                       req = TxCreateApplication sender approval_program clear_state_program gs ls
                         (if 0 < extra_pages then Some extra_pages else None)
                         (map_option (\<lambda>aid. [aid]) asset_id)
                         (if app_args \<noteq> [] then Some app_args else None)
                   in try_op (build_tx nd ''app create transaction'' req None params) (\<lambda>tx.
                      try_op (submit_and_wait nd client sk ''app create transaction'' tx) (\<lambda>tx_id.
                      try_op (prefix_err ''failed to fetch pending transaction info for app id''
                               (call_node nd (nd_pending_transaction nd client tx_id))) (\<lambda>info.
                      try_op (to_value ''pending tx info'' (pi_json info)) (\<lambda>v.
                      let app_id = created_app (nd_json nd) v
                      in try_op (set_up_app nd asset_id opt_in_method_name app_id) (\<lambda>_.
                           ret (if app_id \<noteq> 0 then Some app_id else None)))))))))))))))"

definition deploy_app ::
  "('e, 'a, 'j, 'x, 'y, 'z) tx_node_scheme \<Rightarrow> bytes \<Rightarrow> bytes \<Rightarrow> u64 option \<Rightarrow> string option \<Rightarrow> app_arg list \<Rightarrow>
     string \<Rightarrow> string \<Rightarrow> ('e world, u64 option) op" where
  "deploy_app nd approval_program clear_state_program asset_id method args opt_in_method_name arc56_json =
     deploy_app_reserving nd approval_program clear_state_program asset_id method args opt_in_method_name arc56_json 0"

definition update_app ::
  "('e, 'a, 'j, 'x, 'y, 'z) tx_node_scheme \<Rightarrow> u64 \<Rightarrow> bytes \<Rightarrow> bytes \<Rightarrow> u64 option \<Rightarrow> ('e world, u64 option) op" where
  "update_app nd app_id approval_program clear_state_program asset_id =
     (if app_id = 0 then fail (Msg ''app_id must be > 0'')
      else if approval_program = [] then fail (Msg ''approval_program must not be empty'')
      else if clear_state_program = [] then fail (Msg ''clear_state_program must not be empty'')
      else
        try_op (secret_key nd) (\<lambda>sk.
        try_op (require_address nd) (\<lambda>sender.
        try_op (algod_client nd) (\<lambda>client.
        try_op (fetch_params nd client) (\<lambda>params.
        try_op (build_tx nd ''app update transaction''
                 (TxUpdateApplication sender app_id approval_program clear_state_program
                    (map_option (\<lambda>aid. [aid]) asset_id)) None params) (\<lambda>tx.
        try_op (submit_and_wait nd client sk ''app update transaction'' tx) (\<lambda>_. ret (Some app_id))))))))"

end
