(* ===== verification/TxGroups.thy ===== *)
theory TxGroups
  imports AppCalls
begin

text \<open>
  Atomic transaction groups (\<open>TransactionGroupBuilder\<close> of \<open>algo_ops/src/ops.rs\<close>): the fluent builder, which
  records its first misuse, and \<open>sign_and_send\<close>.
\<close>

datatype group_leg =
    Payment (leg_to: string) (leg_micro_algos: u64)
  | AssetTransfer (leg_asset_id: u64) (leg_amount: u64) (leg_to: string)
  | AppCall (leg_app_id: u64) (leg_method: "string option") (leg_args: "app_arg list")
      (leg_foreign_asset: "u64 option") (leg_foreign_app: "u64 option")

record group_builder =
  gb_legs :: "group_leg list"
  gb_error :: "string option"

definition transaction_group :: group_builder where
  "transaction_group = \<lparr>gb_legs = [], gb_error = None\<rparr>"

definition set_error :: "string \<Rightarrow> group_builder \<Rightarrow> group_builder" where
  "set_error msg b = (if gb_error b = None then b\<lparr>gb_error := Some msg\<rparr> else b)"

definition push_leg :: "group_leg \<Rightarrow> group_builder \<Rightarrow> group_builder" where
  "push_leg l b = b\<lparr>gb_legs := gb_legs b @ [l]\<rparr>"

definition group_payment :: "string \<Rightarrow> u64 \<Rightarrow> group_builder \<Rightarrow> group_builder" where
  "group_payment to_address micro_algos = push_leg (Payment to_address micro_algos)"

definition group_asset_transfer :: "u64 \<Rightarrow> u64 \<Rightarrow> string \<Rightarrow> group_builder \<Rightarrow> group_builder" where
  "group_asset_transfer asset_id amount to_address = push_leg (AssetTransfer asset_id amount to_address)"

definition group_call_app :: "u64 \<Rightarrow> string option \<Rightarrow> app_arg list \<Rightarrow> group_builder \<Rightarrow> group_builder" where
  "group_call_app app_id method args b =
     push_leg (AppCall app_id method args None None)
       (if app_id = 0 then set_error ''call_app() requires app_id > 0'' b else b)"

definition group_call_app_raw_args :: "u64 \<Rightarrow> string option \<Rightarrow> app_arg list \<Rightarrow> group_builder \<Rightarrow> group_builder" where
  "group_call_app_raw_args app_id method args = group_call_app app_id method args"

definition group_call_app_arc4_args :: "u64 \<Rightarrow> string option \<Rightarrow> app_arg list \<Rightarrow> group_builder \<Rightarrow> group_builder" where
  "group_call_app_arc4_args app_id method args b =
     (case arc4_frame_args method args of
        Inr framed_args \<Rightarrow> group_call_app app_id method framed_args b
      | Inl e \<Rightarrow> group_call_app app_id method args (set_error (''call_app_arc4_args(): '' @ any_display e) b))"

text \<open>A per-leg option goes to the last leg when that is an application call.\<close>

fun amend_last :: "(group_leg \<Rightarrow> group_leg option) \<Rightarrow> group_leg list \<Rightarrow> group_leg list option" where
  "amend_last f [] = None"
| "amend_last f [l] = map_option (\<lambda>l. [l]) (f l)"
| "amend_last f (l # m # ls) = map_option (Cons l) (amend_last f (m # ls))"

definition group_foreign_asset :: "u64 \<Rightarrow> group_builder \<Rightarrow> group_builder" where
  "group_foreign_asset asset_id b =
     (case amend_last (\<lambda>l. case l of AppCall i m as _ fapp \<Rightarrow> Some (AppCall i m as (Some asset_id) fapp) | _ \<Rightarrow> None)
             (gb_legs b) of
        Some legs \<Rightarrow> b\<lparr>gb_legs := legs\<rparr>
      | None \<Rightarrow> set_error ''foreign_asset() must follow a call_app() leg'' b)"

definition group_foreign_app :: "u64 \<Rightarrow> group_builder \<Rightarrow> group_builder" where
  "group_foreign_app foreign_app_id b =
     (case amend_last (\<lambda>l. case l of AppCall i m as fasset _ \<Rightarrow> Some (AppCall i m as fasset (Some foreign_app_id)) | _ \<Rightarrow> None)
             (gb_legs b) of
        Some legs \<Rightarrow> b\<lparr>gb_legs := legs\<rparr>
      | None \<Rightarrow> set_error ''foreign_app() must follow a call_app() leg'' b)"

section \<open>Sending a group\<close>

fun build_leg ::
  "('e, 'a, 'j, 'x, 'y, 'z) tx_node_scheme \<Rightarrow> 'a \<Rightarrow> node_params \<Rightarrow> group_leg \<Rightarrow> ('e world, 'x) op" where
  "build_leg nd sender params (Payment to micro_algos) =
     try_op (lift (parse_address nd to)) (\<lambda>to_addr.
       build_tx nd ''payment transaction'' (TxPay sender to_addr micro_algos) None params)"
| "build_leg nd sender params (AssetTransfer asset_id amount to) =
     try_op (lift (parse_address nd to)) (\<lambda>to_addr.
       build_tx nd ''asset transfer transaction'' (TxTransferAsset sender asset_id amount to_addr) None params)"
| "build_leg nd sender params (AppCall app_id method args fasset fapp) =
     build_call_app_tx_inner nd app_id fasset (case fapp of Some i \<Rightarrow> [i] | None \<Rightarrow> []) [] method args"

definition group_sign_and_send ::
  "('e, 'a, 'j, 'x, 'y, 'z) tx_node_scheme \<Rightarrow> group_builder \<Rightarrow> ('e world, string) op" where
  "group_sign_and_send nd b =
     (case gb_error b of
        Some err \<Rightarrow> fail (Msg err)
      | None \<Rightarrow>
          if gb_legs b = [] then fail (Msg ''transaction group must contain at least one transaction'')
          else
            try_op (secret_key nd) (\<lambda>sk.
            try_op (lift (array32 ''Secret key must be 32 bytes'' sk)) (\<lambda>seed.
            try_op (require_address nd) (\<lambda>sender.
            try_op (algod_client nd) (\<lambda>client.
            try_op (fetch_params nd client) (\<lambda>params.
            try_op (collect_ops (gb_legs b) (build_leg nd sender params)) (\<lambda>txns.
            try_op (lift (rmap_err (msg_err ''failed to assign group id'') (tn_group nd txns))) (\<lambda>grp.
            try_op (lift (collect_results (\<lambda>tx. rmap_err (msg_err ''failed to sign grouped transaction'') (tn_sign nd seed tx)) grp))
              (\<lambda>signed.
            try_op (prefix_err ''failed to broadcast transaction group'' (call_node nd (tn_send_transactions nd client signed)))
              (\<lambda>tx_id.
            try_op (wait_for_confirmation nd tx_id 10) (\<lambda>_. ret tx_id)))))))))))"

section \<open>Misuse\<close>

text \<open>The builder calls, as data.\<close>

datatype group_step =
    SPayment string u64 | SAssetTransfer u64 u64 string
  | SCall u64 "string option" "app_arg list" | SCallArc4 u64 "string option" "app_arg list"
  | SForeignAsset u64 | SForeignApp u64

fun do_step :: "group_step \<Rightarrow> group_builder \<Rightarrow> group_builder" where
  "do_step (SPayment to m) = group_payment to m"
| "do_step (SAssetTransfer i n to) = group_asset_transfer i n to"
| "do_step (SCall i m as) = group_call_app i m as"
| "do_step (SCallArc4 i m as) = group_call_app_arc4_args i m as"
| "do_step (SForeignAsset i) = group_foreign_asset i"
| "do_step (SForeignApp i) = group_foreign_app i"

text \<open>Which step is a misuse in which builder, and the legs a step leaves.\<close>

definition after_call :: "group_leg list \<Rightarrow> bool" where
  "after_call ls \<longleftrightarrow> ls \<noteq> [] \<and> (case last ls of AppCall _ _ _ _ _ \<Rightarrow> True | _ \<Rightarrow> False)"

fun misuse :: "group_step \<Rightarrow> group_leg list \<Rightarrow> bool" where
  "misuse (SPayment to m) ls = False"
| "misuse (SAssetTransfer i n to) ls = False"
| "misuse (SCall i m as) ls = (i = 0)"
| "misuse (SCallArc4 i m as) ls = (i = 0 \<or> (\<exists>e. arc4_frame_args m as = Inl e))"
| "misuse (SForeignAsset i) ls = (\<not> after_call ls)"
| "misuse (SForeignApp i) ls = (\<not> after_call ls)"

lemma set_error_error: "gb_error (set_error m b) = (case gb_error b of None \<Rightarrow> Some m | Some e \<Rightarrow> Some e)"
  by (auto simp: set_error_def split: option.split)

lemma set_error_legs [simp]: "gb_legs (set_error m b) = gb_legs b"
  by (simp add: set_error_def)

lemma push_leg_simps [simp]: "gb_error (push_leg l b) = gb_error b" "gb_legs (push_leg l b) = gb_legs b @ [l]"
  by (simp_all add: push_leg_def)

lemma amend_last_None:
  "amend_last f ls = None \<longleftrightarrow> ls = [] \<or> f (last ls) = None"
  by (induction f ls rule: amend_last.induct) auto

lemma step_error:
  "(gb_error (do_step s b) \<noteq> None) = (gb_error b \<noteq> None \<or> misuse s (gb_legs b))"
  "gb_error b = Some e \<Longrightarrow> gb_error (do_step s b) = Some e"
  by (cases s; auto simp: group_payment_def group_asset_transfer_def group_call_app_def group_call_app_arc4_args_def
      group_foreign_asset_def group_foreign_app_def set_error_error amend_last_None after_call_def
      split: option.splits sum.splits group_leg.splits)+

fun first_misuse :: "group_step list \<Rightarrow> group_builder \<Rightarrow> bool" where
  "first_misuse [] b = False"
| "first_misuse (s # ss) b = (misuse s (gb_legs b) \<or> first_misuse ss (do_step s b))"

lemma steps_error:
  "(gb_error (fold do_step ss b) \<noteq> None) = (gb_error b \<noteq> None \<or> first_misuse ss b)"
proof (induction ss arbitrary: b)
  case (Cons s ss)
  then show ?case using step_error(1) [of s b] Cons.IH [of "do_step s b"] by (auto simp del: not_None_eq)
qed simp

text \<open>
  C20: a misused group is never sent: after any sequence of builder calls, if some call was a misuse
  at its point (an option with no application call before it, a zero application id, an argument
  too long to frame) or no leg was added, \<open>sign_and_send\<close> fails and leaves the client and the network
  untouched; and the error reported is the one of the first misuse, whatever is called later.\<close>

theorem group_misuse_never_sent:
  "(first_misuse ss transaction_group \<or> gb_legs (fold do_step ss transaction_group) = [] \<longrightarrow>
      (\<exists>m. group_sign_and_send nd (fold do_step ss transaction_group) w = Some (Inl (Msg m), w))) \<and>
   (gb_error (fold do_step ss transaction_group) = Some m \<longrightarrow>
      gb_error (fold do_step (ss @ later) transaction_group) = Some m)"
proof (intro conjI impI)
  assume "first_misuse ss transaction_group \<or> gb_legs (fold do_step ss transaction_group) = []"
  then have "gb_error (fold do_step ss transaction_group) \<noteq> None \<or> gb_legs (fold do_step ss transaction_group) = []"
    using steps_error by blast
  then show "\<exists>m. group_sign_and_send nd (fold do_step ss transaction_group) w = Some (Inl (Msg m), w)"
    by (auto simp: group_sign_and_send_def split: option.split)
next
  assume m: "gb_error (fold do_step ss transaction_group) = Some m"
  have "gb_error b = Some m \<Longrightarrow> gb_error (fold do_step later b) = Some m" for b
    by (induction later arbitrary: b) (simp_all add: step_error(2))
  with m show "gb_error (fold do_step (ss @ later) transaction_group) = Some m" by simp
qed

theorem group_misuse_never_sent_witness:
  "(\<exists>m. group_sign_and_send refusing_tx_node
      (fold do_step [SPayment ''B'' 5, SForeignAsset 3] transaction_group) (keyed_client, 0) = Some (Inl (Msg m), keyed_client, 0)) \<and>
   gb_error (fold do_step ([SPayment ''B'' 5, SForeignAsset 3] @ [SCall 0 None []]) transaction_group) =
     Some ''foreign_asset() must follow a call_app() leg''"
  using group_misuse_never_sent [of "[SPayment ''B'' 5, SForeignAsset 3]" refusing_tx_node "(keyed_client, 0)"
      "''foreign_asset() must follow a call_app() leg''" "[SCall 0 None []]"]
  by (simp add: transaction_group_def group_payment_def group_foreign_asset_def push_leg_def after_call_def set_error_def)

end
