(* ===== verification/TxSafety.thy ===== *)
theory TxSafety
  imports TxGroups
begin

text \<open>
  Where the value of a call comes from, and what the id a write returns stands for: a transaction the
  node accepts and reports confirmed. That it is the run's own transaction is in \<open>TxConfirm\<close>.
\<close>

section \<open>Where the value of a call comes from\<close>

lemma rt_block_on_value:
  "rt_block_on rt operation fut w = Some (Inr r, w') \<Longrightarrow> \<exists>e. fst (fut e) = r"
  by (auto simp: rt_block_on_def Let_def split: prod.splits sum.splits option.splits bool.splits if_splits) (metis fst_conv)+

lemma map_err_value: "map_err g m w = Some (Inr r, w') \<Longrightarrow> m w = Some (Inr r, w')"
  by (auto simp: map_err_def elim!: attempt_Some_cases)

lemma prefix_err_value: "prefix_err t m w = Some (Inr r, w') \<Longrightarrow> m w = Some (Inr r, w')"
  unfolding prefix_err_def by (rule map_err_value)

lemma call_attempts_value:
  "call_attempts rt kind fut left w = Some (Inr v, w') \<Longrightarrow> \<exists>e. fst (fut e) = Inr v"
proof (induction left arbitrary: w rule: less_induct)
  case (less left)
  from less.prems obtain r w1 w2 where
    m: "map_err (\<lambda>e. Msg (''runtime error: '' @ any_display e)) (rt_block_on rt (call_operation kind) fut) w1 = Some (Inr r, w2)"
    and b: "(case r of
               Inr val \<Rightarrow> ret val
             | Inl e \<Rightarrow>
                 (case left of
                    Suc left' \<Rightarrow>
                      if is_retryable_for kind e
                      then try_op (pause rt (from_millis (RETRY_BASE_MS * 2 ^ (MAX_RETRIES - left))))
                             (\<lambda>_. call_attempts rt kind fut left')
                      else (case http_status e of
                              Some status \<Rightarrow> fail (Typed (algo_http (call_operation kind) status (node_display e)))
                            | None \<Rightarrow> fail (Msg (node_display e)))
                  | 0 \<Rightarrow>
                      if is_retryable_for kind e
                      then fail (Typed (algo_transient (call_operation kind) (node_display e)))
                      else (case http_status e of
                              Some status \<Rightarrow> fail (Typed (algo_http (call_operation kind) status (node_display e)))
                            | None \<Rightarrow> fail (Msg (node_display e))))) w2 = Some (Inr v, w')"
    unfolding call_attempts.simps [of rt kind fut left] Let_def try_op_Inr_iff by blast
  from rt_block_on_value [OF map_err_value [OF m]] obtain e where e: "fst (fut e) = r" ..
  show ?case
  proof (cases r)
    case (Inr val)
    with b e show ?thesis by auto
  next
    case (Inl err)
    with b obtain l w3 where "left = Suc l" and "call_attempts rt kind fut l w3 = Some (Inr v, w')"
      by (auto simp: try_op_Inr_iff split: nat.splits if_splits option.splits)
    with less.IH [of l w3] show ?thesis by blast
  qed
qed

lemma algod_call_value: "algod_call rt fut w = Some (Inr v, w') \<Longrightarrow> \<exists>e. fst (fut e) = Inr v"
  unfolding algod_call_def call_with_retry_def by (rule call_attempts_value)

section \<open>Success means confirmed\<close>

definition confirmed :: "('e, 'a, 'j, 'z) node_scheme \<Rightarrow> string \<Rightarrow> bool" where
  "confirmed nd tx_id \<longleftrightarrow>
     (\<exists>c e p cr. fst (nd_pending_transaction nd c tx_id e) = Inr p \<and> pi_confirmed_round p = Some cr \<and> 0 < cr)"

definition accepted :: "('e, 'a, 'j, 'x, 'y, 'z) tx_node_scheme \<Rightarrow> string \<Rightarrow> bool" where
  "accepted nd tx_id \<longleftrightarrow>
     (\<exists>c raw e. fst (nd_send_raw nd c raw e) = Inr tx_id) \<or>
     (\<exists>c txs e. fst (tn_send_transactions nd c txs e) = Inr tx_id)"

lemma acceptedI:
  "fst (nd_send_raw nd c raw e) = Inr tx_id \<Longrightarrow> accepted nd tx_id"
  "fst (tn_send_transactions nd c txs e) = Inr tx_id \<Longrightarrow> accepted nd tx_id"
  unfolding accepted_def by blast+

text \<open>\<open>P\<close> of the result of every successful run.\<close>

definition succeeds_with :: "('b \<Rightarrow> bool) \<Rightarrow> ('s, 'e, 'b) eop \<Rightarrow> bool" where
  "succeeds_with P m \<longleftrightarrow> (\<forall>w r w'. m w = Some (Inr r, w') \<longrightarrow> P r)"

lemma succeedsD: "succeeds_with P m \<Longrightarrow> m w = Some (Inr r, w') \<Longrightarrow> P r"
  unfolding succeeds_with_def by blast

lemma succeeds_base:
  "succeeds_with P (fail e)" "P x \<Longrightarrow> succeeds_with P (ret x)"
  by (simp_all add: succeeds_with_def)

lemma succeeds_tail: "(\<And>x. succeeds_with P (f x)) \<Longrightarrow> succeeds_with P (try_op m f)"
  unfolding succeeds_with_def try_op_Inr_iff by blast

lemma succeeds_head: "succeeds_with Q m \<Longrightarrow> (\<And>x. Q x \<Longrightarrow> succeeds_with P (f x)) \<Longrightarrow> succeeds_with P (try_op m f)"
  unfolding succeeds_with_def try_op_Inr_iff by blast

lemma succeeds_if:
  "succeeds_with P m \<Longrightarrow> succeeds_with P m' \<Longrightarrow> succeeds_with P (if b then m else m')"
  by simp

lemma wait_rounds_confirmed:
  "wait_rounds nd client tx_id t current end_round w = Some (Inr u, w') \<Longrightarrow> confirmed nd tx_id"
proof (induction nd client tx_id t current end_round arbitrary: w rule: wait_rounds.induct)
  case (1 nd client tx_id t current end_round)
  show ?case
  proof (cases "current < end_round")
    case False
    with 1(2) show ?thesis by (simp add: wait_rounds.simps)
  next
    case True
    let ?go = "try_op (prefix_err ''status_after_block failed'' (call_node nd (nd_status_after_block nd client current)))
              (\<lambda>_. wait_rounds nd client tx_id t (current + 1) end_round)"
    from 1(2) True obtain r w1 where c: "call_node nd (nd_pending_transaction nd client tx_id) w = Some (r, w1)"
      and f: "(case r of
               Inr p \<Rightarrow>
                 if (case pi_confirmed_round p of Some cr \<Rightarrow> 0 < cr | None \<Rightarrow> False) then ret ()
                 else if pi_pool_error p \<noteq> []
                 then fail (Msg (''Transaction rejected with pool error: '' @ pi_pool_error p))
                 else ?go
             | Inl e \<Rightarrow>
                 if is_host_unreachable (Msg (any_display e))
                 then fail (Typed (algo_unreachable ''pending_transaction'' (any_display e)))
                 else ?go) w1 = Some (Inr u, w')"
      by (subst (asm) wait_rounds.simps) (auto simp: Let_def elim!: attempt_Some_cases)
    have go: "confirmed nd tx_id" if "?go w1 = Some (Inr u, w')"
      using that 1(1) True unfolding try_op_Inr_iff by blast
    show ?thesis
    proof (cases "\<exists>p cr. r = Inr p \<and> pi_confirmed_round p = Some cr \<and> 0 < cr")
      case True
      then obtain p cr where p: "r = Inr p" "pi_confirmed_round p = Some cr" "0 < cr" by blast
      from algod_call_value [OF c [unfolded p(1)]] p show ?thesis unfolding confirmed_def by blast
    next
      case False
      with f have "?go w1 = Some (Inr u, w')" by (auto split: sum.splits if_splits option.splits)
      then show ?thesis by (rule go)
    qed
  qed
qed

lemma wait_confirmed: "wait_for_confirmation nd tx_id n w = Some (Inr u, w') \<Longrightarrow> confirmed nd tx_id"
  by (auto simp: wait_for_confirmation_def try_op_Inr_iff Let_def split: if_splits intro: wait_rounds_confirmed)

definition settled :: "('e, 'a, 'j, 'x, 'y, 'z) tx_node_scheme \<Rightarrow> string \<Rightarrow> bool" where
  "settled nd tx_id \<longleftrightarrow> accepted nd tx_id \<and> confirmed nd tx_id"

lemma succeeds_submit: "succeeds_with (settled nd) (submit_and_wait nd client sk what tx)"
proof (unfold succeeds_with_def, intro allI impI)
  fix w tx_id w'
  assume "submit_and_wait nd client sk what tx w = Some (Inr tx_id, w')"
  then obtain w1 u w2 where s: "sign_and_send nd client sk what tx w = Some (Inr tx_id, w1)"
    and "wait_for_confirmation nd tx_id 10 w1 = Some (Inr u, w2)"
    by (auto simp: submit_and_wait_def try_op_Inr_iff)
  then have "confirmed nd tx_id" by (blast intro: wait_confirmed)
  moreover from s have "accepted nd tx_id"
    by (auto simp: sign_and_send_def try_op_Inr_iff intro: acceptedI dest!: prefix_err_value algod_call_value)
  ultimately show "settled nd tx_id" by (simp add: settled_def)
qed

lemma succeeds_submit_then:
  "(\<And>tx_id. settled nd tx_id \<Longrightarrow> succeeds_with P (f tx_id)) \<Longrightarrow>
     succeeds_with P (try_op (submit_and_wait nd client sk what tx) f)"
  by (rule succeeds_head [OF succeeds_submit])

definition writes :: "('e, 'a, 'j, 'x, 'y, 'z) tx_node_scheme \<Rightarrow> ('s, 'err, 'b) eop \<Rightarrow> bool" where
  "writes nd m = succeeds_with (\<lambda>_. \<exists>tx_id. settled nd tx_id) m"

lemma writes_rules:
  "writes nd (fail e)"
  "(\<And>x. writes nd (f x)) \<Longrightarrow> writes nd (try_op m f)"
  "writes nd m \<Longrightarrow> writes nd m' \<Longrightarrow> writes nd (if b then m else m')"
  "writes nd m \<Longrightarrow> (\<And>x. writes nd (g x)) \<Longrightarrow> writes nd (case q of None \<Rightarrow> m | Some x \<Rightarrow> g x)"
  "(\<And>x y. writes nd (h x y)) \<Longrightarrow> writes nd (case z of (x, y) \<Rightarrow> h x y)"
  by (simp_all add: writes_def succeeds_base succeeds_tail succeeds_if split: option.split prod.split)

lemma writes_submit: "writes nd (try_op (submit_and_wait nd client sk what tx) f)"
  unfolding writes_def by (rule succeeds_submit_then) (auto simp: succeeds_with_def)

lemma call_app_settled: "succeeds_with (\<lambda>(tx_id, _). settled nd tx_id) (sign_submit_and_fetch_logs nd tx)"
  unfolding sign_submit_and_fetch_logs_def
  by (rule succeeds_submit_then succeeds_tail succeeds_base | simp)+

lemma group_settled: "succeeds_with (settled nd) (group_sign_and_send nd b)"
proof -
  have last: "succeeds_with (settled nd)
      (try_op (prefix_err ''failed to broadcast transaction group'' (call_node nd (tn_send_transactions nd client signed)))
        (\<lambda>tx_id. try_op (wait_for_confirmation nd tx_id 10) (\<lambda>_. ret tx_id)))" for client signed
    by (auto simp: succeeds_with_def try_op_Inr_iff settled_def intro: acceptedI
        dest!: prefix_err_value algod_call_value wait_confirmed)
  show ?thesis
    unfolding group_sign_and_send_def
    by (cases "gb_error b"; simp only: option.case) (rule succeeds_base succeeds_if last succeeds_tail)+
qed


definition calling_client :: algo_ops where
  "calling_client = keyed_client\<lparr>ops_app_creators := (\<lambda>_. Some ''C'')\<rparr>"

lemma confirming_node_simps [simp]:
  "nd_rt confirming_node = still_runtime" "nd_json confirming_node = json_accessors"
  "nd_b64 confirming_node = plain_engine" "nd_parse_address confirming_node = Inr"
  "nd_algod_new confirming_node = (\<lambda>_ _. Inr ())" "tn_crypto confirming_node = toy_crypto"
  "tn_uuid confirming_node = (\<lambda>e. (replicate 16 0, e))" "tn_build confirming_node = (\<lambda>req _ _ _. Inr req)"
  "tn_estimate_size confirming_node = (\<lambda>_. Inr 100)" "tn_sign confirming_node = (\<lambda>_ x. Inr x)"
  "tn_to_msg_pack confirming_node = (\<lambda>_. Inr [1])"
  "nd_send_raw confirming_node = (\<lambda>_ _. answers ''T'')" "nd_status confirming_node = (\<lambda>_. answers 6)"
  "nd_suggested_params confirming_node = (\<lambda>_. answers \<lparr>sp_last_round = 6, sp_min_fee = 1000, sp_genesis_hash = [],
     sp_genesis_id = ''g'', sp_fee = 0\<rparr>)"
  "nd_pending_transaction confirming_node = (\<lambda>_ _. answers \<lparr>pi_confirmed_round = Some 7, pi_txn_json = None,
     pi_asset_index = None, pi_pool_error = [], pi_json = Inr (JObj [])\<rparr>)"
  by (simp_all add: confirming_node_def refusing_tx_node_def refusing_node_def node.defs)

lemma calling_client_simps [simp]:
  "unthrottled calling_client" "ops_address (counted k calling_client) = Some ''A''"
  "ops_passphrase (counted k calling_client) = Some (''b64:'' @ bytes_str (replicate 32 9))"
  "ops_app_creators (counted k calling_client) = (\<lambda>_. Some ''C'')"
  by (simp_all add: calling_client_def keyed_client_def plain_client_def unthrottled_def counted_def)

lemma confirming_wait:
  "unthrottled ops \<Longrightarrow> wait_for_confirmation confirming_node tx_id 10 (ops, e) = Some (Inr (), counted 2 ops, e + 2)"
  by (simp add: wait_for_confirmation_def client_ok prefix_err_def map_err_def algod_call_def Let_def wait_rounds.simps)

lemma confirming_submit:
  "unthrottled ops \<Longrightarrow> length sk = 32 \<Longrightarrow>
     submit_and_wait confirming_node client sk what tx (ops, e) = Some (Inr ''T'', counted 3 ops, e + 3)"
  by (simp add: submit_and_wait_def sign_and_send_def array32_def prefix_err_def map_err_def algod_call_def confirming_wait)

lemma confirming_params:
  "unthrottled ops \<Longrightarrow> fetch_params confirming_node client (ops, e) =
     Some (Inr \<lparr>sp_last_round = 6, sp_min_fee = 1000, sp_genesis_hash = [], sp_genesis_id = ''g'', sp_fee = 0\<rparr>, counted 1 ops, e + 1)"
  by (simp add: fetch_params_def prefix_err_def map_err_def algod_call_def)

lemma confirming_call_app:
  "call_app confirming_node 5 None None [] (counted 0 calling_client, 0) =
     Some (Inr (''T'', []), counted 5 calling_client, 5)"
proof -
  have key: "secret_key confirming_node (counted k calling_client, e) = Some (Inr (replicate 32 9), counted k calling_client, e)" for k e
    using toy_seed by (simp add: secret_key_def private_key_bytes_def)
  have build: "build_call_app_tx confirming_node 5 None None [] (counted 0 calling_client, 0) =
      Some (Inr (TxCallApplication ''A'' 5 [''C''] [] None None), counted 1 calling_client, 1)"
    by (simp add: build_call_app_tx_def build_call_app_tx_inner_def app_creator_def cached_app_creator_def
        parse_address_def require_address_def client_ok confirming_params Let_def build_tx_def unique_note_def
        call_args_def del: counted_simps(3)) (simp add: counted_def)?
  show ?thesis
    by (simp add: call_app_def build sign_submit_and_fetch_logs_def key client_ok confirming_submit
        prefix_err_def map_err_def algod_call_def to_value_def decode_logs_def get_then_def json_accessors_def
        List.map_filter_def del: counted_simps(3))
qed


end
