(* ===== verification/Endpoint.thy ===== *)
theory Endpoint
  imports Codec
begin

text \<open>
  The node endpoint record of \<open>sw_identity_tls/src/endpoint.rs\<close>: an optional IPv4 and an optional
  IPv6 socket address, their compact binary form and its base64 form as stored on chain. The
  codec is strict: the decoder accepts exactly the encodings of non-empty records whose IPv6
  address has no flow label and no scope (which the format does not carry).
\<close>

datatype ipv4_addr = Ipv4Addr u8 u8 u8 u8

record socket_addr_v4 =
  v4_ip :: ipv4_addr
  v4_port :: u16

record socket_addr_v6 =
  v6_ip :: u128
  v6_port :: u16
  v6_flowinfo :: u32
  v6_scope_id :: u32

datatype socket_addr = SockV4 socket_addr_v4 | SockV6 socket_addr_v6

fun v4_octets :: "ipv4_addr \<Rightarrow> bytes" where
  "v4_octets (Ipv4Addr a b c d) = [a, b, c, d]"

abbreviation FLAG_V4 :: u8 where "FLAG_V4 \<equiv> 1"
abbreviation FLAG_V6 :: u8 where "FLAG_V6 \<equiv> 2"

record endpoint_record =
  ep_v4 :: "socket_addr_v4 option"
  ep_v6 :: "socket_addr_v6 option"

definition endpoint_new ::
  "socket_addr_v4 option \<Rightarrow> socket_addr_v6 option \<Rightarrow> endpoint_record option" where
  "endpoint_new v4 v6 =
     (if v4 \<noteq> None \<or> v6 \<noteq> None then Some \<lparr>ep_v4 = v4, ep_v6 = v6\<rparr> else None)"

definition from_socket_addrs ::
  "socket_addr option \<Rightarrow> socket_addr option \<Rightarrow> endpoint_record option" where
  "from_socket_addrs ipv4 ipv6 =
     (let v4 = Option.bind ipv4 (\<lambda>addr. case addr of SockV4 v4 \<Rightarrow> Some v4 | SockV6 _ \<Rightarrow> None);
          v6 = Option.bind ipv6 (\<lambda>addr. case addr of SockV6 v6 \<Rightarrow> Some v6 | SockV4 _ \<Rightarrow> None)
      in endpoint_new v4 v6)"

definition socket_addrs :: "endpoint_record \<Rightarrow> socket_addr list" where
  "socket_addrs r =
     (case ep_v4 r of Some v4 \<Rightarrow> [SockV4 v4] | None \<Rightarrow> []) @
     (case ep_v6 r of Some v6 \<Rightarrow> [SockV6 v6] | None \<Rightarrow> [])"

definition endpoint_to_bytes :: "endpoint_record \<Rightarrow> bytes" where
  "endpoint_to_bytes r =
     (let flags = 0 :: u8;
          flags = (if ep_v4 r \<noteq> None then flags OR FLAG_V4 else flags);
          flags = (if ep_v6 r \<noteq> None then flags OR FLAG_V6 else flags)
      in [flags] @
         (case ep_v4 r of
            Some v4 \<Rightarrow> v4_octets (v4_ip v4) @ to_be_bytes 2 (v4_port v4) | None \<Rightarrow> []) @
         (case ep_v6 r of
            Some v6 \<Rightarrow> to_be_bytes 16 (v6_ip v6) @ to_be_bytes 2 (v6_port v6) | None \<Rightarrow> []))"

text \<open>
  \<open>from_bytes\<close>. The three helpers are the function's own blocks: an IPv4 address and port from a
  6-byte block, an IPv6 address and port from an 18-byte block, and an optional block selected by
  a flag (the \<open>?\<close> on a truncated blob is the outer \<open>None\<close>).
\<close>

definition v4_of_block :: "bytes \<Rightarrow> socket_addr_v4" where
  "v4_of_block block =
     \<lparr>v4_ip = Ipv4Addr (block ! 0) (block ! 1) (block ! 2) (block ! 3),
      v4_port = from_be_bytes [block ! 4, block ! 5]\<rparr>"

definition v6_of_block :: "bytes \<Rightarrow> socket_addr_v6" where
  "v6_of_block block =
     \<lparr>v6_ip = from_be_bytes (take 16 block), v6_port = from_be_bytes [block ! 16, block ! 17],
      v6_flowinfo = 0, v6_scope_id = 0\<rparr>"

definition flagged_block ::
  "bool \<Rightarrow> nat \<Rightarrow> (bytes \<Rightarrow> 'a) \<Rightarrow> bytes \<Rightarrow> ('a option \<times> bytes) option" where
  "flagged_block present n f rest =
     (if present
      then (case split_at_checked n rest of
              None \<Rightarrow> None | Some (block, tail) \<Rightarrow> Some (Some (f block), tail))
      else Some (None, rest))"

definition endpoint_from_bytes :: "bytes \<Rightarrow> endpoint_record option" where
  "endpoint_from_bytes bs =
     (case bs of
        [] \<Rightarrow> None
      | flags # rest \<Rightarrow>
          if flags AND NOT (FLAG_V4 OR FLAG_V6) \<noteq> 0 then None
          else (case flagged_block (flags AND FLAG_V4 \<noteq> 0) 6 v4_of_block rest of
                  None \<Rightarrow> None
                | Some (v4, rest) \<Rightarrow>
                    (case flagged_block (flags AND FLAG_V6 \<noteq> 0) 18 v6_of_block rest of
                       None \<Rightarrow> None
                     | Some (v6, rest) \<Rightarrow> if rest \<noteq> [] then None else endpoint_new v4 v6)))"

definition endpoint_encode :: "base64_engine \<Rightarrow> endpoint_record \<Rightarrow> string" where
  "endpoint_encode b64 r = b64_encode b64 (endpoint_to_bytes r)"

definition endpoint_decode :: "base64_engine \<Rightarrow> string \<Rightarrow> endpoint_record option" where
  "endpoint_decode b64 value = Option.bind (rok (b64_decode b64 value)) endpoint_from_bytes"

section \<open>The records the format carries\<close>

definition endpoint_valid :: "endpoint_record \<Rightarrow> bool" where
  "endpoint_valid r \<longleftrightarrow>
     (ep_v4 r \<noteq> None \<or> ep_v6 r \<noteq> None) \<and>
     (case ep_v6 r of None \<Rightarrow> True | Some v6 \<Rightarrow> v6_flowinfo v6 = 0 \<and> v6_scope_id v6 = 0)"

lemma list_of_length_6:
  "length xs = 6 \<Longrightarrow> xs = [xs ! 0, xs ! 1, xs ! 2, xs ! 3, xs ! 4, xs ! 5]"
  by (rule nth_equalityI) (auto simp: less_Suc_eq numeral_eq_Suc nth_Cons')

lemma v4_of_block_encode:
  "v4_of_block (v4_octets (v4_ip v) @ to_be_bytes 2 (v4_port v)) = v"
proof -
  obtain a b c d p where v: "v = \<lparr>v4_ip = Ipv4Addr a b c d, v4_port = p\<rparr>"
    by (cases v, cases "v4_ip v") auto
  have "length (to_be_bytes 2 p) = 2" by simp
  then obtain x y where xy: "to_be_bytes 2 p = [x, y]"
    by (auto simp: numeral_eq_Suc length_Suc_conv)
  then have "from_be_bytes [x, y] = p"
    using from_to_be_bytes [of 2 p] by simp
  with xy v show ?thesis by (simp add: v4_of_block_def)
qed

lemma v4_block_canonical:
  assumes "length block = 6"
  shows "v4_octets (v4_ip (v4_of_block block)) @ to_be_bytes 2 (v4_port (v4_of_block block)) = block"
proof -
  have "to_be_bytes 2 (from_be_bytes [block ! 4, block ! 5] :: u16) = [block ! 4, block ! 5]"
    by (rule to_from_be_bytes) simp_all
  with list_of_length_6 [OF assms] show ?thesis
    by (simp add: v4_of_block_def)
qed

lemma v6_of_block_encode:
  assumes "v6_flowinfo v = 0" and "v6_scope_id v = 0"
  shows "v6_of_block (to_be_bytes 16 (v6_ip v) @ to_be_bytes 2 (v6_port v)) = v"
proof -
  have "length (to_be_bytes 2 (v6_port v)) = 2" by simp
  then obtain x y where xy: "to_be_bytes 2 (v6_port v) = [x, y]"
    by (auto simp: numeral_eq_Suc length_Suc_conv)
  then have "from_be_bytes [x, y] = v6_port v"
    using from_to_be_bytes [of 2 "v6_port v"] by simp
  with xy assms show ?thesis by (simp add: v6_of_block_def nth_append)
qed

lemma v6_block_canonical:
  assumes "length block = 18"
  shows "to_be_bytes 16 (v6_ip (v6_of_block block)) @ to_be_bytes 2 (v6_port (v6_of_block block)) = block"
proof -
  have p: "to_be_bytes 2 (from_be_bytes [block ! 16, block ! 17] :: u16) = [block ! 16, block ! 17]"
    by (rule to_from_be_bytes) simp_all
  have i: "to_be_bytes 16 (from_be_bytes (take 16 block) :: u128) = take 16 block"
    using assms by (intro to_from_be_bytes) simp_all
  have "drop 16 block = [block ! 16, block ! 17]"
    using assms by (intro nth_equalityI) (auto simp: less_Suc_eq numeral_eq_Suc nth_Cons')
  with p i show ?thesis
    by (simp add: v6_of_block_def) (metis append_take_drop_id)
qed


lemma flags_cases:
  assumes "(flags :: u8) AND NOT (FLAG_V4 OR FLAG_V6) = 0"
  shows "flags \<in> {0, 1, 2, 3}"
proof -
  have "flags = (flags AND 3) OR (flags AND NOT 3)"
    by (simp add: bit_eq_iff bit_simps) blast
  with assms have m: "flags = flags AND mask 2"
    by (simp add: mask_eq_exp_minus_1)
  have "unat (flags AND mask 2) < 2 ^ 2"
    by (simp only: take_bit_eq_mask [symmetric] unsigned_take_bit_eq) (rule take_bit_nat_less_exp)
  with m have "unat flags < 4" by simp
  then have "unat flags = unat (0 :: u8) \<or> unat flags = unat (1 :: u8) \<or>
      unat flags = unat (2 :: u8) \<or> unat flags = unat (3 :: u8)" by auto
  then have "flags = 0 \<or> flags = 1 \<or> flags = 2 \<or> flags = 3"
    by (simp only: word_eq_iff_unsigned [where 'a = nat])
  then show ?thesis by simp
qed

lemma flagged_block_Some:
  "flagged_block present n f rest = Some (v, rest') \<longleftrightarrow>
     (if present then \<exists>block. rest = block @ rest' \<and> length block = n \<and> v = Some (f block)
      else v = None \<and> rest' = rest)"
  by (auto simp: flagged_block_def split_at_checked_Some split: option.splits)

lemma endpoint_dec_enc:
  assumes "endpoint_valid r"
  shows "endpoint_from_bytes (endpoint_to_bytes r) = Some r"
proof (cases "ep_v4 r")
  case None
  with assms obtain v6 where "ep_v6 r = Some v6" "v6_flowinfo v6 = 0" "v6_scope_id v6 = 0"
    by (auto simp: endpoint_valid_def)
  with None show ?thesis
    by (cases r) (simp add: endpoint_from_bytes_def endpoint_to_bytes_def flagged_block_def
        v6_of_block_encode endpoint_new_def split_at_checked_def)
next
  case (Some v4)
  have b: "length (v4_octets (v4_ip v4)) = 4" by (cases "v4_ip v4") simp
  show ?thesis
  proof (cases "ep_v6 r")
    case None
    with Some b show ?thesis
      by (cases r) (simp add: endpoint_from_bytes_def endpoint_to_bytes_def flagged_block_def
          v4_of_block_encode endpoint_new_def split_at_checked_def)
  next
    case (Some v6)
    with assms have "v6_flowinfo v6 = 0" "v6_scope_id v6 = 0"
      by (simp_all add: endpoint_valid_def)
    with Some \<open>ep_v4 r = Some v4\<close> b show ?thesis
      by (cases r) (simp add: endpoint_from_bytes_def endpoint_to_bytes_def flagged_block_def
          v4_of_block_encode v6_of_block_encode endpoint_new_def split_at_checked_def)
  qed
qed


lemma endpoint_new_Some:
  "endpoint_new v4 v6 = Some r \<longleftrightarrow>
     (v4 \<noteq> None \<or> v6 \<noteq> None) \<and> r = \<lparr>ep_v4 = v4, ep_v6 = v6\<rparr>"
  by (auto simp: endpoint_new_def)

lemma endpoint_dec_sound:
  assumes "endpoint_from_bytes bs = Some r"
  shows "endpoint_valid r \<and> endpoint_to_bytes r = bs"
proof -
  from assms obtain flags rest where bs: "bs = flags # rest"
    by (cases bs) (simp_all add: endpoint_from_bytes_def)
  with assms have "flags AND NOT (FLAG_V4 OR FLAG_V6) = 0"
    by (auto simp: endpoint_from_bytes_def split: if_splits)
  then have f: "flags \<in> {0, 1, 2, 3}" by (rule flags_cases)
  from assms bs f obtain v4 rest1 v6 where
    b4: "flagged_block (flags AND FLAG_V4 \<noteq> 0) 6 v4_of_block rest = Some (v4, rest1)" and
    b6: "flagged_block (flags AND FLAG_V6 \<noteq> 0) 18 v6_of_block rest1 = Some (v6, [])" and
    r: "endpoint_new v4 v6 = Some r"
    by (auto simp: endpoint_from_bytes_def split: option.splits prod.splits if_splits)
  have v6z: "v6_flowinfo (v6_of_block b) = 0 \<and> v6_scope_id (v6_of_block b) = 0" for b
    by (simp add: v6_of_block_def)
  from f show ?thesis
    using b4 b6 r bs v6z v4_block_canonical v6_block_canonical
    by (elim insertE emptyE)
       (auto simp: flagged_block_Some endpoint_new_Some endpoint_valid_def endpoint_to_bytes_def)
qed

interpretation endpoint_codec:
  strict_codec endpoint_to_bytes endpoint_from_bytes endpoint_valid
  by unfold_locales (simp_all add: endpoint_dec_enc endpoint_dec_sound)

text \<open>
  What a record keeps on the wire: its addresses and ports, with the IPv6 flow label and scope
  reset.
\<close>

definition endpoint_wire :: "endpoint_record \<Rightarrow> endpoint_record" where
  "endpoint_wire r =
     r\<lparr>ep_v6 := map_option (\<lambda>v6. v6\<lparr>v6_flowinfo := 0, v6_scope_id := 0\<rparr>) (ep_v6 r)\<rparr>"

lemma endpoint_to_bytes_wire [simp]:
  "endpoint_to_bytes (endpoint_wire r) = endpoint_to_bytes r"
  by (cases "ep_v6 r") (simp_all add: endpoint_to_bytes_def endpoint_wire_def)

lemma endpoint_valid_wire:
  "ep_v4 r \<noteq> None \<or> ep_v6 r \<noteq> None \<Longrightarrow> endpoint_valid (endpoint_wire r)"
  by (auto simp: endpoint_valid_def endpoint_wire_def split: option.splits)

lemma endpoint_roundtrip_wire:
  assumes "b64_lawful b64" and "ep_v4 r \<noteq> None \<or> ep_v6 r \<noteq> None"
  shows "endpoint_decode b64 (endpoint_encode b64 r) = Some (endpoint_wire r)"
  using assms endpoint_codec.dec_enc [OF endpoint_valid_wire, of r]
  by (simp add: endpoint_decode_def endpoint_encode_def)

lemma length_v4_octets [simp]: "length (v4_octets ip) = 4"
  by (cases ip) simp

lemma length_endpoint_to_bytes:
  "length (endpoint_to_bytes r) =
     1 + (if ep_v4 r \<noteq> None then 6 else 0) + (if ep_v6 r \<noteq> None then 18 else 0)"
  by (auto simp: endpoint_to_bytes_def split: option.splits)

section \<open>Properties\<close>

text \<open>
  C36: The endpoint record's binary form is strict. The decoder accepts exactly the bytes the encoder
  produces for a non-empty record without IPv6 flow label and scope, so a truncated blob, trailing
  bytes, an unknown flag or an empty record is rejected, and no two byte strings denote one record.
\<close>

theorem endpoint_from_bytes_strict:
  "endpoint_from_bytes bs = Some r \<longleftrightarrow> endpoint_valid r \<and> endpoint_to_bytes r = bs"
  by (rule endpoint_codec.dec_iff)

text \<open>
  An endpoint record built from the socket addresses a node listens on is never empty, and
  decoding its base64 form gives the record back with the IPv6 flow label and scope, which the
  format does not carry, reset to zero.
\<close>

theorem endpoint_published_roundtrip:
  assumes "b64_lawful b64" and "from_socket_addrs ipv4 ipv6 = Some r"
  shows "socket_addrs r \<noteq> [] \<and>
    endpoint_decode b64 (endpoint_encode b64 r) = Some (endpoint_wire r)"
proof -
  from assms(2) have ne: "ep_v4 r \<noteq> None \<or> ep_v6 r \<noteq> None"
    by (auto simp: from_socket_addrs_def Let_def endpoint_new_Some)
  then have "socket_addrs r \<noteq> []" by (auto simp: socket_addrs_def)
  with endpoint_roundtrip_wire [OF assms(1) ne] show ?thesis by blast
qed

theorem endpoint_published_roundtrip_witness:
  "endpoint_decode plain_engine (endpoint_encode plain_engine
     \<lparr>ep_v4 = None, ep_v6 = Some \<lparr>v6_ip = 1, v6_port = 443, v6_flowinfo = 7, v6_scope_id = 2\<rparr>\<rparr>) =
   Some \<lparr>ep_v4 = None, ep_v6 = Some \<lparr>v6_ip = 1, v6_port = 443, v6_flowinfo = 0, v6_scope_id = 0\<rparr>\<rparr>"
  using endpoint_published_roundtrip [OF plain_engine_lawful, of None
      "Some (SockV6 \<lparr>v6_ip = 1, v6_port = 443, v6_flowinfo = 7, v6_scope_id = 2\<rparr>)"]
  by (simp add: from_socket_addrs_def endpoint_new_def endpoint_wire_def)

end
