(* ===== verification/Membership.thy ===== *)
theory Membership
  imports Prelude
begin

text \<open>
  Who is permitted, and as what: \<open>sw_identity_tls/src/membership.rs\<close> and the local-state decoders of
  \<open>decoder.rs\<close>. A \<open>dyn MembershipAuthority\<close> is the record of its two methods; the trait's contract is the
  locale \<open>membership_authority\<close>, interpreted on both implementors of the crate.
\<close>

datatype role = ClusterNode | Client

text \<open>\<open>is_member\<close> is a method with a default body, which an implementor may replace.\<close>

record authority =
  ma_role_of :: "string \<Rightarrow> role option"
  ma_is_member :: "string \<Rightarrow> bool"

definition default_is_member :: "(string \<Rightarrow> role option) \<Rightarrow> string \<Rightarrow> bool" where
  "default_is_member role_of address = (role_of address \<noteq> None)"

text \<open>The gate the verifiers apply: any role, or exactly the required one.\<close>

definition authorized :: "authority \<Rightarrow> role option \<Rightarrow> string \<Rightarrow> bool" where
  "authorized au required address =
     (case required of
        Some r \<Rightarrow> ma_role_of au address = Some r
      | None \<Rightarrow> ma_is_member au address)"

section \<open>The contract\<close>

text \<open>
  \<open>dyn m\<close> is \<open>m\<close> as a trait object and \<open>admits\<close> what \<open>m\<close> was told to admit. An authority answers only
  roles it has admitted (it fails closed), answers some role for everyone it has admitted, and its
  membership test is the test for a role.
\<close>

locale membership_authority =
  fixes dyn :: "'m \<Rightarrow> authority"
    and admits :: "'m \<Rightarrow> string \<Rightarrow> role \<Rightarrow> bool"
  assumes closed: "ma_role_of (dyn m) address = Some r \<Longrightarrow> admits m address r"
    and answers: "admits m address r \<Longrightarrow> ma_role_of (dyn m) address \<noteq> None"
    and membership: "ma_is_member (dyn m) address \<longleftrightarrow> ma_role_of (dyn m) address \<noteq> None"
begin

lemma authorized_admitted:
  "authorized (dyn m) required address \<Longrightarrow>
     \<exists>r. admits m address r \<and> (required = None \<or> required = Some r)"
  using closed [of m address] by (auto simp: authorized_def membership split: option.splits)

lemma unknown_refused: "(\<And>r. \<not> admits m address r) \<Longrightarrow> \<not> authorized (dyn m) required address"
  using authorized_admitted by blast

lemma any_role_weakest: "authorized (dyn m) required address \<Longrightarrow> authorized (dyn m) None address"
  by (auto simp: authorized_def membership split: option.splits)

lemma admitted_member: "admits m address r \<Longrightarrow> authorized (dyn m) None address"
  using answers by (simp add: authorized_def membership)

end

section \<open>A fixed set of members\<close>

record static_membership =
  sm_roles :: "string \<rightharpoonup> role"

definition static_new :: static_membership where
  "static_new = \<lparr>sm_roles = (\<lambda>_. None)\<rparr>"

definition static_from_roles :: "(string \<rightharpoonup> role) \<Rightarrow> static_membership" where
  "static_from_roles roles = \<lparr>sm_roles = roles\<rparr>"

definition static_from_sets :: "string list \<Rightarrow> string list \<Rightarrow> static_membership" where
  "static_from_sets nodes callers =
     (let roles = (\<lambda>_. None);
          roles = fold (\<lambda>caller roles. roles(caller \<mapsto> Client)) callers roles;
          roles = fold (\<lambda>node roles. roles(node \<mapsto> ClusterNode)) nodes roles
      in \<lparr>sm_roles = roles\<rparr>)"

definition static_with :: "string \<Rightarrow> role \<Rightarrow> static_membership \<Rightarrow> static_membership" where
  "static_with address r m = m\<lparr>sm_roles := (sm_roles m)(address \<mapsto> r)\<rparr>"

definition static_role_of :: "static_membership \<Rightarrow> string \<Rightarrow> role option" where
  "static_role_of m address = sm_roles m address"

definition static_dyn :: "static_membership \<Rightarrow> authority" where
  "static_dyn m = \<lparr>ma_role_of = static_role_of m, ma_is_member = default_is_member (static_role_of m)\<rparr>"

text \<open>A bare set of addresses: every one a client.\<close>

definition set_role_of :: "string set \<Rightarrow> string \<Rightarrow> role option" where
  "set_role_of s address = (if address \<in> s then Some Client else None)"

definition set_dyn :: "string set \<Rightarrow> authority" where
  "set_dyn s = \<lparr>ma_role_of = set_role_of s, ma_is_member = default_is_member (set_role_of s)\<rparr>"

interpretation static: membership_authority static_dyn "\<lambda>m address r. sm_roles m address = Some r"
  by unfold_locales (simp_all add: static_dyn_def static_role_of_def default_is_member_def)

interpretation bare_set: membership_authority set_dyn "\<lambda>s address r. address \<in> s \<and> r = Client"
  by unfold_locales (simp_all add: set_dyn_def set_role_of_def default_is_member_def split: if_splits)

lemma fold_put: "fold (\<lambda>k m. m(k \<mapsto> v)) ks m a = (if a \<in> set ks then Some v else m a)"
  by (induction ks arbitrary: m) auto

lemma from_sets_role:
  "sm_roles (static_from_sets nodes callers) address =
     (if address \<in> set nodes then Some ClusterNode else if address \<in> set callers then Some Client else None)"
  by (simp add: static_from_sets_def fold_put)

section \<open>Decoding membership from local state\<close>

text \<open>\<open>str::parse::<u64>\<close>: an optional plus sign, then at least one digit, and no overflow.\<close>

definition digit_value :: "char \<Rightarrow> nat option" where
  "digit_value c = (if 48 \<le> (of_char c :: nat) \<and> (of_char c :: nat) \<le> 57 then Some (of_char c - 48) else None)"

fun parse_digits :: "nat \<Rightarrow> string \<Rightarrow> u64 option" where
  "parse_digits acc [] = Some (of_nat acc)"
| "parse_digits acc (c # cs) =
     (case digit_value c of
        None \<Rightarrow> None
      | Some d \<Rightarrow> if 10 * acc + d < 2 ^ 64 then parse_digits (10 * acc + d) cs else None)"

definition parse_u64 :: "string \<Rightarrow> u64 option" where
  "parse_u64 s =
     (let digits = (case s of c # cs \<Rightarrow> if c = CHR ''+'' then cs else s | [] \<Rightarrow> [])
      in if digits = [] then None else parse_digits 0 digits)"

type_synonym membership_decoder = "(string \<times> string) list \<Rightarrow> bool"

definition is_truthy :: "string \<Rightarrow> bool" where
  "is_truthy v = (v \<notin> {[], ''0'', ''false''})"

definition key_set_decoder :: "string \<Rightarrow> membership_decoder" where
  "key_set_decoder key local_state = list_ex (\<lambda>(k, v). k = key \<and> is_truthy v) local_state"

text \<open>A shift by 64 or more keeps the low six bits of its amount, as a release build does.\<close>

definition bit_decoder :: "string \<Rightarrow> u8 \<Rightarrow> membership_decoder" where
  "bit_decoder key n local_state =
     list_ex (\<lambda>(k, v). k = key \<and>
       (case parse_u64 v of
          Some packed \<Rightarrow> packed AND push_bit (unat n mod 64) 1 \<noteq> 0
        | None \<Rightarrow> False)) local_state"

lemma digit_value_char: "d < 10 \<Longrightarrow> digit_value (char_of (48 + d)) = Some d"
  by (simp add: digit_value_def)

lemma digit_not_plus: "d < 10 \<Longrightarrow> char_of (48 + d :: nat) \<noteq> CHR ''+''"
proof
  assume d: "d < 10" and "char_of (48 + d) = CHR ''+''"
  then have "(of_char (char_of (48 + d)) :: nat) = of_char (CHR ''+'')" by simp
  with d show False by simp
qed

lemma parse_digits_show:
  "n < 2 ^ 64 \<Longrightarrow> parse_digits 0 (show_nat n @ cs) = parse_digits n cs"
proof (induction n arbitrary: cs rule: show_nat.induct)
  case (1 n)
  show ?case
  proof (cases "n < 10")
    case True
    then show ?thesis
      by (subst show_nat.simps) (simp add: digit_value_char [of n, simplified])
  next
    case False
    with 1 have "parse_digits 0 (show_nat (n div 10) @ char_of (48 + n mod 10) # cs) =
        parse_digits (n div 10) (char_of (48 + n mod 10) # cs)" by simp
    also have "\<dots> = parse_digits n cs"
      using 1(2) digit_value_char [of "n mod 10"] by simp
    finally show ?thesis using False by (subst show_nat.simps) simp
  qed
qed

lemma show_nat_hd: "\<exists>(d :: nat) cs. d < 10 \<and> show_nat n = char_of (48 + d) # cs"
proof (induction n rule: show_nat.induct)
  case (1 n)
  show ?case
  proof (cases "n < 10")
    case True
    then show ?thesis by (subst show_nat.simps) auto
  next
    case False
    with 1 obtain d :: nat and cs where "d < 10" "show_nat (n div 10) = char_of (48 + d) # cs" by blast
    with False show ?thesis by (subst show_nat.simps) auto
  qed
qed

lemma parse_show_u64: "parse_u64 (show_nat (unat v)) = Some v"
proof -
  obtain d :: nat and cs where d: "d < 10" "show_nat (unat v) = char_of (48 + d) # cs" using show_nat_hd by blast
  then have "parse_u64 (show_nat (unat v)) = parse_digits 0 (show_nat (unat v))"
    using digit_not_plus [OF d(1)] by (simp add: parse_u64_def)
  also have "\<dots> = Some v"
    using parse_digits_show [of "unat v" "[]"] unsigned_less [of v, where ?'a = nat] by simp
  finally show ?thesis .
qed

lemma bit_mask: "w AND push_bit n 1 \<noteq> 0 \<longleftrightarrow> bit w n" for w :: u64
  by (simp add: push_bit_eq_mult and_exp_eq_0_iff_not_bit)

section \<open>Properties\<close>

text \<open>
  C39: The membership bit is read exactly. For an application whose local state renders a number in
  decimal, as the client renders it, the bit decoder accepts an account if and only if the value under
  the key is a number with that bit set; bits of the same slot do not influence one another, and an
  account without the key, or with a value that is not a number, is refused.
\<close>

theorem bit_decoder_exact:
  assumes "unat n < 64" and "distinct (map fst local_state)"
  shows "(\<forall>packed :: u64. map_of local_state key = Some (show_nat (unat packed)) \<longrightarrow>
      bit_decoder key n local_state = bit packed (unat n)) \<and>
    (\<forall>v. map_of local_state key = Some v \<and> parse_u64 v = None \<longrightarrow> \<not> bit_decoder key n local_state) \<and>
    (map_of local_state key = None \<longrightarrow> \<not> bit_decoder key n local_state)"
proof -
  have e: "bit_decoder key n local_state \<longleftrightarrow>
      (\<exists>v packed. map_of local_state key = Some v \<and> parse_u64 v = Some packed \<and> bit packed (unat n))"
    using assms(1)
    unfolding bit_decoder_def list_ex_iff map_of_eq_Some_iff [OF assms(2)] bit_mask
    by (fastforce split: option.splits)
  show ?thesis unfolding e by (auto simp: parse_show_u64)
qed

theorem bit_decoder_exact_witness:
  "bit_decoder ''flags'' 1 [(''name'', ''x''), (''flags'', show_nat (unat (6 :: u64)))] \<and>
   \<not> bit_decoder ''flags'' 0 [(''name'', ''x''), (''flags'', show_nat (unat (6 :: u64)))]"
proof -
  let ?l = "[(''name'', ''x''), (''flags'', show_nat (unat (6 :: u64)))]"
  have "bit_decoder ''flags'' 1 ?l = bit (6 :: u64) (unat (1 :: u8))"
    "bit_decoder ''flags'' 0 ?l = bit (6 :: u64) (unat (0 :: u8))"
    using bit_decoder_exact [of _ ?l "''flags''", THEN conjunct1, rule_format, of _ 6] by simp_all
  then show ?thesis by (simp add: bit_numeral_rec)
qed

end
