(* ===== verification/Resolver.thy ===== *)
theory Resolver
  imports TxSafety Endpoint Membership
begin

text \<open>
  Endpoint discovery, \<open>sw_identity_tls/src/resolver.rs\<close>: the accounts opted into the membership application
  are scanned through the client's cached scan, and those its decoder takes for nodes give the
  endpoint record published under the named key. The resolver keeps the scan's cache between resolves.
\<close>

record resolver =
  rs_app_id :: u64
  rs_cache_lifetime_secs :: "u64 option"
  rs_endpoint_key :: string
  rs_is_node :: membership_decoder
  rs_b64 :: base64_engine

definition resolver_new ::
  "base64_engine \<Rightarrow> u64 \<Rightarrow> u64 option \<Rightarrow> string \<Rightarrow> membership_decoder \<Rightarrow> resolver \<times> endpoint_record account_scan_cache mutex" where
  "resolver_new b64 app_id lifetime key is_node =
     (\<lparr>rs_app_id = app_id, rs_cache_lifetime_secs = lifetime, rs_endpoint_key = key, rs_is_node = is_node, rs_b64 = b64\<rparr>,
      \<lparr>mx_poisoned = False, mx_data = account_cache_new\<rparr>)"

definition decode_node_endpoint ::
  "base64_engine \<Rightarrow> membership_decoder \<Rightarrow> string \<Rightarrow> scanned_account \<Rightarrow> endpoint_record option" where
  "decode_node_endpoint b64 is_node endpoint_key account =
     (if \<not> is_node (sa_local_state account) then None
      else Option.bind (map_option snd (find (\<lambda>kv. fst kv = endpoint_key) (sa_local_state account)))
             (endpoint_decode b64))"

definition resolve ::
  "('e, 'a, 'j, 'z) node_scheme \<Rightarrow> resolver \<Rightarrow>
     (endpoint_record account_scan_cache mutex \<times> 'e world, (string \<times> endpoint_record) list) op" where
  "resolve nd r =
     try_op (fetch_opted_in_accounts_cached nd (rs_app_id r) Refresh (rs_cache_lifetime_secs r)
              (decode_node_endpoint (rs_b64 r) (rs_is_node r) (rs_endpoint_key r)))
       (\<lambda>_ (scan, w).
          if mx_poisoned scan then fail (Msg ''endpoint scan cache mutex poisoned'') (scan, w)
          else ret (ac_entries (mx_data scan)) (scan, w))"

section \<open>Where the entries of a scan come from\<close>

definition entries_from ::
  "(scanned_account \<Rightarrow> bool) \<Rightarrow> (scanned_account \<Rightarrow> 't option) \<Rightarrow> (string \<times> 't) list \<Rightarrow> bool" where
  "entries_from genuine ingest es \<longleftrightarrow>
     (\<forall>(a, e) \<in> set es. \<exists>acct. genuine acct \<and> sa_address acct = a \<and> ingest acct = Some e)"

lemma entries_from_simps [simp]:
  "entries_from g f []"
  "entries_from g f (es @ es') \<longleftrightarrow> entries_from g f es \<and> entries_from g f es'"
  "entries_from g f es \<Longrightarrow> entries_from g f (remove_account_entry es a)"
  by (simp_all add: entries_from_def remove_account_entry_def ball_Un)

lemma entries_from_upsert:
  "entries_from g f es \<Longrightarrow> g acct \<Longrightarrow> sa_address acct = a \<Longrightarrow> f acct = Some e \<Longrightarrow>
     entries_from g f (upsert_account_entry es a e)"
proof (induction es a e rule: upsert_account_entry.induct)
  case (2 b x es a e)
  then show ?case by (cases "b = a") (auto simp: entries_from_def)
qed (auto simp: entries_from_def)

lemma entries_from_scanned: "list_all g accts \<Longrightarrow> entries_from g f (scanned_entries f accts)"
  by (induction accts) (auto simp: entries_from_def scanned_entries_def List.map_filter_def)

lemma delivered_pages:
  "delivers fetch token tok s ps r s' \<Longrightarrow> (\<And>tok s p s'. fetch tok s = Some (Inr p, s') \<Longrightarrow> P p) \<Longrightarrow> \<forall>p \<in> set ps. P p"
  by (induction rule: delivers.induct) auto

lemma entries_from_pages:
  assumes "\<forall>p \<in> set ps. list_all g (ap_accounts p)" and "entries_from g f es"
    and "fold (full_page_step f) ps (w, es) = (w', es')"
  shows "entries_from g f es'"
  using assms
proof (induction ps arbitrary: w es)
  case (Cons p ps)
  obtain v where "full_page_step f p (w, es) = (Some v, es @ scanned_entries f (ap_accounts p))"
    by (simp add: full_page_step_def scanned_entries_def)
  with Cons show ?case
    using Cons.IH [of "es @ scanned_entries f (ap_accounts p)" "Some v"] entries_from_scanned [of g "ap_accounts p" f] by simp
qed simp

lemma entries_from_reread:
  assumes "reread_accounts lookup f addrs (es, s) = Some (r, es', s')" and "entries_from g f es"
    and "\<And>a s acct s'. lookup a s = Some (Inr (Some acct), s') \<Longrightarrow> g acct \<and> sa_address acct = a"
  shows "entries_from g f es'"
  using assms
proof (induction addrs arbitrary: es s)
  case (Cons a addrs)
  then show ?case
    by (auto split: option.splits sum.splits prod.splits intro!: entries_from_upsert)
      (metis entries_from_simps(3) entries_from_upsert)+
qed simp

lemma scan_entries_from:
  assumes run: "fetch_opted_in_accounts_cached_with mode lifetime now f full changed lookup (mx, s) = Some (r, mx', s')"
    and es: "entries_from g f (ac_entries (mx_data mx))"
    and full: "\<And>tok s p s'. full tok s = Some (Inr p, s') \<Longrightarrow> list_all g (ap_accounts p)"
    and lookup: "\<And>a s acct s'. lookup a s = Some (Inr (Some acct), s') \<Longrightarrow> g acct \<and> sa_address acct = a"
  shows "entries_from g f (ac_entries (mx_data mx')) \<and> mx_poisoned mx' = mx_poisoned mx"
proof (cases "mx_poisoned mx")
  case True
  with run es show ?thesis by (simp add: fetch_opted_in_accounts_cached_with_def)
next
  case False
  obtain k c where k: "account_scan_kind mode lifetime now (mx_data mx) = (k, c)" by fastforce
  with es have c: "entries_from g f (ac_entries c)"
    by (auto simp: account_scan_kind_def split: query_mode.splits if_splits)
  consider "k = None" | "k = Some True" | "k = Some False" by (cases k) auto
  then show ?thesis
  proof cases
    case 1
    with run k c False show ?thesis by (auto simp: fetch_opted_in_accounts_cached_with_def)
  next
    case 2
    let ?F = "page_loop full ap_next_token (full_page_step f) (None, []) None s"
    have "?F \<noteq> None"
      using run by (rule contrapos_pn) (simp add: fetch_opted_in_accounts_cached_with_def k False 2)
    then obtain q acc s1 where "?F = Some (q, acc, s1)" by (cases ?F) auto
    moreover obtain w es' where "acc = (w, es')" by (cases acc) auto
    ultimately have l: "?F = Some (q, (w, es'), s1)" by simp
    have mx': "ac_entries (mx_data mx') = es' \<and> mx_poisoned mx' = mx_poisoned mx"
    proof (cases q)
      case (Inl e)
      with run l k False 2 have "mx\<lparr>mx_data := c\<lparr>ac_entries := es'\<rparr>\<rparr> = mx'"
        by (simp add: fetch_opted_in_accounts_cached_with_def)
      then show ?thesis by auto
    next
      case (Inr u)
      with run l k False 2 have "mx\<lparr>mx_data := c\<lparr>ac_entries := es', ac_last_round := (case w of Some r \<Rightarrow> r | None \<Rightarrow> ac_last_round c),
          ac_last_updated := now\<rparr>\<rparr> = mx'"
        by (simp add: fetch_opted_in_accounts_cached_with_def)
      then show ?thesis by auto
    qed
    obtain ps where d: "delivers full ap_next_token None s ps q s1"
      and fo: "fold (full_page_step f) ps (None, []) = (w, es')"
      using delivers_of_page_loop [OF l] by auto
    have "\<forall>p \<in> set ps. list_all g (ap_accounts p)" by (rule delivered_pages [OF d]) (rule full)
    from entries_from_pages [OF this _ fo] mx' show ?thesis by simp
  next
    case 3
    let ?L = "page_loop (changed (ac_last_round c + 1)) cp_next_token changed_page_step (ac_last_round c, {}, []) None s"
    have "?L \<noteq> None"
      using run by (rule contrapos_pn) (simp add: fetch_opted_in_accounts_cached_with_def k False 3)
    then obtain q acc s1 where "?L = Some (q, acc, s1)" by (cases ?L) auto
    moreover obtain w seen chs where "acc = (w, seen, chs)" by (cases acc) auto
    ultimately have l: "?L = Some (q, (w, seen, chs), s1)" by simp
    show ?thesis
    proof (cases q)
      case (Inl e)
      have "mx' = mx\<lparr>mx_data := c\<rparr>"
        using run by (simp add: fetch_opted_in_accounts_cached_with_def k False 3 l Inl)
      with c show ?thesis by simp
    next
      case (Inr u)
      have "reread_accounts lookup f chs (ac_entries c, s1) \<noteq> None"
        using run by (rule contrapos_pn) (simp add: fetch_opted_in_accounts_cached_with_def k False 3 l Inr)
      then obtain r' es' s2 where rr: "reread_accounts lookup f chs (ac_entries c, s1) = Some (r', es', s2)"
        by (cases "reread_accounts lookup f chs (ac_entries c, s1)") auto
      have "ac_entries (mx_data mx') = es' \<and> mx_poisoned mx' = mx_poisoned mx"
        using run by (cases r') (auto simp: fetch_opted_in_accounts_cached_with_def k False 3 l Inr rr)
      moreover have "entries_from g f es'" by (rule entries_from_reread [OF rr c]) (rule lookup)
      ultimately show ?thesis by simp
    qed
  qed
qed

section \<open>Properties\<close>

text \<open>The accounts an indexer tells of: those of its pages, and those it looks up by their address.\<close>

definition tells_of :: "('e, 'a, 'j, 'z) node_scheme \<Rightarrow> u64 \<Rightarrow> (scanned_account \<Rightarrow> bool) \<Rightarrow> bool" where
  "tells_of nd app_id genuine \<longleftrightarrow>
     (\<forall>client tok w p w'. fetch_account_page nd client app_id tok w = Some (Inr p, w') \<longrightarrow> list_all genuine (ap_accounts p)) \<and>
     (\<forall>client a w acct w'. lookup_opted_in_account nd client app_id a w = Some (Inr (Some acct), w') \<longrightarrow>
        genuine acct \<and> sa_address acct = a)"

text \<open>A resolver as it is used: made once, then resolving any number of times, in whatever world it finds.\<close>

inductive resolving :: "('e, 'a, 'j, 'z) node_scheme \<Rightarrow> resolver \<Rightarrow> endpoint_record account_scan_cache mutex \<Rightarrow> bool"
  for nd r where
  made: "mx = \<lparr>mx_poisoned = False, mx_data = account_cache_new\<rparr> \<Longrightarrow> resolving nd r mx"
| resolved: "resolving nd r mx \<Longrightarrow> resolve nd r (mx, w) = Some (res, mx', w') \<Longrightarrow> resolving nd r mx'"

lemma resolve_scans:
  assumes "resolve nd r (mx, w) = Some (res, mx', w')" and "tells_of nd (rs_app_id r) g"
    and "entries_from g (decode_node_endpoint (rs_b64 r) (rs_is_node r) (rs_endpoint_key r)) (ac_entries (mx_data mx))"
  shows "entries_from g (decode_node_endpoint (rs_b64 r) (rs_is_node r) (rs_endpoint_key r)) (ac_entries (mx_data mx')) \<and>
    (mx_poisoned mx' = mx_poisoned mx) \<and> (\<forall>xs. res = Inr xs \<longrightarrow> xs = ac_entries (mx_data mx'))"
proof -
  let ?f = "decode_node_endpoint (rs_b64 r) (rs_is_node r) (rs_endpoint_key r)"
  from assms(1) obtain q mx1 w1 where
    q: "fetch_opted_in_accounts_cached nd (rs_app_id r) Refresh (rs_cache_lifetime_secs r) ?f (mx, w) = Some (q, mx1, w1)"
    and r: "mx1 = mx'" "\<forall>xs. res = Inr xs \<longrightarrow> xs = ac_entries (mx_data mx')"
    by (auto simp: resolve_def try_op_def split: option.splits sum.splits prod.splits if_splits)
  have "entries_from g ?f (ac_entries (mx_data mx1)) \<and> mx_poisoned mx1 = mx_poisoned mx"
  proof -
    from q consider "mx1 = mx" | client now w3 where
      "fetch_opted_in_accounts_cached_with Refresh (rs_cache_lifetime_secs r) now ?f (fetch_account_page nd client (rs_app_id r))
         (fetch_changed_addresses_page nd client (rs_app_id r)) (lookup_opted_in_account nd client (rs_app_id r)) (mx, w3) =
         Some (q, mx1, w1)"
      by (auto simp: fetch_opted_in_accounts_cached_def try_op_def beside_def split: option.splits sum.splits prod.splits if_splits)
    then show ?thesis
    proof cases
      case 1
      with assms(3) show ?thesis by simp
    next
      case 2
      show ?thesis
        by (rule scan_entries_from [OF 2 assms(3)])
          (rule assms(2) [unfolded tells_of_def, THEN conjunct1, rule_format],
           assumption, rule assms(2) [unfolded tells_of_def, THEN conjunct2, rule_format])
    qed
  qed
  with r show ?thesis by simp
qed

lemma resolved_nodes_only:
  assumes "resolving nd r mx" and "resolve nd r (mx, w) = Some (Inr found, mx', w')" and "tells_of nd (rs_app_id r) genuine"
  shows "list_all (\<lambda>(address, ep). \<exists>acct published. genuine acct \<and> sa_address acct = address \<and>
      rs_is_node r (sa_local_state acct) \<and> map_of (sa_local_state acct) (rs_endpoint_key r) = Some published \<and>
      endpoint_decode (rs_b64 r) published = Some ep \<and> endpoint_valid ep) found"
proof -
  let ?f = "decode_node_endpoint (rs_b64 r) (rs_is_node r) (rs_endpoint_key r)"
  have "entries_from genuine ?f (ac_entries (mx_data mx))"
    using assms(1)
  proof (induction rule: resolving.induct)
    case (resolved mx w res mx' w')
    from resolve_scans [OF resolved(2) assms(3) resolved(3)] show ?case by simp
  qed (simp add: account_cache_new_def)
  with resolve_scans [OF assms(2,3)] have e: "entries_from genuine ?f found" by simp
  have find_map: "map_option snd (find (\<lambda>kv. fst kv = k) kvs) = map_of kvs k" for k and kvs :: "(string \<times> string) list"
    by (induction kvs) auto
  have "endpoint_valid ep" if "endpoint_decode (rs_b64 r) published = Some ep" for published ep
    using that endpoint_codec.dec_sound by (auto simp: endpoint_decode_def bind_eq_Some_conv)
  with e show ?thesis
    by (fastforce simp: list_all_iff entries_from_def decode_node_endpoint_def find_map bind_eq_Some_conv split: if_splits)
qed

text \<open>
  C25: Discovery surfaces permitted nodes only, and keeps doing so. However often a resolver has resolved,
  failures included, every pair it returns is the address of an account the indexer told of, whose
  local state the node decoder accepts, with the well-formed record that account publishes first
  under the endpoint key. An account that is not a node, has no record or a malformed one is never
  returned.
\<close>

theorem resolver_surfaces_nodes_only:
  assumes "resolving nd r mx" and "resolve nd r (mx, w) = Some (Inr found, mx', w')" and "tells_of nd (rs_app_id r) genuine"
  shows "list_all (\<lambda>(address, ep). \<exists>acct published. genuine acct \<and> sa_address acct = address \<and>
      rs_is_node r (sa_local_state acct) \<and> map_of (sa_local_state acct) (rs_endpoint_key r) = Some published \<and>
      endpoint_decode (rs_b64 r) published = Some ep \<and> endpoint_valid ep) found"
  using assms by (rule resolved_nodes_only)

text \<open>An indexer of two accounts: a node that publishes 10.0.0.1, and an account without the permission that does too.\<close>

definition published_text :: string where
  "published_text = bytes_str [1, 10, 0, 0, 1, 17, 34]"

definition published_state :: "u64 \<Rightarrow> json" where
  "published_state flags = JObj [(''apps-local-state'', JArr [JObj [(''id'', JNum 9), (''key-value'', JArr [
     JObj [(''key'', JStr ''allow''), (''value'', JObj [(''type'', JNum 2), (''uint'', JNum flags)])],
     JObj [(''key'', JStr ''ep''), (''value'', JObj [(''type'', JNum 1), (''bytes'', JStr (published_text))])]])]])]"

definition two_nodes :: "(nat, string, json) node" where
  "two_nodes = refusing_node\<lparr>nd_search_for_accounts := (\<lambda>_ _ _ _. answers \<lparr>ar_accounts = [
       \<lparr>ai_address = ''N'', ai_amount = 0, ai_min_balance = 0, ai_json = Inr (case published_state 2 of JObj f \<Rightarrow> JObj ((''address'', JStr ''N'') # f))\<rparr>,
       \<lparr>ai_address = ''X'', ai_amount = 0, ai_min_balance = 0, ai_json = Inr (case published_state 1 of JObj f \<Rightarrow> JObj ((''address'', JStr ''X'') # f))\<rparr>],
     ar_next_token = None, ar_current_round = 5\<rparr>)\<rparr>"

definition two_resolver :: "resolver \<times> endpoint_record account_scan_cache mutex" where
  "two_resolver = resolver_new plain_engine 9 None ''ep'' (bit_decoder ''allow'' 1)"

lemma published_accounts:
  "scanned_account_from json_accessors plain_engine 9
     (case published_state 2 of JObj f \<Rightarrow> JObj ((''address'', JStr ''N'') # f)) =
     \<lparr>sa_address = ''N'', sa_local_state = [(''allow'', ''2''), (''ep'', published_text)]\<rparr>"
  "scanned_account_from json_accessors plain_engine 9
     (case published_state 1 of JObj f \<Rightarrow> JObj ((''address'', JStr ''X'') # f)) =
     \<lparr>sa_address = ''X'', sa_local_state = [(''allow'', ''1''), (''ep'', published_text)]\<rparr>"
  by code_simp+

lemma two_nodes_page:
  "unthrottled c \<Longrightarrow> fetch_account_page two_nodes client 9 tok (c, e) = Some (Inr \<lparr>ap_accounts =
     [\<lparr>sa_address = ''N'', sa_local_state = [(''allow'', ''2''), (''ep'', published_text)]\<rparr>,
      \<lparr>sa_address = ''X'', sa_local_state = [(''allow'', ''1''), (''ep'', published_text)]\<rparr>],
     ap_next_token = None, ap_current_round = 5\<rparr>, counted 1 c, e + 1)"
  by (simp add: fetch_account_page_def unless_unreachable_def two_nodes_def indexer_call_def attempt_def try_op_def to_value_def
      published_accounts next_token_of_def)

text \<open>A successful call has an answer of the service.\<close>

lemma indexer_call_answer: "indexer_call rt fut w = Some (Inr x, w') \<Longrightarrow> \<exists>e. fst (fut e) = Inr x"
  unfolding indexer_call_def call_with_retry_def by (rule call_attempts_value)

lemma two_nodes_tell: "tells_of two_nodes 9 (\<lambda>acct. sa_address acct \<in> {''N'', ''X''})"
proof -
  have "list_all (\<lambda>acct. sa_address acct \<in> {''N'', ''X''}) (ap_accounts p)"
    if "fetch_account_page two_nodes client 9 tok w = Some (Inr p, w')" for client tok w p w'
    using that
    by (auto simp: fetch_account_page_def unless_unreachable_def attempt_def try_op_def to_value_def two_nodes_def
        published_accounts answers_def dest!: indexer_call_answer split: option.splits sum.splits prod.splits if_splits)
  moreover have False if "lookup_opted_in_account two_nodes client 9 a w = Some (Inr (Some acct), w')" for client a w acct w'
  proof -
    have "indexer_call still_runtime refuse w \<noteq> Some (Inr x, w1)" for x :: "json account_info" and w1
      using indexer_call_answer [of still_runtime refuse w x w1] by (auto simp: refuse_def)
    with that show False
      by (auto simp: lookup_opted_in_account_def attempt_def try_op_def two_nodes_def refusing_node_def
          parse_address_def split: option.splits sum.splits prod.splits if_splits)
  qed
  ultimately show ?thesis unfolding tells_of_def by blast
qed

lemma two_resolved:
  assumes "unthrottled c"
  shows "\<exists>mx'. resolve two_nodes (fst two_resolver) (snd two_resolver, c, 0) = Some (Inr
     [(''N'', \<lparr>ep_v4 = Some \<lparr>v4_ip = Ipv4Addr 10 0 0 1, v4_port = 4386\<rparr>, ep_v6 = None\<rparr>)], mx', counted 1 c, 1)"
proof -
  have i: "indexer_client two_nodes (c, e) = Some (Inr (indexer_at (ops_config c)), c, e)" for e
    by (rule client_ok) (simp add: two_nodes_def)
  have t: "now_unix_secs (nd_rt two_nodes) (c, e) = Some (Inr 100000, c, e)" for e
    by (simp add: now_unix_secs_def two_nodes_def still_runtime_def)
  have ep: "endpoint_decode plain_engine published_text = Some \<lparr>ep_v4 = Some \<lparr>v4_ip = Ipv4Addr 10 0 0 1, v4_port = 4386\<rparr>, ep_v6 = None\<rparr>"
  proof -
    have "endpoint_from_bytes [1, 10, 0, 0, 1, 17, 34] = Some \<lparr>ep_v4 = Some \<lparr>v4_ip = Ipv4Addr 10 0 0 1, v4_port = 4386\<rparr>, ep_v6 = None\<rparr>"
      by code_simp
    then show ?thesis by (simp only: endpoint_decode_def plain_engine_def published_text_def base64_engine.select_convs
          utf8_bytes_bytes_str rok_simps Option.bind.bind_lunit)
  qed
  have dec: "decode_node_endpoint plain_engine (bit_decoder ''allow'' 1) ''ep''
      \<lparr>sa_address = ''N'', sa_local_state = [(''allow'', ''2''), (''ep'', published_text)]\<rparr> =
      Some \<lparr>ep_v4 = Some \<lparr>v4_ip = Ipv4Addr 10 0 0 1, v4_port = 4386\<rparr>, ep_v6 = None\<rparr>"
    "decode_node_endpoint plain_engine (bit_decoder ''allow'' 1) ''ep''
      \<lparr>sa_address = ''X'', sa_local_state = [(''allow'', ''1''), (''ep'', published_text)]\<rparr> = None"
    by (simp_all add: decode_node_endpoint_def bit_decoder_def parse_u64_def digit_value_def ep)
  have l: "page_loop (fetch_account_page two_nodes client 9) ap_next_token
      (full_page_step (decode_node_endpoint plain_engine (bit_decoder ''allow'' 1) ''ep'')) (None, []) None (c, e) =
      Some (Inr (), (Some 5, [(''N'', \<lparr>ep_v4 = Some \<lparr>v4_ip = Ipv4Addr 10 0 0 1, v4_port = 4386\<rparr>, ep_v6 = None\<rparr>)]),
        counted 1 c, e + 1)" for client e
    by (subst page_loop.simps) (simp add: two_nodes_page [OF assms] full_page_step_def dec List.map_filter_def)
  show ?thesis
    by (simp add: resolve_def fetch_opted_in_accounts_cached_def two_resolver_def resolver_new_def try_op_def beside_def i t
        fetch_opted_in_accounts_cached_with_def account_scan_kind_def account_cache_new_def l)
qed

theorem resolver_surfaces_nodes_only_witness:
  "\<exists>(acct :: scanned_account) published. sa_address acct = ''N'' \<and> bit_decoder ''allow'' 1 (sa_local_state acct) \<and>
     map_of (sa_local_state acct) ''ep'' = Some published \<and>
     endpoint_decode plain_engine published = Some \<lparr>ep_v4 = Some \<lparr>v4_ip = Ipv4Addr 10 0 0 1, v4_port = 4386\<rparr>, ep_v6 = None\<rparr>"
proof -
  obtain mx' w' where r: "resolve two_nodes (fst two_resolver) (snd two_resolver, plain_client, 0) = Some (Inr
     [(''N'', \<lparr>ep_v4 = Some \<lparr>v4_ip = Ipv4Addr 10 0 0 1, v4_port = 4386\<rparr>, ep_v6 = None\<rparr>)], mx', w')"
    using two_resolved [of plain_client] by auto
  have m: "resolving two_nodes (fst two_resolver) (snd two_resolver)"
    by (rule made) (simp add: two_resolver_def resolver_new_def)
  have "tells_of two_nodes (rs_app_id (fst two_resolver)) (\<lambda>acct. sa_address acct \<in> {''N'', ''X''})"
    using two_nodes_tell by (simp add: two_resolver_def resolver_new_def)
  from resolver_surfaces_nodes_only [OF m r this] show ?thesis
    by (auto simp: two_resolver_def resolver_new_def)
qed

end
