(* ===== verification/Identity.thy ===== *)
theory Identity
  imports Keys Membership Json
begin

text \<open>
  Identity-bound TLS, \<open>sw_identity_tls/src\<close>: \<open>lib.rs\<close> (the signed-key extension), \<open>certificate.rs\<close>
  (minting a certificate), \<open>verify.rs\<close> (the offline check), \<open>client.rs\<close> and \<open>server.rs\<close> (the verifiers
  that \<open>rustls\<close> calls during a handshake, and the configurations). The crates \<open>yasna\<close>, \<open>x509_parser\<close>,
  \<open>rcgen\<close> and \<open>rustls\<close> are parameters; what is relied on is \<open>tls_lawful\<close>.
\<close>

record x509_cert =
  xc_spki :: bytes
  xc_extensions :: "(string \<times> bytes) list"

text \<open>
  \<open>'k\<close> is \<open>rcgen\<close>'s key pair, \<open>'p\<close> its certificate parameters, \<open>'s\<close> the random source. An object
  identifier of a parsed certificate is its dotted text.
\<close>

record ('k, 'p, 's) tls_lib =
  tl_write_two :: "bytes \<Rightarrow> bytes \<Rightarrow> bytes"
  tl_read_two :: "bytes \<Rightarrow> string + bytes \<times> bytes"
  tl_parse_x509 :: "bytes \<Rightarrow> string + x509_cert"
  tl_verify_strict :: "bytes \<Rightarrow> bytes \<Rightarrow> bytes \<Rightarrow> bool"
  tl_keypair :: "'s \<Rightarrow> (string + 'k) \<times> 's"
  tl_public_key_der :: "'k \<Rightarrow> bytes"
  tl_serialize_der :: "'k \<Rightarrow> bytes"
  tl_certificate_params :: "string list \<Rightarrow> string + 'p"
  tl_push_extension :: "nat list \<Rightarrow> bytes \<Rightarrow> 'p \<Rightarrow> 'p"
  tl_self_signed :: "'p \<Rightarrow> 'k \<Rightarrow> 's \<Rightarrow> (string + bytes) \<times> 's"

section \<open>The signed key\<close>

definition SIDEWINDER_IDENTITY_EXT_OID :: "nat list" where
  "SIDEWINDER_IDENTITY_EXT_OID = [1, 3, 6, 1, 4, 1, 66778, 1, 1]"

definition SIDEWINDER_IDENTITY_EXT_OID_STR :: string where
  "SIDEWINDER_IDENTITY_EXT_OID_STR = ''1.3.6.1.4.1.66778.1.1''"

definition IDENTITY_SIG_PREFIX :: bytes where
  "IDENTITY_SIG_PREFIX = utf8_bytes ''sidewinder-tls-identity:v1:''"

definition encode_signed_key :: "('k, 'p, 's) tls_lib \<Rightarrow> bytes \<Rightarrow> bytes \<Rightarrow> bytes" where
  "encode_signed_key lib identity_public_key signature = tl_write_two lib identity_public_key signature"

definition decode_signed_key :: "('k, 'p, 's) tls_lib \<Rightarrow> bytes \<Rightarrow> string + bytes \<times> bytes" where
  "decode_signed_key lib der = tl_read_two lib der"

definition identity_signing_message :: "bytes \<Rightarrow> bytes" where
  "identity_signing_message leaf_spki_der = IDENTITY_SIG_PREFIX @ leaf_spki_der"

text \<open>The dotted text of an object identifier.\<close>

fun oid_text :: "nat list \<Rightarrow> string" where
  "oid_text [] = []"
| "oid_text [n] = show_nat n"
| "oid_text (n # ns) = show_nat n @ ''.'' @ oid_text ns"

lemma identity_oid_text: "oid_text SIDEWINDER_IDENTITY_EXT_OID = SIDEWINDER_IDENTITY_EXT_OID_STR"
  by (simp add: SIDEWINDER_IDENTITY_EXT_OID_def SIDEWINDER_IDENTITY_EXT_OID_STR_def show_nat.simps char_of_def bit_numeral_rec bit_0)

section \<open>Minting\<close>

record identity_cert =
  ic_cert :: bytes
  ic_key :: bytes
  ic_address :: string

definition generate :: "('k, 'p, 's) tls_lib \<Rightarrow> crypto \<Rightarrow> bytes \<Rightarrow> ('s, string, identity_cert) eop" where
  "generate lib cr identity =
     try_op (map_err (\<lambda>_. ''generate ephemeral leaf key'') (\<lambda>s. Some (tl_keypair lib s))) (\<lambda>leaf.
       let leaf_spki = tl_public_key_der lib leaf;
           signature = cr_sign cr identity (identity_signing_message leaf_spki);
           identity_public_key = cr_public_key cr identity;
           extension_payload = encode_signed_key lib identity_public_key signature
       in try_op (lift (rmap_err (\<lambda>_. ''build certificate parameters'')
                    (tl_certificate_params lib [''node.sidewinder.invalid'']))) (\<lambda>params.
          let params = tl_push_extension lib SIDEWINDER_IDENTITY_EXT_OID extension_payload params
          in try_op (map_err (\<lambda>_. ''self-sign identity certificate'') (\<lambda>s. Some (tl_self_signed lib params leaf s))) (\<lambda>cert.
             try_op (lift (rmap_err (\<lambda>_. ''derive Algorand address from identity key'')
                       (byte_key_to_address cr identity_public_key))) (\<lambda>address.
               ret \<lparr>ic_cert = cert, ic_key = tl_serialize_der lib leaf, ic_address = address\<rparr>))))"

section \<open>The offline check\<close>

datatype verify_error =
    Parse string
  | MissingExtension
  | BadSignedKey string
  | BadPublicKey
  | SignatureInvalid
  | Address string
  | NotAuthorized string

fun verify_error_display :: "verify_error \<Rightarrow> string" where
  "verify_error_display (Parse e) = ''certificate parse error: '' @ e"
| "verify_error_display MissingExtension = ''no Sidewinder identity extension''"
| "verify_error_display (BadSignedKey e) = ''malformed identity extension: '' @ e"
| "verify_error_display BadPublicKey = ''invalid Ed25519 identity public key''"
| "verify_error_display SignatureInvalid = ''identity signature invalid''"
| "verify_error_display (Address e) = ''address derivation failed: '' @ e"
| "verify_error_display (NotAuthorized a) = ''identity '' @ a @ '' not authorized''"

definition verify_identity_cert_inner ::
  "('k, 'p, 's) tls_lib \<Rightarrow> crypto \<Rightarrow> bytes \<Rightarrow> authority \<Rightarrow> role option \<Rightarrow> verify_error + string" where
  "verify_identity_cert_inner lib cr end_entity authority required =
     rbind (rmap_err Parse (tl_parse_x509 lib end_entity)) (\<lambda>cert.
     let leaf_spki = xc_spki cert
     in rbind (ok_or MissingExtension
                (find (\<lambda>ext. fst ext = SIDEWINDER_IDENTITY_EXT_OID_STR) (xc_extensions cert))) (\<lambda>extension.
        rbind (rmap_err BadSignedKey (decode_signed_key lib (snd extension))) (\<lambda>(public_key, signature).
          if length public_key \<noteq> 32 then Inl BadPublicKey
          else
            rbind (rmap_err (\<lambda>_. BadPublicKey) (cr_key_ok cr public_key)) (\<lambda>_.
              if length signature \<noteq> 64 then Inl SignatureInvalid
              else if \<not> tl_verify_strict lib public_key (identity_signing_message leaf_spki) signature
              then Inl SignatureInvalid
              else
                rbind (rmap_err (\<lambda>e. Address (any_display e)) (byte_key_to_address cr public_key)) (\<lambda>address.
                  if \<not> authorized authority required address then Inl (NotAuthorized address)
                  else Inr address)))))"

definition verify_identity_cert ::
  "('k, 'p, 's) tls_lib \<Rightarrow> crypto \<Rightarrow> bytes \<Rightarrow> authority \<Rightarrow> verify_error + string" where
  "verify_identity_cert lib cr end_entity authority = verify_identity_cert_inner lib cr end_entity authority None"

definition verify_identity_cert_for_role ::
  "('k, 'p, 's) tls_lib \<Rightarrow> crypto \<Rightarrow> bytes \<Rightarrow> authority \<Rightarrow> role \<Rightarrow> verify_error + string" where
  "verify_identity_cert_for_role lib cr end_entity authority r =
     verify_identity_cert_inner lib cr end_entity authority (Some r)"

section \<open>The verifiers of a handshake\<close>

datatype certificate_error = ApplicationVerificationFailure

datatype rustls_error = General string | InvalidCertificate certificate_error | OtherTls string

text \<open>The crypto provider: its signature algorithms, and what the configuration builders check with it.\<close>

record 'd provider =
  pr_verify_tls12 :: "bytes \<Rightarrow> bytes \<Rightarrow> 'd \<Rightarrow> rustls_error + unit"
  pr_verify_tls13 :: "bytes \<Rightarrow> bytes \<Rightarrow> 'd \<Rightarrow> rustls_error + unit"
  pr_schemes :: "string list"
  pr_safe_versions :: "rustls_error + unit"
  pr_load_key :: "bytes list \<Rightarrow> bytes \<Rightarrow> rustls_error + unit"

definition tls12 :: "'d provider \<Rightarrow> bytes \<Rightarrow> bytes \<Rightarrow> 'd \<Rightarrow> rustls_error + unit" where
  "tls12 provider message cert dss = pr_verify_tls12 provider message cert dss"

definition tls13 :: "'d provider \<Rightarrow> bytes \<Rightarrow> bytes \<Rightarrow> 'd \<Rightarrow> rustls_error + unit" where
  "tls13 provider message cert dss = pr_verify_tls13 provider message cert dss"

text \<open>
  The connecting side authenticates the server. The slot of the authenticated peer is behind a mutex;
  a poisoned one panics (\<open>None\<close>).
\<close>

record 'd server_verifier =
  sv_authority :: authority
  sv_required_role :: "role option"
  sv_provider :: "'d provider"
  sv_authenticated :: "string option mutex"

definition server_verifier_new :: "authority \<Rightarrow> 'd provider \<Rightarrow> 'd server_verifier" where
  "server_verifier_new au provider =
     \<lparr>sv_authority = au, sv_required_role = None, sv_provider = provider,
      sv_authenticated = \<lparr>mx_poisoned = False, mx_data = None\<rparr>\<rparr>"

definition server_verifier_for_role :: "authority \<Rightarrow> 'd provider \<Rightarrow> role \<Rightarrow> 'd server_verifier" where
  "server_verifier_for_role au provider r =
     \<lparr>sv_authority = au, sv_required_role = Some r, sv_provider = provider,
      sv_authenticated = \<lparr>mx_poisoned = False, mx_data = None\<rparr>\<rparr>"

definition authenticated_server :: "'d server_verifier \<Rightarrow> string option option" where
  "authenticated_server v =
     (if mx_poisoned (sv_authenticated v) then None else Some (mx_data (sv_authenticated v)))"

definition verify_server_cert ::
  "('k, 'p, 's) tls_lib \<Rightarrow> crypto \<Rightarrow> bytes \<Rightarrow> ('d server_verifier, rustls_error, unit) eop" where
  "verify_server_cert lib cr end_entity v =
     (case rmap_err (\<lambda>e. General (verify_error_display e))
             (verify_identity_cert_inner lib cr end_entity (sv_authority v) (sv_required_role v)) of
        Inl e \<Rightarrow> Some (Inl e, v)
      | Inr address \<Rightarrow>
          if mx_poisoned (sv_authenticated v) then None
          else Some (Inr (), v\<lparr>sv_authenticated := (sv_authenticated v)\<lparr>mx_data := Some address\<rparr>\<rparr>))"

text \<open>The listening side authenticates the client; a permitted identity is told apart from a proved one.\<close>

record 'd client_verifier =
  cv_authority :: authority
  cv_required_role :: "role option"
  cv_provider :: "'d provider"
  cv_authenticated :: "string option mutex"

definition client_verifier_new :: "authority \<Rightarrow> 'd provider \<Rightarrow> 'd client_verifier" where
  "client_verifier_new au provider =
     \<lparr>cv_authority = au, cv_required_role = None, cv_provider = provider,
      cv_authenticated = \<lparr>mx_poisoned = False, mx_data = None\<rparr>\<rparr>"

definition client_verifier_for_role :: "authority \<Rightarrow> 'd provider \<Rightarrow> role \<Rightarrow> 'd client_verifier" where
  "client_verifier_for_role au provider r =
     \<lparr>cv_authority = au, cv_required_role = Some r, cv_provider = provider,
      cv_authenticated = \<lparr>mx_poisoned = False, mx_data = None\<rparr>\<rparr>"

definition authenticated_client :: "'d client_verifier \<Rightarrow> string option option" where
  "authenticated_client v =
     (if mx_poisoned (cv_authenticated v) then None else Some (mx_data (cv_authenticated v)))"

definition client_refusal :: "verify_error \<Rightarrow> rustls_error" where
  "client_refusal e =
     (case e of
        NotAuthorized _ \<Rightarrow> InvalidCertificate ApplicationVerificationFailure
      | other \<Rightarrow> General (verify_error_display other))"

definition verify_client_cert ::
  "('k, 'p, 's) tls_lib \<Rightarrow> crypto \<Rightarrow> bytes \<Rightarrow> ('d client_verifier, rustls_error, unit) eop" where
  "verify_client_cert lib cr end_entity v =
     (case rmap_err client_refusal
             (verify_identity_cert_inner lib cr end_entity (cv_authority v) (cv_required_role v)) of
        Inl e \<Rightarrow> Some (Inl e, v)
      | Inr address \<Rightarrow>
          if mx_poisoned (cv_authenticated v) then None
          else Some (Inr (), v\<lparr>cv_authenticated := (cv_authenticated v)\<lparr>mx_data := Some address\<rparr>\<rparr>))"

section \<open>Configurations\<close>

record ('v) tls_config =
  tc_verifier :: 'v
  tc_chain :: "bytes list"
  tc_private_key :: bytes

definition client_config :: "identity_cert \<Rightarrow> 'd server_verifier \<Rightarrow> rustls_error + 'd server_verifier tls_config" where
  "client_config own verifier =
     (let provider = sv_provider verifier
      in rbind (pr_safe_versions provider) (\<lambda>_.
         rbind (pr_load_key provider [ic_cert own] (ic_key own)) (\<lambda>_.
           Inr \<lparr>tc_verifier = verifier, tc_chain = [ic_cert own], tc_private_key = ic_key own\<rparr>)))"

definition server_config :: "identity_cert \<Rightarrow> 'd client_verifier \<Rightarrow> rustls_error + 'd client_verifier tls_config" where
  "server_config own verifier =
     (let provider = cv_provider verifier
      in rbind (pr_safe_versions provider) (\<lambda>_.
         rbind (pr_load_key provider [ic_cert own] (ic_key own)) (\<lambda>_.
           Inr \<lparr>tc_verifier = verifier, tc_chain = [ic_cert own], tc_private_key = ic_key own\<rparr>)))"

section \<open>What is relied on\<close>

text \<open>
  The reader of the signed key inverts the writer. A certificate that \<open>rcgen\<close> signs parses back to the leaf's
  public key and the custom extension, after extensions of \<open>rcgen\<close>'s own, which are in the standard
  arc \<open>2.5.29\<close>. A signature is strictly verified by the key that made it.
\<close>

definition tls_lawful :: "('k, 'p, 's) tls_lib \<Rightarrow> crypto \<Rightarrow> bool" where
  "tls_lawful lib cr \<longleftrightarrow>
     (\<forall>a b. tl_read_two lib (tl_write_two lib a b) = Inr (a, b)) \<and>
     (\<forall>names oid content p leaf s der s'.
        tl_certificate_params lib names = Inr p \<and>
        tl_self_signed lib (tl_push_extension lib oid content p) leaf s = (Inr der, s') \<longrightarrow>
        (\<exists>cert own rest. tl_parse_x509 lib der = Inr cert \<and> xc_spki cert = tl_public_key_der lib leaf \<and>
           xc_extensions cert = own @ (oid_text oid, content) # rest \<and>
           (\<forall>x \<in> fst ` set own. starts_with x ''2.5.29.''))) \<and>
     (\<forall>sk m. length sk = 32 \<longrightarrow> tl_verify_strict lib (cr_public_key cr sk) m (cr_sign cr sk m))"

lemma tls_lawfulD:
  assumes "tls_lawful lib cr"
  shows "tl_read_two lib (tl_write_two lib a b) = Inr (a, b)"
    and "length sk = 32 \<Longrightarrow> tl_verify_strict lib (cr_public_key cr sk) m (cr_sign cr sk m)"
    and "tl_certificate_params lib names = Inr p \<Longrightarrow>
      tl_self_signed lib (tl_push_extension lib oid content p) leaf s = (Inr der, s') \<Longrightarrow>
      \<exists>cert own rest. tl_parse_x509 lib der = Inr cert \<and> xc_spki cert = tl_public_key_der lib leaf \<and>
        xc_extensions cert = own @ (oid_text oid, content) # rest \<and> (\<forall>x \<in> fst ` set own. starts_with x ''2.5.29.'')"
  using assms unfolding tls_lawful_def by blast+

text \<open>An instance: a certificate is three texts, the leaf's key and the extension.\<close>

definition toy_tls :: "(bytes, (nat list \<times> bytes) list, nat) tls_lib" where
  "toy_tls = \<lparr>
     tl_write_two = (\<lambda>a b. put_text a @ put_text b),
     tl_read_two = (\<lambda>bs. ok_or ''bad pair'' (Option.bind (get_text bs) (\<lambda>(a, r). map_option (\<lambda>(b, _). (a, b)) (get_text r)))),
     tl_parse_x509 = (\<lambda>bs. ok_or ''bad certificate''
       (Option.bind (get_text bs) (\<lambda>(k, r). Option.bind (get_text r) (\<lambda>(oid, r).
          map_option (\<lambda>(content, _). \<lparr>xc_spki = k, xc_extensions = [(bytes_str oid, content)]\<rparr>) (get_text r))))),
     tl_verify_strict = (\<lambda>pk m sig. sig = pk @ pk),
     tl_keypair = (\<lambda>n. (Inr [of_nat n, 7], n + 1)), tl_public_key_der = (\<lambda>k. k), tl_serialize_der = (\<lambda>k. k),
     tl_certificate_params = (\<lambda>_. Inr []), tl_push_extension = (\<lambda>oid content p. p @ [(oid, content)]),
     tl_self_signed = (\<lambda>p leaf n. (case p of
        [(oid, content)] \<Rightarrow> Inr (put_text leaf @ put_text (utf8_bytes (oid_text oid)) @ put_text content)
      | _ \<Rightarrow> Inl ''one extension'', n))\<rparr>"

lemma toy_tls_lawful: "tls_lawful toy_tls toy_crypto"
proof -
  have e: "get_text (put_text t) = Some (t, [])" for t using get_put_text [of t "[]"] by simp
  show ?thesis by (auto simp: tls_lawful_def toy_tls_def toy_crypto_def e Cons_eq_append_conv)
qed

section \<open>Properties\<close>

lemma verified_iff:
  "verify_identity_cert_inner lib cr end_entity au required = Inr address \<longleftrightarrow>
     (\<exists>cert ext pk sig. tl_parse_x509 lib end_entity = Inr cert \<and>
        find (\<lambda>ext. fst ext = SIDEWINDER_IDENTITY_EXT_OID_STR) (xc_extensions cert) = Some ext \<and>
        decode_signed_key lib (snd ext) = Inr (pk, sig) \<and> length pk = 32 \<and> cr_key_ok cr pk = Inr () \<and>
        length sig = 64 \<and> tl_verify_strict lib pk (identity_signing_message (xc_spki cert)) sig \<and>
        byte_key_to_address cr pk = Inr address \<and> authorized au required address)"
  by (auto simp: verify_identity_cert_inner_def Let_def rbind_eq_Inr split: if_splits; fastforce)

text \<open>
  What a certificate has to carry to speak for an address: under the extension of the identity, the
  account's key and its strictly verified signature over the very leaf key the certificate is for.
\<close>

definition proves_identity :: "('k, 'p, 's) tls_lib \<Rightarrow> crypto \<Rightarrow> bytes \<Rightarrow> string \<Rightarrow> bool" where
  "proves_identity lib cr presented address \<longleftrightarrow>
     (\<exists>cert content pk sig. tl_parse_x509 lib presented = Inr cert \<and>
        (SIDEWINDER_IDENTITY_EXT_OID_STR, content) \<in> set (xc_extensions cert) \<and>
        decode_signed_key lib content = Inr (pk, sig) \<and> length pk = 32 \<and> length sig = 64 \<and>
        tl_verify_strict lib pk (identity_signing_message (xc_spki cert)) sig \<and>
        byte_key_to_address cr pk = Inr address)"

lemma accepted_proves:
  assumes "verify_identity_cert_inner lib cr presented au required = Inr address"
  shows "proves_identity lib cr presented address \<and> authorized au required address"
proof -
  from assms obtain cert ext pk sig where c: "tl_parse_x509 lib presented = Inr cert"
    "find (\<lambda>ext. fst ext = SIDEWINDER_IDENTITY_EXT_OID_STR) (xc_extensions cert) = Some ext"
    "decode_signed_key lib (snd ext) = Inr (pk, sig)" "length pk = 32" "length sig = 64"
    "tl_verify_strict lib pk (identity_signing_message (xc_spki cert)) sig"
    "byte_key_to_address cr pk = Inr address" "authorized au required address"
    unfolding verified_iff by blast
  from c(2) have "(SIDEWINDER_IDENTITY_EXT_OID_STR, snd ext) \<in> set (xc_extensions cert)"
    by (auto simp: find_Some_iff) (metis nth_mem prod.collapse)
  with c show ?thesis unfolding proves_identity_def by blast
qed

lemma accepted_server:
  assumes "verify_server_cert lib cr presented v = Some (Inr (), v')" and "\<not> mx_poisoned (sv_authenticated v)"
  shows "\<exists>a. authenticated_server v' = Some (Some a) \<and> proves_identity lib cr presented a \<and>
    authorized (sv_authority v) (sv_required_role v) a"
  using assms
  by (auto simp: verify_server_cert_def authenticated_server_def split: sum.splits dest!: accepted_proves)

lemma accepted_client:
  assumes "verify_client_cert lib cr presented w = Some (Inr (), w')" and "\<not> mx_poisoned (cv_authenticated w)"
  shows "\<exists>a. authenticated_client w' = Some (Some a) \<and> proves_identity lib cr presented a \<and>
    authorized (cv_authority w) (cv_required_role w) a"
  using assms
  by (auto simp: verify_client_cert_def authenticated_client_def split: sum.splits dest!: accepted_proves)

lemma find_own:
  assumes "\<forall>x \<in> fst ` set own. starts_with x ''2.5.29.''"
  shows "find (\<lambda>ext. fst ext = SIDEWINDER_IDENTITY_EXT_OID_STR) (own @ (SIDEWINDER_IDENTITY_EXT_OID_STR, c) # rest) =
    Some (SIDEWINDER_IDENTITY_EXT_OID_STR, c)"
proof -
  have "\<not> starts_with SIDEWINDER_IDENTITY_EXT_OID_STR ''2.5.29.''" by code_simp
  with assms have "\<forall>ext \<in> set own. fst ext \<noteq> SIDEWINDER_IDENTITY_EXT_OID_STR" by auto
  then show ?thesis by (induction own) auto
qed

lemma minted:
  assumes "crypto_lawful cr" and "tls_lawful lib cr" and "length identity = 32"
    and "generate lib cr identity s = Some (Inr own, s')"
  shows "byte_key_to_address cr (cr_public_key cr identity) = Inr (ic_address own) \<and>
    verify_identity_cert_inner lib cr (ic_cert own) au required =
      (if authorized au required (ic_address own) then Inr (ic_address own) else Inl (NotAuthorized (ic_address own)))"
proof -
  obtain leaf s1 params cert where g: "tl_certificate_params lib [''node.sidewinder.invalid''] = Inr params"
      "tl_self_signed lib (tl_push_extension lib SIDEWINDER_IDENTITY_EXT_OID
         (encode_signed_key lib (cr_public_key cr identity)
           (cr_sign cr identity (identity_signing_message (tl_public_key_der lib leaf)))) params) leaf s1 = (Inr cert, s')"
      "ic_cert own = cert" "byte_key_to_address cr (cr_public_key cr identity) = Inr (ic_address own)"
    using assms(4)
    by (auto simp: generate_def try_op_def map_err_def attempt_def Let_def split: option.splits sum.splits prod.splits)
  from tls_lawfulD(3) [OF assms(2) g(1,2)] obtain x own' rest where x: "tl_parse_x509 lib cert = Inr x"
      "xc_spki x = tl_public_key_der lib leaf"
      "xc_extensions x = own' @ (SIDEWINDER_IDENTITY_EXT_OID_STR, encode_signed_key lib (cr_public_key cr identity)
         (cr_sign cr identity (identity_signing_message (tl_public_key_der lib leaf)))) # rest"
      "\<forall>y \<in> fst ` set own'. starts_with y ''2.5.29.''"
    unfolding identity_oid_text by blast
  show ?thesis
    using assms(1,3) tls_lawfulD(1,2) [OF assms(2)] g x find_own [OF x(4)]
    by (simp add: verify_identity_cert_inner_def encode_signed_key_def decode_signed_key_def ok_or_def)
qed

text \<open>
  C6: Both ends of a handshake between minted identities authenticate one another, or refuse. Each side's
  verifier accepts the other's certificate exactly when its authority admits the other's address,
  then holds that address as its authenticated peer; otherwise it keeps what it held, and the
  listening side answers access denied. A forged certificate gains nothing: whatever is presented,
  either verifier accepts it only with an address it proves, by a strictly verified signature of that
  account's key over the leaf key presented, and that the authority admits, and that address is then the
  authenticated peer. With a verifier pinned to one address, only that address is ever accepted.
\<close>

theorem identity_handshake:
  assumes "crypto_lawful cr" and "tls_lawful lib cr" and "length identity = 32"
    and "generate lib cr identity s = Some (Inr own, s')"
    and "\<not> mx_poisoned (sv_authenticated v)" and "\<not> mx_poisoned (cv_authenticated w)"
  shows "(if authorized (sv_authority v) (sv_required_role v) (ic_address own)
      then \<exists>v'. verify_server_cert lib cr (ic_cert own) v = Some (Inr (), v') \<and>
        authenticated_server v' = Some (Some (ic_address own))
      else \<exists>e. verify_server_cert lib cr (ic_cert own) v = Some (Inl e, v)) \<and>
    (if authorized (cv_authority w) (cv_required_role w) (ic_address own)
      then \<exists>w'. verify_client_cert lib cr (ic_cert own) w = Some (Inr (), w') \<and>
        authenticated_client w' = Some (Some (ic_address own))
      else verify_client_cert lib cr (ic_cert own) w = Some (Inl (InvalidCertificate ApplicationVerificationFailure), w)) \<and>
    (sv_authority v = static_dyn (static_with pinned r static_new) \<and>
      verify_server_cert lib cr presented v = Some (Inr (), v') \<longrightarrow> authenticated_server v' = Some (Some pinned)) \<and>
    (verify_server_cert lib cr presented v = Some (Inr (), v') \<longrightarrow>
      (\<exists>a. authenticated_server v' = Some (Some a) \<and> proves_identity lib cr presented a \<and>
         authorized (sv_authority v) (sv_required_role v) a)) \<and>
    (verify_client_cert lib cr presented w = Some (Inr (), w') \<longrightarrow>
      (\<exists>a. authenticated_client w' = Some (Some a) \<and> proves_identity lib cr presented a \<and>
         authorized (cv_authority w) (cv_required_role w) a))"
proof -
  note m = minted [OF assms(1-4), THEN conjunct2]
  have "address = pinned" if "authorized (static_dyn (static_with pinned r static_new)) required address" for required address
    using static.authorized_admitted [OF that] by (auto simp: static_with_def static_new_def split: if_splits)
  then have "authenticated_server v' = Some (Some pinned)"
    if "sv_authority v = static_dyn (static_with pinned r static_new)"
      and "verify_server_cert lib cr presented v = Some (Inr (), v')"
    using that verified_iff [of lib cr presented "sv_authority v" "sv_required_role v"] assms(5)
    by (auto simp: verify_server_cert_def authenticated_server_def split: sum.splits if_splits)
  moreover have "verify_server_cert lib cr (ic_cert own) v = Some (Inr (),
        v\<lparr>sv_authenticated := (sv_authenticated v)\<lparr>mx_data := Some (ic_address own)\<rparr>\<rparr>)"
    if "authorized (sv_authority v) (sv_required_role v) (ic_address own)"
    using that assms(5) by (simp add: verify_server_cert_def m)
  moreover have "verify_client_cert lib cr (ic_cert own) w = Some (Inr (),
        w\<lparr>cv_authenticated := (cv_authenticated w)\<lparr>mx_data := Some (ic_address own)\<rparr>\<rparr>)"
    if "authorized (cv_authority w) (cv_required_role w) (ic_address own)"
    using that assms(6) by (simp add: verify_client_cert_def m)
  moreover have "\<exists>e. verify_server_cert lib cr (ic_cert own) v = Some (Inl e, v)"
    if "\<not> authorized (sv_authority v) (sv_required_role v) (ic_address own)"
    using that by (simp add: verify_server_cert_def m)
  moreover have "verify_client_cert lib cr (ic_cert own) w = Some (Inl (InvalidCertificate ApplicationVerificationFailure), w)"
    if "\<not> authorized (cv_authority w) (cv_required_role w) (ic_address own)"
    using that by (simp add: verify_client_cert_def m client_refusal_def)
  ultimately show ?thesis
    using assms(5,6) accepted_server [of lib cr presented v v'] accepted_client [of lib cr presented w w']
    by (simp add: authenticated_server_def authenticated_client_def)
qed

lemma toy_minted:
  "\<exists>own. generate toy_tls toy_crypto (replicate 32 5) 0 = Some (Inr own, 1) \<and>
     ic_address own = bytes_str (replicate 32 5 @ replicate 4 0)"
  by (simp add: generate_def try_op_def map_err_def attempt_def toy_tls_def Let_def byte_key_to_address_def toy_crypto_def
      SIDEWINDER_IDENTITY_EXT_OID_def)

definition toy_provider :: "unit provider" where
  "toy_provider = \<lparr>pr_verify_tls12 = (\<lambda>_ _ _. Inr ()), pr_verify_tls13 = (\<lambda>_ _ _. Inr ()), pr_schemes = [],
     pr_safe_versions = Inr (), pr_load_key = (\<lambda>_ _. Inr ())\<rparr>"

theorem identity_handshake_witness:
  "\<exists>own w. generate toy_tls toy_crypto (replicate 32 5) 0 = Some (Inr own, 1) \<and>
     verify_client_cert toy_tls toy_crypto (ic_cert own)
       (client_verifier_new (set_dyn {bytes_str (replicate 32 5 @ replicate 4 0)}) toy_provider) = Some (Inr (), w) \<and>
     authenticated_client w = Some (Some (bytes_str (replicate 32 5 @ replicate 4 0)))"
proof -
  let ?a = "bytes_str (replicate 32 5 @ replicate 4 0)"
  obtain own where own: "generate toy_tls toy_crypto (replicate 32 5) 0 = Some (Inr own, 1)" "ic_address own = ?a"
    using toy_minted by blast
  have "authorized (set_dyn {?a}) None ?a" by (rule bare_set.admitted_member [of _ _ Client]) simp
  then show ?thesis
    using identity_handshake [OF toy_crypto_lawful toy_tls_lawful _ own(1), of
        "server_verifier_new (set_dyn {}) toy_provider" "client_verifier_new (set_dyn {?a}) toy_provider"] own
    by (auto simp: server_verifier_new_def client_verifier_new_def)
qed

text \<open>The check proves an identity first and asks the authority about it last.\<close>

lemma check_in_two_steps:
  assumes "\<forall>a. authorized everyone None a"
  shows "verify_identity_cert_inner lib cr end_entity au required =
      rbind (verify_identity_cert lib cr end_entity everyone) (\<lambda>address.
        if \<not> authorized au required address then Inl (NotAuthorized address) else Inr address) \<and>
    verify_identity_cert lib cr end_entity everyone \<noteq> Inl (NotAuthorized a)"
  using assms
  by (simp add: verify_identity_cert_def verify_identity_cert_inner_def rbind_def rmap_err_def ok_or_def Let_def
      split: sum.split option.split prod.split)

text \<open>
  C28: The listening side tells a refusal from a fault. Access is denied exactly when the certificate proves
  an identity which the authority does not admit in the required role; every other failure is a
  general error with its reason; and no failure changes the authenticated peer.
\<close>

theorem access_denied_exact:
  assumes "verify_client_cert lib cr end_entity v = Some (Inl e, v')"
    and "\<forall>a. authorized everyone None a"
  shows "v' = v \<and>
    (e = InvalidCertificate ApplicationVerificationFailure \<longleftrightarrow>
      (\<exists>address. verify_identity_cert lib cr end_entity everyone = Inr address \<and>
         \<not> authorized (cv_authority v) (cv_required_role v) address)) \<and>
    (e \<noteq> InvalidCertificate ApplicationVerificationFailure \<longrightarrow>
      (\<exists>x. verify_identity_cert lib cr end_entity everyone = Inl x \<and> e = General (verify_error_display x)))"
proof -
  obtain x where x: "verify_identity_cert_inner lib cr end_entity (cv_authority v) (cv_required_role v) = Inl x"
      "e = client_refusal x" "v' = v"
    using assms(1) unfolding verify_client_cert_def
    by (cases "verify_identity_cert_inner lib cr end_entity (cv_authority v) (cv_required_role v)") (auto split: if_splits)
  show ?thesis
    using x check_in_two_steps [OF assms(2), of lib cr end_entity "cv_authority v" "cv_required_role v"]
    by (cases "verify_identity_cert lib cr end_entity everyone"; cases x)
      (auto simp: client_refusal_def split: if_splits)
qed

theorem access_denied_exact_witness:
  "\<exists>own. generate toy_tls toy_crypto (replicate 32 5) 0 = Some (Inr own, 1) \<and>
     verify_identity_cert toy_tls toy_crypto (ic_cert own) \<lparr>ma_role_of = (\<lambda>_. Some Client), ma_is_member = (\<lambda>_. True)\<rparr>
       = Inr (ic_address own)"
proof -
  let ?everyone = "\<lparr>ma_role_of = (\<lambda>_. Some Client), ma_is_member = (\<lambda>_. True)\<rparr>"
  let ?v = "client_verifier_new (set_dyn {}) toy_provider"
  obtain own where own: "generate toy_tls toy_crypto (replicate 32 5) 0 = Some (Inr own, 1)" using toy_minted by blast
  have "\<not> authorized (set_dyn {}) None (ic_address own)" by (rule bare_set.unknown_refused) simp
  then have "verify_client_cert toy_tls toy_crypto (ic_cert own) ?v =
      Some (Inl (InvalidCertificate ApplicationVerificationFailure), ?v)"
    using minted [OF toy_crypto_lawful toy_tls_lawful _ own, THEN conjunct2]
    by (simp add: verify_client_cert_def client_verifier_new_def client_refusal_def)
  from access_denied_exact [OF this, of ?everyone]
  have "\<exists>a. verify_identity_cert toy_tls toy_crypto (ic_cert own) ?everyone = Inr a" by (auto simp: authorized_def)
  moreover have "verify_identity_cert toy_tls toy_crypto (ic_cert own) ?everyone = Inr (ic_address own)"
    using minted [OF toy_crypto_lawful toy_tls_lawful _ own, THEN conjunct2]
    by (simp add: verify_identity_cert_def authorized_def)
  ultimately show ?thesis using own by blast
qed

end
