(* ===== verification/SwTypes.thy ===== *)
theory SwTypes
  imports AlgoError Codec
begin

text \<open>
  The errors, the configuration and the boundary types of the sidechain client:
  \<open>sidewinder_ops/src/error.rs\<close>, \<open>config.rs\<close> and \<open>types.rs\<close>. The wire records are what \<open>serde\<close> parses a
  body into; \<open>into_*\<close> decodes their base64 fields and their enumerations. An \<open>anyhow\<close> error is a
  typed error of this client, an error of the parent chain's client, or a text.
\<close>

section \<open>Errors\<close>

datatype sw_error_kind =
    SwHostUnreachable
  | SwTransientFailure
  | SwUnauthorized
  | SwIdentityRefused
  | SwNotFound
  | SwBadRequest
  | SwUnexpectedStatus
  | SwMalformedResponse
  | SwInvalidTransaction

record sw_error =
  se_kind :: sw_error_kind
  se_operation :: string
  se_status :: "u16 option"
  se_message :: string

datatype sw_any = Sw sw_error | Algo any_error | SwText string

fun show_sw_kind :: "sw_error_kind \<Rightarrow> string" where
  "show_sw_kind SwHostUnreachable = ''HostUnreachable''"
| "show_sw_kind SwTransientFailure = ''TransientFailure''"
| "show_sw_kind SwUnauthorized = ''Unauthorized''"
| "show_sw_kind SwIdentityRefused = ''IdentityRefused''"
| "show_sw_kind SwNotFound = ''NotFound''"
| "show_sw_kind SwBadRequest = ''BadRequest''"
| "show_sw_kind SwUnexpectedStatus = ''UnexpectedStatus''"
| "show_sw_kind SwMalformedResponse = ''MalformedResponse''"
| "show_sw_kind SwInvalidTransaction = ''InvalidTransaction''"

definition sw_error_display :: "sw_error \<Rightarrow> string" where
  "sw_error_display e =
     ''SidewinderError ('' @ show_sw_kind (se_kind e) @ ''): operation '' @ [CHR 0x27] @ se_operation e @ [CHR 0x27] @
     (case se_status e of
        Some status \<Rightarrow> '' failed (HTTP '' @ show_nat (unat status) @ ''): '' @ se_message e
      | None \<Rightarrow> '' failed: '' @ se_message e)"

fun sw_any_display :: "sw_any \<Rightarrow> string" where
  "sw_any_display (Sw e) = sw_error_display e"
| "sw_any_display (Algo e) = any_display e"
| "sw_any_display (SwText m) = m"

definition sw_unreachable :: "string \<Rightarrow> string \<Rightarrow> sw_error" where
  "sw_unreachable operation message =
     \<lparr>se_kind = SwHostUnreachable, se_operation = operation, se_status = None, se_message = message\<rparr>"

definition sw_transient :: "string \<Rightarrow> string \<Rightarrow> sw_error" where
  "sw_transient operation message =
     \<lparr>se_kind = SwTransientFailure, se_operation = operation, se_status = None, se_message = message\<rparr>"

definition sw_unauthorized :: "string \<Rightarrow> string \<Rightarrow> sw_error" where
  "sw_unauthorized operation message =
     \<lparr>se_kind = SwUnauthorized, se_operation = operation, se_status = Some 401, se_message = message\<rparr>"

definition sw_identity_refused :: "string \<Rightarrow> string \<Rightarrow> sw_error" where
  "sw_identity_refused operation message =
     \<lparr>se_kind = SwIdentityRefused, se_operation = operation, se_status = None, se_message = message\<rparr>"

definition sw_not_found :: "string \<Rightarrow> string \<Rightarrow> sw_error" where
  "sw_not_found operation message =
     \<lparr>se_kind = SwNotFound, se_operation = operation, se_status = Some 404, se_message = message\<rparr>"

definition sw_bad_request :: "string \<Rightarrow> string \<Rightarrow> sw_error" where
  "sw_bad_request operation message =
     \<lparr>se_kind = SwBadRequest, se_operation = operation, se_status = Some 400, se_message = message\<rparr>"

definition sw_unexpected_status :: "string \<Rightarrow> u16 \<Rightarrow> string \<Rightarrow> sw_error" where
  "sw_unexpected_status operation status message =
     \<lparr>se_kind = SwUnexpectedStatus, se_operation = operation, se_status = Some status, se_message = message\<rparr>"

definition sw_malformed :: "string \<Rightarrow> string \<Rightarrow> sw_error" where
  "sw_malformed operation message =
     \<lparr>se_kind = SwMalformedResponse, se_operation = operation, se_status = None, se_message = message\<rparr>"

definition sw_invalid_transaction :: "string \<Rightarrow> string \<Rightarrow> sw_error" where
  "sw_invalid_transaction operation message =
     \<lparr>se_kind = SwInvalidTransaction, se_operation = operation, se_status = None, se_message = message\<rparr>"

definition looks_unreachable :: "string \<Rightarrow> bool" where
  "looks_unreachable message =
     (let s = to_lowercase message
      in str_contains s ''tcp connect error''
         \<or> str_contains s ''connection refused''
         \<or> str_contains s ''connection reset''
         \<or> str_contains s ''timed out''
         \<or> str_contains s ''timeout''
         \<or> str_contains s ''dns error''
         \<or> str_contains s ''host unreachable''
         \<or> str_contains s ''error sending request'')"

section \<open>Configuration\<close>

record sw_config =
  sc_base_url :: string
  sc_token :: string

definition sw_config_new :: "string \<Rightarrow> string \<Rightarrow> sw_config" where
  "sw_config_new base_url token = \<lparr>sc_base_url = base_url, sc_token = token\<rparr>"

definition trimmed_base :: "sw_config \<Rightarrow> string" where
  "trimmed_base c = rev (dropWhile (\<lambda>ch. ch = CHR ''/'') (rev (sc_base_url c)))"

section \<open>Boundary types\<close>

definition decode_b64 :: "base64_engine \<Rightarrow> string \<Rightarrow> string \<Rightarrow> string \<Rightarrow> sw_error + bytes" where
  "decode_b64 b64 operation field v =
     rmap_err (\<lambda>e. sw_malformed operation (''bad base64 in `'' @ field @ ''`: '' @ e)) (b64_decode b64 v)"

datatype stage = StPending | StProvisional | StFinal | StFailed | StRejected | StExpired

definition stage_parse :: "string \<Rightarrow> string \<Rightarrow> sw_error + stage" where
  "stage_parse operation v =
     (if v = ''pending'' then Inr StPending
      else if v = ''provisional'' then Inr StProvisional
      else if v = ''final'' then Inr StFinal
      else if v = ''failed'' then Inr StFailed
      else if v = ''rejected'' then Inr StRejected
      else if v = ''expired'' then Inr StExpired
      else Inl (sw_malformed operation (''unknown stage `'' @ v @ ''`'')))"

definition is_terminal :: "stage \<Rightarrow> bool" where
  "is_terminal s \<longleftrightarrow> s \<notin> {StPending, StProvisional}"

definition is_unsuccessful :: "stage \<Rightarrow> bool" where
  "is_unsuccessful s \<longleftrightarrow> s \<in> {StFailed, StRejected, StExpired}"

datatype disposition = ReSelected | Escalated | DispFailed | DispRejected | DispExpired

definition disposition_parse :: "string \<Rightarrow> string \<Rightarrow> sw_error + disposition" where
  "disposition_parse operation v =
     (if v = ''reselected'' then Inr ReSelected
      else if v = ''escalated'' then Inr Escalated
      else if v = ''failed'' then Inr DispFailed
      else if v = ''rejected'' then Inr DispRejected
      else if v = ''expired'' then Inr DispExpired
      else Inl (sw_malformed operation (''unknown disposition `'' @ v @ ''`'')))"

record txn_error =
  te_message :: string
  te_disposition :: "disposition option"

record sw_event =
  ev_selector :: bytes
  ev_name :: string

record pending_transaction =
  pt_tx_id :: string
  pt_stage :: stage
  pt_result :: "bytes option"
  pt_logs :: "bytes list"
  pt_events :: "sw_event list"
  pt_certificate :: "bytes option"
  pt_proof :: "bytes option"
  pt_error :: "txn_error option"

record suggested_params =
  sp_instance_id :: bytes
  sp_last_round :: u64
  sp_min_fee :: u64
  sp_max_validity_window :: u64

record node_status =
  ns_instance_id :: bytes
  ns_last_round :: u64
  ns_node_set_epoch :: u64
  ns_synced :: bool
  ns_version :: "string option"

record event_schema =
  es_name :: string
  es_signature :: string
  es_selector :: bytes

record operation_schema =
  os_typ :: u32
  os_name :: "string option"
  os_return_type :: string
  os_events :: "event_schema list"

section \<open>Wire records\<close>

record error_wire =
  ew_message :: string
  ew_disposition :: "string option"

record event_wire =
  vw_selector :: string
  vw_name :: string

record pending_wire =
  pw_tx_id :: string
  pw_stage :: string
  pw_result :: "string option"
  pw_logs :: "string list"
  pw_events :: "event_wire list"
  pw_certificate :: "string option"
  pw_proof :: "string option"
  pw_error :: "error_wire option"

record suggested_params_wire =
  spw_instance_id :: string
  spw_last_round :: u64
  spw_min_fee :: u64
  spw_max_validity_window :: u64

record node_status_wire =
  nsw_instance_id :: string
  nsw_last_round :: u64
  nsw_node_set_epoch :: u64
  nsw_synced :: bool
  nsw_version :: "string option"

record event_schema_wire =
  esw_name :: string
  esw_signature :: string
  esw_selector :: string

record operation_schema_wire =
  osw_typ :: u32
  osw_name :: "string option"
  osw_return_type :: string
  osw_events :: "event_schema_wire list"

definition into_event :: "base64_engine \<Rightarrow> string \<Rightarrow> event_wire \<Rightarrow> sw_error + sw_event" where
  "into_event b64 operation w =
     rbind (decode_b64 b64 operation ''events[].selector'' (vw_selector w)) (\<lambda>selector.
       Inr \<lparr>ev_selector = selector, ev_name = vw_name w\<rparr>)"

definition into_txn_error :: "string \<Rightarrow> error_wire \<Rightarrow> sw_error + txn_error" where
  "into_txn_error operation w =
     rbind (transpose_opt (disposition_parse operation) (ew_disposition w)) (\<lambda>d.
       Inr \<lparr>te_message = ew_message w, te_disposition = d\<rparr>)"

definition into_pending :: "base64_engine \<Rightarrow> string \<Rightarrow> pending_wire \<Rightarrow> sw_error + pending_transaction" where
  "into_pending b64 operation w =
     rbind (stage_parse operation (pw_stage w)) (\<lambda>st.
     rbind (transpose_opt (decode_b64 b64 operation ''result'') (pw_result w)) (\<lambda>result.
     rbind (collect_results (decode_b64 b64 operation ''logs[]'') (pw_logs w)) (\<lambda>logs.
     rbind (collect_results (into_event b64 operation) (pw_events w)) (\<lambda>events.
     rbind (transpose_opt (decode_b64 b64 operation ''certificate'') (pw_certificate w)) (\<lambda>certificate.
     rbind (transpose_opt (decode_b64 b64 operation ''proof'') (pw_proof w)) (\<lambda>proof.
     rbind (transpose_opt (into_txn_error operation) (pw_error w)) (\<lambda>err.
       Inr \<lparr>pt_tx_id = pw_tx_id w, pt_stage = st, pt_result = result, pt_logs = logs, pt_events = events,
            pt_certificate = certificate, pt_proof = proof, pt_error = err\<rparr>)))))))"

definition into_params :: "base64_engine \<Rightarrow> string \<Rightarrow> suggested_params_wire \<Rightarrow> sw_error + suggested_params" where
  "into_params b64 operation w =
     rbind (decode_b64 b64 operation ''instanceId'' (spw_instance_id w)) (\<lambda>instance_id.
       Inr \<lparr>sp_instance_id = instance_id, sp_last_round = spw_last_round w, sp_min_fee = spw_min_fee w,
            sp_max_validity_window = spw_max_validity_window w\<rparr>)"

definition into_status :: "base64_engine \<Rightarrow> string \<Rightarrow> node_status_wire \<Rightarrow> sw_error + node_status" where
  "into_status b64 operation w =
     rbind (decode_b64 b64 operation ''instanceId'' (nsw_instance_id w)) (\<lambda>instance_id.
       Inr \<lparr>ns_instance_id = instance_id, ns_last_round = nsw_last_round w, ns_node_set_epoch = nsw_node_set_epoch w,
            ns_synced = nsw_synced w, ns_version = nsw_version w\<rparr>)"

definition into_event_schema :: "base64_engine \<Rightarrow> string \<Rightarrow> event_schema_wire \<Rightarrow> sw_error + event_schema" where
  "into_event_schema b64 operation w =
     rbind (decode_b64 b64 operation ''events[].selector'' (esw_selector w)) (\<lambda>selector.
       Inr \<lparr>es_name = esw_name w, es_signature = esw_signature w, es_selector = selector\<rparr>)"

definition into_schema :: "base64_engine \<Rightarrow> string \<Rightarrow> operation_schema_wire \<Rightarrow> sw_error + operation_schema" where
  "into_schema b64 operation w =
     rbind (collect_results (into_event_schema b64 operation) (osw_events w)) (\<lambda>events.
       Inr \<lparr>os_typ = osw_typ w, os_name = osw_name w, os_return_type = osw_return_type w, os_events = events\<rparr>)"

lemma malformed_b64: "decode_b64 b64 operation field v = Inl e \<Longrightarrow> \<exists>m. e = sw_malformed operation m"
  by (cases "b64_decode b64 v") (auto simp: decode_b64_def)

lemma malformed_list:
  "collect_results f xs = Inl e \<Longrightarrow> (\<And>x e. f x = Inl e \<Longrightarrow> \<exists>m. e = sw_malformed operation m) \<Longrightarrow>
     \<exists>m. e = sw_malformed operation m"
  by (induction xs) (auto simp: rbind_eq_Inl)

lemma malformed_opt:
  "transpose_opt f x = Inl e \<Longrightarrow> (\<And>x e. f x = Inl e \<Longrightarrow> \<exists>m. e = sw_malformed operation m) \<Longrightarrow>
     \<exists>m. e = sw_malformed operation m"
  by (cases x) (auto simp: transpose_opt_def rbind_eq_Inl)

lemma malformed_event: "into_event b64 operation w = Inl e \<Longrightarrow> \<exists>m. e = sw_malformed operation m"
  by (auto simp: into_event_def rbind_eq_Inl dest: malformed_b64)

lemma malformed_schema: "into_event_schema b64 operation w = Inl e \<Longrightarrow> \<exists>m. e = sw_malformed operation m"
  by (auto simp: into_event_schema_def rbind_eq_Inl dest: malformed_b64)

lemma malformed_disposition: "disposition_parse operation v = Inl e \<Longrightarrow> \<exists>m. e = sw_malformed operation m"
  by (auto simp: disposition_parse_def split: if_splits)

lemma malformed_txn_error: "into_txn_error operation w = Inl e \<Longrightarrow> \<exists>m. e = sw_malformed operation m"
  by (auto simp: into_txn_error_def rbind_eq_Inl intro: malformed_opt malformed_disposition)

text \<open>Every failure of a decoder is a malformed response of its operation.\<close>

lemma decoders_malformed:
  "into_pending b64 operation pw = Inl e \<Longrightarrow> \<exists>m. e = sw_malformed operation m"
  "into_params b64 operation spw = Inl e \<Longrightarrow> \<exists>m. e = sw_malformed operation m"
  "into_status b64 operation nsw = Inl e \<Longrightarrow> \<exists>m. e = sw_malformed operation m"
  "into_schema b64 operation osw = Inl e \<Longrightarrow> \<exists>m. e = sw_malformed operation m"
proof -
  assume "into_pending b64 operation pw = Inl e"
  then consider "stage_parse operation (pw_stage pw) = Inl e"
    | f x where "transpose_opt (decode_b64 b64 operation f) x = Inl e"
    | f x where "collect_results (decode_b64 b64 operation f) x = Inl e"
    | x where "collect_results (into_event b64 operation) x = Inl e"
    | x where "transpose_opt (into_txn_error operation) x = Inl e"
    by (auto simp: into_pending_def rbind_eq_Inl)
  then show "\<exists>m. e = sw_malformed operation m"
    by cases (auto simp: stage_parse_def split: if_splits
      intro: malformed_opt malformed_list malformed_b64 malformed_event malformed_txn_error)
qed (auto simp: into_params_def into_status_def into_schema_def rbind_eq_Inl
      intro: malformed_b64 malformed_list malformed_schema)

end
