(* ===== verification/SwTxn.thy ===== *)
theory SwTxn
  imports SwTypes Arc4 Json Disk
begin

text \<open>
  Sidechain transactions, \<open>sidewinder_ops/src/transaction.rs\<close>, and \<open>build_signed_transaction\<close> of
  \<open>client.rs\<close>. \<open>rmp_serde\<close> is a parameter on \<open>serde\<close>'s data model: a struct is its fields in the order they
  are declared, without those that are skipped. What is relied on is that two different values have
  different encodings.
\<close>

datatype serde_value =
    SvUint u64
  | SvBin bytes
  | SvSeq "serde_value list"
  | SvStruct "(string \<times> serde_value) list"

type_synonym msgpack = "serde_value \<Rightarrow> string + bytes"

definition msgpack_lawful :: "msgpack \<Rightarrow> bool" where
  "msgpack_lawful mp \<longleftrightarrow> (\<forall>v v' bs. mp v = Inr bs \<and> mp v' = Inr bs \<longrightarrow> v = v')"

abbreviation HASH_BYTES :: nat where "HASH_BYTES \<equiv> 32"

record transaction_request =
  tr_txn_type :: u32
  tr_args :: "app_arg list"
  tr_max_fee :: u64
  tr_first_valid :: u64
  tr_last_valid :: u64
  tr_instance :: bytes
  tr_note :: "bytes option"
  tr_group :: "bytes option"

record signed_transaction =
  st_tx_id :: string
  st_bytes :: bytes

record transaction_body =
  tb_args :: "bytes list"
  tb_fee :: u64
  tb_fv :: u64
  tb_grp :: "bytes option"
  tb_inst :: bytes
  tb_lv :: u64
  tb_note :: "bytes option"
  tb_snd :: bytes
  tb_typ :: u32

text \<open>How \<open>serde\<close> presents the two wire structs.\<close>

definition optional_field :: "string \<Rightarrow> bytes option \<Rightarrow> (string \<times> serde_value) list" where
  "optional_field k v = (case v of Some bs \<Rightarrow> [(k, SvBin bs)] | None \<Rightarrow> [])"

definition body_fields :: "transaction_body \<Rightarrow> (string \<times> serde_value) list" where
  "body_fields b =
     [(''args'', SvSeq (map SvBin (tb_args b))), (''fee'', SvUint (tb_fee b)), (''fv'', SvUint (tb_fv b))] @
     optional_field ''grp'' (tb_grp b) @
     [(''inst'', SvBin (tb_inst b)), (''lv'', SvUint (tb_lv b))] @
     optional_field ''note'' (tb_note b) @
     [(''snd'', SvBin (tb_snd b)), (''typ'', SvUint (ucast (tb_typ b)))]"

definition signed_fields :: "transaction_body \<Rightarrow> bytes \<Rightarrow> (string \<times> serde_value) list" where
  "signed_fields body sig = [(''txn'', SvStruct (body_fields body)), (''sig'', SvBin sig)]"

definition to_canonical :: "msgpack \<Rightarrow> string \<Rightarrow> serde_value \<Rightarrow> sw_any + bytes" where
  "to_canonical mp operation v =
     rmap_err (\<lambda>e. Sw (sw_invalid_transaction operation (''canonical encode failed: '' @ e))) (mp v)"

definition content_address :: "crypto \<Rightarrow> bytes \<Rightarrow> string" where
  "content_address cr bs = hex_lower (cr_sha512_256 cr bs)"

definition require_hash :: "string \<Rightarrow> string \<Rightarrow> bytes \<Rightarrow> sw_any + bytes" where
  "require_hash operation field bs =
     (if length bs \<noteq> HASH_BYTES
      then Inl (Sw (sw_invalid_transaction operation
             (''`'' @ field @ ''` must be '' @ show_nat HASH_BYTES @ '' bytes, got '' @ show_nat (length bs))))
      else Inr bs)"

definition build_signed ::
  "msgpack \<Rightarrow> crypto \<Rightarrow> string \<Rightarrow> transaction_request \<Rightarrow> bytes \<Rightarrow> (bytes \<Rightarrow> sw_any + bytes) \<Rightarrow> sw_any + signed_transaction" where
  "build_signed mp cr operation req sender sign =
     (if tr_last_valid req < tr_first_valid req
      then Inl (Sw (sw_invalid_transaction operation
             (''validity window inverted: last_valid '' @ show_nat (unat (tr_last_valid req)) @
              '' precedes first_valid '' @ show_nat (unat (tr_first_valid req)))))
      else
        rbind (transpose_opt (require_hash operation ''group'') (tr_group req)) (\<lambda>grp.
        rbind (require_hash operation ''instance'' (tr_instance req)) (\<lambda>inst.
        let body = \<lparr>tb_args = map arg_bytes (tr_args req), tb_fee = tr_max_fee req,
                    tb_fv = tr_first_valid req, tb_grp = grp, tb_inst = inst, tb_lv = tr_last_valid req,
                    tb_note = tr_note req, tb_snd = sender, tb_typ = tr_txn_type req\<rparr>
        in rbind (to_canonical mp operation (SvStruct (body_fields body))) (\<lambda>body_bytes.
           let tx_id = content_address cr body_bytes
           in rbind (sign body_bytes) (\<lambda>signature.
              rbind (to_canonical mp operation (SvStruct (signed_fields body signature))) (\<lambda>bs.
                Inr \<lparr>st_tx_id = tx_id, st_bytes = bs\<rparr>))))))"

text \<open>\<open>SidewinderClient::build_signed_transaction\<close>: the sender is the account's address, the signer its key.\<close>

definition build_signed_transaction ::
  "msgpack \<Rightarrow> crypto \<Rightarrow> base64_engine \<Rightarrow> algo_ops \<Rightarrow> transaction_request \<Rightarrow> sw_any + signed_transaction" where
  "build_signed_transaction mp cr b64 algo req =
     (let operation = ''build_signed_transaction''
      in rbind (rmap_err (\<lambda>e. Sw (sw_invalid_transaction operation (''no signing key available: '' @ any_display e)))
                  (public_key_bytes cr algo)) (\<lambda>sender.
           build_signed mp cr operation req sender (\<lambda>bs. rmap_err Algo (sign_bytes cr b64 algo bs))))"

section \<open>A concrete encoder\<close>

text \<open>A prefix-free one for the witnesses; a list and a struct are closed by 0, each element announced by 1.\<close>

fun put_value :: "serde_value \<Rightarrow> bytes"
  and put_values :: "serde_value list \<Rightarrow> bytes"
  and put_struct :: "(string \<times> serde_value) list \<Rightarrow> bytes" where
  "put_value (SvUint n) = 0 # to_be_bytes 8 n"
| "put_value (SvBin bs) = 1 # put_text bs"
| "put_value (SvSeq vs) = 2 # put_values vs"
| "put_value (SvStruct fs) = 3 # put_struct fs"
| "put_values [] = [0]"
| "put_values (v # vs) = 1 # put_value v @ put_values vs"
| "put_struct [] = [0]"
| "put_struct ((k, v) # fs) = 1 # put_text (utf8_bytes k) @ put_value v @ put_struct fs"

lemma put_text_prefix_free: "put_text t @ r = put_text t' @ r' \<Longrightarrow> t = t' \<and> r = r'"
  by (drule arg_cong [where f = get_text]) simp

lemma utf8_bytes_inj: "utf8_bytes s = utf8_bytes t \<Longrightarrow> s = t"
  by (drule arg_cong [where f = bytes_str]) simp

lemma to_be_bytes_inj: "to_be_bytes 8 (n :: u64) = to_be_bytes 8 m \<Longrightarrow> n = m"
  by (drule arg_cong [where f = "from_be_bytes :: bytes \<Rightarrow> u64"]) simp

lemma put_value_prefix_free:
  "put_value v @ r = put_value v' @ r' \<Longrightarrow> v = v' \<and> r = r'"
  "put_values vs @ r = put_values vs' @ r' \<Longrightarrow> vs = vs' \<and> r = r'"
  "put_struct fs @ r = put_struct fs' @ r' \<Longrightarrow> fs = fs' \<and> r = r'"
proof (induction v and vs and fs arbitrary: v' r r' and vs' r r' and fs' r r' rule: put_value_put_values_put_struct.induct)
  case (1 n)
  then show ?case by (cases v') (auto dest: to_be_bytes_inj)
next
  case (2 bs)
  then show ?case by (cases v') (auto dest: put_text_prefix_free)
next
  case (3 vs)
  then show ?case by (cases v') auto
next
  case (4 fs)
  then show ?case by (cases v') auto
next
  case 5
  then show ?case by (cases vs') auto
next
  case (6 v vs)
  obtain u us where u: "vs' = u # us" using 6(3) by (cases vs') auto
  with 6(3) have "put_value v @ put_values vs @ r = put_value u @ put_values us @ r'" by simp
  from 6(1) [OF this] 6(2) [of r us r'] u show ?case by simp
next
  case 7
  then show ?case by (cases fs') auto
next
  case (8 k v fs)
  obtain j u us where u: "fs' = (j, u) # us" using 8(3) by (cases fs') auto
  with 8(3) have "put_text (utf8_bytes k) @ put_value v @ put_struct fs @ r =
      put_text (utf8_bytes j) @ put_value u @ put_struct us @ r'" by simp
  from put_text_prefix_free [OF this] have k: "k = j" and e: "put_value v @ put_struct fs @ r = put_value u @ put_struct us @ r'"
    by (auto intro: utf8_bytes_inj)
  from 8(1) [OF e] 8(2) [of r us r'] k u show ?case by simp
qed

definition toy_msgpack :: msgpack where
  "toy_msgpack v = Inr (put_value v)"

lemma toy_msgpack_lawful: "msgpack_lawful toy_msgpack"
  using put_value_prefix_free(1) [where r = "[]" and r' = "[]"] by (auto simp: msgpack_lawful_def toy_msgpack_def)

section \<open>Properties\<close>

lemma transpose_opt_Inr: "transpose_opt f x = Inr y \<longleftrightarrow> (case x of None \<Rightarrow> y = None | Some v \<Rightarrow> \<exists>w. f v = Inr w \<and> y = Some w)"
  by (cases x) (auto simp: transpose_opt_def rbind_eq_Inr)

lemma to_canonical_Inr [simp]: "to_canonical mp operation v = Inr bs \<longleftrightarrow> mp v = Inr bs"
  by (simp add: to_canonical_def)

lemma require_hash_Inr [simp]: "require_hash operation field bs = Inr h \<longleftrightarrow> length bs = 32 \<and> h = bs"
  by (auto simp: require_hash_def)

text \<open>The body of a request and its sender.\<close>

definition body_of :: "transaction_request \<Rightarrow> bytes \<Rightarrow> transaction_body" where
  "body_of req sender =
     \<lparr>tb_args = map arg_bytes (tr_args req), tb_fee = tr_max_fee req, tb_fv = tr_first_valid req, tb_grp = tr_group req,
      tb_inst = tr_instance req, tb_lv = tr_last_valid req, tb_note = tr_note req, tb_snd = sender, tb_typ = tr_txn_type req\<rparr>"

lemma build_signed_Inr:
  "build_signed mp cr operation req sender sign = Inr t \<longleftrightarrow>
     tr_first_valid req \<le> tr_last_valid req \<and> length (tr_instance req) = 32 \<and>
     (\<forall>g. tr_group req = Some g \<longrightarrow> length g = 32) \<and>
     (\<exists>body_bytes sig. mp (SvStruct (body_fields (body_of req sender))) = Inr body_bytes \<and> sign body_bytes = Inr sig \<and>
        mp (SvStruct (signed_fields (body_of req sender) sig)) = Inr (st_bytes t) \<and>
        st_tx_id t = content_address cr body_bytes)"
  unfolding build_signed_def Let_def
  by (cases t; cases "tr_group req") (auto simp: rbind_eq_Inr transpose_opt_Inr body_of_def not_less)

lemma optional_field_simps [simp]: "optional_field k None = []" "optional_field k (Some bs) = [(k, SvBin bs)]"
  by (simp_all add: optional_field_def)

lemma body_fields_inj: "body_fields b = body_fields b' \<Longrightarrow> b = b'"
proof -
  assume e: "body_fields b = body_fields b'"
  have u: "x = y" if "ucast x = (ucast y :: u64)" for x y :: u32
    using arg_cong [OF that, of "ucast :: u64 \<Rightarrow> u32"] by (simp add: bit_eq_iff bit_simps)
  show "b = b'" using e u
    by (cases "tb_grp b"; cases "tb_grp b'"; cases "tb_note b"; cases "tb_note b'")
      (auto simp: body_fields_def inj_map_eq_map inj_def intro: transaction_body.equality)
qed

lemma body_keys_ascend: "sorted (map fst (body_fields b)) \<and> distinct (map fst (body_fields b))"
  by (cases "tb_grp b"; cases "tb_note b") (simp_all add: body_fields_def less_char_def less_eq_char_def)

lemma built_signed_Inr:
  "build_signed_transaction mp cr b64 algo req = Inr t \<Longrightarrow>
     \<exists>sender body_bytes sig. public_key_bytes cr algo = Inr sender \<and>
       mp (SvStruct (body_fields (body_of req sender))) = Inr body_bytes \<and> sign_bytes cr b64 algo body_bytes = Inr sig \<and>
       mp (SvStruct (signed_fields (body_of req sender) sig)) = Inr (st_bytes t) \<and>
       st_tx_id t = content_address cr body_bytes"
  by (auto simp: build_signed_transaction_def Let_def rbind_eq_Inr build_signed_Inr)

text \<open>
  C15: A transaction that is built can be checked. When the account's address is the one of its key, the bytes built
  are the canonical encoding of the body, its fields in ascending order of their names, with a
  64-byte signature that verifies over exactly the encoded body under the sender in it; the
  identifier is the hash of that body; and the window is not inverted, the instance and the group
  are 32 bytes.
\<close>

theorem built_transaction_verifies:
  assumes "crypto_lawful cr" and "build_signed_transaction mp cr b64 algo req = Inr t"
    and "public_key_bytes cr algo = Inr (cr_public_key cr sk)" and "private_key_bytes cr b64 algo = Inr sk"
  shows "(\<exists>body_bytes sig. mp (SvStruct (body_fields (body_of req (cr_public_key cr sk)))) = Inr body_bytes \<and>
      mp (SvStruct (signed_fields (body_of req (cr_public_key cr sk)) sig)) = Inr (st_bytes t) \<and>
      length sig = 64 \<and> cr_verify cr (cr_public_key cr sk) body_bytes sig \<and>
      st_tx_id t = hex_lower (cr_sha512_256 cr body_bytes)) \<and>
    sorted (map fst (body_fields (body_of req (cr_public_key cr sk)))) \<and>
    distinct (map fst (body_fields (body_of req (cr_public_key cr sk)))) \<and>
    tr_first_valid req \<le> tr_last_valid req \<and> length (tr_instance req) = 32 \<and>
    (case tr_group req of None \<Rightarrow> True | Some g \<Rightarrow> length g = 32)"
proof -
  have sk: "length sk = 32" using assms(4) seed_length by (auto simp: private_key_bytes_def split: option.splits)
  obtain body_bytes sig where b: "mp (SvStruct (body_fields (body_of req (cr_public_key cr sk)))) = Inr body_bytes"
      "sign_bytes cr b64 algo body_bytes = Inr sig"
      "mp (SvStruct (signed_fields (body_of req (cr_public_key cr sk)) sig)) = Inr (st_bytes t)"
      "st_tx_id t = content_address cr body_bytes"
    using built_signed_Inr [OF assms(2)] assms(3) by auto
  then have "sig = cr_sign cr sk body_bytes" using assms(4) by (auto simp: sign_bytes_def signing_key_def array32_def rbind_eq_Inr split: if_splits)
  with b sk assms(1) have "length sig = 64 \<and> cr_verify cr (cr_public_key cr sk) body_bytes sig" by simp
  moreover have "tr_first_valid req \<le> tr_last_valid req \<and> length (tr_instance req) = 32 \<and>
      (case tr_group req of None \<Rightarrow> True | Some g \<Rightarrow> length g = 32)"
    using assms(2,3) by (auto simp: build_signed_transaction_def Let_def build_signed_Inr split: option.splits)
  ultimately show ?thesis using b body_keys_ascend by (auto simp: content_address_def)
qed

text \<open>
  C29: The bytes submitted determine the transaction. Two transactions built with the same bytes, by whatever
  accounts, have the same sender, type, arguments as packed, fee, window, instance, note and group,
  and the same identifier.
\<close>

theorem transaction_bytes_determine:
  assumes "msgpack_lawful mp" and "build_signed_transaction mp cr b64 algo req = Inr t"
    and "build_signed_transaction mp cr b64 algo' req' = Inr t'" and "st_bytes t = st_bytes t'"
  shows "public_key_bytes cr algo = public_key_bytes cr algo' \<and> tr_txn_type req = tr_txn_type req' \<and>
    map arg_bytes (tr_args req) = map arg_bytes (tr_args req') \<and> tr_max_fee req = tr_max_fee req' \<and>
    tr_first_valid req = tr_first_valid req' \<and> tr_last_valid req = tr_last_valid req' \<and>
    tr_instance req = tr_instance req' \<and> tr_note req = tr_note req' \<and> tr_group req = tr_group req' \<and>
    st_tx_id t = st_tx_id t'"
proof -
  from built_signed_Inr [OF assms(2)] obtain sender bb sig where t: "public_key_bytes cr algo = Inr sender"
    "mp (SvStruct (body_fields (body_of req sender))) = Inr bb"
    "mp (SvStruct (signed_fields (body_of req sender) sig)) = Inr (st_bytes t)" "st_tx_id t = content_address cr bb"
    by blast
  from built_signed_Inr [OF assms(3)] obtain sender' bb' sig' where t': "public_key_bytes cr algo' = Inr sender'"
    "mp (SvStruct (body_fields (body_of req' sender'))) = Inr bb'"
    "mp (SvStruct (signed_fields (body_of req' sender') sig')) = Inr (st_bytes t')" "st_tx_id t' = content_address cr bb'"
    by blast
  have "SvStruct (signed_fields (body_of req sender) sig) = SvStruct (signed_fields (body_of req' sender') sig')"
    using assms(1,4) t(3) t'(3) unfolding msgpack_lawful_def by metis
  then have b: "body_of req sender = body_of req' sender'" by (auto simp: signed_fields_def intro: body_fields_inj)
  then have "st_tx_id t = st_tx_id t'" using t t' by simp
  with b t(1) t'(1) show ?thesis by (simp add: body_of_def)
qed

text \<open>
  An account with an address and no key is refused when the body is signed, with an untyped error: the
  typed one is for an account without an address.\<close>

theorem keyless_account_untyped_error:
  assumes "ops_passphrase algo = None" and "public_key_bytes cr algo = Inr sender"
    and "tr_first_valid req \<le> tr_last_valid req" and "length (tr_instance req) = 32" and "tr_group req = None"
    and "mp (SvStruct (body_fields (body_of req sender))) = Inr body_bytes"
  shows "build_signed_transaction mp cr b64 algo req = Inl (Algo (Msg ''This operation needs account access''))"
  using assms
  by (simp add: build_signed_transaction_def build_signed_def Let_def transpose_opt_def require_hash_def body_of_def to_canonical_def
      sign_bytes_def signing_key_def private_key_bytes_def)

section \<open>Witnesses\<close>

definition toy_account :: algo_ops where
  "toy_account = plain_client\<lparr>ops_passphrase := Some (''b64:'' @ bytes_str (replicate 32 9)),
     ops_address := Some (bytes_str (replicate 36 9))\<rparr>"

definition toy_request :: transaction_request where
  "toy_request = \<lparr>tr_txn_type = 3, tr_args = [AUint 1, ABytes [7]], tr_max_fee = 1000, tr_first_valid = 5,
     tr_last_valid = 9, tr_instance = replicate 32 1, tr_note = None, tr_group = None\<rparr>"

lemma toy_account_keys:
  "public_key_bytes toy_crypto toy_account = Inr (replicate 32 9)"
  "private_key_bytes toy_crypto plain_engine toy_account = Inr (replicate 32 9)"
  using toy_seed
  by (simp_all add: public_key_bytes_def private_key_bytes_def toy_account_def address_to_byte_key_def toy_crypto_def)

lemma toy_built: "\<exists>t. build_signed_transaction toy_msgpack toy_crypto plain_engine toy_account toy_request = Inr t"
  by (simp add: build_signed_transaction_def toy_account_keys build_signed_def Let_def toy_request_def transpose_opt_def
      require_hash_def to_canonical_def toy_msgpack_def sign_bytes_def signing_key_def array32_def)

theorem built_transaction_verifies_witness:
  "\<exists>t body_bytes sig. build_signed_transaction toy_msgpack toy_crypto plain_engine toy_account toy_request = Inr t \<and>
     cr_verify toy_crypto (replicate 32 9) body_bytes sig \<and> st_tx_id t = hex_lower (cr_sha512_256 toy_crypto body_bytes)"
proof -
  obtain t where t: "build_signed_transaction toy_msgpack toy_crypto plain_engine toy_account toy_request = Inr t"
    using toy_built by blast
  have pk: "cr_public_key toy_crypto (replicate 32 9) = replicate 32 9" by (simp add: toy_crypto_def)
  show ?thesis
    using built_transaction_verifies [OF toy_crypto_lawful t _ toy_account_keys(2)] toy_account_keys(1) t
    unfolding pk by blast
qed

theorem transaction_bytes_determine_witness:
  "\<exists>t. build_signed_transaction toy_msgpack toy_crypto plain_engine toy_account toy_request = Inr t \<and>
     tr_txn_type toy_request = 3"
proof -
  obtain t where t: "build_signed_transaction toy_msgpack toy_crypto plain_engine toy_account toy_request = Inr t"
    using toy_built by blast
  from transaction_bytes_determine [OF toy_msgpack_lawful t t refl] t show ?thesis
    by (simp add: toy_request_def)
qed

end
