(* ===== verification/SwClient.thy ===== *)
theory SwClient
  imports SwTxn StateDecode Reads
begin

text \<open>
  The sidechain client, \<open>sidewinder_ops/src/client.rs\<close>: one request, its retries, and the endpoints of a
  node. \<open>reqwest\<close>, the runtime and \<open>serde_json\<close> are parameters. An error of \<open>reqwest\<close> is its chain of
  causes, outermost first, each with its text and whether it is, or an I/O error that wraps, the
  TLS alert \<open>access_denied\<close>.
\<close>

section \<open>Failures\<close>

record cause =
  ca_text :: string
  ca_alert :: bool
  ca_payload_alert :: bool

type_synonym cause_list = "cause list"

definition add_cause :: "cause \<Rightarrow> string \<Rightarrow> string" where
  "add_cause c chain = (if str_contains chain (ca_text c) then chain else chain @ '': '' @ ca_text c)"

fun cause_chain :: "cause_list \<Rightarrow> string" where
  "cause_chain [] = []"
| "cause_chain (c # cs) = fold add_cause cs (ca_text c)"

definition refused_with_access_denied :: "cause_list \<Rightarrow> string \<Rightarrow> bool" where
  "refused_with_access_denied err chain \<longleftrightarrow>
     list_ex (\<lambda>c. ca_alert c \<or> ca_payload_alert c) err \<or> str_contains chain ''received fatal alert: AccessDenied''"

datatype send_failure = FIdentityRefused string | FTransport string | FLocal sw_any

definition from_reqwest :: "cause_list \<Rightarrow> bool \<Rightarrow> send_failure" where
  "from_reqwest err mutual_tls =
     (let chain = cause_chain err
      in if mutual_tls \<and> refused_with_access_denied err chain then FIdentityRefused chain else FTransport chain)"

section \<open>The client and its transport\<close>

text \<open>\<open>'c\<close> is the TLS configuration of the mutual-TLS transport.\<close>

record 'c sw_client =
  cl_algo :: algo_ops
  cl_config :: sw_config
  cl_tls :: "'c option"

definition from_algo_ops :: "algo_ops \<Rightarrow> sw_config \<Rightarrow> 'c sw_client" where
  "from_algo_ops algo config = \<lparr>cl_algo = algo, cl_config = config, cl_tls = None\<rparr>"

definition mtls :: "algo_ops \<Rightarrow> string \<Rightarrow> 'c \<Rightarrow> 'c sw_client" where
  "mtls algo base_url tls = \<lparr>cl_algo = algo, cl_config = sw_config_new base_url [], cl_tls = Some tls\<rparr>"

datatype http_method = GET | POST

record 'c http_request =
  rq_tls :: "'c option"
  rq_method :: http_method
  rq_url :: string
  rq_bearer :: "string option"
  rq_body :: "bytes option"
  rq_timeout :: "duration option"

text \<open>
  What \<open>reqwest\<close> and \<open>tokio\<close> do. A send fails, or gives the status and then the body or a failure to read
  it. A body is sent with the content type \<open>application/msgpack\<close>.
\<close>

record ('e, 'c) http_stack =
  ht_nested :: "'e \<Rightarrow> bool"
  ht_runtime :: "'e \<Rightarrow> (string + unit) \<times> 'e"
  ht_build :: "'c option \<Rightarrow> cause_list + unit"
  ht_send :: "'c http_request \<Rightarrow> 'e \<Rightarrow> (cause_list + u16 \<times> (cause_list + bytes)) \<times> 'e"
  ht_sleep :: "duration \<Rightarrow> 'e \<Rightarrow> 'e"

type_synonym ('e, 'a) sw_op = "'e \<Rightarrow> (sw_any + 'a) \<times> 'e"

definition client_url :: "'c sw_client \<Rightarrow> string \<Rightarrow> string" where
  "client_url c path = trimmed_base (cl_config c) @ path"

text \<open>Inside a runtime the future runs on a thread of its own, whose panic is caught by the join.\<close>

definition sw_block_on :: "('e, 'c) http_stack \<Rightarrow> ('e \<Rightarrow> 'a \<times> 'e) \<Rightarrow> ('e, 'a) sw_op" where
  "sw_block_on ht fut e =
     (case ht_runtime ht e of
        (Inl err, e') \<Rightarrow>
          (Inl (SwText (if ht_nested ht e then ''rt_block_on thread panicked''
                        else ''failed to build tokio runtime: '' @ err)), e')
      | (Inr _, e') \<Rightarrow> (case fut e' of (r, e'') \<Rightarrow> (Inr r, e'')))"

definition send_once ::
  "('e, 'c) http_stack \<Rightarrow> 'c sw_client \<Rightarrow> http_method \<Rightarrow> string \<Rightarrow> bytes option \<Rightarrow> bool \<Rightarrow> duration option \<Rightarrow>
     'e \<Rightarrow> (send_failure + u16 \<times> bytes) \<times> 'e" where
  "send_once ht c verb path body authenticated timeout e =
     (let url = client_url c path; token = sc_token (cl_config c); tls = cl_tls c;
          fut = (\<lambda>e.
            case ht_build ht tls of
              Inl err \<Rightarrow> (Inl (FLocal (SwText (''failed to build HTTP client: '' @ cause_chain err))), e)
            | Inr _ \<Rightarrow>
                (case ht_send ht \<lparr>rq_tls = tls, rq_method = verb, rq_url = url,
                        rq_bearer = (if authenticated \<and> tls = None then Some token else None),
                        rq_body = body, rq_timeout = timeout\<rparr> e of
                   (Inl err, e) \<Rightarrow> (Inl (from_reqwest err (tls \<noteq> None)), e)
                 | (Inr (status, Inl err), e) \<Rightarrow> (Inl (from_reqwest err (tls \<noteq> None)), e)
                 | (Inr (status, Inr bs), e) \<Rightarrow> (Inr (status, bs), e)))
      in case sw_block_on ht fut e of
           (Inl err, e) \<Rightarrow> (Inl (FLocal err), e)
         | (Inr r, e) \<Rightarrow> (r, e))"

definition client_identity_refused :: "'c sw_client \<Rightarrow> string \<Rightarrow> string \<Rightarrow> sw_error" where
  "client_identity_refused c operation chain =
     (let identity = (case ops_address (cl_algo c) of Some a \<Rightarrow> a | None \<Rightarrow> ''(unknown address)'')
      in sw_identity_refused operation
           (''the node at '' @ trimmed_base (cl_config c) @ '' refused this client'' @ [CHR 0x27] @ ''s identity '' @ identity @
            '': it is not a permitted client there. Check that the account is opted in to the node'' @ [CHR 0x27] @
            ''s membership application and has the client permission bit set (a newly set bit is only seen at '' @
            ''the node'' @ [CHR 0x27] @ ''s next membership poll). Cause: '' @ chain))"

abbreviation SW_MAX_RETRIES :: nat where "SW_MAX_RETRIES \<equiv> 3"
abbreviation SW_RETRY_BASE_MS :: nat where "SW_RETRY_BASE_MS \<equiv> 1000"

text \<open>The retry loop; \<open>left\<close> is \<open>MAX_RETRIES - attempt\<close>.\<close>

fun send_loop ::
  "('e, 'c) http_stack \<Rightarrow> 'c sw_client \<Rightarrow> string \<Rightarrow> http_method \<Rightarrow> string \<Rightarrow> bytes option \<Rightarrow> bool \<Rightarrow> duration option \<Rightarrow>
     nat \<Rightarrow> ('e, u16 \<times> bytes) sw_op" where
  "send_loop ht c operation verb path body authenticated timeout left e =
     (case send_once ht c verb path body authenticated timeout e of
        (Inr pair, e) \<Rightarrow> (Inr pair, e)
      | (Inl (FIdentityRefused chain), e) \<Rightarrow> (Inl (Sw (client_identity_refused c operation chain)), e)
      | (Inl (FLocal err), e) \<Rightarrow> (Inl err, e)
      | (Inl (FTransport msg), e) \<Rightarrow>
          (case left of
             Suc left' \<Rightarrow>
               if looks_unreachable msg
               then send_loop ht c operation verb path body authenticated timeout left'
                      (ht_sleep ht (from_millis (SW_RETRY_BASE_MS * 2 ^ (SW_MAX_RETRIES - left))) e)
               else (Inl (SwText msg), e)
           | 0 \<Rightarrow>
               if looks_unreachable msg then (Inl (Sw (sw_unreachable operation msg)), e)
               else (Inl (SwText msg), e)))"

declare send_loop.simps [simp del]

definition send ::
  "('e, 'c) http_stack \<Rightarrow> 'c sw_client \<Rightarrow> string \<Rightarrow> http_method \<Rightarrow> string \<Rightarrow> bytes option \<Rightarrow> bool \<Rightarrow> duration option \<Rightarrow>
     ('e, u16 \<times> bytes) sw_op" where
  "send ht c operation verb path body authenticated timeout =
     send_loop ht c operation verb path body authenticated timeout SW_MAX_RETRIES"

section \<open>Bodies\<close>

text \<open>The \<open>serde_json\<close> readers of the wire records.\<close>

record wire_json =
  wj_post :: "bytes \<Rightarrow> string + string"
  wj_pending :: "bytes \<Rightarrow> string + pending_wire"
  wj_params :: "bytes \<Rightarrow> string + suggested_params_wire"
  wj_status :: "bytes \<Rightarrow> string + node_status_wire"
  wj_schema :: "bytes \<Rightarrow> string + operation_schema_wire"
  wj_error :: "bytes \<Rightarrow> string + error_wire"

definition parse_json :: "(bytes \<Rightarrow> string + 'w) \<Rightarrow> string \<Rightarrow> bytes \<Rightarrow> sw_any + 'w" where
  "parse_json reader operation bs =
     rmap_err (\<lambda>e. Sw (sw_malformed operation (''bad JSON: '' @ e))) (reader bs)"

text \<open>
  \<open>String::from_utf8_lossy\<close>: a maximal ill-formed prefix becomes the replacement character. \<open>utf8_step\<close> is
  the length of what is consumed and whether it is a character.
\<close>

definition between :: "u8 \<Rightarrow> u8 \<Rightarrow> u8 \<Rightarrow> bool" where
  "between lo hi b = (lo \<le> b \<and> b \<le> hi)"

fun utf8_step :: "bytes \<Rightarrow> nat \<times> bool" where
  "utf8_step [] = (0, True)"
| "utf8_step (b # bs) =
     (if b < 0x80 then (1, True)
      else if between 0xC2 0xDF b then
        (case bs of c # _ \<Rightarrow> if is_cont c then (2, True) else (1, False) | [] \<Rightarrow> (1, False))
      else if between 0xE0 0xEF b then
        (case bs of
           [] \<Rightarrow> (1, False)
         | c # r \<Rightarrow>
             if (if b = 0xE0 then between 0xA0 0xBF c else if b = 0xED then between 0x80 0x9F c else is_cont c)
             then (case r of d # _ \<Rightarrow> if is_cont d then (3, True) else (2, False) | [] \<Rightarrow> (2, False))
             else (1, False))
      else if between 0xF0 0xF4 b then
        (case bs of
           [] \<Rightarrow> (1, False)
         | c # r \<Rightarrow>
             if (if b = 0xF0 then between 0x90 0xBF c else if b = 0xF4 then between 0x80 0x8F c else is_cont c)
             then (case r of
                     d # r \<Rightarrow>
                       if is_cont d
                       then (case r of f # _ \<Rightarrow> if is_cont f then (4, True) else (3, False) | [] \<Rightarrow> (3, False))
                       else (2, False)
                   | [] \<Rightarrow> (2, False))
             else (1, False))
      else (1, False))"

lemma utf8_step_progress: "bs \<noteq> [] \<Longrightarrow> 0 < fst (utf8_step bs)"
  by (cases bs) (simp_all split: list.split)

function from_utf8_lossy :: "bytes \<Rightarrow> bytes" where
  "from_utf8_lossy bs =
     (if bs = [] then []
      else case utf8_step bs of
        (n, ok) \<Rightarrow> (if ok then take n bs else [0xEF, 0xBF, 0xBD]) @ from_utf8_lossy (drop n bs))"
  by pat_completeness auto
termination
  apply (relation "measure length")
   apply simp
  subgoal for bs
    using utf8_step_progress [of bs] by (cases "utf8_step bs") auto
  done

declare from_utf8_lossy.simps [simp del] utf8_step.simps [simp del]

definition error_message :: "wire_json \<Rightarrow> bytes \<Rightarrow> string" where
  "error_message wj bs =
     (case wj_error wj bs of
        Inr err \<Rightarrow> ew_message err
      | Inl _ \<Rightarrow> trim_str (bytes_str (from_utf8_lossy bs)))"

section \<open>The endpoints of a node\<close>

text \<open>Each sends one request, then decides by the status served.\<close>

definition after_send ::
  "('e, u16 \<times> bytes) sw_op \<Rightarrow> (u16 \<Rightarrow> bytes \<Rightarrow> sw_any + 'a) \<Rightarrow> ('e, 'a) sw_op" where
  "after_send m f e =
     (case m e of (Inl err, e) \<Rightarrow> (Inl err, e) | (Inr (status, body), e) \<Rightarrow> (f status body, e))"

definition sw_get :: "('e, 'c) http_stack \<Rightarrow> 'c sw_client \<Rightarrow> string \<Rightarrow> ('e, u16 \<times> bytes) sw_op" where
  "sw_get ht c path = send ht c ''get'' GET path None True None"

definition sw_submit ::
  "('e, 'c) http_stack \<Rightarrow> wire_json \<Rightarrow> 'c sw_client \<Rightarrow> bytes \<Rightarrow> ('e, string) sw_op" where
  "sw_submit ht wj c signed_txn =
     (let operation = ''submit''
      in after_send (send ht c operation POST ''/v2/transactions'' (Some signed_txn) True None) (\<lambda>status body.
           if status = 200 then parse_json (wj_post wj) operation body
           else if status = 400 then Inl (Sw (sw_bad_request operation (error_message wj body)))
           else if status = 401 then Inl (Sw (sw_unauthorized operation (error_message wj body)))
           else Inl (Sw (sw_unexpected_status operation status (error_message wj body)))))"

definition pending_from ::
  "wire_json \<Rightarrow> base64_engine \<Rightarrow> string \<Rightarrow> u16 \<Rightarrow> bytes \<Rightarrow> sw_any + pending_transaction" where
  "pending_from wj b64 operation status body =
     (if status = 200
      then rbind (parse_json (wj_pending wj) operation body) (\<lambda>w. rmap_err Sw (into_pending b64 operation w))
      else if status = 401 then Inl (Sw (sw_unauthorized operation (error_message wj body)))
      else if status = 404 then Inl (Sw (sw_not_found operation (error_message wj body)))
      else Inl (Sw (sw_unexpected_status operation status (error_message wj body))))"

definition show_bool :: "bool \<Rightarrow> string" where
  "show_bool b = (if b then ''true'' else ''false'')"

definition sw_status ::
  "('e, 'c) http_stack \<Rightarrow> wire_json \<Rightarrow> base64_engine \<Rightarrow> 'c sw_client \<Rightarrow> string \<Rightarrow> bool \<Rightarrow> ('e, pending_transaction) sw_op" where
  "sw_status ht wj b64 c txid proof =
     (let operation = ''status'';
          path = ''/v2/transactions/pending/'' @ txid @ ''?proof='' @ show_bool proof
      in after_send (send ht c operation GET path None True None) (pending_from wj b64 operation))"

definition sw_watch ::
  "('e, 'c) http_stack \<Rightarrow> wire_json \<Rightarrow> base64_engine \<Rightarrow> 'c sw_client \<Rightarrow> string \<Rightarrow> bool \<Rightarrow> u64 \<Rightarrow>
     ('e, pending_transaction) sw_op" where
  "sw_watch ht wj b64 c txid proof wait_secs =
     (let operation = ''watch'';
          path = ''/v2/transactions/pending/'' @ txid @ ''?proof='' @ show_bool proof @ ''&wait='' @ show_nat (unat wait_secs);
          timeout = from_secs (unat (saturating_add wait_secs 30))
      in after_send (send ht c operation GET path None True (Some timeout)) (pending_from wj b64 operation))"

definition sw_params ::
  "('e, 'c) http_stack \<Rightarrow> wire_json \<Rightarrow> base64_engine \<Rightarrow> 'c sw_client \<Rightarrow> ('e, suggested_params) sw_op" where
  "sw_params ht wj b64 c =
     (let operation = ''params''
      in after_send (send ht c operation GET ''/v2/transactions/params'' None True None) (\<lambda>status body.
           if status = 200
           then rbind (parse_json (wj_params wj) operation body) (\<lambda>w. rmap_err Sw (into_params b64 operation w))
           else if status = 401 then Inl (Sw (sw_unauthorized operation (error_message wj body)))
           else Inl (Sw (sw_unexpected_status operation status (error_message wj body)))))"

definition sw_node_status ::
  "('e, 'c) http_stack \<Rightarrow> wire_json \<Rightarrow> base64_engine \<Rightarrow> 'c sw_client \<Rightarrow> ('e, node_status) sw_op" where
  "sw_node_status ht wj b64 c =
     (let operation = ''node_status''
      in after_send (send ht c operation GET ''/v2/status'' None True None) (\<lambda>status body.
           if status = 200
           then rbind (parse_json (wj_status wj) operation body) (\<lambda>w. rmap_err Sw (into_status b64 operation w))
           else if status = 401 then Inl (Sw (sw_unauthorized operation (error_message wj body)))
           else Inl (Sw (sw_unexpected_status operation status (error_message wj body)))))"

definition sw_operations ::
  "('e, 'c) http_stack \<Rightarrow> wire_json \<Rightarrow> base64_engine \<Rightarrow> 'c sw_client \<Rightarrow> u32 \<Rightarrow> ('e, operation_schema option) sw_op" where
  "sw_operations ht wj b64 c typ =
     (let operation = ''operations''; path = ''/v2/operations/'' @ show_nat (unat typ)
      in after_send (send ht c operation GET path None True None) (\<lambda>status body.
           if status = 200
           then rbind (parse_json (wj_schema wj) operation body) (\<lambda>w.
                  rbind (rmap_err Sw (into_schema b64 operation w)) (\<lambda>schema. Inr (Some schema)))
           else if status = 404 then Inr None
           else if status = 401 then Inl (Sw (sw_unauthorized operation (error_message wj body)))
           else Inl (Sw (sw_unexpected_status operation status (error_message wj body)))))"

definition sw_health :: "('e, 'c) http_stack \<Rightarrow> wire_json \<Rightarrow> 'c sw_client \<Rightarrow> ('e, bool) sw_op" where
  "sw_health ht wj c =
     (let operation = ''health''
      in after_send (send ht c operation GET ''/health'' None False None) (\<lambda>status body.
           if status = 200 then Inr True
           else if status = 503 then Inr False
           else Inl (Sw (sw_unexpected_status operation status (error_message wj body)))))"

definition submit_transaction ::
  "('e, 'c) http_stack \<Rightarrow> wire_json \<Rightarrow> msgpack \<Rightarrow> crypto \<Rightarrow> base64_engine \<Rightarrow> 'c sw_client \<Rightarrow> transaction_request \<Rightarrow>
     ('e, string) sw_op" where
  "submit_transaction ht wj mp cr b64 c req e =
     (case build_signed_transaction mp cr b64 (cl_algo c) req of
        Inl err \<Rightarrow> (Inl err, e)
      | Inr stx \<Rightarrow> sw_submit ht wj c (st_bytes stx) e)"

section \<open>What is sent\<close>

text \<open>An observer of the requests sent: only a send adds one.\<close>

definition observes :: "('e, 'c) http_stack \<Rightarrow> ('e \<Rightarrow> 'c http_request list) \<Rightarrow> bool" where
  "observes ht sent \<longleftrightarrow>
     (\<forall>e. sent (snd (ht_runtime ht e)) = sent e) \<and> (\<forall>d e. sent (ht_sleep ht d e) = sent e) \<and>
     (\<forall>rq e. sent (snd (ht_send ht rq e)) = rq # sent e)"

text \<open>The one request an operation may send, once or again.\<close>

definition the_request :: "'c sw_client \<Rightarrow> http_method \<Rightarrow> string \<Rightarrow> bytes option \<Rightarrow> bool \<Rightarrow> duration option \<Rightarrow> 'c http_request" where
  "the_request c verb path body authenticated timeout =
     \<lparr>rq_tls = cl_tls c, rq_method = verb, rq_url = client_url c path,
      rq_bearer = (if authenticated \<and> cl_tls c = None then Some (sc_token (cl_config c)) else None),
      rq_body = body, rq_timeout = timeout\<rparr>"

lemma send_once_sends:
  assumes "observes ht sent" and "send_once ht c verb path body authenticated timeout e = (r, e')"
  shows "sent e' = sent e \<and> (\<exists>err. r = Inl (FLocal err)) \<or>
    sent e' = the_request c verb path body authenticated timeout # sent e"
proof -
  let ?rq = "the_request c verb path body authenticated timeout"
  obtain q e1 where rt: "ht_runtime ht e = (q, e1)" by fastforce
  then have e1: "sent e1 = sent e" using assms(1) unfolding observes_def by (metis snd_conv)
  obtain y e2 where sd: "ht_send ht ?rq e1 = (y, e2)" by fastforce
  then have e2: "sent e2 = ?rq # sent e" using assms(1) e1 unfolding observes_def by (metis snd_conv)
  show ?thesis
  proof (cases q)
    case (Inl err)
    with assms(2) rt e1 show ?thesis by (auto simp: send_once_def sw_block_on_def)
  next
    case (Inr u)
    show ?thesis
    proof (cases "ht_build ht (cl_tls c)")
      case (Inl err)
      with assms(2) rt e1 Inr show ?thesis by (auto simp: send_once_def sw_block_on_def)
    next
      case (Inr v)
      with assms(2) rt sd \<open>q = Inr u\<close> have "e' = e2"
        unfolding send_once_def sw_block_on_def the_request_def Let_def
        by (auto split: sum.splits prod.splits)
      with e2 show ?thesis by simp
    qed
  qed
qed

lemma send_loop_sends:
  assumes "observes ht sent" and "send_loop ht c operation verb path body authenticated timeout left e = (r, e')"
  shows "\<exists>k \<le> Suc left. sent e' = replicate k (the_request c verb path body authenticated timeout) @ sent e"
  using assms(2)
proof (induction left arbitrary: e)
  case 0
  obtain x e1 where x: "send_once ht c verb path body authenticated timeout e = (x, e1)" by fastforce
  with 0 have "e' = e1"
    by (subst (asm) send_loop.simps) (auto split: sum.splits send_failure.splits if_splits)
  with send_once_sends [OF assms(1) x] show ?case by (auto intro: exI [of _ 0] exI [of _ 1])
next
  case (Suc left)
  obtain x e1 where x: "send_once ht c verb path body authenticated timeout e = (x, e1)" by fastforce
  from send_once_sends [OF assms(1) x] obtain j where j: "j \<le> 1"
      "sent e1 = replicate j (the_request c verb path body authenticated timeout) @ sent e"
    by (auto intro: that [of 0] that [of 1])
  show ?case
  proof (cases "\<exists>msg. x = Inl (FTransport msg) \<and> looks_unreachable msg")
    case False
    with Suc.prems x have "e' = e1"
      by (subst (asm) send_loop.simps) (auto split: sum.splits send_failure.splits if_splits)
    with j show ?thesis by (auto intro!: exI [of _ j])
  next
    case True
    with Suc.prems x have "send_loop ht c operation verb path body authenticated timeout left
        (ht_sleep ht (from_millis (SW_RETRY_BASE_MS * 2 ^ (SW_MAX_RETRIES - Suc left))) e1) = (r, e')"
      by (subst (asm) send_loop.simps) auto
    from Suc.IH [OF this] obtain k where "k \<le> Suc left"
        "sent e' = replicate k (the_request c verb path body authenticated timeout) @ sent e1"
      using assms(1) by (auto simp: observes_def)
    with j show ?thesis by (auto simp: replicate_add [symmetric] intro!: exI [of _ "k + j"])
  qed
qed

definition sends_only ::
  "('e, 'c) http_stack \<Rightarrow> ('e \<Rightarrow> 'c http_request list) \<Rightarrow> 'c http_request \<Rightarrow> ('e, 'a) sw_op \<Rightarrow> bool" where
  "sends_only ht sent rq m \<longleftrightarrow> (\<forall>e. \<exists>k \<le> 4. sent (snd (m e)) = replicate k rq @ sent e)"

lemma send_sends_only:
  assumes "observes ht sent"
  shows "sends_only ht sent (the_request c verb path body authenticated timeout)
    (send ht c operation verb path body authenticated timeout)"
proof (unfold sends_only_def send_def, rule allI)
  fix e
  obtain r e' where "send_loop ht c operation verb path body authenticated timeout SW_MAX_RETRIES e = (r, e')" by fastforce
  with send_loop_sends [OF assms this] show "\<exists>k \<le> 4. sent (snd (send_loop ht c operation verb path body authenticated timeout SW_MAX_RETRIES e)) =
      replicate k (the_request c verb path body authenticated timeout) @ sent e" by simp
qed

lemma after_send_sends_only: "sends_only ht sent rq m \<Longrightarrow> sends_only ht sent rq (after_send m f)"
proof -
  have "snd (after_send m f e) = snd (m e)" for e by (simp add: after_send_def split: prod.split sum.split)
  then show "sends_only ht sent rq m \<Longrightarrow> sends_only ht sent rq (after_send m f)" by (simp add: sends_only_def)
qed

text \<open>A stack that answers from a script and logs what it is asked to do.\<close>

record 'c script_env =
  sn_replies :: "(cause_list + u16 \<times> (cause_list + bytes)) list"
  sn_sent :: "'c http_request list"
  sn_slept :: "duration list"

definition script_stack :: "('c script_env, 'c) http_stack" where
  "script_stack = \<lparr>ht_nested = (\<lambda>_. False), ht_runtime = (\<lambda>e. (Inr (), e)), ht_build = (\<lambda>_. Inr ()),
     ht_send = (\<lambda>rq e. (case sn_replies e of r # _ \<Rightarrow> r | [] \<Rightarrow> Inl [\<lparr>ca_text = ''silence'', ca_alert = False, ca_payload_alert = False\<rparr>],
       e\<lparr>sn_replies := tl (sn_replies e), sn_sent := rq # sn_sent e\<rparr>)),
     ht_sleep = (\<lambda>d e. e\<lparr>sn_slept := sn_slept e @ [d]\<rparr>)\<rparr>"

lemma script_stack_observes: "observes script_stack sn_sent"
  by (simp add: observes_def script_stack_def)

text \<open>What a reply is to the client, whether it is tried again, and what it is if it is the last.\<close>

definition reply_is :: "'c sw_client \<Rightarrow> cause_list + u16 \<times> (cause_list + bytes) \<Rightarrow> send_failure + u16 \<times> bytes" where
  "reply_is c r =
     (case r of
        Inl err \<Rightarrow> Inl (from_reqwest err (cl_tls c \<noteq> None))
      | Inr (status, Inl err) \<Rightarrow> Inl (from_reqwest err (cl_tls c \<noteq> None))
      | Inr (status, Inr bs) \<Rightarrow> Inr (status, bs))"

definition tried_again :: "'c sw_client \<Rightarrow> cause_list + u16 \<times> (cause_list + bytes) \<Rightarrow> bool" where
  "tried_again c r = (case reply_is c r of Inl (FTransport msg) \<Rightarrow> looks_unreachable msg | _ \<Rightarrow> False)"

definition final_answer :: "'c sw_client \<Rightarrow> string \<Rightarrow> cause_list + u16 \<times> (cause_list + bytes) \<Rightarrow> sw_any + u16 \<times> bytes" where
  "final_answer c operation r =
     (case reply_is c r of
        Inr pair \<Rightarrow> Inr pair
      | Inl (FIdentityRefused chain) \<Rightarrow> Inl (Sw (client_identity_refused c operation chain))
      | Inl (FLocal err) \<Rightarrow> Inl err
      | Inl (FTransport msg) \<Rightarrow> Inl (if looks_unreachable msg then Sw (sw_unreachable operation msg) else SwText msg))"

lemma script_send_once:
  "send_once script_stack c verb path body authenticated timeout \<lparr>sn_replies = r # rs, sn_sent = qs, sn_slept = ds\<rparr> =
     (reply_is c r, \<lparr>sn_replies = rs, sn_sent = the_request c verb path body authenticated timeout # qs, sn_slept = ds\<rparr>)"
  by (simp add: send_once_def sw_block_on_def script_stack_def reply_is_def the_request_def Let_def split: sum.split prod.split)

abbreviation leading_again :: "nat \<Rightarrow> 'c sw_client \<Rightarrow> (cause_list + u16 \<times> (cause_list + bytes)) list \<Rightarrow> nat" where
  "leading_again left c rs \<equiv> min left (length (takeWhile (tried_again c) rs))"

lemma send_loop_script:
  assumes "left \<le> 3" and "leading_again left c rs < length rs"
  shows "send_loop script_stack c operation verb path body authenticated timeout left
      \<lparr>sn_replies = rs, sn_sent = qs, sn_slept = ds\<rparr> =
    (final_answer c operation (rs ! leading_again left c rs),
     \<lparr>sn_replies = drop (Suc (leading_again left c rs)) rs,
      sn_sent = replicate (Suc (leading_again left c rs)) (the_request c verb path body authenticated timeout) @ qs,
      sn_slept = ds @ map (\<lambda>i. from_millis (SW_RETRY_BASE_MS * 2 ^ i)) [3 - left ..< 3 - left + leading_again left c rs]\<rparr>)"
  using assms
proof (induction left arbitrary: rs qs ds)
  case 0
  then obtain r rs' where rs: "rs = r # rs'" by (cases rs) auto
  show ?case
    unfolding rs
    by (subst send_loop.simps) (auto simp: script_send_once final_answer_def split: sum.split send_failure.split)
next
  case (Suc left)
  then obtain r rs' where rs: "rs = r # rs'" by (cases rs) auto
  show ?case
  proof (cases "tried_again c r")
    case False
    then show ?thesis
      unfolding rs
      by (subst send_loop.simps)
        (auto simp: script_send_once final_answer_def tried_again_def split: sum.split send_failure.split)
  next
    case True
    let ?k = "leading_again left c rs'"
    have k: "leading_again (Suc left) c rs = Suc ?k" using True rs by simp
    have "?k < length rs'" using Suc.prems(2) k rs by simp
    moreover have m: "3 - left = Suc (3 - Suc left)" using Suc.prems(1) by simp
    ultimately have ih: "send_loop script_stack c operation verb path body authenticated timeout left
        \<lparr>sn_replies = rs', sn_sent = the_request c verb path body authenticated timeout # qs,
         sn_slept = ds @ [from_millis (SW_RETRY_BASE_MS * 2 ^ (3 - Suc left))]\<rparr> =
      (final_answer c operation (rs' ! ?k),
       \<lparr>sn_replies = drop (Suc ?k) rs',
        sn_sent = replicate (Suc ?k) (the_request c verb path body authenticated timeout) @
          the_request c verb path body authenticated timeout # qs,
        sn_slept = (ds @ [from_millis (SW_RETRY_BASE_MS * 2 ^ (3 - Suc left))]) @
          map (\<lambda>i. from_millis (SW_RETRY_BASE_MS * 2 ^ i)) [3 - left ..< 3 - left + ?k]\<rparr>)"
      using Suc.prems(1) by (intro Suc.IH) auto
    have up: "[3 - Suc left ..< 3 - Suc left + Suc ?k] = (3 - Suc left) # [3 - left ..< 3 - left + ?k]"
      using upt_conv_Cons [of "3 - Suc left" "3 - Suc left + Suc ?k"] m by (simp only: add_Suc_right add_Suc)
    obtain msg where msg: "reply_is c r = Inl (FTransport msg)" "looks_unreachable msg"
      using True by (auto simp: tried_again_def split: sum.splits send_failure.splits)
    have sl: "ht_sleep script_stack d \<lparr>sn_replies = x, sn_sent = y, sn_slept = z\<rparr> = \<lparr>sn_replies = x, sn_sent = y, sn_slept = z @ [d]\<rparr>"
      for d x and y :: "'a http_request list" and z by (simp add: script_stack_def)
    have rep: "replicate n x @ x # xs = x # replicate n x @ xs" for n and x :: "'a http_request" and xs
      by (induction n) auto
    show ?thesis
      unfolding k up
      using ih by (subst send_loop.simps) (simp add: rs script_send_once msg sl rep)
  qed
qed

text \<open>
  C14: The retry policy of the sidechain client. A request is sent again, unchanged, only while it could not
  be sent or its answer not be read, for a cause that looks like an unreachable host: at most three
  times, sleeping 1, 2 and 4 seconds. The last reply decides: a served status is an answer whatever
  it is; an identity refused over mutual TLS is its own error and ends the call at once; a cause
  that does not look unreachable is reported as it is.
\<close>

theorem sidewinder_retries:
  assumes "leading_again 3 c rs < length rs"
  shows "send script_stack c operation verb path body authenticated timeout \<lparr>sn_replies = rs, sn_sent = [], sn_slept = []\<rparr> =
    (let k = leading_again 3 c rs
     in (final_answer c operation (rs ! k),
         \<lparr>sn_replies = drop (Suc k) rs,
          sn_sent = replicate (Suc k) (the_request c verb path body authenticated timeout),
          sn_slept = take k (map from_millis [1000, 2000, 4000])\<rparr>))"
proof -
  have "map (\<lambda>i. from_millis (SW_RETRY_BASE_MS * 2 ^ i)) [0 ..< k] = take k (map from_millis [1000, 2000, 4000])"
    if "k \<le> 3" for k
  proof (rule nth_equalityI)
    fix i
    assume "i < length (map (\<lambda>i. from_millis (SW_RETRY_BASE_MS * 2 ^ i)) [0 ..< k])"
    with that have i: "i < k" "i = 0 \<or> i = 1 \<or> i = 2" by auto
    then show "map (\<lambda>i. from_millis (SW_RETRY_BASE_MS * 2 ^ i)) [0 ..< k] ! i =
        take k (map from_millis [1000, 2000, 4000]) ! i" by auto
  qed (use that in simp)
  then show ?thesis
    using send_loop_script [OF order_refl assms, of operation verb path body authenticated timeout "[]" "[]"]
    by (simp add: send_def Let_def)
qed

definition plain_request :: "'c sw_client \<Rightarrow> http_method \<Rightarrow> string \<Rightarrow> 'c http_request" where
  "plain_request c verb path =
     \<lparr>rq_tls = cl_tls c, rq_method = verb, rq_url = trimmed_base (cl_config c) @ path,
      rq_bearer = (if cl_tls c = None then Some (sc_token (cl_config c)) else None), rq_body = None, rq_timeout = None\<rparr>"

text \<open>
  C27: What the client sends. Whatever happens, an operation sends at most four copies of one request: its
  verb, path and body to the base URL without trailing slashes, only \<open>submit\<close> a body, only \<open>watch\<close> a
  timeout, and the bearer token exactly when there is no mutual TLS; \<open>health\<close> never carries it. What
  \<open>submit_transaction\<close> sends is the signed transaction it built.
\<close>

theorem client_requests:
  assumes "observes ht sent"
  shows "sends_only ht sent ((plain_request c POST ''/v2/transactions'')\<lparr>rq_body := Some bs\<rparr>) (sw_submit ht wj c bs) \<and>
    sends_only ht sent (plain_request c GET (''/v2/transactions/pending/'' @ txid @ ''?proof='' @ show_bool proof))
      (sw_status ht wj b64 c txid proof) \<and>
    sends_only ht sent ((plain_request c GET
        (''/v2/transactions/pending/'' @ txid @ ''?proof='' @ show_bool proof @ ''&wait='' @ show_nat (unat wait)))
        \<lparr>rq_timeout := Some (from_secs (min (unat wait + 30) (2 ^ 64 - 1)))\<rparr>)
      (sw_watch ht wj b64 c txid proof wait) \<and>
    sends_only ht sent (plain_request c GET ''/v2/transactions/params'') (sw_params ht wj b64 c) \<and>
    sends_only ht sent (plain_request c GET ''/v2/status'') (sw_node_status ht wj b64 c) \<and>
    sends_only ht sent (plain_request c GET (''/v2/operations/'' @ show_nat (unat typ))) (sw_operations ht wj b64 c typ) \<and>
    sends_only ht sent ((plain_request c GET ''/health'')\<lparr>rq_bearer := None\<rparr>) (sw_health ht wj c) \<and>
    sends_only ht sent (plain_request c GET path) (sw_get ht c path) \<and>
    (build_signed_transaction mp cr b64 (cl_algo c) req = Inr stx \<longrightarrow>
      sends_only ht sent ((plain_request c POST ''/v2/transactions'')\<lparr>rq_body := Some (st_bytes stx)\<rparr>)
        (submit_transaction ht wj mp cr b64 c req))"
proof -
  have p: "the_request c verb path body True t = (plain_request c verb path)\<lparr>rq_body := body, rq_timeout := t\<rparr>"
    "the_request c verb path body False t =
       (plain_request c verb path)\<lparr>rq_bearer := None, rq_body := body, rq_timeout := t\<rparr>"
    for verb path body t by (auto simp: the_request_def plain_request_def client_url_def)
  have u: "(plain_request c m q)\<lparr>rq_timeout := None\<rparr> = plain_request c m q"
    "(plain_request c m q)\<lparr>rq_body := None\<rparr> = plain_request c m q"
    "(plain_request c m q)\<lparr>rq_body := b, rq_timeout := None\<rparr> = (plain_request c m q)\<lparr>rq_body := b\<rparr>"
    "(plain_request c m q)\<lparr>rq_body := None, rq_timeout := t\<rparr> = (plain_request c m q)\<lparr>rq_timeout := t\<rparr>"
    "(plain_request c m q)\<lparr>rq_bearer := None, rq_body := None, rq_timeout := None\<rparr> = (plain_request c m q)\<lparr>rq_bearer := None\<rparr>"
    for m q b t by (simp_all add: plain_request_def)
  have w: "unat (saturating_add wait 30) = min (unat wait + 30) (2 ^ 64 - 1)" 
    using unsigned_less [of wait, where ?'a = nat] by (auto simp: saturating_add_def unat_plus_if' min_def unsigned_minus_1_eq_mask mask_eq_exp_minus_1)
  have r: "sends_only ht sent ((plain_request c verb path)\<lparr>rq_body := body, rq_timeout := t\<rparr>)
      (send ht c operation verb path body True t)" for operation verb path body t
    using send_sends_only [OF assms] unfolding p [symmetric] by blast
  have h: "sends_only ht sent ((plain_request c verb path)\<lparr>rq_bearer := None, rq_body := body, rq_timeout := t\<rparr>)
      (send ht c operation verb path body False t)" for operation verb path body t
    using send_sends_only [OF assms] unfolding p [symmetric] by blast
  have submit: "sends_only ht sent ((plain_request c POST ''/v2/transactions'')\<lparr>rq_body := Some bs\<rparr>) (sw_submit ht wj c bs)" for bs
    unfolding sw_submit_def Let_def by (intro after_send_sends_only r [where t = None, unfolded u])
  have build: "sends_only ht sent ((plain_request c POST ''/v2/transactions'')\<lparr>rq_body := Some (st_bytes stx)\<rparr>)
      (submit_transaction ht wj mp cr b64 c req)" if "build_signed_transaction mp cr b64 (cl_algo c) req = Inr stx"
    using submit [of "st_bytes stx"] that by (simp add: sends_only_def submit_transaction_def)
  show ?thesis
    unfolding sw_status_def sw_watch_def sw_params_def sw_node_status_def sw_operations_def sw_health_def sw_get_def Let_def w
    by (intro conjI impI submit build after_send_sends_only r [where t = None and body = None, unfolded u]
      r [where body = None, unfolded u] h [where t = None and body = None, unfolded u])
qed

definition sw_toy_client :: "unit sw_client" where
  "sw_toy_client = from_algo_ops plain_client (sw_config_new ''http://node:4190/'' ''token'')"

text \<open>The kind of error a status that brings no answer is.\<close>

definition error_class :: "string \<Rightarrow> u16 \<Rightarrow> sw_error_kind" where
  "error_class operation status =
     (if status = 401 \<and> operation \<noteq> ''health'' then SwUnauthorized
      else if status = 400 \<and> operation = ''submit'' then SwBadRequest
      else if status = 404 \<and> operation \<in> {''status'', ''watch''} then SwNotFound
      else SwUnexpectedStatus)"

text \<open>
  What an endpoint owes its caller, by the status served: \<open>None\<close> is no answer at that status, \<open>Some None\<close>
  a body that does not decode, and \<open>Some (Some v)\<close> the value. The environment is the one of the send.
\<close>

definition answers_typed ::
  "wire_json \<Rightarrow> string \<Rightarrow> (u16 \<Rightarrow> bytes \<Rightarrow> 'a option option) \<Rightarrow> ('e, u16 \<times> bytes) sw_op \<Rightarrow> ('e, 'a) sw_op \<Rightarrow> bool" where
  "answers_typed wj operation owed sending m \<longleftrightarrow>
     (\<forall>e. snd (m e) = snd (sending e) \<and>
        (case fst (sending e) of
           Inl err \<Rightarrow> fst (m e) = Inl err
         | Inr (status, body) \<Rightarrow>
             (case owed status body of
                Some (Some v) \<Rightarrow> fst (m e) = Inr v
              | Some None \<Rightarrow> (\<exists>text. fst (m e) =
                  Inl (Sw \<lparr>se_kind = SwMalformedResponse, se_operation = operation, se_status = None, se_message = text\<rparr>))
              | None \<Rightarrow> fst (m e) =
                  Inl (Sw \<lparr>se_kind = error_class operation status, se_operation = operation, se_status = Some status,
                           se_message = error_message wj body\<rparr>))))"

lemma answers_typed_after_send:
  assumes "\<And>status body v. owed status body = Some (Some v) \<Longrightarrow> f status body = Inr v"
    and "\<And>status body. owed status body = Some None \<Longrightarrow> \<exists>text. f status body = Inl (Sw (sw_malformed operation text))"
    and "\<And>status body. owed status body = None \<Longrightarrow> f status body =
      Inl (Sw \<lparr>se_kind = error_class operation status, se_operation = operation, se_status = Some status,
               se_message = error_message wj body\<rparr>)"
  shows "answers_typed wj operation owed sending (after_send sending f)"
  unfolding answers_typed_def
proof (intro allI conjI)
  fix e
  show "snd (after_send sending f e) = snd (sending e)"
    by (simp add: after_send_def split: prod.split sum.split)
  show "case fst (sending e) of
      Inl err \<Rightarrow> fst (after_send sending f e) = Inl err
    | Inr (status, body) \<Rightarrow>
        (case owed status body of
           Some (Some v) \<Rightarrow> fst (after_send sending f e) = Inr v
         | Some None \<Rightarrow> (\<exists>text. fst (after_send sending f e) =
             Inl (Sw \<lparr>se_kind = SwMalformedResponse, se_operation = operation, se_status = None, se_message = text\<rparr>))
         | None \<Rightarrow> fst (after_send sending f e) =
             Inl (Sw \<lparr>se_kind = error_class operation status, se_operation = operation, se_status = Some status,
                      se_message = error_message wj body\<rparr>))"
  proof (cases "fst (sending e)")
    case (Inl err)
    then show ?thesis by (auto simp: after_send_def split: prod.splits)
  next
    case (Inr r)
    then obtain status body where r: "fst (sending e) = Inr (status, body)" by (cases r) auto
    then have "fst (after_send sending f e) = f status body" by (auto simp: after_send_def split: prod.splits)
    with r assms [of status body] show ?thesis by (auto simp: sw_malformed_def split: option.splits)
  qed
qed

text \<open>What a result holds, and the answers of the endpoints.\<close>

fun value_of :: "'x + 'a \<Rightarrow> 'a option" where
  "value_of (Inr v) = Some v"
| "value_of (Inl _) = None"

definition owed_at_200 :: "(bytes \<Rightarrow> 'a option) \<Rightarrow> u16 \<Rightarrow> bytes \<Rightarrow> 'a option option" where
  "owed_at_200 decode status body = (if status = 200 then Some (decode body) else None)"

definition owed_operation :: "(bytes \<Rightarrow> 'a option) \<Rightarrow> u16 \<Rightarrow> bytes \<Rightarrow> 'a option option option" where
  "owed_operation decode status body =
     (if status = 200 then Some (map_option Some (decode body))
      else if status = 404 then Some (Some None) else None)"

definition owed_health :: "u16 \<Rightarrow> bytes \<Rightarrow> bool option option" where
  "owed_health status body =
     (if status = 200 then Some (Some True) else if status = 503 then Some (Some False) else None)"

definition decoded :: "(bytes \<Rightarrow> string + 'w) \<Rightarrow> ('w \<Rightarrow> sw_error + 'a) \<Rightarrow> bytes \<Rightarrow> 'a option" where
  "decoded reader into body = Option.bind (value_of (reader body)) (\<lambda>w. value_of (into w))"

lemmas answer_defs = error_class_def parse_json_def rmap_err_def pending_from_def decoded_def
  owed_at_200_def owed_operation_def owed_health_def
  sw_malformed_def sw_unauthorized_def sw_bad_request_def sw_not_found_def sw_unexpected_status_def

text \<open>A decoder whose errors are malformed responses, and reading a body with it.\<close>

definition malforms :: "string \<Rightarrow> ('w \<Rightarrow> sw_error + 'a) \<Rightarrow> bool" where
  "malforms operation into \<longleftrightarrow> (\<forall>w x. into w = Inl x \<longrightarrow> (\<exists>text. x = sw_malformed operation text))"

lemma into_malforms:
  "malforms operation (into_pending b64 operation)" "malforms operation (into_params b64 operation)"
  "malforms operation (into_status b64 operation)" "malforms operation (into_schema b64 operation)"
  using decoders_malformed by (fastforce simp: malforms_def)+

lemma decoded_body:
  assumes "malforms operation into"
  shows "case decoded reader into body of
      Some v \<Rightarrow> rbind (parse_json reader operation body) (\<lambda>w. rmap_err Sw (into w)) = Inr v
    | None \<Rightarrow> \<exists>text. rbind (parse_json reader operation body) (\<lambda>w. rmap_err Sw (into w)) = Inl (Sw (sw_malformed operation text))"
proof (cases "reader body")
  case (Inl err)
  then show ?thesis by (auto simp: decoded_def parse_json_def rmap_err_def)
next
  case (Inr w)
  then show ?thesis
    using assms by (cases "into w") (auto simp: decoded_def parse_json_def rmap_err_def malforms_def)
qed

lemma decoded_answers:
  assumes "malforms operation into"
    and "\<And>status body. status \<noteq> 200 \<Longrightarrow> other status body =
      Inl (Sw \<lparr>se_kind = error_class operation status, se_operation = operation, se_status = Some status,
               se_message = error_message wj body\<rparr>)"
  shows "answers_typed wj operation (owed_at_200 (decoded reader into)) sending
    (after_send sending (\<lambda>status body.
       if status = 200 then rbind (parse_json reader operation body) (\<lambda>w. rmap_err Sw (into w)) else other status body))"
proof (rule answers_typed_after_send)
qed (use decoded_body [OF assms(1), of reader] assms(2) in \<open>fastforce simp: owed_at_200_def split: if_splits option.splits\<close>)+

lemma pending_answers:
  assumes "operation \<in> {''status'', ''watch''}"
  shows "answers_typed wj operation (owed_at_200 (decoded (wj_pending wj) (into_pending b64 operation))) sending
    (after_send sending (pending_from wj b64 operation))"
  unfolding pending_from_def
  using assms by (intro decoded_answers into_malforms) (auto simp: answer_defs)

lemma operation_answers:
  "answers_typed wj ''operations'' (owed_operation (decoded (wj_schema wj) (into_schema b64 ''operations''))) sending
    (after_send sending (\<lambda>status body.
       if status = 200
       then rbind (parse_json (wj_schema wj) ''operations'' body) (\<lambda>w.
              rbind (rmap_err Sw (into_schema b64 ''operations'' w)) (\<lambda>schema. Inr (Some schema)))
       else if status = 404 then Inr None
       else if status = 401 then Inl (Sw (sw_unauthorized ''operations'' (error_message wj body)))
       else Inl (Sw (sw_unexpected_status ''operations'' status (error_message wj body)))))"
proof -
  have read: "rbind (parse_json (wj_schema wj) ''operations'' body) (\<lambda>w.
      rbind (rmap_err Sw (into_schema b64 ''operations'' w)) (\<lambda>schema. Inr (Some schema))) =
    rbind (rbind (parse_json (wj_schema wj) ''operations'' body) (\<lambda>w. rmap_err Sw (into_schema b64 ''operations'' w)))
      (\<lambda>schema. Inr (Some schema))" for body
    by (cases "parse_json (wj_schema wj) ''operations'' body") simp_all
  have m: "malforms ''operations'' (into_schema b64 ''operations'')" by (rule into_malforms)
  have ok: "rbind (parse_json (wj_schema wj) ''operations'' body) (\<lambda>w. rmap_err Sw (into_schema b64 ''operations'' w)) = Inr v"
    if "decoded (wj_schema wj) (into_schema b64 ''operations'') body = Some v" for body v
    using decoded_body [OF m, of "wj_schema wj" body] that by simp
  have bad: "\<exists>text. rbind (parse_json (wj_schema wj) ''operations'' body) (\<lambda>w. rmap_err Sw (into_schema b64 ''operations'' w)) =
      Inl (Sw (sw_malformed ''operations'' text))"
    if "decoded (wj_schema wj) (into_schema b64 ''operations'') body = None" for body
    using decoded_body [OF m, of "wj_schema wj" body] that by simp
  show ?thesis
    unfolding read
  proof (rule answers_typed_after_send)
  qed (auto simp: owed_operation_def error_class_def sw_unauthorized_def sw_unexpected_status_def
        split: if_splits dest!: ok bad)
qed


section \<open>Witnesses\<close>

definition lost_reply :: "cause_list + u16 \<times> (cause_list + bytes)" where
  "lost_reply = Inl [\<lparr>ca_text = ''timed out'', ca_alert = False, ca_payload_alert = False\<rparr>]"

lemma lost_reply_again: "tried_again sw_toy_client lost_reply"
proof -
  have "looks_unreachable ''timed out''" by code_simp
  then show ?thesis
    by (simp add: tried_again_def reply_is_def lost_reply_def from_reqwest_def sw_toy_client_def from_algo_ops_def)
qed

theorem sidewinder_retries_witness:
  "send script_stack sw_toy_client ''get'' GET ''/x'' None True None
     \<lparr>sn_replies = [lost_reply, Inr (503, Inr [])], sn_sent = [], sn_slept = []\<rparr> =
   (Inr (503, []),
    \<lparr>sn_replies = [], sn_sent = replicate 2 (the_request sw_toy_client GET ''/x'' None True None),
     sn_slept = [from_millis 1000]\<rparr>)"
proof -
  have k: "leading_again 3 sw_toy_client [lost_reply, Inr (503, Inr [])] = 1"
    using lost_reply_again by (simp add: tried_again_def [of _ "Inr _"] reply_is_def)
  show ?thesis
    using sidewinder_retries [of sw_toy_client "[lost_reply, Inr (503, Inr [])]" "''get''" GET "''/x''" None True None]
    unfolding k by (simp add: final_answer_def reply_is_def numeral_2_eq_2)
qed

definition toy_wire :: wire_json where
  "toy_wire = \<lparr>wj_post = (\<lambda>_. Inr ''TX''), wj_pending = (\<lambda>_. Inl ''EOF''), wj_params = (\<lambda>_. Inl ''EOF''),
     wj_status = (\<lambda>_. Inl ''EOF''), wj_schema = (\<lambda>_. Inl ''EOF''), wj_error = (\<lambda>_. Inl ''EOF'')\<rparr>"

theorem client_requests_witness:
  "sends_only script_stack sn_sent ((plain_request sw_toy_client GET ''/health'')\<lparr>rq_bearer := None\<rparr>)
     (sw_health script_stack toy_wire sw_toy_client)"
  using client_requests [OF script_stack_observes] by blast

end
