(* ===== verification/SwDiscovery.thy ===== *)
theory SwDiscovery
  imports Resolver Identity SwClient
begin

text \<open>
  Reaching a node, \<open>sidewinder_ops/src/discovery.rs\<close> and the constructors of \<open>client.rs\<close>: the nodes of an
  application are resolved on chain, and a connection pins the identity of the node it was
  resolved for. The random source of the minted certificate is a state of its own.
\<close>

section \<open>The text of a socket address\<close>

fun show_hex :: "nat \<Rightarrow> string" where
  "show_hex n = (if n < 16 then [hex_digit n] else show_hex (n div 16) @ [hex_digit (n mod 16)])"

declare show_hex.simps [simp del]

fun join_with :: "string \<Rightarrow> string list \<Rightarrow> string" where
  "join_with sep [] = []"
| "join_with sep [x] = x"
| "join_with sep (x # xs) = x @ sep @ join_with sep xs"

definition ipv4_display :: "ipv4_addr \<Rightarrow> string" where
  "ipv4_display ip = join_with ''.'' (map (\<lambda>b. show_nat (unat b)) (v4_octets ip))"

fun segments_of :: "bytes \<Rightarrow> nat list" where
  "segments_of (a # b # bs) = (256 * unat a + unat b) # segments_of bs"
| "segments_of _ = []"

text \<open>
  \<open>Ipv6Addr\<close>'s \<open>Display\<close>: the longest run of zero segments, the first of equals, is \<open>::\<close> when it has two
  or more. \<open>zero_run\<close> is the start and the length of that run; \<open>cur\<close> is the run being read.
\<close>

fun zero_run :: "nat list \<Rightarrow> nat \<Rightarrow> nat \<times> nat \<Rightarrow> nat \<times> nat \<Rightarrow> nat \<times> nat" where
  "zero_run [] i cur longest = longest"
| "zero_run (s # ss) i cur longest =
     (if s = 0
      then let cur = (if snd cur = 0 then (i, 1) else (fst cur, snd cur + 1));
               longest = (if snd cur > snd longest then cur else longest)
           in zero_run ss (i + 1) cur longest
      else zero_run ss (i + 1) (0, 0) longest)"

definition ipv6_display :: "u128 \<Rightarrow> string" where
  "ipv6_display ip =
     (let octets = to_be_bytes 16 ip; segments = segments_of octets
      in if take 12 octets = replicate 10 0 @ [0xFF, 0xFF]
         then ''::ffff:'' @ join_with ''.'' (map (\<lambda>b. show_nat (unat b)) (drop 12 octets))
         else case zero_run segments 0 (0, 0) (0, 0) of (start, len) \<Rightarrow>
           if 1 < len
           then join_with '':'' (map show_hex (take start segments)) @ ''::'' @
                join_with '':'' (map show_hex (drop (start + len) segments))
           else join_with '':'' (map show_hex segments))"

fun socket_addr_display :: "socket_addr \<Rightarrow> string" where
  "socket_addr_display (SockV4 a) = ipv4_display (v4_ip a) @ '':'' @ show_nat (unat (v4_port a))"
| "socket_addr_display (SockV6 a) =
     ''['' @ ipv6_display (v6_ip a) @
     (if v6_scope_id a = 0 then [] else ''%'' @ show_nat (unat (v6_scope_id a))) @ '']:'' @ show_nat (unat (v6_port a))"

section \<open>Resolving nodes\<close>

record discovery_config =
  dc_app_id :: u64
  dc_allow_key :: string
  dc_node_bit :: u8
  dc_endpoint_key :: string
  dc_cache_lifetime_secs :: "u64 option"

definition bingle :: "u64 \<Rightarrow> discovery_config" where
  "bingle app_id =
     \<lparr>dc_app_id = app_id, dc_allow_key = ''allow_static'', dc_node_bit = 2, dc_endpoint_key = ''rsvd_l_b1'',
      dc_cache_lifetime_secs = None\<rparr>"

record discovered_node =
  dn_identity :: string
  dn_endpoint :: endpoint_record

definition base_url :: "discovered_node \<Rightarrow> string option" where
  "base_url n =
     (case socket_addrs (dn_endpoint n) of
        [] \<Rightarrow> None | addr # _ \<Rightarrow> Some (''https://'' @ socket_addr_display addr))"

text \<open>Each call makes a resolver of its own, whose cache ends with it.\<close>

definition resolve_nodes ::
  "('e, 'a, 'j, 'z) node_scheme \<Rightarrow> discovery_config \<Rightarrow> ('e world, discovered_node list) op" where
  "resolve_nodes nd cfg w =
     (let (resolver, cache) = resolver_new (nd_b64 nd) (dc_app_id cfg) (dc_cache_lifetime_secs cfg) (dc_endpoint_key cfg)
            (bit_decoder (dc_allow_key cfg) (dc_node_bit cfg))
      in case resolve nd resolver (cache, w) of
           None \<Rightarrow> None
         | Some (Inl e, _, w) \<Rightarrow> fail e w
         | Some (Inr found, _, w) \<Rightarrow>
             ret (map (\<lambda>(identity, endpoint). \<lparr>dn_identity = identity, dn_endpoint = endpoint\<rparr>) found) w)"

section \<open>Pinned connections\<close>

text \<open>\<open>show_tls\<close> is the \<open>Display\<close> of a \<open>rustls\<close> error.\<close>

definition pinned_client_config ::
  "('k, 'p, 's) tls_lib \<Rightarrow> crypto \<Rightarrow> 'd provider \<Rightarrow> (rustls_error \<Rightarrow> string) \<Rightarrow> bytes \<Rightarrow> string \<Rightarrow>
     ('s, sw_any, 'd server_verifier tls_config) eop" where
  "pinned_client_config lib cr provider show_tls own node_identity =
     (let au = static_dyn (static_with node_identity ClusterNode static_new);
          verifier = server_verifier_for_role au provider ClusterNode
      in try_op (map_err (\<lambda>e. SwText (''mint client identity certificate: '' @ e)) (generate lib cr own)) (\<lambda>cert.
           lift (rmap_err (\<lambda>e. SwText (''build client mutual-TLS config: '' @ show_tls e)) (client_config cert verifier))))"

definition identity_key :: "crypto \<Rightarrow> base64_engine \<Rightarrow> algo_ops \<Rightarrow> sw_any + bytes" where
  "identity_key cr b64 algo =
     rbind (rmap_err Algo (private_key_bytes cr b64 algo)) (\<lambda>seed.
       if length seed = 32 then Inr seed else Inl (SwText ''account seed must be 32 bytes for a TLS identity''))"

definition connect_pinned ::
  "('k, 'p, 's) tls_lib \<Rightarrow> crypto \<Rightarrow> 'd provider \<Rightarrow> (rustls_error \<Rightarrow> string) \<Rightarrow> base64_engine \<Rightarrow>
     algo_ops \<Rightarrow> string \<Rightarrow> string \<Rightarrow> ('s, sw_any, 'd server_verifier tls_config sw_client) eop" where
  "connect_pinned lib cr provider show_tls b64 algo url node_identity =
     try_op (lift (identity_key cr b64 algo)) (\<lambda>own.
     try_op (pinned_client_config lib cr provider show_tls own node_identity) (\<lambda>tls.
       ret (mtls algo url tls)))"

definition connect ::
  "('k, 'p, 's) tls_lib \<Rightarrow> crypto \<Rightarrow> 'd provider \<Rightarrow> (rustls_error \<Rightarrow> string) \<Rightarrow> base64_engine \<Rightarrow>
     algo_ops \<Rightarrow> discovered_node \<Rightarrow> ('s, sw_any, 'd server_verifier tls_config sw_client) eop" where
  "connect lib cr provider show_tls b64 algo n =
     try_op (lift (ok_or (SwText (''resolved node '' @ dn_identity n @ '' published no reachable endpoint'')) (base_url n))) (\<lambda>url.
     try_op (lift (identity_key cr b64 algo)) (\<lambda>own.
     try_op (pinned_client_config lib cr provider show_tls own (dn_identity n)) (\<lambda>tls.
       ret (mtls algo url tls))))"

definition resolve_and_connect ::
  "('e, 'a, 'j, 'z) node_scheme \<Rightarrow> ('k, 'p, 's) tls_lib \<Rightarrow> crypto \<Rightarrow> 'd provider \<Rightarrow> (rustls_error \<Rightarrow> string) \<Rightarrow>
     discovery_config \<Rightarrow> ('e world \<times> 's, sw_any, 'd server_verifier tls_config sw_client \<times> discovered_node) eop" where
  "resolve_and_connect nd lib cr provider show_tls cfg = (\<lambda>(w, s).
     case resolve_nodes nd cfg w of
       None \<Rightarrow> None
     | Some (Inl e, w) \<Rightarrow> fail (Algo e) (w, s)
     | Some (Inr ns, w) \<Rightarrow>
         (case find (\<lambda>n. base_url n \<noteq> None) ns of
            None \<Rightarrow> fail (SwText (''no permitted cluster node of app '' @ show_nat (unat (dc_app_id cfg)) @
                      '' has published a reachable endpoint'')) (w, s)
          | Some n \<Rightarrow>
              (case connect lib cr provider show_tls (nd_b64 nd) (fst w) n s of
                 None \<Rightarrow> None
               | Some (Inl e, s) \<Rightarrow> fail e (w, s)
               | Some (Inr client, s) \<Rightarrow> ret (client, n) (w, s))))"

section \<open>Properties\<close>

definition pin_verifier :: "'d provider \<Rightarrow> string \<Rightarrow> 'd server_verifier" where
  "pin_verifier provider pin =
     server_verifier_for_role (static_dyn (static_with pin ClusterNode static_new)) provider ClusterNode"

lemma pin_authorized: "authorized (static_dyn (static_with pin ClusterNode static_new)) (Some ClusterNode) a \<longleftrightarrow> a = pin"
  using static.authorized_admitted [of "static_with pin ClusterNode static_new" "Some ClusterNode" a]
  by (auto simp: authorized_def static_dyn_def static_role_of_def static_with_def static_new_def split: if_splits)

lemma pin_accepts:
  "verify_server_cert lib cr presented (pin_verifier provider pin) = Some (Inr (), v') \<Longrightarrow>
     authenticated_server v' = Some (Some pin)"
  using verified_iff [of lib cr presented] pin_authorized [of pin]
  by (auto simp: verify_server_cert_def authenticated_server_def pin_verifier_def server_verifier_for_role_def
      split: sum.splits if_splits)

lemma pin_minted:
  assumes "crypto_lawful cr" and "tls_lawful lib cr" and "length identity = 32"
    and "generate lib cr identity s = Some (Inr own, s')"
  shows "(\<exists>v'. verify_server_cert lib cr (ic_cert own) (pin_verifier provider pin) = Some (Inr (), v')) \<longleftrightarrow> ic_address own = pin"
  using minted [OF assms] pin_authorized [of pin]
  by (simp add: verify_server_cert_def pin_verifier_def server_verifier_for_role_def)

lemma pinned_config:
  "pinned_client_config lib cr provider show_tls own pin s = Some (Inr tls, s') \<Longrightarrow>
     \<exists>cert. generate lib cr own s = Some (Inr cert, s') \<and>
       tls = \<lparr>tc_verifier = pin_verifier provider pin, tc_chain = [ic_cert cert], tc_private_key = ic_key cert\<rparr>"
  by (auto simp: pinned_client_config_def Let_def try_op_def map_err_def attempt_def client_config_def rbind_eq_Inr
      pin_verifier_def server_verifier_for_role_def split: option.splits sum.splits prod.splits)

lemma identity_key_length: "identity_key cr b64 algo = Inr seed \<Longrightarrow> length seed = 32"
  by (auto simp: identity_key_def rbind_eq_Inr split: if_splits)

text \<open>What a connection is: a client at an address, whose handshakes accept one identity and present the account's own.\<close>

definition connected_to ::
  "('k, 'p, 's) tls_lib \<Rightarrow> crypto \<Rightarrow> base64_engine \<Rightarrow> algo_ops \<Rightarrow> string \<Rightarrow> string \<Rightarrow>
     'd server_verifier tls_config sw_client \<Rightarrow> bool" where
  "connected_to lib cr b64 algo url pin client \<longleftrightarrow>
     cl_algo client = algo \<and> sc_base_url (cl_config client) = url \<and>
     (\<exists>tls seed cert own. cl_tls client = Some tls \<and>
        (\<forall>presented v'. verify_server_cert lib cr presented (tc_verifier tls) = Some (Inr (), v') \<longrightarrow>
           authenticated_server v' = Some (Some pin)) \<and>
        (\<forall>peer s peer_cert s'. length peer = 32 \<and> generate lib cr peer s = Some (Inr peer_cert, s') \<longrightarrow>
           (\<exists>v'. verify_server_cert lib cr (ic_cert peer_cert) (tc_verifier tls) = Some (Inr (), v')) = (ic_address peer_cert = pin)) \<and>
        identity_key cr b64 algo = Inr seed \<and> byte_key_to_address cr (cr_public_key cr seed) = Inr own \<and> tc_chain tls = [cert] \<and>
        (\<forall>au required. verify_identity_cert_inner lib cr cert au required =
           (if authorized au required own then Inr own else Inl (NotAuthorized own))))"

lemma pinned_connected:
  assumes "crypto_lawful cr" and "tls_lawful lib cr" and "identity_key cr b64 algo = Inr seed"
    and "pinned_client_config lib cr provider show_tls seed pin s = Some (Inr tls, s')"
  shows "connected_to lib cr b64 algo url pin (mtls algo url tls)"
proof -
  obtain cert where cert: "generate lib cr seed s = Some (Inr cert, s')"
    and tls: "tls = \<lparr>tc_verifier = pin_verifier provider pin, tc_chain = [ic_cert cert], tc_private_key = ic_key cert\<rparr>"
    using pinned_config [OF assms(4)] by blast
  note m = minted [OF assms(1,2) identity_key_length [OF assms(3)] cert]
  have "(\<exists>v'. verify_server_cert lib cr (ic_cert peer_cert) (pin_verifier provider pin) = Some (Inr (), v')) = (ic_address peer_cert = pin)"
    if "length peer = 32 \<and> generate lib cr peer s = Some (Inr peer_cert, s')" for peer s peer_cert s'
    using that by (intro pin_minted [OF assms(1,2)]) auto
  note accepts = this
  have t: "tc_verifier tls = pin_verifier provider pin" "tc_chain tls = [ic_cert cert]" by (simp_all add: tls)
  show ?thesis
    unfolding connected_to_def
    using accepts assms(3) m
    apply (simp add: mtls_def sw_config_new_def)
    apply (intro conjI allI impI)
      apply (simp add: t pin_accepts)
     apply (simp add: t)
     apply blast
    apply (simp add: t)
    done
qed

lemma connect_connected:
  assumes "crypto_lawful cr" and "tls_lawful lib cr"
    and "connect lib cr provider show_tls b64 algo n s = Some (Inr client, s')"
  shows "\<exists>url. base_url n = Some url \<and> connected_to lib cr b64 algo url (dn_identity n) client"
  using assms(3) pinned_connected [OF assms(1,2)]
  by (auto simp: connect_def try_op_def ok_or_def split: option.splits sum.splits prod.splits)

lemma connect_pinned_connected:
  assumes "crypto_lawful cr" and "tls_lawful lib cr"
    and "connect_pinned lib cr provider show_tls b64 algo url pin s = Some (Inr client, s')"
  shows "connected_to lib cr b64 algo url pin client"
  using assms(3) pinned_connected [OF assms(1,2)]
  by (auto simp: connect_pinned_def try_op_def split: option.splits sum.splits prod.splits)

definition permitted_node :: "base64_engine \<Rightarrow> discovery_config \<Rightarrow> (scanned_account \<Rightarrow> bool) \<Rightarrow> discovered_node \<Rightarrow> bool" where
  "permitted_node b64 cfg genuine n \<longleftrightarrow>
     (\<exists>acct published. genuine acct \<and> sa_address acct = dn_identity n \<and>
        bit_decoder (dc_allow_key cfg) (dc_node_bit cfg) (sa_local_state acct) \<and>
        map_of (sa_local_state acct) (dc_endpoint_key cfg) = Some published \<and>
        endpoint_decode b64 published = Some (dn_endpoint n))"

lemma resolve_nodes_permitted:
  assumes "resolve_nodes nd cfg w = Some (Inr ns, w')" and "tells_of nd (dc_app_id cfg) genuine"
  shows "\<forall>n \<in> set ns. permitted_node (nd_b64 nd) cfg genuine n \<and> base_url n \<noteq> None"
proof -
  obtain r cache where r: "resolver_new (nd_b64 nd) (dc_app_id cfg) (dc_cache_lifetime_secs cfg) (dc_endpoint_key cfg)
      (bit_decoder (dc_allow_key cfg) (dc_node_bit cfg)) = (r, cache)" by fastforce
  then have new: "rs_app_id r = dc_app_id cfg" "rs_b64 r = nd_b64 nd" "rs_endpoint_key r = dc_endpoint_key cfg"
      "rs_is_node r = bit_decoder (dc_allow_key cfg) (dc_node_bit cfg)" "resolving nd r cache"
    by (auto simp: resolver_new_def intro: made)
  from assms(1) r obtain found cache' where
    found: "resolve nd r (cache, w) = Some (Inr found, cache', w')"
      "ns = map (\<lambda>(identity, endpoint). \<lparr>dn_identity = identity, dn_endpoint = endpoint\<rparr>) found"
    by (auto simp: resolve_nodes_def split: option.splits sum.splits prod.splits)
  have "base_url \<lparr>dn_identity = a, dn_endpoint = ep\<rparr> \<noteq> None" if "endpoint_valid ep" for a ep
    using that by (auto simp: base_url_def socket_addrs_def endpoint_valid_def split: option.split)
  with resolved_nodes_only [OF new(5) found(1)] assms(2) show ?thesis
    unfolding found(2) new by (fastforce simp: list_all_iff permitted_node_def)
qed

lemma resolve_and_connect_first:
  assumes "resolve_and_connect nd lib cr provider show_tls cfg (w, s) = Some (Inr (client, n), st)"
    and "tells_of nd (dc_app_id cfg) genuine"
  shows "\<exists>ns w1 s1. resolve_nodes nd cfg w = Some (Inr (n # ns), w1) \<and>
    connect lib cr provider show_tls (nd_b64 nd) (fst w1) n s = Some (Inr client, s1) \<and> st = (w1, s1)"
proof -
  obtain ns w1 where r: "resolve_nodes nd cfg w = Some (Inr ns, w1)"
    using assms(1) by (auto simp: resolve_and_connect_def split: option.splits sum.splits prod.splits)
  note ok = resolve_nodes_permitted [OF this assms(2)]
  show ?thesis
  proof (cases ns)
    case Nil
    with assms(1) r show ?thesis by (simp add: resolve_and_connect_def fail_def)
  next
    case (Cons m ms)
    with ok have "base_url m \<noteq> None" by simp
    with assms(1) r Cons show ?thesis
      by (auto simp: resolve_and_connect_def split: option.splits sum.splits)
  qed
qed

text \<open>
  C9: A discovered connection reaches the node it was resolved for. When \<open>resolve_and_connect\<close> connects, the
  node is the first resolved: an account the indexer told of, whose local state has the node bit and
  publishes the endpoint. The client's URL is that endpoint's first address; it sends no bearer
  token; its handshakes accept no peer but that identity, and every certificate minted for it; and it
  presents a certificate that any verifier takes for its own account's address, and for no other.
\<close>

theorem discovered_connection:
  assumes "crypto_lawful cr" and "tls_lawful lib cr" and "tells_of nd (dc_app_id cfg) genuine"
    and "resolve_and_connect nd lib cr provider show_tls cfg (w, s) = Some (Inr (client, n), w', s')"
  shows "permitted_node (nd_b64 nd) cfg genuine n \<and>
    (\<exists>addr url. hd (socket_addrs (dn_endpoint n)) = addr \<and> url = ''https://'' @ socket_addr_display addr \<and>
       connected_to lib cr (nd_b64 nd) (fst w') url (dn_identity n) client) \<and>
    rq_bearer (the_request client method path body authenticated timeout) = None"
proof -
  obtain ns where ns: "resolve_nodes nd cfg w = Some (Inr (n # ns), w')"
    and c: "connect lib cr provider show_tls (nd_b64 nd) (fst w') n s = Some (Inr client, s')"
    using resolve_and_connect_first [OF assms(4,3)] by blast
  obtain url where u: "base_url n = Some url" "connected_to lib cr (nd_b64 nd) (fst w') url (dn_identity n) client"
    using connect_connected [OF assms(1,2) c] by blast
  have "rq_bearer (the_request client method path body authenticated timeout) = None"
    using u(2) by (auto simp: connected_to_def the_request_def)
  moreover have "url = ''https://'' @ socket_addr_display (hd (socket_addrs (dn_endpoint n)))"
    using u(1) by (auto simp: base_url_def split: list.splits)
  ultimately show ?thesis using resolve_nodes_permitted [OF ns assms(3)] u(2) by auto
qed

section \<open>Witnesses\<close>

definition two_config :: discovery_config where
  "two_config = \<lparr>dc_app_id = 9, dc_allow_key = ''allow'', dc_node_bit = 1, dc_endpoint_key = ''ep'', dc_cache_lifetime_secs = None\<rparr>"

definition node_n :: discovered_node where
  "node_n = \<lparr>dn_identity = ''N'', dn_endpoint = \<lparr>ep_v4 = Some \<lparr>v4_ip = Ipv4Addr 10 0 0 1, v4_port = 4386\<rparr>, ep_v6 = None\<rparr>\<rparr>"

lemma two_nodes_resolve:
  "resolve_nodes two_nodes two_config (toy_account, 0) = Some (Inr [node_n], counted 1 toy_account, 1)"
proof -
  have u: "unthrottled toy_account" by (simp add: toy_account_def plain_client_def unthrottled_def)
  obtain r c where rc: "two_resolver = (r, c)" by fastforce
  have n: "resolver_new (nd_b64 two_nodes) (dc_app_id two_config) (dc_cache_lifetime_secs two_config) (dc_endpoint_key two_config)
      (bit_decoder (dc_allow_key two_config) (dc_node_bit two_config)) = (r, c)"
    unfolding rc [symmetric] by (simp add: two_config_def two_resolver_def two_nodes_def)
  show ?thesis
    using two_resolved [OF u] unfolding resolve_nodes_def n rc by (auto simp: node_n_def)
qed

lemma two_nodes_connect:
  "\<exists>client st. resolve_and_connect two_nodes toy_tls toy_crypto toy_provider (\<lambda>_. []) two_config ((toy_account, 0), 0) =
     Some (Inr (client, node_n), st)"
proof -
  have k: "private_key_bytes toy_crypto (nd_b64 two_nodes) (counted (Suc 0) toy_account) = Inr (replicate 32 9)"
    using toy_account_keys(2) by (simp add: private_key_bytes_def counted_def two_nodes_def)
  obtain own s' where "generate toy_tls toy_crypto (replicate 32 9) 0 = Some (Inr own, s')"
    by (simp add: generate_def try_op_def map_err_def attempt_def toy_tls_def Let_def byte_key_to_address_def toy_crypto_def
      SIDEWINDER_IDENTITY_EXT_OID_def)
  moreover have "base_url node_n \<noteq> None" by (simp add: base_url_def node_n_def socket_addrs_def)
  ultimately show ?thesis
    by (auto simp: resolve_and_connect_def two_nodes_resolve connect_def ok_or_def identity_key_def k pinned_client_config_def
        try_op_def map_err_def attempt_def client_config_def server_verifier_for_role_def toy_provider_def split: option.split)
qed

theorem discovered_connection_witness:
  "\<exists>client :: unit server_verifier tls_config sw_client. connected_to toy_tls toy_crypto plain_engine (counted 1 toy_account) ''https://10.0.0.1:4386'' ''N'' client"
proof -
  obtain client st where c: "resolve_and_connect two_nodes toy_tls toy_crypto toy_provider (\<lambda>_. []) two_config ((toy_account, 0), 0) =
     Some (Inr (client, node_n), st)" using two_nodes_connect by blast
  obtain w' s' where st: "st = (w', s')" by fastforce
  have w: "fst w' = counted 1 toy_account"
    using c by (auto simp: st resolve_and_connect_def two_nodes_resolve split: option.splits sum.splits prod.splits if_splits)
  have t: "tells_of two_nodes (dc_app_id two_config) (\<lambda>acct. sa_address acct \<in> {''N'', ''X''})"
    using two_nodes_tell by (simp add: two_config_def)
  have d: "socket_addr_display (hd (socket_addrs (dn_endpoint node_n))) = ''10.0.0.1:4386''"
    by (simp add: node_n_def socket_addrs_def ipv4_display_def show_nat.simps char_of_def bit_numeral_rec bit_0)
  have b: "nd_b64 two_nodes = plain_engine" by (simp add: two_nodes_def)
  have n: "dn_identity node_n = ''N''" by (simp add: node_n_def)
  have u: "''https://'' @ ''10.0.0.1:4386'' = ''https://10.0.0.1:4386''" by simp
  have "connected_to toy_tls toy_crypto (nd_b64 two_nodes) (fst w')
      (''https://'' @ socket_addr_display (hd (socket_addrs (dn_endpoint node_n)))) (dn_identity node_n) client"
    using discovered_connection [OF toy_crypto_lawful toy_tls_lawful t c [unfolded st]] by blast
  then show ?thesis unfolding d b w n u by blast
qed

end
