(* ===== verification/HealthCli.thy ===== *)
theory HealthCli
  imports SwDiscovery
begin

text \<open>
  The health probe, \<open>sidewinder_ops/src/bin/sidewinder-health.rs\<close>: its arguments, the client it builds, one
  request and the exit code. What it reads of the system is \<open>probe_system\<close>; the state is the
  environment of the chain's client, the random source and the environment of the HTTP stack.
\<close>

section \<open>Arguments\<close>

definition HEALTH_USAGE :: string where
  "HEALTH_USAGE =
     ''sidewinder-health --node-identity <algo-address> (--url <https-base> | --app-id <id> --parent-chain <file>) '' @
     ''[--path <path>] [--mnemonic-file <path>]'' @ nl @ ''  account mnemonic: --mnemonic-file or SIDEWINDER_ACCOUNT_MNEMONIC''"

record health_args =
  ha_node_identity :: string
  ha_url :: "string option"
  ha_app_id :: "u64 option"
  ha_parent_chain :: "string option"
  ha_path :: string
  ha_mnemonic_file :: "string option"

text \<open>The flags read so far.\<close>

record flags_read =
  fr_node_identity :: "string option"
  fr_url :: "string option"
  fr_app_id :: "u64 option"
  fr_parent_chain :: "string option"
  fr_path :: string
  fr_mnemonic_file :: "string option"

definition no_flags :: flags_read where
  "no_flags = \<lparr>fr_node_identity = None, fr_url = None, fr_app_id = None, fr_parent_chain = None,
     fr_path = ''/health'', fr_mnemonic_file = None\<rparr>"

text \<open>The text of a failed \<open>str::parse::<u64>\<close>: the first character that fails decides.\<close>

fun digits_error :: "nat \<Rightarrow> string \<Rightarrow> string" where
  "digits_error acc [] = []"
| "digits_error acc (c # cs) =
     (case digit_value c of
        None \<Rightarrow> ''invalid digit found in string''
      | Some d \<Rightarrow>
          if 10 * acc + d < 2 ^ 64 then digits_error (10 * acc + d) cs
          else ''number too large to fit in target type'')"

definition parse_u64_error :: "string \<Rightarrow> string" where
  "parse_u64_error s =
     (if s = [] then ''cannot parse integer from empty string''
      else if s = ''+'' then ''invalid digit found in string''
      else digits_error 0 (if hd s = CHR ''+'' then tl s else s))"

definition needs_value :: "string \<Rightarrow> string" where
  "needs_value flag = ''`'' @ flag @ ''` needs a value''"

datatype parsed = ShowHelp | Parsed flags_read

fun parse_flags :: "string list \<Rightarrow> flags_read \<Rightarrow> string + parsed" where
  "parse_flags [] fr = Inr (Parsed fr)"
| "parse_flags (flag # rest) fr =
     (if flag = ''--node-identity'' then
        (case rest of v # rest \<Rightarrow> parse_flags rest (fr\<lparr>fr_node_identity := Some v\<rparr>) | [] \<Rightarrow> Inl (needs_value flag))
      else if flag = ''--url'' then
        (case rest of v # rest \<Rightarrow> parse_flags rest (fr\<lparr>fr_url := Some v\<rparr>) | [] \<Rightarrow> Inl (needs_value flag))
      else if flag = ''--app-id'' then
        (case rest of
           v # rest \<Rightarrow>
             (case parse_u64 v of
                Some n \<Rightarrow> parse_flags rest (fr\<lparr>fr_app_id := Some n\<rparr>)
              | None \<Rightarrow> Inl (''--app-id `'' @ v @ ''` not a u64: '' @ parse_u64_error v))
         | [] \<Rightarrow> Inl (needs_value flag))
      else if flag = ''--parent-chain'' then
        (case rest of v # rest \<Rightarrow> parse_flags rest (fr\<lparr>fr_parent_chain := Some v\<rparr>) | [] \<Rightarrow> Inl (needs_value flag))
      else if flag = ''--path'' then
        (case rest of v # rest \<Rightarrow> parse_flags rest (fr\<lparr>fr_path := v\<rparr>) | [] \<Rightarrow> Inl (needs_value flag))
      else if flag = ''--mnemonic-file'' then
        (case rest of v # rest \<Rightarrow> parse_flags rest (fr\<lparr>fr_mnemonic_file := Some v\<rparr>) | [] \<Rightarrow> Inl (needs_value flag))
      else if flag = ''-h'' \<or> flag = ''--help'' then Inr ShowHelp
      else Inl (''unknown argument `'' @ flag @ ''`'' @ nl @ HEALTH_USAGE))"

declare parse_flags.simps [simp del]

text \<open>\<open>None\<close> is the help that was asked for.\<close>

definition parse_args :: "string list \<Rightarrow> string + health_args option" where
  "parse_args argv =
     rbind (parse_flags argv no_flags) (\<lambda>p.
       case p of
         ShowHelp \<Rightarrow> Inr None
       | Parsed fr \<Rightarrow>
           rbind (ok_or (''missing --node-identity'' @ nl @ HEALTH_USAGE) (fr_node_identity fr)) (\<lambda>identity.
             if fr_url fr = None \<and> (fr_app_id fr = None \<or> fr_parent_chain fr = None)
             then Inl (''address the node with either --url, or --app-id and --parent-chain'' @ nl @ HEALTH_USAGE)
             else Inr (Some \<lparr>ha_node_identity = identity, ha_url = fr_url fr, ha_app_id = fr_app_id fr,
                    ha_parent_chain = fr_parent_chain fr, ha_path = fr_path fr, ha_mnemonic_file = fr_mnemonic_file fr\<rparr>)))"

section \<open>What the probe reads\<close>

text \<open>An environment variable that is unset or not text is \<open>None\<close>.\<close>

record probe_system =
  ps_read_to_string :: "string \<Rightarrow> string + string"
  ps_mnemonic_var :: "string option"
  ps_chain_json :: "string \<Rightarrow> string + algo_chain_config"

definition load_mnemonic :: "probe_system \<Rightarrow> string option \<Rightarrow> string + string" where
  "load_mnemonic sys mnemonic_file =
     (case mnemonic_file of
        Some f \<Rightarrow>
          rbind (rmap_err (\<lambda>e. ''reading mnemonic file `'' @ f @ ''`: '' @ e) (ps_read_to_string sys f)) (\<lambda>text.
            let mnemonic = trim_str text
            in if mnemonic = [] then Inl (''mnemonic file `'' @ f @ ''` is empty'') else Inr mnemonic)
      | None \<Rightarrow>
          (case ps_mnemonic_var sys of
             Some v \<Rightarrow>
               if trim_str v \<noteq> [] then Inr (trim_str v)
               else Inl (''no account: pass --mnemonic-file or set SIDEWINDER_ACCOUNT_MNEMONIC'' @ nl @ HEALTH_USAGE)
           | None \<Rightarrow> Inl (''no account: pass --mnemonic-file or set SIDEWINDER_ACCOUNT_MNEMONIC'' @ nl @ HEALTH_USAGE)))"

definition load_chain_config :: "probe_system \<Rightarrow> string \<Rightarrow> string + algo_chain_config" where
  "load_chain_config sys f =
     rbind (rmap_err (\<lambda>e. ''reading parent-chain file `'' @ f @ ''`: '' @ e) (ps_read_to_string sys f)) (\<lambda>text.
       rmap_err (\<lambda>e. ''parsing parent-chain file `'' @ f @ ''`: '' @ e) (ps_chain_json sys text))"

section \<open>The client of the target node\<close>

text \<open>\<open>new_for_algorand\<close>; the clocks are read whether or not the configuration throttles.\<close>

definition new_for_algorand ::
  "crypto \<Rightarrow> base64_engine \<Rightarrow> 'e runtime \<Rightarrow> string option \<Rightarrow> string option \<Rightarrow> algo_chain_config option \<Rightarrow> 'e \<Rightarrow> 'e world" where
  "new_for_algorand cr b64 rt passphrase address config e =
     (let (now, e) = rt_instant rt e; (unix_now, e) = rt_unix_secs rt e
      in (new_ops cr b64 now unix_now passphrase address config, e))"

type_synonym ('e, 's, 'a) probe_op = "('e \<times> 's, string, 'a) eop"

definition build_client ::
  "('e, 'a, 'j, 'z) node_scheme \<Rightarrow> ('k, 'p, 's) tls_lib \<Rightarrow> crypto \<Rightarrow> 'd provider \<Rightarrow> (rustls_error \<Rightarrow> string) \<Rightarrow>
     probe_system \<Rightarrow> health_args \<Rightarrow> string \<Rightarrow> ('e, 's, 'd server_verifier tls_config sw_client) probe_op" where
  "build_client nd lib cr provider show_tls sys args mnemonic = (\<lambda>(e, s).
     let building = (\<lambda>err. ''building the mutual-TLS client: '' @ sw_any_display err) in
     case ha_url args of
       Some url \<Rightarrow>
         (let (algo, e) = new_for_algorand cr (nd_b64 nd) (nd_rt nd) (Some mnemonic) None None e
          in case connect_pinned lib cr provider show_tls (nd_b64 nd) algo url (ha_node_identity args) s of
               None \<Rightarrow> None
             | Some (r, s) \<Rightarrow> Some (rmap_err building r, e, s))
     | None \<Rightarrow>
         (case (ha_app_id args, ha_parent_chain args) of
            (Some app_id, Some f) \<Rightarrow>
              (case load_chain_config sys f of
                 Inl err \<Rightarrow> fail err (e, s)
               | Inr chain \<Rightarrow>
                   (case resolve_nodes nd (bingle app_id)
                          (new_for_algorand cr (nd_b64 nd) (nd_rt nd) (Some mnemonic) None (Some chain) e) of
                      None \<Rightarrow> None
                    | Some (Inl err, algo, e) \<Rightarrow>
                        fail (''resolving node endpoints from the chain: '' @ any_display err) (e, s)
                    | Some (Inr ns, algo, e) \<Rightarrow>
                        (case find (\<lambda>n. dn_identity n = ha_node_identity args) ns of
                           None \<Rightarrow>
                             fail (''node '' @ ha_node_identity args @ '' has no published endpoint in app '' @ show_nat (unat app_id) @
                                   '' (not enrolled, or endpoint not advertised)'') (e, s)
                         | Some n \<Rightarrow>
                             (case connect lib cr provider show_tls (nd_b64 nd) algo n s of
                                None \<Rightarrow> None
                              | Some (r, s) \<Rightarrow> Some (rmap_err building r, e, s)))))
          | _ \<Rightarrow> None))"

section \<open>The run\<close>

record probe_result =
  pb_code :: u8
  pb_stdout :: bytes
  pb_stderr :: string

definition health_run ::
  "('e, 'a, 'j, 'z) node_scheme \<Rightarrow> ('k, 'p, 's) tls_lib \<Rightarrow> crypto \<Rightarrow> 'd provider \<Rightarrow> (rustls_error \<Rightarrow> string) \<Rightarrow>
     ('h, 'd server_verifier tls_config) http_stack \<Rightarrow> probe_system \<Rightarrow> health_args \<Rightarrow>
     ('e \<times> 's) \<times> 'h \<Rightarrow> ((string + probe_result) \<times> ('e \<times> 's) \<times> 'h) option" where
  "health_run nd lib cr provider show_tls ht sys args = (\<lambda>(es, h).
     case load_mnemonic sys (ha_mnemonic_file args) of
       Inl err \<Rightarrow> Some (Inl err, es, h)
     | Inr mnemonic \<Rightarrow>
         (case build_client nd lib cr provider show_tls sys args mnemonic es of
            None \<Rightarrow> None
          | Some (Inl err, es) \<Rightarrow> Some (Inl err, es, h)
          | Some (Inr client, es) \<Rightarrow>
              (case sw_get ht client (ha_path args) h of
                 (Inr (status, body), h) \<Rightarrow>
                   Some (Inr \<lparr>pb_code = (if 200 \<le> status \<and> status < 300 then 0 else 3), pb_stdout = body,
                       pb_stderr = ha_node_identity args @ '' '' @ ha_path args @ '' -> HTTP '' @ show_nat (unat status) @ nl\<rparr>,
                     es, h)
               | (Inl err, h) \<Rightarrow>
                   Some (Inr \<lparr>pb_code = 2, pb_stdout = [],
                       pb_stderr = ''unreachable/handshake failed for '' @ ha_node_identity args @ '': '' @ sw_any_display err @ nl\<rparr>,
                     es, h))))"

definition health_main ::
  "('e, 'a, 'j, 'z) node_scheme \<Rightarrow> ('k, 'p, 's) tls_lib \<Rightarrow> crypto \<Rightarrow> 'd provider \<Rightarrow> (rustls_error \<Rightarrow> string) \<Rightarrow>
     ('h, 'd server_verifier tls_config) http_stack \<Rightarrow> probe_system \<Rightarrow> string list \<Rightarrow>
     ('e \<times> 's) \<times> 'h \<Rightarrow> (probe_result \<times> ('e \<times> 's) \<times> 'h) option" where
  "health_main nd lib cr provider show_tls ht sys argv st =
     (let failed = (\<lambda>err. \<lparr>pb_code = 1, pb_stdout = [], pb_stderr = ''sidewinder-health: '' @ err @ nl\<rparr>) in
      case parse_args argv of
        Inl err \<Rightarrow> Some (failed err, st)
      | Inr None \<Rightarrow> Some (\<lparr>pb_code = 0, pb_stdout = utf8_bytes (HEALTH_USAGE @ nl), pb_stderr = []\<rparr>, st)
      | Inr (Some args) \<Rightarrow>
          (case health_run nd lib cr provider show_tls ht sys args st of
             None \<Rightarrow> None
           | Some (Inl err, st) \<Rightarrow> Some (failed err, st)
           | Some (Inr result, st) \<Rightarrow> Some (result, st)))"

section \<open>Properties\<close>

lemma parse_args_complete:
  "parse_args argv = Inr (Some args) \<Longrightarrow>
     ha_url args \<noteq> None \<or> ha_app_id args \<noteq> None \<and> ha_parent_chain args \<noteq> None"
  by (cases "parse_flags argv no_flags") (auto simp: parse_args_def rbind_eq_Inr split: parsed.split_asm if_splits)

text \<open>Both addressing modes at once are accepted, and the URL is the one used.\<close>

lemma both_modes_accepted:
  "parse_args [''--node-identity'', a, ''--url'', u, ''--app-id'', ''9'', ''--parent-chain'', f] =
     Inr (Some \<lparr>ha_node_identity = a, ha_url = Some u, ha_app_id = Some 9, ha_parent_chain = Some f, ha_path = ''/health'',
       ha_mnemonic_file = None\<rparr>)"
  by (simp add: parse_args_def parse_flags.simps no_flags_def parse_u64_def digit_value_def)

lemma built_client:
  assumes "crypto_lawful cr" and "tls_lawful lib cr"
    and "build_client nd lib cr provider show_tls sys args mnemonic es = Some (Inr client, es')"
  shows "\<exists>algo url. connected_to lib cr (nd_b64 nd) algo url (ha_node_identity args) client \<and>
    (ha_url args = None \<or> ha_url args = Some url)"
proof (cases "ha_url args")
  case (Some url)
  with assms(3) obtain algo s s' where "connect_pinned lib cr provider show_tls (nd_b64 nd) algo url (ha_node_identity args) s =
      Some (Inr client, s')"
    by (auto simp: build_client_def Let_def split: option.splits prod.splits)
  with connect_pinned_connected [OF assms(1,2)] Some show ?thesis by blast
next
  case None
  with assms(3) obtain algo n ns s s' where c: "connect lib cr provider show_tls (nd_b64 nd) algo n s = Some (Inr client, s')"
    and f: "find (\<lambda>n. dn_identity n = ha_node_identity args) ns = Some n"
    by (auto simp: build_client_def Let_def split: option.splits prod.splits sum.splits)
  from f have "dn_identity n = ha_node_identity args" by (auto simp: find_Some_iff)
  with connect_connected [OF assms(1,2) c] None show ?thesis by auto
qed

text \<open>
  C19: The probe speaks to the named node only, and its exit code says what happened. Whatever the arguments
  and the files: either it sends nothing and exits 1, or 0 after the help; or it sends at most four
  copies of one GET of the path, with no bearer token, over handshakes pinned to the identity given
  by \<open>--node-identity\<close>, whether the URL was given or resolved; then it exits 0 with the body for a 2xx,
  3 with the body for any other status served, and 2 when nothing was.
\<close>

theorem probe_talks_to_named_node:
  assumes "crypto_lawful cr" and "tls_lawful lib cr" and "observes ht sent"
    and "health_main nd lib cr provider show_tls ht sys argv (es, h) = Some (result, es', h')"
  shows "(sent h' = sent h \<and> (pb_code result = 1 \<or> pb_code result = 0 \<and> parse_args argv = Inr None)) \<or>
    (\<exists>args client algo url k tls answer.
       parse_args argv = Inr (Some args) \<and> connected_to lib cr (nd_b64 nd) algo url (ha_node_identity args) client \<and>
       (ha_url args = None \<or> ha_url args = Some url) \<and> cl_tls client = Some tls \<and> k \<le> 4 \<and>
       sent h' = replicate k \<lparr>rq_tls = Some tls, rq_method = GET, rq_url = client_url client (ha_path args), rq_bearer = None,
           rq_body = None, rq_timeout = None\<rparr> @ sent h \<and>
       sw_get ht client (ha_path args) h = (answer, h') \<and>
       (case answer of
          Inr (status, body) \<Rightarrow> pb_stdout result = body \<and> pb_code result = (if unat status div 100 = 2 then 0 else 3)
        | Inl err \<Rightarrow> pb_stdout result = [] \<and> pb_code result = 2))"
proof -
  consider "h' = h" "pb_code result = 1 \<or> pb_code result = 0 \<and> parse_args argv = Inr None"
    | args client mnemonic where "parse_args argv = Inr (Some args)"
        "build_client nd lib cr provider show_tls sys args mnemonic es = Some (Inr client, es')"
        "(case sw_get ht client (ha_path args) h of
            (Inr (status, body), h1) \<Rightarrow> h1 = h' \<and> pb_stdout result = body \<and> pb_code result = (if 200 \<le> status \<and> status < 300 then 0 else 3)
          | (Inl err, h1) \<Rightarrow> h1 = h' \<and> pb_stdout result = [] \<and> pb_code result = 2)"
    using assms(4)
    by (auto simp: health_main_def health_run_def Let_def split: sum.splits option.splits prod.splits)
  then show ?thesis
  proof cases
    case 1
    then show ?thesis by simp
  next
    case 2
    obtain algo url where c: "connected_to lib cr (nd_b64 nd) algo url (ha_node_identity args) client"
        "ha_url args = None \<or> ha_url args = Some url"
      using built_client [OF assms(1,2) 2(2)] by blast
    then obtain tls where tls: "cl_tls client = Some tls" by (auto simp: connected_to_def)
    obtain answer where g: "sw_get ht client (ha_path args) h = (answer, h')"
      using 2(3) by (auto split: prod.splits sum.splits)
    have "sends_only ht sent (the_request client GET (ha_path args) None True None) (sw_get ht client (ha_path args))"
      unfolding sw_get_def by (rule send_sends_only [OF assms(3)])
    then obtain k where k: "k \<le> 4" "sent h' = replicate k (the_request client GET (ha_path args) None True None) @ sent h"
      using g unfolding sends_only_def by (metis snd_conv)
    have range: "(200 \<le> status \<and> status < 300) = (unat status div 100 = 2)" for status :: u16
      by (simp add: word_le_nat_alt word_less_nat_alt) linarith
    show ?thesis
      using 2(1,3) c tls g k unfolding range
      by (intro disjI2 exI [of _ args] exI [of _ client] exI [of _ algo] exI [of _ url] exI [of _ k] exI [of _ tls] exI [of _ answer])
        (auto simp: the_request_def split: sum.splits prod.splits)
  qed
qed

definition probe_mnemonic :: string where
  "probe_mnemonic = ''b64:'' @ bytes_str (replicate 32 65)"

definition probe_sys :: probe_system where
  "probe_sys = \<lparr>ps_read_to_string = (\<lambda>_. Inl ''no file''), ps_mnemonic_var = Some probe_mnemonic, ps_chain_json = (\<lambda>_. Inl ''no chain'')\<rparr>"

definition probe_argv :: "string list" where
  "probe_argv = [''--node-identity'', ''N'', ''--url'', ''https://h'']"

definition probe_args :: health_args where
  "probe_args = \<lparr>ha_node_identity = ''N'', ha_url = Some ''https://h'', ha_app_id = None, ha_parent_chain = None,
     ha_path = ''/health'', ha_mnemonic_file = None\<rparr>"

definition probe_env :: "unit server_verifier tls_config script_env" where
  "probe_env = \<lparr>sn_replies = [Inr (200, Inr [7])], sn_sent = [], sn_slept = []\<rparr>"

lemma probe_parse: "parse_args probe_argv = Inr (Some probe_args)"
  by (simp add: parse_args_def parse_flags.simps no_flags_def probe_argv_def probe_args_def ok_or_def)

lemma probe_loads: "load_mnemonic probe_sys None = Inr probe_mnemonic"
proof -
  have "trim_str probe_mnemonic = probe_mnemonic" by code_simp
  moreover have "probe_mnemonic \<noteq> []" by (simp add: probe_mnemonic_def)
  ultimately show ?thesis by (simp add: load_mnemonic_def probe_sys_def)
qed

lemma probe_builds:
  "\<exists>client st. build_client two_nodes toy_tls toy_crypto toy_provider (\<lambda>_. []) probe_sys probe_args probe_mnemonic (0, 0) =
     Some (Inr client, st)"
proof -
  have k: "identity_key toy_crypto (nd_b64 two_nodes) (fst (new_for_algorand toy_crypto (nd_b64 two_nodes) (nd_rt two_nodes)
      (Some probe_mnemonic) None None 0)) = Inr (replicate 32 65)"
    by (simp add: identity_key_def private_key_bytes_def new_for_algorand_def new_ops_def two_nodes_def still_runtime_def Let_def
        seed_from_passphrase_def toy_crypto_def plain_engine_def array32_def probe_mnemonic_def default_chain_config_def
        address_from_passphrase_def byte_key_to_address_def)
  obtain own s' where "generate toy_tls toy_crypto (replicate 32 65) 0 = Some (Inr own, s')"
    by (simp add: generate_def try_op_def map_err_def attempt_def toy_tls_def Let_def byte_key_to_address_def toy_crypto_def
      SIDEWINDER_IDENTITY_EXT_OID_def)
  with k show ?thesis
    by (auto simp: build_client_def probe_args_def connect_pinned_def pinned_client_config_def try_op_def map_err_def attempt_def
        client_config_def server_verifier_for_role_def toy_provider_def Let_def split: prod.split)
qed

lemma probe_runs:
  "\<exists>result es' h'. health_main two_nodes toy_tls toy_crypto toy_provider (\<lambda>_. []) script_stack probe_sys probe_argv ((0, 0), probe_env) =
     Some (result, es', h') \<and> pb_code result = 0 \<and> sn_sent h' \<noteq> []"
proof -
  obtain client st where b: "build_client two_nodes toy_tls toy_crypto toy_provider (\<lambda>_. []) probe_sys probe_args probe_mnemonic (0, 0) =
     Some (Inr client, st)" using probe_builds by blast
  have "sw_get script_stack client ''/health'' probe_env = (Inr (200, [7]), \<lparr>sn_replies = [],
      sn_sent = [the_request client GET ''/health'' None True None], sn_slept = []\<rparr>)"
    using send_loop_script [of 3 client "[Inr (200, Inr [7])]" "''get''" GET "''/health''" None True None "[]" "[]"]
    by (simp add: sw_get_def send_def probe_env_def tried_again_def reply_is_def final_answer_def)
  then show ?thesis
    using probe_loads b by (simp add: health_main_def probe_parse health_run_def probe_args_def)
qed

theorem probe_talks_to_named_node_witness:
  "\<exists>algo (client :: unit server_verifier tls_config sw_client).
     connected_to toy_tls toy_crypto (nd_b64 two_nodes) algo ''https://h'' ''N'' client"
proof -
  obtain result es' h' where r: "health_main two_nodes toy_tls toy_crypto toy_provider (\<lambda>_. []) script_stack probe_sys probe_argv
      ((0, 0), probe_env) = Some (result, es', h')" "sn_sent h' \<noteq> []"
    using probe_runs by blast
  from probe_talks_to_named_node [OF toy_crypto_lawful toy_tls_lawful script_stack_observes r(1)] r(2) show ?thesis
    by (auto simp: probe_parse) (auto simp: probe_env_def probe_args_def)
qed

end
