(* ===== verification/TxAccounting.thy ===== *)
theory TxAccounting
  imports TxSafety
begin

text \<open>
  The requests of the writing operations: each is counted, waiting for a confirmation is bounded, the
  creator cache saves the request, and two arithmetic facts about the amounts the code computes.
\<close>

section \<open>What every write keeps\<close>

definition tx_node_keeps ::
  "('e, 'a, 'j, 'x, 'y, 'z) tx_node_scheme \<Rightarrow> ('e world \<Rightarrow> 'e world \<Rightarrow> bool) \<Rightarrow> bool" where
  "tx_node_keeps nd R \<longleftrightarrow> node_keeps nd R \<and>
     (\<forall>c txs. keeps R (call_node nd (tn_send_transactions nd c txs))) \<and>
     (\<forall>c src. keeps R (call_node nd (tn_teal_compile nd c src))) \<and>
     keeps R (unique_note nd) \<and> (\<forall>i creator. keeps R (remember_creator i creator))"

lemma node_keeps_of_tx: "tx_node_keeps nd R \<Longrightarrow> node_keeps nd R"
  by (simp add: tx_node_keeps_def)

lemma tx_node_keepsD [keeps_intros]:
  assumes "tx_node_keeps nd R"
  shows "keeps R (call_node nd (tn_send_transactions nd c txs))"
    and "keeps R (call_node nd (tn_teal_compile nd c src))"
    and "keeps R (unique_note nd)"
  using assms by (simp_all add: tx_node_keeps_def del: split_paired_All)

lemma keeps_secret_key [keeps_intros]: "reflp R \<Longrightarrow> keeps R (secret_key nd)"
  by (auto intro!: keeps_still simp: secret_key_def)

lemma keeps_build [keeps_intros]:
  assumes "tx_node_keeps nd R"
  shows "keeps R (build_tx nd what req fee params)"
  unfolding build_tx_def by (intro keeps_intros; (rule assms node_keeps_of_tx [OF assms])?)

lemma keeps_params [keeps_intros]:
  assumes "node_keeps nd R"
  shows "keeps R (fetch_params nd client)"
  unfolding fetch_params_def by (intro keeps_intros; (rule assms)?)

lemma keeps_wait_rounds [keeps_intros]:
  "node_keeps nd R \<Longrightarrow> keeps R (wait_rounds nd client tx_id t current end_round)"
proof (induction nd client tx_id t current end_round rule: wait_rounds.induct)
  case (1 nd client tx_id t current end_round)
  show ?case
    by (subst wait_rounds.simps, unfold Let_def) (intro keeps_intros 1; (rule 1)?)
qed

lemma keeps_wait [keeps_intros]:
  assumes "node_keeps nd R"
  shows "keeps R (wait_for_confirmation nd tx_id n)"
  unfolding wait_for_confirmation_def Let_def by (intro keeps_intros; (rule assms)?)

lemma keeps_submit [keeps_intros]:
  assumes "node_keeps nd R"
  shows "keeps R (submit_and_wait nd client sk what tx)"
  unfolding submit_and_wait_def sign_and_send_def by (intro keeps_intros; (rule assms)?)

lemma keeps_creator [keeps_intros]:
  assumes "tx_node_keeps nd R"
  shows "keeps R (app_creator nd app_id)"
proof -
  have r: "keeps R (remember_creator i s)" for i s using assms by (simp add: tx_node_keeps_def)
  have f: "keeps R (fetch_app_creator nd app_id)"
    unfolding fetch_app_creator_def by (intro keeps_intros; (rule node_keeps_of_tx [OF assms])?)
  have "keeps R (try_op (fetch_app_creator nd app_id) (\<lambda>creator.
      try_op (remember_creator app_id creator) (\<lambda>_. ret creator)))"
    by (intro keeps_intros r f; (rule node_keeps_of_tx [OF assms])?)
  moreover have "reflp R" by (rule node_keepsD(1) [OF node_keeps_of_tx [OF assms]])
  ultimately show ?thesis
    by (auto simp: keeps_def app_creator_def reflp_def split: option.splits if_splits)
qed

lemma keeps_fetch_asset [keeps_intros]:
  assumes "node_keeps nd R"
  shows "keeps R (fetch_asset nd client i what)"
  unfolding fetch_asset_def by (intro keeps_intros; (rule assms)?)

lemma keeps_read_asset [keeps_intros]:
  assumes "node_keeps nd R"
  shows "keeps R (is_account_opted_in_to_asset nd addr i)"
  unfolding is_account_opted_in_to_asset_def by (intro keeps_intros; (rule assms)?)

lemma keeps_local_state [keeps_intros]:
  assumes "node_keeps nd R"
  shows "keeps R (local_state_for_account nd app addr)"
  unfolding local_state_for_account_def by (intro keeps_intros; (rule assms)?)

lemma keeps_balance [keeps_intros]:
  assumes "node_keeps nd R"
  shows "keeps R (account_balance nd)"
  unfolding account_balance_def by (intro keeps_intros; (rule assms)?)

lemma keeps_asset_clawback [keeps_intros]:
  assumes "node_keeps nd R"
  shows "keeps R (asset_clawback nd i)"
  unfolding asset_clawback_def by (intro keeps_intros; (rule assms)?)

lemma keeps_compile [keeps_intros]:
  assumes "tx_node_keeps nd R"
  shows "keeps R (compile_teal nd source)"
  unfolding compile_teal_def by (intro keeps_intros; (rule assms node_keeps_of_tx [OF assms])?)

lemma keeps_send_algo [keeps_intros]:
  assumes "tx_node_keeps nd R"
  shows "keeps R (send_algo nd to amount)"
  unfolding send_algo_def by (intro keeps_intros; (rule assms node_keeps_of_tx [OF assms])?)

lemma keeps_send_asset [keeps_intros]:
  assumes "tx_node_keeps nd R"
  shows "keeps R (send_asset nd i n to)"
  unfolding send_asset_def by (intro keeps_intros; (rule assms node_keeps_of_tx [OF assms])?)

lemma keeps_created_asset [keeps_intros]:
  assumes "node_keeps nd R"
  shows "keeps R (created_asset nd client tx_id)"
  unfolding created_asset_def by (intro keeps_intros; (rule assms)?)

lemma keeps_create_asset [keeps_intros]:
  assumes "tx_node_keeps nd R"
  shows "keeps R (create_asset nd name units)"
  unfolding create_asset_def by (intro keeps_intros; (rule assms node_keeps_of_tx [OF assms])?)

lemma keeps_create_configured [keeps_intros]:
  assumes "tx_node_keeps nd R"
  shows "keeps R (create_asset_configured nd name units m r c f)"
  unfolding create_asset_configured_def by (intro keeps_intros; (rule assms node_keeps_of_tx [OF assms])?)

lemma keeps_create_reserve [keeps_intros]:
  assumes "tx_node_keeps nd R"
  shows "keeps R (create_asset_with_reserve_app nd name units app)"
  unfolding create_asset_with_reserve_app_def by (intro keeps_intros; (rule assms node_keeps_of_tx [OF assms])?)

lemma keeps_clawback [keeps_intros]:
  assumes "tx_node_keeps nd R"
  shows "keeps R (set_asset_clawback_to_app nd app i)"
  unfolding set_asset_clawback_to_app_def by (intro keeps_intros; (rule assms node_keeps_of_tx [OF assms])?)

lemma keeps_change_reserve [keeps_intros]:
  assumes "tx_node_keeps nd R"
  shows "keeps R (change_asset_reserve_address nd i reserve)"
  unfolding change_asset_reserve_address_def Let_def by (intro keeps_intros; (rule assms node_keeps_of_tx [OF assms])?)

lemma keeps_opt_in_to_asset [keeps_intros]:
  assumes "tx_node_keeps nd R"
  shows "keeps R (opt_in_to_asset nd i)"
  unfolding opt_in_to_asset_def by (intro keeps_intros; (rule assms node_keeps_of_tx [OF assms])?)

lemma keeps_recover [keeps_intros]:
  assumes "tx_node_keeps nd R"
  shows "keeps R (recover_reserve_balance nd i)"
  unfolding recover_reserve_balance_def Let_def by (intro keeps_intros; (rule assms node_keeps_of_tx [OF assms])?)

lemma keeps_build_call [keeps_intros]:
  assumes "tx_node_keeps nd R"
  shows "keeps R (build_call_app_tx_inner nd app i fapps accts method args)"
  unfolding build_call_app_tx_inner_def Let_def by (intro keeps_intros; (rule assms node_keeps_of_tx [OF assms])?)

lemma keeps_fetch_logs [keeps_intros]:
  assumes "tx_node_keeps nd R"
  shows "keeps R (sign_submit_and_fetch_logs nd tx)"
  unfolding sign_submit_and_fetch_logs_def by (intro keeps_intros; (rule assms node_keeps_of_tx [OF assms])?)

lemma keeps_call_app [keeps_intros]:
  assumes "tx_node_keeps nd R"
  shows "keeps R (call_app nd app i method args)"
  unfolding call_app_def build_call_app_tx_def by (intro keeps_intros; (rule assms node_keeps_of_tx [OF assms])?)

lemma keeps_call_arc4 [keeps_intros]:
  assumes "tx_node_keeps nd R"
  shows "keeps R (call_app_arc4_args nd app i method args)"
  unfolding call_app_arc4_args_def by (intro keeps_intros; (rule assms node_keeps_of_tx [OF assms])?)

lemma keeps_call_accounts [keeps_intros]:
  assumes "tx_node_keeps nd R"
  shows "keeps R (call_app_with_accounts nd app i method args accts)"
  unfolding call_app_with_accounts_def by (intro keeps_intros; (rule assms node_keeps_of_tx [OF assms])?)

lemma keeps_call_foreign [keeps_intros]:
  assumes "tx_node_keeps nd R"
  shows "keeps R (call_app_with_foreign_app nd app fapp i method args)"
  unfolding call_app_with_foreign_app_def by (intro keeps_intros; (rule assms node_keeps_of_tx [OF assms])?)

lemma keeps_lifecycle [keeps_intros]:
  assumes "tx_node_keeps nd R"
  shows "keeps R (lifecycle nd what req)"
  unfolding lifecycle_def by (intro keeps_intros; (rule assms node_keeps_of_tx [OF assms])?)

lemma keeps_opt_in_app [keeps_intros]:
  assumes "tx_node_keeps nd R"
  shows "keeps R (opt_in_app nd app)"
  unfolding opt_in_app_def by (intro keeps_intros; (rule assms node_keeps_of_tx [OF assms])?)

lemma keeps_opt_in_asset [keeps_intros]:
  assumes "tx_node_keeps nd R"
  shows "keeps R (opt_in_app_to_asset nd app i m)"
  unfolding opt_in_app_to_asset_def by (intro keeps_intros; (rule assms node_keeps_of_tx [OF assms])?)

lemma keeps_set_up [keeps_intros]:
  assumes "tx_node_keeps nd R"
  shows "keeps R (set_up_app nd i m app)"
  unfolding set_up_app_def by (intro keeps_intros; (rule assms node_keeps_of_tx [OF assms])?)

lemma keeps_deploy [keeps_intros]:
  assumes "tx_node_keeps nd R"
  shows "keeps R (deploy_app_reserving nd approval clear i method args opt spec reserve)"
  unfolding deploy_app_reserving_def Let_def by (intro keeps_intros; (rule assms node_keeps_of_tx [OF assms])?)

lemma keeps_update [keeps_intros]:
  assumes "tx_node_keeps nd R"
  shows "keeps R (update_app nd app approval clear i)"
  unfolding update_app_def by (intro keeps_intros; (rule assms node_keeps_of_tx [OF assms])?)

lemma keeps_leg [keeps_intros]:
  assumes "tx_node_keeps nd R"
  shows "keeps R (build_leg nd sender params l)"
  by (cases l; simp only: build_leg.simps; intro keeps_intros; (rule assms node_keeps_of_tx [OF assms])?)

lemma keeps_group [keeps_intros]:
  assumes "tx_node_keeps nd R"
  shows "keeps R (group_sign_and_send nd b)"
  unfolding group_sign_and_send_def by (intro keeps_intros; (rule assms node_keeps_of_tx [OF assms])?)

section \<open>Every write is accounted for\<close>

definition tx_node_sends :: "('e, 'a, 'j, 'x, 'y, 'z) tx_node_scheme \<Rightarrow> ('e \<Rightarrow> nat) \<Rightarrow> bool" where
  "tx_node_sends nd sent \<longleftrightarrow> node_sends nd sent \<and>
     (\<forall>c txs e. sent (snd (tn_send_transactions nd c txs e)) = sent e + 1) \<and>
     (\<forall>c src e. sent (snd (tn_teal_compile nd c src e)) = sent e + 1) \<and>
     (\<forall>e. sent (snd (tn_uuid nd e)) = sent e)"

lemma counts_same: "ops_timeout (fst w') = ops_timeout (fst w) \<Longrightarrow>
    ops_requests_made (fst w') = ops_requests_made (fst w) \<Longrightarrow> sent (snd w') = sent (snd w) \<Longrightarrow> counts rt sent w w'"
  unfolding counts_def by (intro conjI exI [of _ 0]) simp_all

lemma tx_node_counts:
  assumes "tx_node_sends nd sent"
  shows "tx_node_keeps nd (counts (nd_rt nd) sent)"
proof -
  have u: "keeps (counts (nd_rt nd) sent) (unique_note nd)"
    unfolding keeps_def
  proof (intro allI impI)
    fix w r w'
    assume "unique_note nd w = Some (r, w')"
    then have "fst w' = fst w" "sent (snd w') = sent (snd w)"
      using assms by (auto simp: unique_note_def tx_node_sends_def split: prod.splits) (metis snd_conv)
    then show "counts (nd_rt nd) sent w w'" by (intro counts_same) simp_all
  qed
  have "keeps (counts (nd_rt nd) sent) (remember_creator i s)" for i s
    by (auto simp: keeps_def remember_creator_def intro!: counts_same)
  with u assms show ?thesis
    by (simp add: tx_node_keeps_def tx_node_sends_def node_counts node_sends_def
        accounted_call [unfolded accounted_def] del: split_paired_All)
qed

text \<open>
  C11: Every write of the client, and the reads beside the writes, count the requests they send, from the
  parameters to the last turn of the confirmation loop: payments, asset operations, application
  calls in each of their forms, the life cycle of an application, deployments with any reserve of
  pages, updates, groups, the wait for a confirmation, and the lookups of a creator and a clawback.
\<close>

theorem writes_are_accounted:
  assumes "tx_node_sends nd sent"
  shows "accounted (nd_rt nd) sent (send_algo nd to amount) \<and>
    accounted (nd_rt nd) sent (create_asset nd name units) \<and>
    accounted (nd_rt nd) sent (create_asset_configured nd name units manager reserve clawback freeze) \<and>
    accounted (nd_rt nd) sent (create_asset_with_reserve_app nd name units app) \<and>
    accounted (nd_rt nd) sent (set_asset_clawback_to_app nd app asset) \<and>
    accounted (nd_rt nd) sent (change_asset_reserve_address nd asset reserve) \<and>
    accounted (nd_rt nd) sent (send_asset nd asset n to) \<and>
    accounted (nd_rt nd) sent (opt_in_to_asset nd asset) \<and>
    accounted (nd_rt nd) sent (recover_reserve_balance nd asset) \<and>
    accounted (nd_rt nd) sent (call_app nd app maybe_asset method args) \<and>
    accounted (nd_rt nd) sent (call_app_raw_args nd app maybe_asset method args) \<and>
    accounted (nd_rt nd) sent (call_app_arc4_args nd app maybe_asset method args) \<and>
    accounted (nd_rt nd) sent (call_app_with_accounts nd app maybe_asset method args accts) \<and>
    accounted (nd_rt nd) sent (call_app_with_foreign_app nd app fapp maybe_asset method args) \<and>
    accounted (nd_rt nd) sent (opt_in_app nd app) \<and>
    accounted (nd_rt nd) sent (clear_state_app nd app) \<and>
    accounted (nd_rt nd) sent (close_out_app nd app) \<and>
    accounted (nd_rt nd) sent (delete_app nd app) \<and>
    accounted (nd_rt nd) sent (opt_in_app_to_asset nd app asset opt) \<and>
    accounted (nd_rt nd) sent (compile_teal nd source) \<and>
    accounted (nd_rt nd) sent (deploy_app nd approval clear maybe_asset method args opt spec) \<and>
    accounted (nd_rt nd) sent (deploy_app_reserving nd approval clear maybe_asset method args opt spec pages) \<and>
    accounted (nd_rt nd) sent (update_app nd app approval clear maybe_asset) \<and>
    accounted (nd_rt nd) sent (group_sign_and_send nd b) \<and>
    accounted (nd_rt nd) sent (wait_for_confirmation nd tx_id rounds) \<and>
    accounted (nd_rt nd) sent (app_creator nd app) \<and>
    accounted (nd_rt nd) sent (asset_clawback nd asset)"
  unfolding accounted_def call_app_raw_args_def clear_state_app_def close_out_app_def delete_app_def deploy_app_def
  by (intro conjI keeps_intros;
      (rule tx_node_counts [OF assms] node_keeps_of_tx [OF tx_node_counts [OF assms]])?)

lemma confirming_node_sends: "tx_node_sends confirming_node id"
  by (simp add: tx_node_sends_def node_sends_def quiet_def still_runtime_def answers_def)
     (simp add: confirming_node_def refusing_tx_node_def refusing_node_def node.defs refuse_def)

text \<open>An application call: parameters, submission, node status, confirmation and its logs are five requests.\<close>

theorem writes_are_accounted_witness:
  "counts still_runtime id (counted 0 calling_client, 0) (counted 5 calling_client, 5)"
proof -
  note all = writes_are_accounted [OF confirming_node_sends]
  note upto_send = all [THEN conjunct2, THEN conjunct2, THEN conjunct2, THEN conjunct2, THEN conjunct2]
  note call = upto_send [THEN conjunct2, THEN conjunct2, THEN conjunct2, THEN conjunct2, THEN conjunct1]
  have "accounted (nd_rt confirming_node) id (call_app confirming_node 5 None None [])" by (rule call)
  from keepsD [OF this [unfolded accounted_def] confirming_call_app] show ?thesis by simp
qed

section \<open>The wait is bounded\<close>

definition sends_within :: "('e \<Rightarrow> nat) \<Rightarrow> nat \<Rightarrow> ('e world, 'b) op \<Rightarrow> bool" where
  "sends_within sent n m \<longleftrightarrow> (\<forall>w r w'. m w = Some (r, w') \<longrightarrow> sent (snd w') \<le> sent (snd w) + n)"

lemma withinD: "sends_within sent n m \<Longrightarrow> m w = Some (r, w') \<Longrightarrow> sent (snd w') \<le> sent (snd w) + n"
  unfolding sends_within_def by blast

lemma within_try:
  assumes "sends_within sent a m" and "\<And>x. sends_within sent b (f x)"
  shows "sends_within sent (a + b) (try_op m f)"
  unfolding sends_within_def
proof (intro allI impI)
  fix w r w'
  assume "try_op m f w = Some (r, w')"
  then show "sent (snd w') \<le> sent (snd w) + (a + b)"
  proof (cases rule: try_op_Some_cases)
    case (err e)
    with withinD [OF assms(1) err(1)] show ?thesis by simp
  next
    case (ok x w1)
    from withinD [OF assms(1) ok(1)] withinD [OF assms(2) ok(2)] show ?thesis by simp
  qed
qed

lemma within_attempt:
  assumes "sends_within sent a m" and "\<And>q. sends_within sent b (f q)"
  shows "sends_within sent (a + b) (attempt m f)"
  unfolding sends_within_def
proof (intro allI impI)
  fix w r w'
  assume "attempt m f w = Some (r, w')"
  then obtain q w1 where 1: "m w = Some (q, w1)" and 2: "f q w1 = Some (r, w')" by (rule attempt_Some_cases)
  from withinD [OF assms(1) 1] withinD [OF assms(2) 2] show "sent (snd w') \<le> sent (snd w) + (a + b)" by simp
qed

lemma within_base: "sends_within sent n (ret x)" "sends_within sent n (fail e)" "sends_within sent n (lift q)"
  by (simp_all add: sends_within_def)

lemma within_if: "sends_within sent n m \<Longrightarrow> sends_within sent n m' \<Longrightarrow> sends_within sent n (if b then m else m')"
  by simp

lemma within_mono: "sends_within sent a m \<Longrightarrow> a \<le> b \<Longrightarrow> sends_within sent b m"
  unfolding sends_within_def by (meson add_le_cancel_left le_trans)

lemma within_prefix: "sends_within sent n m \<Longrightarrow> sends_within sent n (prefix_err t m)"
proof -
  assume "sends_within sent n m"
  from within_attempt [OF this within_base(3)] have "sends_within sent (n + 0) (prefix_err t m)"
    unfolding prefix_err_def map_err_def .
  then show ?thesis by simp
qed

lemma within_call:
  assumes "quiet rt sent" and "\<And>e. sent (snd (fut e)) = sent e + 1"
  shows "sends_within sent 4 (algod_call rt fut)"
proof (unfold sends_within_def, intro allI impI)
  fix w r w'
  assume "algod_call rt fut w = Some (r, w')"
  then have "call_attempts rt Algod fut MAX_RETRIES (fst w, snd w) = Some (r, fst w', snd w')"
    by (simp add: algod_call_def call_with_retry_def)
  from call_attempts_charged [OF assms this] show "sent (snd w') \<le> sent (snd w) + 4" by auto
qed

lemma within_wait_calls:
  assumes "node_sends nd sent"
  shows "sends_within sent 4 (call_node nd (nd_pending_transaction nd c t))"
    and "sends_within sent 4 (call_node nd (nd_status nd c))"
    and "sends_within sent 4 (call_node nd (nd_status_after_block nd c r))"
  using assms by (simp_all add: within_call node_sends_def del: split_paired_All)

lemma within_wait_rounds:
  "node_sends nd sent \<Longrightarrow>
     sends_within sent (8 * (unat end_round - unat current)) (wait_rounds nd client tx_id t current end_round)"
proof (induction nd client tx_id t current end_round rule: wait_rounds.induct)
  case (1 nd client tx_id t current end_round)
  show ?case
  proof (cases "current < end_round")
    case False
    then show ?thesis by (subst wait_rounds.simps) (simp add: within_base)
  next
    case True
    define k where "k = 8 * (unat end_round - unat (current + 1))"
    have b: "8 * (unat end_round - unat current) = 4 + (4 + k)"
      using True next_round_closer [OF True] by (simp add: k_def unat_next_round word_less_nat_alt)
    have ih: "sends_within sent k (wait_rounds nd client tx_id t (current + 1) end_round)"
      using 1 True by (simp add: k_def)
    have go: "sends_within sent (4 + k)
        (try_op (prefix_err ''status_after_block failed'' (call_node nd (nd_status_after_block nd client current)))
           (\<lambda>_. wait_rounds nd client tx_id t (current + 1) end_round))"
      by (intro within_try within_prefix within_wait_calls 1 ih)
    show ?thesis
      unfolding b
      by (subst wait_rounds.simps, unfold Let_def)
         (simp only: True not_True_eq_False if_False, intro within_attempt within_wait_calls 1,
          simp split: sum.split add: within_base go)
  qed
qed

text \<open>
  waiting for a confirmation is bounded: for \<open>n\<close> rounds it makes at most \<open>4 + 8 n\<close> requests, retries
  included, whatever the node answers and however the round counter wraps.\<close>

theorem confirmation_bounded:
  assumes "node_sends nd sent"
  shows "wait_for_confirmation nd tx_id n w = Some (r, w') \<longrightarrow> sent (snd w') \<le> sent (snd w) + (4 + 8 * unat n)"
proof -
  have rounds: "sends_within sent (8 * unat n) (wait_rounds nd client tx_id n start (start + n))" for client start
    by (rule within_mono [OF within_wait_rounds [OF assms]]) (simp add: unat_plus_if')
  have client: "sends_within sent 0 (algod_client nd)"
    by (auto simp: sends_within_def algod_client_def Let_def)
  have "sends_within sent (0 + (4 + 8 * unat n)) (wait_for_confirmation nd tx_id n)"
    unfolding wait_for_confirmation_def Let_def
    by (intro within_if within_base within_try client within_prefix within_wait_calls assms rounds)
  then show ?thesis using withinD by fastforce
qed

theorem confirmation_bounded_witness:
  "snd (counted 2 keyed_client, 2 :: nat) \<le> 0 + (4 + 8 * unat (10 :: u64))"
proof -
  have "node_sends confirming_node id" using confirming_node_sends by (simp add: tx_node_sends_def)
  from confirmation_bounded [OF this, of "''T''" 10 "(keyed_client, 0)" "Inr ()" "(counted 2 keyed_client, 2)"]
  show ?thesis by (simp add: confirming_wait keyed_client_def plain_client_def unthrottled_def)
qed

section \<open>The creator cache\<close>

definition same_owner :: "'e world \<Rightarrow> 'e world \<Rightarrow> bool" where
  "same_owner w w' = same_client (fst w) (fst w')"

lemma same_owner_order: "reflp same_owner" "transp same_owner"
  by (auto simp: same_owner_def reflp_def transp_def intro: same_client_trans)

lemma keeps_owner_parts:
  "keeps same_owner (apply_rate_limit rt operation)" "keeps same_owner (rt_block_on rt operation fut)"
  "keeps same_owner (pause rt d)"
  using apply_rate_limit_step [where f = "\<lambda>_. 0", of rt operation]
  by (auto simp: keeps_def same_owner_def rt_block_on_def pause_def Let_def split: prod.splits sum.splits option.splits bool.splits if_splits)

lemma keeps_owner_attempts: "keeps same_owner (call_attempts rt kind fut left)"
proof (induction left rule: less_induct)
  case (less left)
  have base: "keeps same_owner (ret x)" "keeps same_owner (fail err)" "keeps same_owner (lift q)" for x err q
    by (simp_all add: keeps_ret keeps_fail keeps_lift same_owner_order)
  show ?case
    unfolding call_attempts.simps [of rt kind fut left] Let_def map_err_def
    by (intro keeps_try keeps_attempt same_owner_order keeps_owner_parts base)
       (auto split: sum.split nat.split option.split intro!: base keeps_try keeps_owner_parts same_owner_order less.IH)
qed

lemma keeps_owner_fetch: "keeps same_owner (fetch_app_creator nd app_id)"
proof -
  have base: "keeps same_owner (lift q)" "keeps same_owner (algod_client nd)" for q
    using same_owner_order(1)
    by (auto simp: keeps_lift keeps_def algod_client_def Let_def reflp_def)
  show ?thesis
    unfolding fetch_app_creator_def prefix_err_def map_err_def to_value_def algod_call_def call_with_retry_def
    by (intro keeps_try keeps_attempt same_owner_order keeps_owner_attempts base)
qed

text \<open>
  an application's creator is read at most once: after a successful lookup, every further lookup
  of that application gives the same answer, leaves the client as it is and makes no request; a
  failed lookup is not remembered.\<close>

theorem creator_read_once:
  "(app_creator nd app_id w = Some (Inr creator, w') \<longrightarrow>
      app_creator nd app_id w' = Some (Inr creator, w')) \<and>
   (app_creator nd app_id w = Some (Inl e, w') \<longrightarrow>
      ops_app_creators (fst w') = ops_app_creators (fst w))"
proof (intro conjI impI)
  assume "app_creator nd app_id w = Some (Inr creator, w')"
  then show "app_creator nd app_id w' = Some (Inr creator, w')"
    by (auto simp: app_creator_def cached_app_creator_def try_op_Inr_iff remember_creator_def
        split: if_splits option.splits)
next
  assume "app_creator nd app_id w = Some (Inl e, w')"
  then have "w' = w \<or> fetch_app_creator nd app_id w = Some (Inl e, w')"
    by (auto simp: app_creator_def cached_app_creator_def remember_creator_def
        split: if_splits option.splits elim!: try_op_Some_cases)
  then show "ops_app_creators (fst w') = ops_app_creators (fst w)"
  proof
    assume "fetch_app_creator nd app_id w = Some (Inl e, w')"
    then have "same_owner w w'" using keeps_owner_fetch unfolding keeps_def by blast
    then show ?thesis by (simp add: same_owner_def same_client_def)
  qed simp
qed

theorem creator_read_once_witness:
  "app_creator confirming_node 5 (counted 0 calling_client, 0) = Some (Inr ''C'', counted 0 calling_client, 0)"
  using creator_read_once [of confirming_node 5 "(counted 0 calling_client, 0)" "''C''" "(counted 0 calling_client, 0)"]
  by (simp add: app_creator_def cached_app_creator_def del: counted_simps(3))

section \<open>Amounts\<close>

lemma saturate_in_range:
  assumes "0 \<le> i" and "i < 2 ^ 64"
  shows "unat (saturate_u64 i) = nat i"
proof -
  have "uint (word_of_int i :: u64) = i" using assms by (simp add: uint_word_of_int)
  then have "unat (word_of_int i :: u64) = nat i" by (simp only: unat_eq_nat_uint)
  with assms show ?thesis by (auto simp: saturate_u64_def)
qed

lemma micro_floor:
  fixes n :: nat
  assumes "n \<le> 2 ^ 50"
  defines "p \<equiv> f64_mul (f64_div (f64_of_nat n) 1000000) 1000000"
  shows "int n - 1 \<le> \<lfloor>p\<rfloor> \<and> \<lfloor>p\<rfloor> \<le> int n \<and> 0 \<le> \<lfloor>p\<rfloor>"
proof -
  define x where "x = (of_nat n :: rat)"
  have x: "0 \<le> x" "x \<le> 2 ^ 50" using of_nat_le_pow [OF assms(1)] by (simp_all add: x_def)
  define q where "q = f64_div (f64_of_nat n) 1000000"
  have q: "\<bar>q - x / 1000000\<bar> \<le> (x / 1000000) / 2 ^ 53" "0 \<le> q"
    using round64_error [of "x / 1000000"] round64_nonneg [of "x / 1000000"] assms(1) x(1)
    by (simp_all add: q_def f64_div_def x_def)
  have p: "\<bar>p - q * 1000000\<bar> \<le> (q * 1000000) / 2 ^ 53" "0 \<le> p"
    using round64_error [of "q * 1000000"] round64_nonneg [of "q * 1000000"] q(2)
    by (simp_all add: p_def q_def [symmetric] f64_mul_def)
  have "\<bar>q * 1000000 - x\<bar> = \<bar>q - x / 1000000\<bar> * 1000000" by (simp add: abs_if field_simps)
  also have "\<dots> \<le> x / 2 ^ 53" using q(1) by simp
  also have "\<dots> \<le> 1 / 8" using x(2) by simp
  finally have 1: "q * 1000000 \<le> x + 1 / 8" "x - 1 / 8 \<le> q * 1000000" unfolding abs_le_iff by linarith+
  have "(q * 1000000) / 2 ^ 53 \<le> 1 / 2" using 1(1) x(2) by simp
  with p(1) have "p - q * 1000000 \<le> 1 / 2" "q * 1000000 - p \<le> 1 / 2" unfolding abs_le_iff by linarith+
  with 1 have "x - 1 < p" "p < x + 1" by linarith+
  then show ?thesis using p(2) by (simp add: x_def floor_le_iff le_floor_iff)
qed

text \<open>
  the balance a deployment compares with its fee is the account's balance less at most one
  microALGO: it goes through a double in ALGO and back, and is rounded down, so an account that
  holds exactly the fee, 1001 microALGO for instance, is found short.\<close>

theorem deploy_balance_rounding:
  "(micro \<le> 2 ^ 50 \<longrightarrow> unat micro - 1 \<le> unat (balance_micro (f64_of_micro micro)) \<and>
      unat (balance_micro (f64_of_micro micro)) \<le> unat micro) \<and>
   balance_micro (f64_of_micro 1001) = 1000"
proof (intro conjI impI)
  assume "micro \<le> 2 ^ 50"
  then have m: "unat micro \<le> 2 ^ 50" by (simp add: word_le_nat_alt)
  let ?p = "\<lfloor>f64_mul (f64_of_micro micro) 1000000\<rfloor>"
  from micro_floor [OF m] have f: "int (unat micro) - 1 \<le> ?p" "?p \<le> int (unat micro)" "0 \<le> ?p"
    by (simp_all only: f64_of_micro_def)
  have "int (unat micro) < 2 ^ 64" using m of_nat_mono [OF m, where 'a = int] by (simp only: of_nat_power of_nat_numeral) (erule order_le_less_trans, simp)
  with f(2) have "?p < 2 ^ 64" by linarith
  then have "unat (balance_micro (f64_of_micro micro)) = nat ?p"
    unfolding balance_micro_def by (rule saturate_in_range [OF f(3)])
  then show "unat micro - 1 \<le> unat (balance_micro (f64_of_micro micro))"
    and "unat (balance_micro (f64_of_micro micro)) \<le> unat micro"
    using f by linarith+
next
  show "balance_micro (f64_of_micro 1001) = 1000"
    by (simp add: balance_micro_def f64_of_micro_def saturate_u64_def f64_eval)
qed

theorem deploy_balance_rounding_witness: "999 \<le> unat (balance_micro (f64_of_micro 1000))"
  using deploy_balance_rounding [of 1000] by simp

text \<open>
  the name of an asset reaches no transaction: creation only requires it not to be blank, and two
  names give the same requests, the same results and the same state.\<close>

theorem asset_name_unused:
  assumes "\<not> blank name" and "\<not> blank name'"
  shows "create_asset nd name units = create_asset nd name' units \<and>
    create_asset_configured nd name units m r c f = create_asset_configured nd name' units m r c f"
  using assms by (simp add: create_asset_def create_asset_configured_def)

theorem asset_name_unused_witness:
  "create_asset refusing_tx_node ''gold'' 5 = create_asset refusing_tx_node ''lead'' 5"
  using asset_name_unused [of "''gold''" "''lead''" refusing_tx_node 5]
  by (simp add: blank_def utf8_bytes_def trim_start.simps)

end
