(* ===== verification/TxConfirm.thy ===== *)
theory TxConfirm
  imports TxAccounting
begin

text \<open>
  What a successful write leaves behind. An observer of the node keeps the answers the client received,
  newest first: a transaction accepted, a group accepted, a round reported for a transaction. In those
  terms the writing operations are judged on their own transaction: the one they asked to have built,
  signed with the client's key, accepted by the node and then reported confirmed, in one run.
\<close>

section \<open>The answers of a node\<close>

datatype 'y answer = Accepted bytes string | AcceptedGroup "'y list" string | Reported string u64

text \<open>What a request adds to the answers: those of its result, unless it hangs.\<close>

definition hears_as ::
  "'e runtime \<Rightarrow> ('e \<Rightarrow> 'y answer list) \<Rightarrow> ('e, 'b) future \<Rightarrow> ('b \<Rightarrow> 'y answer list) \<Rightarrow> bool" where
  "hears_as rt heard fut ev \<longleftrightarrow>
     (\<forall>e. heard (snd (fut e)) =
        (if rt_hangs rt (snd (fut e)) then [] else case fst (fut e) of Inr v \<Rightarrow> ev v | Inl _ \<Rightarrow> []) @ heard e)"

definition deaf :: "'e runtime \<Rightarrow> ('e \<Rightarrow> 'y answer list) \<Rightarrow> bool" where
  "deaf rt heard \<longleftrightarrow>
     (\<forall>e. heard (snd (rt_instant rt e)) = heard e) \<and> (\<forall>e. heard (snd (rt_unix_secs rt e)) = heard e) \<and>
     (\<forall>d e. heard (rt_sleep rt d e) = heard e) \<and> (\<forall>e. heard (snd (rt_build rt e)) = heard e) \<and>
     (\<forall>d e. heard (snd (rt_elapses rt d e)) = heard e)"

definition hears :: "('e, 'a, 'j, 'x, 'y, 'z) tx_node_scheme \<Rightarrow> ('e \<Rightarrow> 'y answer list) \<Rightarrow> bool" where
  "hears nd heard \<longleftrightarrow> deaf (nd_rt nd) heard \<and>
     (\<forall>c a. hears_as (nd_rt nd) heard (nd_account nd c a) (\<lambda>_. [])) \<and>
     (\<forall>c i. hears_as (nd_rt nd) heard (nd_app nd c i) (\<lambda>_. [])) \<and>
     (\<forall>c i. hears_as (nd_rt nd) heard (nd_asset nd c i) (\<lambda>_. [])) \<and>
     (\<forall>c. hears_as (nd_rt nd) heard (nd_status nd c) (\<lambda>_. [])) \<and>
     (\<forall>c r. hears_as (nd_rt nd) heard (nd_status_after_block nd c r) (\<lambda>_. [])) \<and>
     (\<forall>c. hears_as (nd_rt nd) heard (nd_suggested_params nd c) (\<lambda>_. [])) \<and>
     (\<forall>c q. hears_as (nd_rt nd) heard (nd_search_for_transactions nd c q) (\<lambda>_. [])) \<and>
     (\<forall>c t x i. hears_as (nd_rt nd) heard (nd_search_for_accounts nd c t x i) (\<lambda>_. [])) \<and>
     (\<forall>c a x. hears_as (nd_rt nd) heard (nd_lookup_account_by_id nd c a x) (\<lambda>_. [])) \<and>
     (\<forall>c src. hears_as (nd_rt nd) heard (tn_teal_compile nd c src) (\<lambda>_. [])) \<and>
     (\<forall>c raw. hears_as (nd_rt nd) heard (nd_send_raw nd c raw) (\<lambda>tx_id. [Accepted raw tx_id])) \<and>
     (\<forall>c txs. hears_as (nd_rt nd) heard (tn_send_transactions nd c txs) (\<lambda>tx_id. [AcceptedGroup txs tx_id])) \<and>
     (\<forall>c t. hears_as (nd_rt nd) heard (nd_pending_transaction nd c t)
        (\<lambda>p. case pi_confirmed_round p of Some cr \<Rightarrow> [Reported t cr] | None \<Rightarrow> [])) \<and>
     (\<forall>e. heard (snd (tn_uuid nd e)) = heard e)"

lemma hearsD:
  assumes "hears nd heard"
  shows "deaf (nd_rt nd) heard" and "heard (snd (tn_uuid nd e)) = heard e"
  using assms by (simp_all add: hears_def)

lemma hears_endpoints:
  assumes "hears nd heard"
  shows "hears_as (nd_rt nd) heard (nd_account nd c a) (\<lambda>_. [])"
    and "hears_as (nd_rt nd) heard (nd_app nd c i) (\<lambda>_. [])"
    and "hears_as (nd_rt nd) heard (nd_asset nd c i) (\<lambda>_. [])"
    and "hears_as (nd_rt nd) heard (nd_status nd c) (\<lambda>_. [])"
    and "hears_as (nd_rt nd) heard (nd_status_after_block nd c r) (\<lambda>_. [])"
    and "hears_as (nd_rt nd) heard (nd_suggested_params nd c) (\<lambda>_. [])"
    and "hears_as (nd_rt nd) heard (nd_search_for_transactions nd c q) (\<lambda>_. [])"
    and "hears_as (nd_rt nd) heard (nd_search_for_accounts nd c tk x i) (\<lambda>_. [])"
    and "hears_as (nd_rt nd) heard (nd_lookup_account_by_id nd c a x) (\<lambda>_. [])"
    and "hears_as (nd_rt nd) heard (tn_teal_compile nd c src) (\<lambda>_. [])"
    and "hears_as (nd_rt nd) heard (nd_send_raw nd c raw) (\<lambda>tx_id. [Accepted raw tx_id])"
    and "hears_as (nd_rt nd) heard (tn_send_transactions nd c txs) (\<lambda>tx_id. [AcceptedGroup txs tx_id])"
    and "hears_as (nd_rt nd) heard (nd_pending_transaction nd c t) (\<lambda>p. case pi_confirmed_round p of Some cr \<Rightarrow> [Reported t cr] | None \<Rightarrow> [])"
  using assms by (simp_all add: hears_def del: split_paired_All)

section \<open>What one call hears\<close>

lemma rt_block_on_heard:
  assumes "deaf rt heard" and "hears_as rt heard fut ev"
    and "rt_block_on rt operation fut (ops, e) = Some (r, ops', e')"
  shows "ops' = ops \<and> heard e' = (case r of Inr (Inr v) \<Rightarrow> ev v | _ \<Rightarrow> []) @ heard e"
proof -
  obtain b eb where b: "rt_build rt e = (b, eb)" by (cases "rt_build rt e") auto
  then have lb: "heard eb = heard e" using assms(1) by (metis deaf_def snd_conv)
  have f: "heard e2 = (if rt_hangs rt e2 then [] else case q of Inr v \<Rightarrow> ev v | Inl _ \<Rightarrow> []) @ heard e1"
    if "fut e1 = (q, e2)" for e1 q e2
    using assms(2) that unfolding hears_as_def by (metis fst_conv snd_conv)
  have t: "heard e2 = heard e1" if "rt_elapses rt d e1 = (q, e2)" for d e1 q e2
    using assms(1) that unfolding deaf_def by (metis snd_conv)
  show ?thesis
  proof (cases "ops_timeout ops")
    case None
    with assms(3) b lb show ?thesis
      by (auto simp: rt_block_on_def f split: sum.splits prod.splits if_splits)
  next
    case (Some d)
    obtain fires et where et: "rt_elapses rt d eb = (fires, et)" by fastforce
    with Some assms(3) b lb t [OF et] show ?thesis
      by (auto simp: rt_block_on_def Let_def f split: sum.splits prod.splits if_splits bool.splits)
  qed
qed

lemma call_attempts_heard:
  assumes "deaf rt heard" and "hears_as rt heard fut ev"
    and "call_attempts rt kind fut left (ops, e) = Some (r, ops', e')"
  shows "same_client ops ops' \<and> heard e' = (case r of Inr v \<Rightarrow> ev v | Inl _ \<Rightarrow> []) @ heard e"
  using assms(3)
proof (induction left arbitrary: ops e r ops' e' rule: less_induct)
  case (less left)
  let ?op = "call_operation kind"
  have q: "\<And>e. heard (snd (rt_instant rt e)) = heard e" "\<And>d e. heard (rt_sleep rt d e) = heard e"
    "\<And>e. heard (snd (rt_unix_secs rt e)) = heard e"
    using assms(1) by (simp_all add: deaf_def)
  from less.prems show ?case
    unfolding call_attempts.simps [of rt kind fut left] Let_def
  proof (cases rule: try_op_Some_cases)
    case (err x)
    from apply_rate_limit_step [where f = heard, OF err(1) q] err(2) show ?thesis by simp
  next
    case (ok u w1)
    obtain ops1 e1 where w1: "w1 = (ops1, e1)" by (cases w1) auto
    have g: "same_client ops ops1" "heard e1 = heard e"
      using apply_rate_limit_step [where f = heard, OF ok(1) [unfolded w1] q] by auto
    from ok(2) [unfolded w1] show ?thesis
    proof (cases rule: try_op_Some_cases)
      case (err x)
      then obtain x1 where "rt_block_on rt ?op fut (ops1, e1) = Some (Inl x1, ops', e')"
        by (auto simp: map_err_def rmap_err_def split: sum.splits elim!: attempt_Some_cases)
      from rt_block_on_heard [OF assms(1,2) this] g err(2) show ?thesis by simp
    next
      case (ok res w2)
      obtain ops2 e2 where w2: "w2 = (ops2, e2)" by (cases w2) auto
      with ok(1) have "rt_block_on rt ?op fut (ops1, e1) = Some (Inr res, ops2, e2)"
        by (auto simp: map_err_def elim!: attempt_Some_cases)
      from rt_block_on_heard [OF assms(1,2) this]
      have b: "ops2 = ops1" "heard e2 = (case res of Inr v \<Rightarrow> ev v | Inl _ \<Rightarrow> []) @ heard e1" by auto
      show ?thesis
      proof (cases "\<exists>x l. res = Inl x \<and> left = Suc l \<and> is_retryable_for kind x")
        case False
        with ok(2) w2 have "ops' = ops2" "e' = e2" "r = Inl x \<Longrightarrow> \<exists>y. res = Inl y" "r = Inr v \<Longrightarrow> res = Inr v" for x v
          by (auto split: sum.splits nat.splits if_splits option.splits)
        with b g show ?thesis by (cases r) auto
      next
        case True
        then obtain x l where x: "res = Inl x" "left = Suc l" "is_retryable_for kind x" by blast
        with ok(2) w2 have "call_attempts rt kind fut l (ops2, rt_sleep rt (from_millis (RETRY_BASE_MS * 2 ^ (MAX_RETRIES - left))) e2)
            = Some (r, ops', e')" by (simp add: try_op_def pause_def)
        from less.IH [OF _ this] x(2) have k: "same_client ops2 ops'"
          "heard e' = (case r of Inr v \<Rightarrow> ev v | Inl _ \<Rightarrow> []) @ heard e2"
          by (auto simp: q(2))
        have "same_client ops ops'" using g(1) k(1) b(1) same_client_trans by blast
        with b g x(1) k(2) show ?thesis by simp
      qed
    qed
  qed
qed

lemma call_heard:
  assumes "deaf rt heard" and "hears_as rt heard fut ev"
  shows "algod_call rt fut w = Some (r, w') \<Longrightarrow>
      same_client (fst w) (fst w') \<and> heard (snd w') = (case r of Inr v \<Rightarrow> ev v | Inl _ \<Rightarrow> []) @ heard (snd w)"
    and "indexer_call rt fut w = Some (r, w') \<Longrightarrow>
      same_client (fst w) (fst w') \<and> heard (snd w') = (case r of Inr v \<Rightarrow> ev v | Inl _ \<Rightarrow> []) @ heard (snd w)"
  using call_attempts_heard [OF assms, of _ MAX_RETRIES "fst w" "snd w" r "fst w'" "snd w'"]
  by (simp_all add: algod_call_def indexer_call_def call_with_retry_def)

section \<open>Runs\<close>

text \<open>A run adds answers and keeps who the client is; a run that only reads adds none.\<close>

definition same_holder :: "algo_ops \<Rightarrow> algo_ops \<Rightarrow> bool" where
  "same_holder ops ops' \<longleftrightarrow> ops_address ops' = ops_address ops \<and> ops_passphrase ops' = ops_passphrase ops"

definition grows :: "('e \<Rightarrow> 'y answer list) \<Rightarrow> 'e world \<Rightarrow> 'e world \<Rightarrow> bool" where
  "grows heard w w' \<longleftrightarrow> same_holder (fst w) (fst w') \<and> (\<exists>xs. heard (snd w') = xs @ heard (snd w))"

definition hush :: "('e \<Rightarrow> 'y answer list) \<Rightarrow> 'e world \<Rightarrow> 'e world \<Rightarrow> bool" where
  "hush heard w w' \<longleftrightarrow> same_holder (fst w) (fst w') \<and> heard (snd w') = heard (snd w)"

lemma run_orders [simp, intro]:
  "reflp (grows heard)" "transp (grows heard)" "reflp (hush heard)" "transp (hush heard)"
  by (auto simp: grows_def hush_def same_holder_def reflp_def transp_def)

lemma hush_grows: "hush heard w w' \<Longrightarrow> grows heard w w'"
  by (simp add: hush_def grows_def)

lemma keeps_grows: "keeps (hush heard) m \<Longrightarrow> keeps (grows heard) m"
  unfolding keeps_def using hush_grows by blast

lemma same_client_holder: "same_client ops ops' \<Longrightarrow> same_holder ops ops'"
  by (simp add: same_client_def same_holder_def)

lemma call_grows:
  assumes "deaf rt heard" and "hears_as rt heard fut ev"
  shows "keeps (grows heard) (algod_call rt fut)" and "keeps (grows heard) (indexer_call rt fut)"
  using call_heard [OF assms] by (auto simp: keeps_def grows_def intro!: same_client_holder)

lemma call_hush:
  assumes "deaf rt heard" and "hears_as rt heard fut (\<lambda>_. [])"
  shows "keeps (hush heard) (algod_call rt fut)"
  using call_heard [OF assms] by (auto simp: keeps_def hush_def split: sum.splits intro!: same_client_holder)

lemma tx_node_grows:
  assumes "hears nd heard"
  shows "tx_node_keeps nd (grows heard)"
proof -
  have u: "keeps (grows heard) (unique_note nd)"
    using hearsD(2) [OF assms]
    by (auto simp: keeps_def unique_note_def grows_def same_holder_def split: prod.splits) (metis append_Nil snd_conv)
  have r: "keeps (grows heard) (remember_creator i s)" for i s
    by (auto simp: keeps_def remember_creator_def grows_def same_holder_def)
  note e = hears_endpoints [OF assms] and d = hearsD(1) [OF assms]
  show ?thesis
    using u r by (simp add: tx_node_keeps_def node_keeps_def e [THEN call_grows(1) [OF d]] e [THEN call_grows(2) [OF d]]
        del: split_paired_All)
qed

section \<open>One's own transaction, confirmed\<close>

definition built :: "('e, 'a, 'j, 'x, 'y, 'z) tx_node_scheme \<Rightarrow> 'a tx_request \<Rightarrow> 'x \<Rightarrow> bool" where
  "built nd req tx \<longleftrightarrow> (\<exists>nt fee params. tn_build nd req nt fee params = Inr tx)"

definition own_key :: "('e, 'a, 'j, 'x, 'y, 'z) tx_node_scheme \<Rightarrow> algo_ops \<Rightarrow> bytes \<Rightarrow> bool" where
  "own_key nd ops sk \<longleftrightarrow> private_key_bytes (tn_crypto nd) (nd_b64 nd) ops = Inr sk"

definition own_address :: "('e, 'a, 'j, 'z) node_scheme \<Rightarrow> algo_ops \<Rightarrow> 'a \<Rightarrow> bool" where
  "own_address nd ops sender \<longleftrightarrow> (\<exists>addr. ops_address ops = Some addr \<and> parse_address nd addr = Inr sender)"

text \<open>The bytes of a request built, signed with the client's key and encoded.\<close>

definition signed_bytes ::
  "('e, 'a, 'j, 'x, 'y, 'z) tx_node_scheme \<Rightarrow> algo_ops \<Rightarrow> 'a tx_request \<Rightarrow> bytes \<Rightarrow> bool" where
  "signed_bytes nd ops req raw \<longleftrightarrow>
     (\<exists>sk tx stx. own_key nd ops sk \<and> built nd req tx \<and> tn_sign nd sk tx = Inr stx \<and> tn_to_msg_pack nd stx = Inr raw)"

text \<open>
  Between the two worlds the node accepted, under \<open>tx_id\<close>, the client's own transaction, and after that
  reported \<open>tx_id\<close> in a positive round.
\<close>

definition confirms ::
  "('e, 'a, 'j, 'x, 'y, 'z) tx_node_scheme \<Rightarrow> ('e \<Rightarrow> 'y answer list) \<Rightarrow> ('a \<Rightarrow> 'a tx_request \<Rightarrow> bool) \<Rightarrow>
     string \<Rightarrow> 'e world \<Rightarrow> 'e world \<Rightarrow> bool" where
  "confirms nd heard Q tx_id w w' \<longleftrightarrow>
     (\<exists>sender req raw cr before between later.
        own_address nd (fst w) sender \<and> Q sender req \<and> signed_bytes nd (fst w) req raw \<and> 0 < cr \<and>
        heard (snd w') = later @ Reported tx_id cr # between @ Accepted raw tx_id # before @ heard (snd w))"

lemma confirms_later:
  assumes "confirms nd heard Q tx_id w w1" and "grows heard w1 w2"
  shows "confirms nd heard Q tx_id w w2"
proof -
  from assms(2) obtain xs where "heard (snd w2) = xs @ heard (snd w1)" by (auto simp: grows_def)
  moreover from assms(1) obtain sender req raw cr before between later where
    "own_address nd (fst w) sender" "Q sender req" "signed_bytes nd (fst w) req raw" "0 < cr"
    "heard (snd w1) = later @ Reported tx_id cr # between @ Accepted raw tx_id # before @ heard (snd w)"
    by (auto simp: confirms_def)
  ultimately show ?thesis
    unfolding confirms_def
    by (intro exI [of _ sender] exI [of _ req] exI [of _ raw] exI [of _ cr] exI [of _ before] exI [of _ between]
        exI [of _ "xs @ later"]) simp
qed

section \<open>Rules for runs\<close>

text \<open>\<open>m\<close>, begun at a world the run from \<open>w\<close> has reached, succeeds only with \<open>P\<close>.\<close>

definition leads :: "('e \<Rightarrow> 'y answer list) \<Rightarrow> 'e world \<Rightarrow> ('b \<Rightarrow> 'e world \<Rightarrow> bool) \<Rightarrow> ('e world, 'b) op \<Rightarrow> bool" where
  "leads heard w P m \<longleftrightarrow> (\<forall>w1 r w'. grows heard w w1 \<longrightarrow> m w1 = Some (Inr r, w') \<longrightarrow> P r w')"

lemma leadsD: "leads heard w P m \<Longrightarrow> m w = Some (Inr r, w') \<Longrightarrow> P r w'"
  unfolding leads_def by (metis reflpD run_orders(1))

lemma leads_mono: "leads heard w P m \<Longrightarrow> (\<And>r w'. P r w' \<Longrightarrow> P' r w') \<Longrightarrow> leads heard w P' m"
  unfolding leads_def by blast

named_theorems leads_intros \<open>rules that follow a run to the submission of its transaction\<close>

lemma leads_fail [leads_intros]: "leads heard w P (fail e)"
  by (simp add: leads_def)

lemma leads_if [leads_intros]:
  "(b \<Longrightarrow> leads heard w P m) \<Longrightarrow> (\<not> b \<Longrightarrow> leads heard w P m') \<Longrightarrow> leads heard w P (if b then m else m')"
  by simp

lemma leads_option [leads_intros]:
  "(x = None \<Longrightarrow> leads heard w P m) \<Longrightarrow> (\<And>v. x = Some v \<Longrightarrow> leads heard w P (f v)) \<Longrightarrow>
     leads heard w P (case x of None \<Rightarrow> m | Some v \<Rightarrow> f v)"
  by (cases x) auto

lemma leads_prod [leads_intros]: "(\<And>x y. leads heard w P (f x y)) \<Longrightarrow> leads heard w P (case z of (x, y) \<Rightarrow> f x y)"
  by (cases z) simp

lemma leads_seq:
  assumes "leads heard w P m" and "keeps (grows heard) m" and "\<And>x w1. P x w1 \<Longrightarrow> leads heard w P' (f x)"
  shows "leads heard w P' (try_op m f)"
  unfolding leads_def
proof (intro allI impI)
  fix w1 r w'
  assume g: "grows heard w w1" and "try_op m f w1 = Some (Inr r, w')"
  then obtain x w2 where m: "m w1 = Some (Inr x, w2)" and f: "f x w2 = Some (Inr r, w')" by (auto simp: try_op_Inr_iff)
  have "grows heard w w2" using keepsD [OF assms(2) m] g by (rule transpD [OF run_orders(2), rotated])
  moreover have "P x w2" using assms(1) g m unfolding leads_def by blast
  ultimately show "P' r w'" using assms(3) f unfolding leads_def by blast
qed

lemma leads_step: "keeps (grows heard) m \<Longrightarrow> (\<And>x. leads heard w P (f x)) \<Longrightarrow> leads heard w P (try_op m f)"
  by (rule leads_seq [where P = "\<lambda>_ _. True"]) (simp_all add: leads_def)

lemma leads_lift [leads_intros]:
  "(\<And>x. q = Inr x \<Longrightarrow> leads heard w P (f x)) \<Longrightarrow> leads heard w P (try_op (lift q) f)"
  by (rule leads_seq [where P = "\<lambda>x _. q = Inr x"]) (auto simp: leads_def keeps_lift)

lemma leads_address [leads_intros]:
  assumes "\<And>x. own_address nd (fst w) x \<Longrightarrow> leads heard w P (f x)"
  shows "leads heard w P (try_op (require_address nd) f)"
proof (rule leads_seq)
  show "leads heard w (\<lambda>x _. own_address nd (fst w) x) (require_address nd)"
    by (auto simp: leads_def grows_def same_holder_def require_address_def own_address_def split: option.splits)
  show "keeps (grows heard) (require_address nd)" by (rule keeps_clients) simp
qed (rule assms)

lemma leads_address_str [leads_intros]:
  assumes "\<And>x. ops_address (fst w) = Some x \<Longrightarrow> leads heard w P (f x)"
  shows "leads heard w P (try_op address_str f)"
proof (rule leads_seq)
  show "leads heard w (\<lambda>x _. ops_address (fst w) = Some x) address_str"
    by (auto simp: leads_def grows_def same_holder_def address_str_def split: option.splits)
  show "keeps (grows heard) address_str" by (rule keeps_clients) simp
qed (rule assms)

lemma leads_key [leads_intros]:
  assumes "\<And>x. own_key nd (fst w) x \<Longrightarrow> leads heard w P (f x)"
  shows "leads heard w P (try_op (secret_key nd) f)"
proof (rule leads_seq)
  show "leads heard w (\<lambda>x _. own_key nd (fst w) x) (secret_key nd)"
    by (auto simp: leads_def grows_def same_holder_def secret_key_def own_key_def private_key_bytes_def split: option.splits)
  show "keeps (grows heard) (secret_key nd)" by (rule keeps_secret_key) simp
qed (rule assms)

lemma leads_client [leads_intros]:
  "(\<And>c. leads heard w P (f c)) \<Longrightarrow> leads heard w P (try_op (algod_client nd) f)"
  by (rule leads_step) (auto intro: keeps_clients)

lemma leads_build:
  assumes "hears nd heard" and "\<And>tx. built nd req tx \<Longrightarrow> leads heard w P (f tx)"
  shows "leads heard w P (try_op (build_tx nd what req fee params) f)"
proof (rule leads_seq)
  show "leads heard w (\<lambda>tx _. built nd req tx) (build_tx nd what req fee params)"
    by (auto simp: leads_def build_tx_def built_def try_op_Inr_iff)
  show "keeps (grows heard) (build_tx nd what req fee params)" by (rule keeps_build [OF tx_node_grows [OF assms(1)]])
qed (rule assms(2))

section \<open>Submission and confirmation\<close>

lemma call_success_heard:
  assumes "hears nd heard" and "hears_as (nd_rt nd) heard fut ev" and "call_node nd fut w = Some (Inr v, w')"
  shows "heard (snd w') = ev v @ heard (snd w)"
  using call_heard(1) [OF hearsD(1) [OF assms(1)] assms(2,3)] by simp

lemma wait_rounds_heard:
  "hears nd heard \<Longrightarrow> wait_rounds nd client tx_id t current end_round w = Some (Inr u, w') \<Longrightarrow>
    \<exists>cr xs. 0 < cr \<and> heard (snd w') = Reported tx_id cr # xs @ heard (snd w)"
proof (induction nd client tx_id t current end_round arbitrary: w rule: wait_rounds.induct)
  case (1 nd client tx_id t current end_round)
  note h = 1(2)
  show ?case
  proof (cases "current < end_round")
    case False
    with 1(3) show ?thesis by (simp add: wait_rounds.simps)
  next
    case True
    let ?go = "try_op (prefix_err ''status_after_block failed'' (call_node nd (nd_status_after_block nd client current)))
              (\<lambda>_. wait_rounds nd client tx_id t (current + 1) end_round)"
    from 1(3) True obtain r w1 where c: "call_node nd (nd_pending_transaction nd client tx_id) w = Some (r, w1)"
      and f: "(case r of
               Inr p \<Rightarrow>
                 if (case pi_confirmed_round p of Some cr \<Rightarrow> 0 < cr | None \<Rightarrow> False) then ret ()
                 else if pi_pool_error p \<noteq> []
                 then fail (Msg (''Transaction rejected with pool error: '' @ pi_pool_error p))
                 else ?go
             | Inl e \<Rightarrow>
                 if is_host_unreachable (Msg (any_display e))
                 then fail (Typed (algo_unreachable ''pending_transaction'' (any_display e)))
                 else ?go) w1 = Some (Inr u, w')"
      by (subst (asm) wait_rounds.simps) (auto simp: Let_def elim!: attempt_Some_cases)
    have k: "keeps (grows heard) (call_node nd (nd_pending_transaction nd client tx_id))"
      "keeps (grows heard) (prefix_err ''status_after_block failed'' (call_node nd (nd_status_after_block nd client current)))"
      by (intro keeps_intros; (rule node_keeps_of_tx [OF tx_node_grows [OF h]])?)+
    from keepsD [OF k(1) c] obtain ys where ys: "heard (snd w1) = ys @ heard (snd w)" by (auto simp: grows_def)
    have go: ?thesis if "?go w1 = Some (Inr u, w')"
    proof -
      from that obtain v w2 where
        s: "prefix_err ''status_after_block failed'' (call_node nd (nd_status_after_block nd client current)) w1 = Some (Inr v, w2)"
        and n: "wait_rounds nd client tx_id t (current + 1) end_round w2 = Some (Inr u, w')"
        by (auto simp: try_op_Inr_iff)
      from keepsD [OF k(2) s] obtain zs where zs: "heard (snd w2) = zs @ heard (snd w1)" by (auto simp: grows_def)
      have "\<exists>cr xs. 0 < cr \<and> heard (snd w') = Reported tx_id cr # xs @ heard (snd w2)"
        using 1(1) True h n by blast
      with ys zs show ?thesis by auto
    qed
    show ?thesis
    proof (cases "\<exists>p cr. r = Inr p \<and> pi_confirmed_round p = Some cr \<and> 0 < cr")
      case True
      then obtain p cr where p: "r = Inr p" "pi_confirmed_round p = Some cr" "0 < cr" by blast
      with f have "w1 = w'" by simp
      with call_success_heard [OF h hears_endpoints(13) [OF h] c [unfolded p(1)]] p show ?thesis by auto
    next
      case False
      with f have "?go w1 = Some (Inr u, w')" by (auto split: sum.splits if_splits option.splits)
      then show ?thesis by (rule go)
    qed
  qed
qed

lemma wait_heard:
  assumes "hears nd heard" and "wait_for_confirmation nd tx_id n w = Some (Inr u, w')"
  shows "\<exists>cr xs. 0 < cr \<and> heard (snd w') = Reported tx_id cr # xs @ heard (snd w)"
proof -
  let ?status = "\<lambda>c. prefix_err ''failed to get node status'' (call_node nd (nd_status nd c))"
  from assms(2) obtain c w1 l w2 current end_round where
    c: "algod_client nd w = Some (Inr c, w1)" and l: "?status c w1 = Some (Inr l, w2)"
    and r: "wait_rounds nd c tx_id n current end_round w2 = Some (Inr u, w')"
    by (auto simp: wait_for_confirmation_def try_op_Inr_iff Let_def split: if_splits)
  have k: "keeps (grows heard) (algod_client nd)" "keeps (grows heard) (?status c)"
    by (intro keeps_intros; (rule node_keeps_of_tx [OF tx_node_grows [OF assms(1)]])?)+
  from keepsD [OF k(1) c] keepsD [OF k(2) l] obtain xs where "heard (snd w2) = xs @ heard (snd w)"
    by (auto simp: grows_def)
  with wait_rounds_heard [OF assms(1) r] show ?thesis by auto
qed

lemma submitted_heard:
  assumes "hears nd heard" and "submit_and_wait nd client sk what tx w = Some (Inr tx_id, w')"
  shows "\<exists>stx raw cr between. tn_sign nd sk tx = Inr stx \<and> tn_to_msg_pack nd stx = Inr raw \<and> 0 < cr \<and>
    heard (snd w') = Reported tx_id cr # between @ Accepted raw tx_id # heard (snd w)"
proof -
  from assms(2) obtain w1 where s: "sign_and_send nd client sk what tx w = Some (Inr tx_id, w1)"
    and c: "wait_for_confirmation nd tx_id 10 w1 = Some (Inr (), w')"
    by (auto simp: submit_and_wait_def try_op_Inr_iff)
  from s obtain stx raw where stx: "tn_sign nd sk tx = Inr stx" "tn_to_msg_pack nd stx = Inr raw"
    and p: "prefix_err ''send_raw failed'' (call_node nd (nd_send_raw nd client raw)) w = Some (Inr tx_id, w1)"
    by (auto simp: sign_and_send_def try_op_Inr_iff array32_def split: if_splits)
  from call_success_heard [OF assms(1) hears_endpoints(11) [OF assms(1)] prefix_err_value [OF p]]
  have "heard (snd w1) = Accepted raw tx_id # heard (snd w)" by simp
  with wait_heard [OF assms(1) c] stx show ?thesis by auto
qed

lemma submitted_confirms:
  assumes "hears nd heard" and "own_address nd (fst w) sender" and "Q sender req" and "own_key nd (fst w) sk"
    and "built nd req tx" and "grows heard w w1" and "submit_and_wait nd client sk what tx w1 = Some (Inr tx_id, w2)"
  shows "confirms nd heard Q tx_id w w2"
proof -
  from submitted_heard [OF assms(1,7)] obtain stx raw cr between where
    stx: "tn_sign nd sk tx = Inr stx" "tn_to_msg_pack nd stx = Inr raw" and cr: "0 < cr"
    and l: "heard (snd w2) = Reported tx_id cr # between @ Accepted raw tx_id # heard (snd w1)" by blast
  from assms(6) obtain before where b: "heard (snd w1) = before @ heard (snd w)" by (auto simp: grows_def)
  have "signed_bytes nd (fst w) req raw" using stx assms(4,5) unfolding signed_bytes_def by blast
  with assms(2,3) cr l b show ?thesis
    unfolding confirms_def
    by (intro exI [of _ sender] exI [of _ req] exI [of _ raw] exI [of _ cr] exI [of _ before] exI [of _ between]
        exI [of _ "[]"]) simp
qed

lemma leads_submit:
  assumes "hears nd heard" and "own_address nd (fst w) sender" and "Q sender req" and "own_key nd (fst w) sk"
    and "built nd req tx"
    and "\<And>tx_id w2. confirms nd heard Q tx_id w w2 \<Longrightarrow> (\<And>r w'. f tx_id w2 = Some (Inr r, w') \<Longrightarrow> P r w')"
  shows "leads heard w P (try_op (submit_and_wait nd client sk what tx) f)"
  unfolding leads_def
proof (intro allI impI)
  fix w1 r w'
  assume g: "grows heard w w1" and "try_op (submit_and_wait nd client sk what tx) f w1 = Some (Inr r, w')"
  then obtain tx_id w2 where s: "submit_and_wait nd client sk what tx w1 = Some (Inr tx_id, w2)"
    and f: "f tx_id w2 = Some (Inr r, w')" by (auto simp: try_op_Inr_iff)
  from assms(6) [OF submitted_confirms [where Q = Q, OF assms(1-5) g s] f] show "P r w'" .
qed

lemma leads_submit_keeps:
  assumes "hears nd heard" and "own_address nd (fst w) sender" and "Q sender req" and "own_key nd (fst w) sk"
    and "built nd req tx" and "\<And>tx_id. keeps (grows heard) (f tx_id)"
  shows "leads heard w (\<lambda>_ w'. \<exists>tx_id. confirms nd heard Q tx_id w w')
    (try_op (submit_and_wait nd client sk what tx) f)"
proof (rule leads_submit [where Q = Q, OF assms(1-5)])
  fix tx_id w2 r w'
  assume "confirms nd heard Q tx_id w w2" and "f tx_id w2 = Some (Inr r, w')"
  with confirms_later keepsD [OF assms(6)] show "\<exists>tx_id. confirms nd heard Q tx_id w w'" by blast
qed

section \<open>The writes\<close>

definition writes_own ::
  "('e, 'a, 'j, 'x, 'y, 'z) tx_node_scheme \<Rightarrow> ('e \<Rightarrow> 'y answer list) \<Rightarrow> ('a \<Rightarrow> 'a tx_request \<Rightarrow> bool) \<Rightarrow>
     ('e world, 'b) op \<Rightarrow> bool" where
  "writes_own nd heard Q m \<longleftrightarrow>
     (\<forall>w r w'. m w = Some (Inr r, w') \<longrightarrow> (\<exists>tx_id. confirms nd heard Q tx_id w w'))"

lemma writes_ownI:
  assumes "\<And>w. leads heard w (\<lambda>_ w'. \<exists>tx_id. confirms nd heard Q tx_id w w') m"
  shows "writes_own nd heard Q m"
  unfolding writes_own_def
proof (intro allI impI)
  fix w r w'
  assume "m w = Some (Inr r, w')"
  from leadsD [OF assms this] show "\<exists>tx_id. confirms nd heard Q tx_id w w'" .
qed

lemma leads_params:
  assumes "hears nd heard" and "\<And>params. leads heard w P (f params)"
  shows "leads heard w P (try_op (fetch_params nd client) f)"
  by (rule leads_step [OF keeps_params [OF node_keeps_of_tx [OF tx_node_grows [OF assms(1)]]] assms(2)])

lemma leads_asset:
  assumes "hears nd heard" and "\<And>v. leads heard w P (f v)"
  shows "leads heard w P (try_op (fetch_asset nd client i what) f)"
  by (rule leads_step [OF keeps_fetch_asset [OF node_keeps_of_tx [OF tx_node_grows [OF assms(1)]]] assms(2)])

lemma leads_submit_ret:
  assumes "hears nd heard" and "own_address nd (fst w) sender" and "own_key nd (fst w) sk" and "built nd req tx"
    and "Q sender req"
  shows "leads heard w (\<lambda>_ w'. \<exists>tx_id. confirms nd heard Q tx_id w w')
    (try_op (submit_and_wait nd client sk what tx) (\<lambda>_. ret x))"
  by (rule leads_submit_keeps [where Q = Q, OF assms(1,2,5,3,4)]) (simp add: keeps_ret)

text \<open>The requests, read off the arguments of the operations.\<close>

definition pays :: "('e, 'a, 'j, 'z) node_scheme \<Rightarrow> string \<Rightarrow> u64 \<Rightarrow> 'a \<Rightarrow> 'a tx_request \<Rightarrow> bool" where
  "pays nd to micro sender req \<longleftrightarrow> (\<exists>dest. parse_address nd to = Inr dest \<and> req = TxPay sender dest micro)"

definition transfers :: "('e, 'a, 'j, 'z) node_scheme \<Rightarrow> u64 \<Rightarrow> u64 \<Rightarrow> string \<Rightarrow> 'a \<Rightarrow> 'a tx_request \<Rightarrow> bool" where
  "transfers nd asset n to sender req \<longleftrightarrow>
     (\<exists>dest. parse_address nd to = Inr dest \<and> req = TxTransferAsset sender asset n dest)"

definition creates_for ::
  "('e, 'a, 'j, 'z) node_scheme \<Rightarrow> u64 \<Rightarrow> string \<Rightarrow> string \<Rightarrow> string \<Rightarrow> string \<Rightarrow> 'a \<Rightarrow> 'a tx_request \<Rightarrow> bool" where
  "creates_for nd units manager reserve clawback freeze sender req \<longleftrightarrow>
     (\<exists>m r c f. parse_address nd manager = Inr m \<and> parse_address nd reserve = Inr r \<and>
        parse_address nd clawback = Inr c \<and> parse_address nd freeze = Inr f \<and>
        req = TxCreateAsset sender units m r c (Some f))"

definition reserves :: "('e, 'a, 'j, 'z) node_scheme \<Rightarrow> u64 \<Rightarrow> string \<Rightarrow> 'a \<Rightarrow> 'a tx_request \<Rightarrow> bool" where
  "reserves nd asset addr sender req \<longleftrightarrow>
     (\<exists>a. parse_address nd addr = Inr a \<and> req = TxUpdateAsset sender asset sender a a)"

lemma own_send_algo:
  assumes "hears nd heard"
  shows "leads heard w (\<lambda>_ w'. \<exists>tx_id. confirms nd heard (pays nd to (micro_of_algos amount)) tx_id w w')
    (send_algo nd to amount)"
  unfolding send_algo_def pays_def
  by (rule leads_intros leads_build [OF assms] leads_params [OF assms] leads_asset [OF assms] leads_submit_ret [OF assms]
      | assumption | blast)+

lemma own_send_asset:
  assumes "hears nd heard"
  shows "leads heard w (\<lambda>_ w'. \<exists>tx_id. confirms nd heard (transfers nd asset n to) tx_id w w') (send_asset nd asset n to)"
  unfolding send_asset_def transfers_def
  by (rule leads_intros leads_build [OF assms] leads_params [OF assms] leads_asset [OF assms] leads_submit_ret [OF assms]
      | assumption | blast)+

lemma own_opt_in_to_asset:
  assumes "hears nd heard"
  shows "leads heard w (\<lambda>_ w'. \<exists>tx_id. confirms nd heard (\<lambda>sender req. req = TxTransferAsset sender asset 0 sender) tx_id w w')
    (opt_in_to_asset nd asset)"
  unfolding opt_in_to_asset_def
  by (rule leads_intros leads_build [OF assms] leads_params [OF assms] leads_asset [OF assms] leads_submit_ret [OF assms]
      | assumption | blast)+

lemma own_lifecycle:
  assumes "hears nd heard"
  shows "leads heard w (\<lambda>_ w'. \<exists>tx_id. confirms nd heard (\<lambda>sender req. req = mk sender) tx_id w w') (lifecycle nd what mk)"
  unfolding lifecycle_def
  by (rule leads_intros leads_build [OF assms] leads_params [OF assms] leads_asset [OF assms] leads_submit_ret [OF assms]
      | assumption | blast)+

lemma own_update_app:
  assumes "hears nd heard"
  shows "leads heard w (\<lambda>_ w'. \<exists>tx_id. confirms nd heard (\<lambda>sender req. req =
      TxUpdateApplication sender app approval clear (map_option (\<lambda>aid. [aid]) asset)) tx_id w w')
    (update_app nd app approval clear asset)"
  unfolding update_app_def
  by (rule leads_intros leads_build [OF assms] leads_params [OF assms] leads_asset [OF assms] leads_submit_ret [OF assms]
      | assumption | blast)+

lemma own_set_clawback:
  assumes "hears nd heard"
  shows "leads heard w (\<lambda>_ w'. \<exists>tx_id. confirms nd heard (\<lambda>sender req. \<exists>addr. contract_address (tn_crypto nd) app = Inr addr \<and>
      reserves nd asset addr sender req) tx_id w w')
    (set_asset_clawback_to_app nd app asset)"
  unfolding set_asset_clawback_to_app_def reserves_def
  by (rule leads_intros leads_build [OF assms] leads_params [OF assms] leads_asset [OF assms] leads_submit_ret [OF assms]
      | assumption | blast)+

lemma leads_submit_then:
  assumes "hears nd heard" and "\<And>tx_id. keeps (grows heard) (f tx_id)"
    and "own_address nd (fst w) sender" and "own_key nd (fst w) sk" and "built nd req tx" and "Q sender req"
  shows "leads heard w (\<lambda>_ w'. \<exists>tx_id. confirms nd heard Q tx_id w w')
    (try_op (submit_and_wait nd client sk what tx) f)"
  by (rule leads_submit_keeps [where Q = Q, OF assms(1,3,6,4,5,2)])

lemma own_create_asset:
  assumes "hears nd heard"
  shows "leads heard w (\<lambda>_ w'. \<exists>tx_id. confirms nd heard
      (\<lambda>sender req. req = TxCreateAsset sender units sender sender sender None) tx_id w w') (create_asset nd name units)"
  unfolding create_asset_def
  by (rule leads_intros leads_build [OF assms] leads_params [OF assms]
        leads_submit_then [OF assms keeps_created_asset [OF node_keeps_of_tx [OF tx_node_grows [OF assms]]]]
      | assumption | blast)+

lemma own_create_configured:
  assumes "hears nd heard"
  shows "leads heard w (\<lambda>_ w'. \<exists>tx_id. confirms nd heard (creates_for nd units m r c f) tx_id w w')
    (create_asset_configured nd name units m r c f)"
  unfolding create_asset_configured_def creates_for_def
  by (rule leads_intros leads_build [OF assms] leads_params [OF assms]
        leads_submit_then [OF assms keeps_created_asset [OF node_keeps_of_tx [OF tx_node_grows [OF assms]]]]
      | assumption | blast)+

lemma own_create_reserve:
  assumes "hears nd heard"
  shows "leads heard w (\<lambda>_ w'. \<exists>tx_id addr own.
      contract_address (tn_crypto nd) app = Inr addr \<and> ops_address (fst w) = Some own \<and>
      confirms nd heard (creates_for nd units own addr addr own) tx_id w w')
    (create_asset_with_reserve_app nd name units app)"
  unfolding create_asset_with_reserve_app_def
  by (rule leads_intros)+ (rule leads_mono [OF own_create_configured [OF assms]], blast)

lemma own_change_reserve:
  assumes "hears nd heard"
  shows "leads heard w (\<lambda>_ w'. \<exists>tx_id. confirms nd heard (reserves nd asset reserve) tx_id w w')
    (change_asset_reserve_address nd asset reserve)"
proof -
  note g = tx_node_grows [OF assms]
  have k: "keeps (grows heard) (try_op (prefix_err ''failed to fetch creator account information''
                   (call_node nd (nd_account nd client signer))) (\<lambda>acct_info.
          try_op (to_value ''creator account info'' (ai_json acct_info)) (\<lambda>va.
          let creator_amount = parse_holding_amount_from_account_value (nd_json nd) va asset
          in if creator_amount = 0 then ret ()
             else
               try_op (is_account_opted_in_to_asset nd reserve asset) (\<lambda>opted_in.
               if \<not> opted_in
               then fail (Msg (''new reserve address is not opted-in to asset '' @ show_nat (unat asset)))
               else send_asset nd asset creator_amount reserve))))" for client signer
    unfolding Let_def by (intro keeps_intros; (rule g node_keeps_of_tx [OF g])?)
  show ?thesis
    unfolding change_asset_reserve_address_def reserves_def
    by (rule leads_intros leads_build [OF assms] leads_params [OF assms] leads_asset [OF assms]
          leads_submit_then [OF assms k] | assumption | (simp; blast))+
qed

section \<open>Application calls\<close>

text \<open>What a call asks for: the sender, the application, the extra accounts and its creator, the framed arguments.\<close>

definition calls ::
  "('e, 'a, 'j, 'x, 'y, 'z) tx_node_scheme \<Rightarrow> u64 \<Rightarrow> u64 option \<Rightarrow> u64 list \<Rightarrow> string list \<Rightarrow> string option \<Rightarrow> app_arg list \<Rightarrow>
     'a \<Rightarrow> 'a tx_request \<Rightarrow> bool" where
  "calls nd app asset fapps accts method args sender req \<longleftrightarrow>
     (\<exists>as creator. collect_results (parse_address nd) accts = Inr as \<and>
        req = TxCallApplication sender app (as @ [creator]) (call_args (tn_crypto nd) method args)
          (map_option (\<lambda>aid. [aid]) asset) (if fapps \<noteq> [] then Some fapps else None))"

lemma leads_call:
  assumes "hears nd heard" and "collect_results (parse_address nd) accts = Inr as"
    and "\<And>tx sender req. own_address nd (fst w) sender \<Longrightarrow> calls nd app asset fapps accts method args sender req \<Longrightarrow>
      built nd req tx \<Longrightarrow> leads heard w P (f tx)"
  shows "leads heard w P (try_op (build_call_app_tx_inner nd app asset fapps as method args) f)"
proof (rule leads_seq)
  note g = tx_node_grows [OF assms(1)]
  show "keeps (grows heard) (build_call_app_tx_inner nd app asset fapps as method args)" by (rule keeps_build_call [OF g])
  have final: "leads heard w (\<lambda>tx _. \<exists>sender req. own_address nd (fst w) sender \<and>
      calls nd app asset fapps accts method args sender req \<and> built nd req tx) (build_tx nd what req fee params)"
    if "own_address nd (fst w) sender" and "calls nd app asset fapps accts method args sender req" for what req fee params sender
    by (simp add: leads_def build_tx_def built_def try_op_Inr_iff del: split_paired_All split_paired_Ex)
       (use that in blast)
  show "leads heard w (\<lambda>tx _. \<exists>sender req. own_address nd (fst w) sender \<and>
      calls nd app asset fapps accts method args sender req \<and> built nd req tx)
      (build_call_app_tx_inner nd app asset fapps as method args)"
    unfolding build_call_app_tx_inner_def Let_def
    by (rule leads_intros leads_params [OF assms(1)] leads_step [OF keeps_creator [OF g]] leads_build [OF assms(1)] final
      | assumption | (simp add: calls_def assms(2)))+
qed (use assms(3) in blast)

lemma own_call:
  assumes "hears nd heard" and "own_address nd (fst w) sender" and "calls nd app asset fapps accts method args sender req"
    and "built nd req tx"
  shows "leads heard w (\<lambda>r w'. confirms nd heard (calls nd app asset fapps accts method args) (fst r) w w')
    (sign_submit_and_fetch_logs nd tx)"
proof -
  note g = tx_node_grows [OF assms(1)]
  let ?f = "\<lambda>client tx_id. try_op (prefix_err ''failed to fetch pending transaction info''
              (call_node nd (nd_pending_transaction nd client tx_id))) (\<lambda>p.
     try_op (to_value ''pending tx info'' (pi_json p)) (\<lambda>v.
       ret (tx_id, decode_logs (nd_json nd) (nd_b64 nd) v)))"
  have k: "keeps (grows heard) (?f client tx_id)" for client tx_id
    by (intro keeps_intros; (rule g node_keeps_of_tx [OF g])?)
  have s: "leads heard w (\<lambda>r w'. confirms nd heard (calls nd app asset fapps accts method args) (fst r) w w')
      (try_op (submit_and_wait nd client sk what tx) (?f client))" if "own_key nd (fst w) sk" for sk client what
  proof (rule leads_submit [where Q = "calls nd app asset fapps accts method args",
        OF assms(1,2,3) that assms(4)])
    fix tx_id w2 r w'
    assume c: "confirms nd heard (calls nd app asset fapps accts method args) tx_id w w2"
      and run: "?f client tx_id w2 = Some (Inr r, w')"
    from run have "fst r = tx_id" by (auto simp: try_op_Inr_iff)
    with confirms_later [OF c keepsD [OF k run]]
    show "confirms nd heard (calls nd app asset fapps accts method args) (fst r) w w'" by simp
  qed
  show ?thesis
    unfolding sign_submit_and_fetch_logs_def by (rule leads_intros s | assumption)+
qed

lemma own_call_app:
  assumes "hears nd heard"
  shows "leads heard w (\<lambda>r w'. confirms nd heard (calls nd app asset [] [] method args) (fst r) w w')
    (call_app nd app asset method args)"
  unfolding call_app_def build_call_app_tx_def
  by (rule leads_intros leads_call [OF assms, where accts = "[]"] own_call [OF assms] | assumption | simp)+

lemma own_call_arc4:
  assumes "hears nd heard"
  shows "leads heard w (\<lambda>r w'. \<exists>framed. arc4_frame_args method args = Inr framed \<and>
      confirms nd heard (calls nd app asset [] [] method framed) (fst r) w w')
    (call_app_arc4_args nd app asset method args)"
proof -
  have "leads heard w (\<lambda>r w'. \<exists>framed. arc4_frame_args method args = Inr framed \<and>
      confirms nd heard (calls nd app asset [] [] method framed) (fst r) w w') (call_app nd app asset method x)"
    if "arc4_frame_args method args = Inr x" for x
    using own_call_app [OF assms] that unfolding leads_def by blast
  then show ?thesis unfolding call_app_arc4_args_def by (rule leads_lift)
qed

lemma own_call_accounts:
  assumes "hears nd heard"
  shows "leads heard w (\<lambda>r w'. confirms nd heard (calls nd app asset [] accts method args) (fst r) w w')
    (call_app_with_accounts nd app asset method args accts)"
  unfolding call_app_with_accounts_def
  by (rule leads_intros leads_call [OF assms] own_call [OF assms] | assumption)+

lemma own_call_foreign:
  assumes "hears nd heard"
  shows "leads heard w (\<lambda>r w'. confirms nd heard (calls nd app asset [fapp] [] method args) (fst r) w w')
    (call_app_with_foreign_app nd app fapp asset method args)"
  unfolding call_app_with_foreign_app_def
  by (rule leads_intros leads_call [OF assms, where accts = "[]"] own_call [OF assms] | assumption | simp)+

section \<open>Deployments\<close>

definition deploys ::
  "('e, 'a, 'j, 'x, 'y, 'z) tx_node_scheme \<Rightarrow> bytes \<Rightarrow> bytes \<Rightarrow> u64 option \<Rightarrow> string option \<Rightarrow> app_arg list \<Rightarrow>
     string \<Rightarrow> u32 \<Rightarrow> 'a \<Rightarrow> 'a tx_request \<Rightarrow> bool" where
  "deploys nd approval clear asset method args spec reserve sender req \<longleftrightarrow>
     (\<exists>gs ls. state_schema_from_arc56 (nd_json nd) (tn_parse_json nd) spec = Inr (gs, ls) \<and>
        (let pages = extra_pages_for (program_size nd approval clear) reserve;
             app_args = call_args (tn_crypto nd) method args
         in req = TxCreateApplication sender approval clear gs ls (if 0 < pages then Some pages else None)
                    (map_option (\<lambda>aid. [aid]) asset) (if app_args \<noteq> [] then Some app_args else None)))"

lemma own_deploy:
  assumes "hears nd heard"
  shows "leads heard w (\<lambda>_ w'. \<exists>tx_id. confirms nd heard (deploys nd approval clear asset method args spec reserve) tx_id w w')
    (deploy_app_reserving nd approval clear asset method args opt spec reserve)"
proof -
  note g = tx_node_grows [OF assms]
  have k: "keeps (grows heard) (try_op (prefix_err ''failed to fetch pending transaction info for app id''
                 (call_node nd (nd_pending_transaction nd client tx_id))) (\<lambda>info.
        try_op (to_value ''pending tx info'' (pi_json info)) (\<lambda>v.
        try_op (set_up_app nd asset opt (created_app (nd_json nd) v)) (\<lambda>_.
          ret (if created_app (nd_json nd) v \<noteq> 0 then Some (created_app (nd_json nd) v) else None)))))" for client tx_id
    by (intro keeps_intros; (rule g node_keeps_of_tx [OF g])?)
  have q: "deploys nd approval clear asset method args spec reserve sender
      (TxCreateApplication sender approval clear gs ls
        (if 0 < extra_pages_for (program_size nd approval clear) reserve
         then Some (extra_pages_for (program_size nd approval clear) reserve) else None)
        (map_option (\<lambda>aid. [aid]) asset)
        (if call_args (tn_crypto nd) method args \<noteq> [] then Some (call_args (tn_crypto nd) method args) else None))"
    if "state_schema_from_arc56 (nd_json nd) (tn_parse_json nd) spec = Inr z" "z = (gs, ls)" for z gs ls sender
    using that by (auto simp: deploys_def Let_def)
  have p: "leads heard w P (case z of (x, y) \<Rightarrow> f x y)" if "\<And>x y. z = (x, y) \<Longrightarrow> leads heard w P (f x y)"
    for P and z :: "state_schema \<times> state_schema" and f :: "state_schema \<Rightarrow> state_schema \<Rightarrow> ('a world, u64 option) op"
    using that by (cases z) simp
  show ?thesis
    unfolding deploy_app_reserving_def Let_def
    by (rule p leads_fail leads_if leads_option leads_lift leads_address leads_key leads_client
          leads_build [OF assms] leads_params [OF assms] leads_submit_then [OF assms k] q
          leads_step [OF keeps_balance [OF node_keeps_of_tx [OF g]]] | assumption)+
qed

section \<open>Writes that may find nothing to do\<close>

lemmas keeps_shape = keeps_ret keeps_fail keeps_lift keeps_try keeps_attempt keeps_mapped_err keeps_prefix_err keeps_to_value
  keeps_branch keeps_option keeps_sum keeps_prod keeps_unless keeps_clients

lemma reads_hush:
  assumes "hears nd heard"
  shows "keeps (hush heard) (local_state_for_account nd app addr)"
    and "keeps (hush heard) (is_account_opted_in_to_asset nd addr asset)"
    and "keeps (hush heard) (fetch_asset nd client asset what)"
    and "keeps (hush heard) (call_node nd (nd_account nd client a))"
proof -
  note c = hears_endpoints(1,3) [OF assms, THEN call_hush [OF hearsD(1) [OF assms]]]
  show "keeps (hush heard) (local_state_for_account nd app addr)"
    unfolding local_state_for_account_def by (intro keeps_shape run_orders c)
  show "keeps (hush heard) (is_account_opted_in_to_asset nd addr asset)"
    unfolding is_account_opted_in_to_asset_def by (intro keeps_shape run_orders c)
  show "keeps (hush heard) (fetch_asset nd client asset what)"
    unfolding fetch_asset_def by (intro keeps_shape run_orders c)
  show "keeps (hush heard) (call_node nd (nd_account nd client a))" by (rule c(1))
qed

text \<open>\<open>m\<close>, begun in the answers of \<open>w\<close>, succeeds with no answer added or with \<open>P\<close>.\<close>

definition quiet_or ::
  "('e \<Rightarrow> 'y answer list) \<Rightarrow> 'e world \<Rightarrow> ('b \<Rightarrow> 'e world \<Rightarrow> bool) \<Rightarrow> ('e world, 'b) op \<Rightarrow> bool" where
  "quiet_or heard w P m \<longleftrightarrow>
     (\<forall>w1 r w'. hush heard w w1 \<longrightarrow> m w1 = Some (Inr r, w') \<longrightarrow> hush heard w w' \<or> P r w')"

lemma quiet_or_step:
  assumes "keeps (hush heard) m" and "\<And>x. quiet_or heard w P (f x)"
  shows "quiet_or heard w P (try_op m f)"
  unfolding quiet_or_def
proof (intro allI impI)
  fix w1 r w'
  assume h: "hush heard w w1" and "try_op m f w1 = Some (Inr r, w')"
  then obtain x w2 where m: "m w1 = Some (Inr x, w2)" and f: "f x w2 = Some (Inr r, w')" by (auto simp: try_op_Inr_iff)
  have "hush heard w w2" using keepsD [OF assms(1) m] h by (rule transpD [OF run_orders(4), rotated])
  with assms(2) f show "hush heard w w' \<or> P r w'" unfolding quiet_or_def by blast
qed

lemma quiet_or_base:
  "quiet_or heard w P (fail e)" "quiet_or heard w P (ret x)"
  "quiet_or heard w P m \<Longrightarrow> quiet_or heard w P m' \<Longrightarrow> quiet_or heard w P (if b then m else m')"
  "quiet_or heard w P m \<Longrightarrow> (\<And>v. quiet_or heard w P (g v)) \<Longrightarrow> quiet_or heard w P (case q of None \<Rightarrow> m | Some v \<Rightarrow> g v)"
  "(\<And>x y. quiet_or heard w P (h x y)) \<Longrightarrow> quiet_or heard w P (case z of (x, y) \<Rightarrow> h x y)"
  by (auto simp: quiet_or_def split: option.split prod.split)

lemma quiet_or_write: "leads heard w P m \<Longrightarrow> quiet_or heard w P m"
  unfolding quiet_or_def leads_def using hush_grows by blast

lemma quiet_orD:
  assumes "quiet_or heard w P m" and "m w = Some (Inr r, w')"
  shows "hush heard w w' \<or> P r w'"
  using assms run_orders(3) unfolding quiet_or_def by (metis reflpD)

lemma own_recover:
  assumes "hears nd heard"
  shows "quiet_or heard w (\<lambda>_ w'. \<exists>tx_id. confirms nd heard
      (\<lambda>sender req. \<exists>n creator. 0 < n \<and> transfers nd asset n creator sender req) tx_id w w') (recover_reserve_balance nd asset)"
proof -
  have send: "leads heard w (\<lambda>_ w'. \<exists>tx_id. confirms nd heard
      (\<lambda>sender req. \<exists>n creator. 0 < n \<and> transfers nd asset n creator sender req) tx_id w w') (send_asset nd asset n creator)"
    for n creator
  proof (cases "n = 0")
    case True
    then show ?thesis by (simp add: send_asset_def leads_def)
  next
    case False
    then have "0 < n" by (simp add: word_neq_0_conv)
    then show ?thesis using own_send_asset [OF assms, of w asset n creator] unfolding leads_def confirms_def by meson
  qed
  show ?thesis
    unfolding recover_reserve_balance_def Let_def
    by (rule quiet_or_base quiet_or_write [OF send] quiet_or_step reads_hush [OF assms] keeps_clients keeps_lift
          keeps_to_value keeps_prefix_err run_orders)+
qed

lemma own_opt_in_app:
  assumes "hears nd heard" and "opt_in_app nd app w = Some (Inr r, w')"
  shows "(\<exists>addr entries. ops_address (fst w) = Some addr \<and>
        local_state_for_account nd app addr w = Some (Inr (Some entries), w') \<and> hush heard w w') \<or>
    (\<exists>tx_id. confirms nd heard (\<lambda>sender req. req = TxOptInApplication sender app) tx_id w w')"
proof -
  from assms(2) obtain addr entries w1 where a: "ops_address (fst w) = Some addr"
    and l: "local_state_for_account nd app addr w = Some (Inr entries, w1)"
    and c: "(case entries of Some _ \<Rightarrow> ret ()
       | None \<Rightarrow> lifecycle nd ''app opt-in transaction'' (\<lambda>sender. TxOptInApplication sender app)) w1 = Some (Inr r, w')"
    by (auto simp: opt_in_app_def try_op_Inr_iff address_str_def split: if_splits option.splits)
  have h: "hush heard w w1" by (rule keepsD [OF reads_hush(1) [OF assms(1)] l])
  show ?thesis
  proof (cases entries)
    case None
    with c have "lifecycle nd ''app opt-in transaction'' (\<lambda>sender. TxOptInApplication sender app) w1 = Some (Inr r, w')" by simp
    with own_lifecycle [OF assms(1), of w "\<lambda>sender. TxOptInApplication sender app"] hush_grows [OF h]
    show ?thesis unfolding leads_def by blast
  next
    case (Some es)
    with c l a h show ?thesis by auto
  qed
qed

lemma own_opt_in_app_to_asset:
  assumes "hears nd heard" and "opt_in_app_to_asset nd app asset opt w = Some (Inr r, w')"
  shows "(\<exists>addr. contract_address (tn_crypto nd) app = Inr addr \<and>
        is_account_opted_in_to_asset nd addr asset w = Some (Inr True, w') \<and> r = [] \<and> hush heard w w') \<or>
    confirms nd heard (calls nd app (Some asset) [] [] (Some opt) [AUint asset]) r w w'"
proof -
  from assms(2) obtain addr b w1 where a: "contract_address (tn_crypto nd) app = Inr addr"
    and l: "is_account_opted_in_to_asset nd addr asset w = Some (Inr b, w1)"
    and c: "(if b then ret [] else try_op (call_app nd app (Some asset) (Some opt) [AUint asset]) (\<lambda>(tx_id, _). ret tx_id)) w1
       = Some (Inr r, w')"
    by (auto simp: opt_in_app_to_asset_def try_op_Inr_iff split: if_splits)
  have h: "hush heard w w1" by (rule keepsD [OF reads_hush(2) [OF assms(1)] l])
  show ?thesis
  proof (cases b)
    case True
    with c l a h show ?thesis by auto
  next
    case False
    with c obtain logs where "call_app nd app (Some asset) (Some opt) [AUint asset] w1 = Some (Inr (r, logs), w')"
      by (auto simp: try_op_Inr_iff split: prod.splits)
    with own_call_app [OF assms(1), of w app "Some asset" "Some opt" "[AUint asset]"] hush_grows [OF h]
    have "confirms nd heard (calls nd app (Some asset) [] [] (Some opt) [AUint asset]) (fst (r, logs)) w w'"
      unfolding leads_def by blast
    then show ?thesis by simp
  qed
qed

section \<open>Groups\<close>

lemma collect_ops_each:
  "collect_ops xs f w = Some (Inr ys, w') \<Longrightarrow> list_all2 (\<lambda>x y. \<exists>w1 w2. f x w1 = Some (Inr y, w2)) xs ys"
proof (induction xs arbitrary: ys w)
  case (Cons x xs)
  then obtain y zs w1 where "f x w = Some (Inr y, w1)" "collect_ops xs f w1 = Some (Inr zs, w')" "ys = y # zs"
    by (auto simp: try_op_Inr_iff)
  with Cons.IH show ?case by auto
qed simp

text \<open>
  The group the node accepted: each leg of the builder built by the client, the group id assigned, and each
  transaction signed with the client's key.
\<close>

definition confirms_group ::
  "('e, 'a, 'j, 'x, 'y, 'z) tx_node_scheme \<Rightarrow> ('e \<Rightarrow> 'y answer list) \<Rightarrow> group_leg list \<Rightarrow> string \<Rightarrow>
     'e world \<Rightarrow> 'e world \<Rightarrow> bool" where
  "confirms_group nd heard legs tx_id w w' \<longleftrightarrow>
     (\<exists>sender sk params txns grp signed cr before between later.
        own_address nd (fst w) sender \<and> own_key nd (fst w) sk \<and>
        list_all2 (\<lambda>l tx. \<exists>w1 w2. build_leg nd sender params l w1 = Some (Inr tx, w2)) legs txns \<and>
        tn_group nd txns = Inr grp \<and> list_all2 (\<lambda>tx stx. tn_sign nd sk tx = Inr stx) grp signed \<and> 0 < cr \<and>
        heard (snd w') = later @ Reported tx_id cr # between @ AcceptedGroup signed tx_id # before @ heard (snd w))"

lemma own_group:
  assumes "hears nd heard" and "group_sign_and_send nd b w = Some (Inr tx_id, w')"
  shows "confirms_group nd heard (gb_legs b) tx_id w w'"
proof -
  note g = tx_node_grows [OF assms(1)]
  let ?sign = "\<lambda>seed tx. rmap_err (msg_err ''failed to sign grouped transaction'') (tn_sign nd seed tx)"
  obtain sk w1 where k: "secret_key nd w = Some (Inr sk, w1)" and l: "length sk = 32"
    and r: "try_op (require_address nd) (\<lambda>sender.
            try_op (algod_client nd) (\<lambda>client.
            try_op (fetch_params nd client) (\<lambda>params.
            try_op (collect_ops (gb_legs b) (build_leg nd sender params)) (\<lambda>txns.
            try_op (lift (rmap_err (msg_err ''failed to assign group id'') (tn_group nd txns))) (\<lambda>grp.
            try_op (lift (collect_results (?sign sk) grp)) (\<lambda>signed.
            try_op (prefix_err ''failed to broadcast transaction group'' (call_node nd (tn_send_transactions nd client signed)))
              (\<lambda>tx_id.
            try_op (wait_for_confirmation nd tx_id 10) (\<lambda>_. ret tx_id)))))))) w1 = Some (Inr tx_id, w')"
    using assms(2)
    by (auto simp: group_sign_and_send_def try_op_Inr_iff array32_def split: option.splits if_splits)
  have w1: "w1 = w" and sk: "own_key nd (fst w) sk" using k by (auto simp: secret_key_def own_key_def)
  from r [unfolded w1] obtain sender client params txns grp signed w2 w3 w4 w5 w6 where
    a: "require_address nd w = Some (Inr sender, w2)" and c: "algod_client nd w2 = Some (Inr client, w3)"
    and p: "fetch_params nd client w3 = Some (Inr params, w4)"
    and t: "collect_ops (gb_legs b) (build_leg nd sender params) w4 = Some (Inr txns, w5)"
    and gr: "tn_group nd txns = Inr grp" and si: "collect_results (?sign sk) grp = Inr signed"
    and s: "prefix_err ''failed to broadcast transaction group'' (call_node nd (tn_send_transactions nd client signed)) w5
      = Some (Inr tx_id, w6)"
    and wt: "wait_for_confirmation nd tx_id 10 w6 = Some (Inr (), w')"
    by (auto simp: try_op_Inr_iff)
  have ks: "keeps (grows heard) (require_address nd)" "keeps (grows heard) (algod_client nd)"
    "keeps (grows heard) (fetch_params nd client)" "keeps (grows heard) (collect_ops (gb_legs b) (build_leg nd sender params))"
    by (intro keeps_intros; (rule g node_keeps_of_tx [OF g])?)+
  from keepsD [OF ks(1) a] keepsD [OF ks(2) c] keepsD [OF ks(3) p] keepsD [OF ks(4) t]
  obtain before where b: "heard (snd w5) = before @ heard (snd w)" by (auto simp: grows_def)
  from call_success_heard [OF assms(1) hears_endpoints(12) [OF assms(1)] prefix_err_value [OF s]]
  have s6: "heard (snd w6) = AcceptedGroup signed tx_id # heard (snd w5)" by simp
  from wait_heard [OF assms(1) wt] obtain cr between where
    cr: "0 < cr" "heard (snd w') = Reported tx_id cr # between @ heard (snd w6)" by blast
  have own: "own_address nd (fst w) sender"
    using a by (auto simp: require_address_def own_address_def split: option.splits)
  have "list_all2 (\<lambda>tx stx. tn_sign nd sk tx = Inr stx) grp signed"
    using si by (simp add: collect_results_eq_Inr)
  with own sk collect_ops_each [OF t] gr cr s6 b show ?thesis
    unfolding confirms_group_def
    by (intro exI [of _ sender] exI [of _ sk] exI [of _ params] exI [of _ txns] exI [of _ grp] exI [of _ signed]
        exI [of _ cr] exI [of _ before] exI [of _ between] exI [of _ "[]"]) simp
qed

section \<open>Success is a confirmed transaction of one's own\<close>

text \<open>
  C1: A write reports success only for a confirmed transaction of its own. On a node whose answers are
  heard: after a success the node has, in this very run, accepted the bytes of the transaction the
  operation stands for (the request its arguments determine, from the client's address, built, encoded
  and signed with the client's key), and after accepting it has reported that transaction's id in a
  positive round. This holds of payments, asset creation, reconfiguration, transfer and opt-in, of
  application calls in each form, whose returned id it is, of the life cycle, updates and deployments
  of applications, and of groups. Three operations may find nothing to do, and then no answer about any
  transaction came: opting in to an application whose local state exists, opting an application in to
  an asset it holds, and recovering a reserve that is empty.
\<close>

theorem write_success_is_confirmed:
  assumes "hears nd heard"
  shows "writes_own nd heard (pays nd to (micro_of_algos amount)) (send_algo nd to amount) \<and>
    writes_own nd heard (\<lambda>sender req. req = TxCreateAsset sender units sender sender sender None) (create_asset nd name units) \<and>
    writes_own nd heard (creates_for nd units manager res clawback freeze)
      (create_asset_configured nd name units manager res clawback freeze) \<and>
    (create_asset_with_reserve_app nd name units app w = Some (Inr new_asset, w') \<longrightarrow>
      (\<exists>tx_id addr own. contract_address (tn_crypto nd) app = Inr addr \<and> ops_address (fst w) = Some own \<and>
        confirms nd heard (creates_for nd units own addr addr own) tx_id w w')) \<and>
    writes_own nd heard (\<lambda>sender req. \<exists>addr. contract_address (tn_crypto nd) app = Inr addr \<and> reserves nd asset addr sender req)
      (set_asset_clawback_to_app nd app asset) \<and>
    writes_own nd heard (reserves nd asset res) (change_asset_reserve_address nd asset res) \<and>
    writes_own nd heard (transfers nd asset n to) (send_asset nd asset n to) \<and>
    writes_own nd heard (\<lambda>sender req. req = TxTransferAsset sender asset 0 sender) (opt_in_to_asset nd asset) \<and>
    writes_own nd heard (\<lambda>sender req. req = TxClearApplication sender app) (clear_state_app nd app) \<and>
    writes_own nd heard (\<lambda>sender req. req = TxCloseApplication sender app) (close_out_app nd app) \<and>
    writes_own nd heard (\<lambda>sender req. req = TxDeleteApplication sender app) (delete_app nd app) \<and>
    writes_own nd heard (\<lambda>sender req. req =
        TxUpdateApplication sender app approval clear (map_option (\<lambda>aid. [aid]) maybe_asset))
      (update_app nd app approval clear maybe_asset) \<and>
    writes_own nd heard (deploys nd approval clear maybe_asset method args spec reserve)
      (deploy_app_reserving nd approval clear maybe_asset method args opt spec reserve) \<and>
    writes_own nd heard (deploys nd approval clear maybe_asset method args spec 0)
      (deploy_app nd approval clear maybe_asset method args opt spec) \<and>
    (call_app nd app maybe_asset method args w = Some (Inr (ret_id, logs), w') \<longrightarrow>
      confirms nd heard (calls nd app maybe_asset [] [] method args) ret_id w w') \<and>
    (call_app_arc4_args nd app maybe_asset method args w = Some (Inr (ret_id, logs), w') \<longrightarrow>
      (\<exists>framed. arc4_frame_args method args = Inr framed \<and>
        confirms nd heard (calls nd app maybe_asset [] [] method framed) ret_id w w')) \<and>
    (call_app_with_accounts nd app maybe_asset method args accts w = Some (Inr (ret_id, logs), w') \<longrightarrow>
      confirms nd heard (calls nd app maybe_asset [] accts method args) ret_id w w') \<and>
    (call_app_with_foreign_app nd app fapp maybe_asset method args w = Some (Inr (ret_id, logs), w') \<longrightarrow>
      confirms nd heard (calls nd app maybe_asset [fapp] [] method args) ret_id w w') \<and>
    (group_sign_and_send nd b w = Some (Inr ret_id, w') \<longrightarrow> confirms_group nd heard (gb_legs b) ret_id w w') \<and>
    (opt_in_app nd app w = Some (Inr (), w') \<longrightarrow>
      (\<exists>addr entries. ops_address (fst w) = Some addr \<and>
         local_state_for_account nd app addr w = Some (Inr (Some entries), w') \<and> hush heard w w') \<or>
      (\<exists>tx_id. confirms nd heard (\<lambda>sender req. req = TxOptInApplication sender app) tx_id w w')) \<and>
    (opt_in_app_to_asset nd app asset opt w = Some (Inr ret_id, w') \<longrightarrow>
      (\<exists>addr. contract_address (tn_crypto nd) app = Inr addr \<and>
         is_account_opted_in_to_asset nd addr asset w = Some (Inr True, w') \<and> ret_id = [] \<and> hush heard w w') \<or>
      confirms nd heard (calls nd app (Some asset) [] [] (Some opt) [AUint asset]) ret_id w w') \<and>
    (recover_reserve_balance nd asset w = Some (Inr (), w') \<longrightarrow> hush heard w w' \<or>
      (\<exists>tx_id. confirms nd heard (\<lambda>sender req. \<exists>k creator. 0 < k \<and> transfers nd asset k creator sender req) tx_id w w'))"
proof -
  have life: "leads heard w (\<lambda>_ w'. \<exists>tx_id. confirms nd heard (\<lambda>sender req. req = mk sender) tx_id w w')
      (if app = 0 then fail err else lifecycle nd what mk)" for what mk err w
    by (rule leads_if leads_fail own_lifecycle [OF assms])+
  note call = leadsD [OF own_call_app [OF assms]] leadsD [OF own_call_arc4 [OF assms]]
    leadsD [OF own_call_accounts [OF assms]] leadsD [OF own_call_foreign [OF assms]]
  show ?thesis
    unfolding clear_state_app_def close_out_app_def delete_app_def deploy_app_def
    by (intro conjI impI writes_ownI own_send_algo own_create_asset own_create_configured own_set_clawback own_change_reserve
        own_send_asset own_opt_in_to_asset own_update_app own_deploy assms life own_group own_opt_in_app own_opt_in_app_to_asset
        leadsD [OF own_create_reserve [OF assms]] quiet_orD [OF own_recover [OF assms]])
      (fastforce dest: call)+
qed

section \<open>A node that keeps the answers\<close>

text \<open>Its environment is the list of the answers it gave; it accepts and confirms everything.\<close>

type_synonym ledger = "string tx_request answer list"

definition ledger_runtime :: "ledger runtime" where
  "ledger_runtime =
     \<lparr>rt_instant = (\<lambda>e. (0, e)), rt_unix_secs = (\<lambda>e. (100000, e)), rt_sleep = (\<lambda>_ e. e),
      rt_build = (\<lambda>e. (Inr (), e)), rt_elapses = (\<lambda>_ e. (False, e)), rt_hangs = (\<lambda>_. False)\<rparr>"

definition declines :: "(ledger, 'b) future" where
  "declines e = (Inl (OtherError ''refused''), e)"

definition tells :: "'b \<Rightarrow> ledger \<Rightarrow> (ledger, 'b) future" where
  "tells v news e = (Inr v, news @ e)"

definition ledger_base :: "(ledger, string, json) node" where
  "ledger_base = \<lparr>nd_rt = ledger_runtime, nd_json = json_accessors, nd_b64 = plain_engine,
     nd_parse_address = Inr, nd_algod_new = (\<lambda>_ _. Inr ()), nd_indexer_new = (\<lambda>_ _. Inr ()),
     nd_account = (\<lambda>_ _. declines), nd_app = (\<lambda>_ _. declines), nd_asset = (\<lambda>_ _. declines), nd_status = (\<lambda>_. tells 6 []),
     nd_status_after_block = (\<lambda>_ _. declines),
     nd_pending_transaction = (\<lambda>_ t. tells \<lparr>pi_confirmed_round = Some 7, pi_txn_json = None, pi_asset_index = None,
        pi_pool_error = [], pi_json = Inr (JObj [])\<rparr> [Reported t 7]),
     nd_suggested_params = (\<lambda>_. tells \<lparr>sp_last_round = 6, sp_min_fee = 1000, sp_genesis_hash = [], sp_genesis_id = ''g'',
        sp_fee = 0\<rparr> []),
     nd_send_raw = (\<lambda>_ raw. tells ''T'' [Accepted raw ''T'']),
     nd_search_for_transactions = (\<lambda>_ _. declines), nd_search_for_accounts = (\<lambda>_ _ _ _. declines),
     nd_lookup_account_by_id = (\<lambda>_ _ _. declines),
     nd_http_get = (\<lambda>_ _ _ e. (Inl \<lparr>hf_connect = False, hf_timeout = False, hf_text = ''refused''\<rparr>, e)),
     nd_parse_block_seed = (\<lambda>_. Inl ''refused'')\<rparr>"

definition ledger_node :: "(ledger, string, json, string tx_request, string tx_request) tx_node" where
  "ledger_node = node.extend ledger_base
     \<lparr>tn_crypto = toy_crypto, tn_uuid = (\<lambda>e. (replicate 16 0, e)), tn_parse_json = (\<lambda>_. Inl ''refused''),
      tn_micro_mul = (*), tn_show_address = id, tn_bytes_to_sign = id, tn_build = (\<lambda>req _ _ _. Inr req),
      tn_estimate_size = (\<lambda>_. Inr 100), tn_sign = (\<lambda>_ x. Inr x), tn_to_msg_pack = (\<lambda>_. Inr [1]),
      tn_group = Inr, tn_send_transactions = (\<lambda>_ txs. tells ''G'' [AcceptedGroup txs ''G'']), tn_teal_compile = (\<lambda>_ _. declines)\<rparr>"

lemma ledger_hears: "hears ledger_node (\<lambda>e. e)"
  by (simp add: hears_def hears_as_def deaf_def ledger_node_def ledger_base_def node.defs tells_def declines_def
      ledger_runtime_def)

lemma ledger_call:
  "unthrottled ops \<Longrightarrow> call_node ledger_node (tells v news) (ops, e) = Some (Inr v, counted 1 ops, news @ e)"
proof -
  assume "unthrottled ops"
  moreover have "builds ledger_runtime" "prompt ledger_runtime"
    by (simp_all add: builds_def prompt_def ledger_runtime_def)
  moreover have "nd_rt ledger_node = ledger_runtime" by (simp add: ledger_node_def ledger_base_def node.defs)
  ultimately show ?thesis
    unfolding algod_call_def call_with_retry_def
    by (subst call_attempts_unthrottled) (simp_all add: Let_def tells_def verdict_def ledger_runtime_def)
qed

lemma ledger_opt_in:
  "opt_in_to_asset ledger_node 9 (keyed_client, []) =
     Some (Inr (), counted 4 keyed_client, [Reported ''T'' 7, Accepted [1] ''T''])"
proof -
  have n: "nd_rt ledger_node = ledger_runtime" "nd_b64 ledger_node = plain_engine" "nd_parse_address ledger_node = Inr"
    "nd_algod_new ledger_node = (\<lambda>_ _. Inr ())" "tn_crypto ledger_node = toy_crypto"
    "tn_uuid ledger_node = (\<lambda>e. (replicate 16 0, e))" "tn_build ledger_node = (\<lambda>req _ _ _. Inr req)"
    "tn_sign ledger_node = (\<lambda>_ x. Inr x)" "tn_to_msg_pack ledger_node = (\<lambda>_. Inr [1])"
    "nd_status ledger_node = (\<lambda>_. tells 6 [])" "nd_send_raw ledger_node = (\<lambda>_ raw. tells ''T'' [Accepted raw ''T''])"
    "nd_pending_transaction ledger_node = (\<lambda>_ t. tells \<lparr>pi_confirmed_round = Some 7, pi_txn_json = None,
       pi_asset_index = None, pi_pool_error = [], pi_json = Inr (JObj [])\<rparr> [Reported t 7])"
    "nd_suggested_params ledger_node = (\<lambda>_. tells \<lparr>sp_last_round = 6, sp_min_fee = 1000, sp_genesis_hash = [],
       sp_genesis_id = ''g'', sp_fee = 0\<rparr> [])"
    by (simp_all add: ledger_node_def ledger_base_def node.defs)
  have u: "unthrottled keyed_client" and a: "ops_address keyed_client = Some ''A''"
    and k: "private_key_bytes toy_crypto plain_engine keyed_client = Inr (replicate 32 9)"
    using toy_seed by (simp_all add: keyed_client_def plain_client_def unthrottled_def private_key_bytes_def)
  note call = ledger_call [unfolded n(1)]
  have w: "wait_for_confirmation ledger_node t 10 (ops, e) = Some (Inr (), counted 2 ops, Reported t 7 # e)"
    if "unthrottled ops" for t ops e
    using that by (simp add: wait_for_confirmation_def n client_ok prefix_err_def map_err_def call Let_def wait_rounds.simps)
  show ?thesis
    by (simp add: opt_in_to_asset_def secret_key_def require_address_def parse_address_def client_ok fetch_params_def
        build_tx_def unique_note_def submit_and_wait_def sign_and_send_def array32_def prefix_err_def map_err_def
        n u a k call w)
qed

theorem write_success_is_confirmed_witness:
  "\<exists>tx_id. confirms ledger_node (\<lambda>e. e) (\<lambda>sender req. req = TxTransferAsset sender 9 0 sender) tx_id
     (keyed_client, []) (counted 4 keyed_client, [Reported ''T'' 7, Accepted [1] ''T''])"
proof -
  note upto_create = write_success_is_confirmed [OF ledger_hears, where asset = 9, THEN conjunct2, THEN conjunct2,
      THEN conjunct2, THEN conjunct2]
  have "writes_own ledger_node (\<lambda>e. e) (\<lambda>sender req. req = TxTransferAsset sender 9 0 sender) (opt_in_to_asset ledger_node 9)"
    by (rule upto_create [THEN conjunct2, THEN conjunct2, THEN conjunct2, THEN conjunct1])
  with ledger_opt_in show ?thesis unfolding writes_own_def by blast
qed

end
