(* ===== verification/Spec2Isabelle.thy ===== *)
theory Spec2Isabelle
  imports AccountDir VaultRuns HealthCli TxConfirm
begin

text \<open>
  A verification development for \<open>blockchain_ops\<close>: an Algorand client (\<open>algo_ops\<close>), a vault for its
  accounts (\<open>blockchain_account_vault\<close>), the TLS identity of the nodes of a sidechain (\<open>sw_identity_tls\<close>)
  and a client of those nodes (\<open>sidewinder_ops\<close>). \<open>Prelude\<close> holds the errors, operations and lemmas they
  share, \<open>Codec\<close> the interface of the strict decoders, \<open>Json\<close> the JSON values.

  The client, \<open>algo_ops/src/ops.rs\<close>. Every network request of \<open>AlgoOps\<close> but \<open>block_seed\<close> goes through one path:
  \<open>apply_rate_limit\<close> (the daily budget is looked at, a token taken, then both are charged and the request
  counted), \<open>rt_block_on\<close> (a runtime, an optional timeout) and \<open>call_with_retry\<close> (up to three retries).
    \<^item> \<open>Limiter\<close> is the token bucket, with the double arithmetic of \<open>Float64\<close>; \<open>Budget\<close> the daily budget;
      \<open>CallPath\<close> the gate, the bridge and the retries, over an abstract environment of clocks, sleep and
      runtime, with the laws of \<open>Effects\<close>; \<open>AlgoError\<close> the errors (\<open>error.rs\<close>). A request may hang: the runtime
      tells so of the environment the request leaves, and then the call ends in the timeout error, or
      never when no timeout is set.
    \<^item> \<open>Node\<close> holds the clients of the two services as records of endpoint functions, \<open>StateDecode\<close> and
      \<open>Reads\<close> what the client reads through algod, \<open>Searches\<close> the indexer: note lookups, page fetchers.
    \<^item> \<open>TxnScan\<close> and \<open>AccountScan\<close> are the two incremental caches, on the page loop of \<open>Paging\<close>: what they
      hold after a refresh, and how they behave when a page fails or a change races a scan.
    \<^item> \<open>Keys\<close> is the key and signature handling, \<open>Arc4\<close> the argument encoding and program sizes.
    \<^item> \<open>TxOps\<close> builds, signs, submits and confirms payments and asset operations, \<open>AppCalls\<close> application
      calls and deployments, \<open>TxGroups\<close> atomic groups.
    \<^item> \<open>Accounting\<close>, \<open>TxSafety\<close>, \<open>TxAccounting\<close> and \<open>TxConfirm\<close> hold what spans these components. The first and
      the third show what is counted, by introduction rules that carry a relation between the worlds before
      and after through the composition of operations (\<open>keeps_intros\<close>, over \<open>node_keeps\<close>); the second what a
      failure and a returned id mean; the last what a success leaves behind, in the answers an observer of
      the node hears (\<open>hears\<close>): the write's own transaction accepted and then reported confirmed.

  The vault, \<open>blockchain_account_vault/src\<close>. A key file lies on a disk in the clear or, under its name with
  \<open>.enc\<close>, as an envelope under a password.
    \<^item> \<open>Disk\<close> is a file system with injected faults that records every state it goes through, so that a
      crash is any prefix of a run; \<open>Envelope\<close> (\<open>envelope.rs\<close>) the encryption; \<open>PasswordCache\<close> the interface
      of what asks for a password at most once; \<open>Vault\<close> (\<open>vault.rs\<close>) key files, their discovery, opening and
      sealing; \<open>AccountDir\<close> (\<open>account_dir.rs\<close>) reading accounts by name.
    \<^item> \<open>Mnemonic\<close> with \<open>Wordlist\<close> is \<open>mnemonic.rs\<close>; \<open>VaultAccount\<close> (\<open>account.rs\<close>) new accounts and the threads of
      the vanity search as a step relation; \<open>Backup\<close> and \<open>Sheet\<close> (\<open>vault.rs\<close>, \<open>pdf.rs\<close>) the paper backups, with the squares
      of the QR code in single precision.
    \<^item> \<open>VaultCli\<close> is the program \<open>bin/blockchain-account-vault.rs\<close> on such a disk and a console; \<open>VaultRuns\<close>
      what each of its commands promises, whatever fails on the way.

  The identity of a node, \<open>sw_identity_tls/src\<close>. \<open>Membership\<close> (\<open>membership.rs\<close>, \<open>decoder.rs\<close>) is who is admitted
  and in what role; \<open>Identity\<close> (\<open>lib.rs\<close>, \<open>certificate.rs\<close>, \<open>verify.rs\<close>, \<open>client.rs\<close>, \<open>server.rs\<close>) certificates that
  carry a signature of the account's key over the leaf key, and the two verifiers of a handshake, which
  accept only what proves an address that is admitted (\<open>proves_identity\<close>);
  \<open>Endpoint\<close> (\<open>endpoint.rs\<close>) the record a node publishes, and \<open>Resolver\<close> (\<open>resolver.rs\<close>) the nodes found by
  the account scan of the client.

  The sidechain client, \<open>sidewinder_ops/src\<close>. \<open>SwTypes\<close> (\<open>error.rs\<close>, \<open>config.rs\<close>, \<open>types.rs\<close>) are its errors and
  values; \<open>SwTxn\<close> (\<open>transaction.rs\<close>) the canonical transactions; \<open>SwClient\<close> (\<open>client.rs\<close>) one request, its
  retries and the operations on top; \<open>SwDiscovery\<close> (\<open>discovery.rs\<close>) finding a node and connecting to it with
  its identity pinned; \<open>HealthCli\<close> the program \<open>bin/sidewinder-health.rs\<close>. What each endpoint answers is
  pinned by \<open>answers_typed\<close>: the value or the exact error owed for every status and body served.

  Conventions. A string is the list of its UTF-8 bytes as characters. An integer keeps its width and
  wraps as in a release build. An operation maps a world, the client and an environment, to its result
  and the new world; \<open>None\<close> is an operation that never returns, as a client that blocks for a token or waits
  for a hung request without a timeout can, or a panic. An \<open>anyhow\<close> error is a typed client error or a text; the vault and the programs have
  texts only. Loops over pages and the token loop are \<open>partial_function\<close>s; the retry loops count their
  remaining attempts down and the confirmation loop recurses on the rounds left, so none needs fuel.

  Third-party code is a parameter: the base64 engine, the hash functions, ed25519, Argon2id and AES-GCM,
  the JSON and MessagePack codecs, the certificate libraries, the HTTP client and the transaction
  builders. What is relied on is a named predicate, such as \<open>b64_lawful\<close>, \<open>crypto_lawful\<close>,
  \<open>sealing_lawful\<close>, \<open>tls_lawful\<close> or \<open>node_sends\<close>, with concrete functions that satisfy it in the witnesses.

  Not modelled: logging and tracing; the traits of \<open>blockchain_ops/src/lib.rs\<close> and \<open>algo_ops/src/lib.rs\<close>, which
  only forward to the operations here; \<open>Debug\<close> output; the QR encoder and the writer
  of the PDF bytes, which are calls of libraries (what is drawn and where is modelled); file permissions; the parsing of the vault's command line, which \<open>clap\<close> derives.
\<close>

end
